(* ===== verification/Kite_Prelude.thy ===== *)
theory Kite_Prelude
  imports Main "HOL-Library.AList" "HOL-Library.Sublist" "HOL-Library.State_Monad"
begin

text \<open>
  Shared vocabulary of the development: Go strings (byte lists) and the parts of the package
  \<open>strings\<close> the sources use, Go's \<open>any\<close> values as they come out of JSON, nested access to them,
  Go errors, and a small calculus for effectful Go functions.

  A Go function that may fail is a term of type \<^typ>\<open>('s, 'e + 'a) state\<close>: it threads the state
  \<open>'s\<close> of the outside world and returns \<^const>\<open>Inl\<close> of an error or \<^const>\<open>Inr\<close> of a value.
  \<open>tryE m k\<close> is the idiom \<open>x, err := m; if err != nil { return err }\<close> followed by \<open>k x\<close>.
  \<open>wp m Q s\<close> says that running \<open>m\<close> from \<open>s\<close> ends in a result and a state related by \<open>Q\<close>; the
  collection \<open>wp_simps\<close> computes it through the combinators.
\<close>

named_theorems wp_simps \<open>weakest preconditions of the combinators\<close>
named_theorems wp_rules \<open>introduction rules for the calls a component makes\<close>

section \<open>Go strings\<close>

text \<open>The numeric value of a byte.\<close>

definition byteOf :: "char \<Rightarrow> nat" where
  "byteOf c = of_char c"

definition isLowerByte :: "char \<Rightarrow> bool" where
  "isLowerByte c \<longleftrightarrow> 97 \<le> byteOf c \<and> byteOf c \<le> 122"

definition isDigitByte :: "char \<Rightarrow> bool" where
  "isDigitByte c \<longleftrightarrow> 48 \<le> byteOf c \<and> byteOf c \<le> 57"

definition isUpperByte :: "char \<Rightarrow> bool" where
  "isUpperByte c \<longleftrightarrow> 65 \<le> byteOf c \<and> byteOf c \<le> 90"

text \<open>
  \<open>strings.TrimSpace\<close> strips the Unicode white space of \<open>unicode.IsSpace\<close>.  On byte strings these
  are the ASCII bytes below and the UTF-8 encodings of U+0085, U+00A0, U+1680, U+2000 to U+200A,
  U+2028, U+2029, U+202F, U+205F and U+3000.
\<close>

definition spaceRunes :: "string list" where
  "spaceRunes =
     [[CHR 0x09], [CHR 0x0A], [CHR 0x0B], [CHR 0x0C], [CHR 0x0D], [CHR 0x20],
      [CHR 0xC2, CHR 0x85], [CHR 0xC2, CHR 0xA0], [CHR 0xE1, CHR 0x9A, CHR 0x80],
      [CHR 0xE2, CHR 0x80, CHR 0x80], [CHR 0xE2, CHR 0x80, CHR 0x81],
      [CHR 0xE2, CHR 0x80, CHR 0x82], [CHR 0xE2, CHR 0x80, CHR 0x83],
      [CHR 0xE2, CHR 0x80, CHR 0x84], [CHR 0xE2, CHR 0x80, CHR 0x85],
      [CHR 0xE2, CHR 0x80, CHR 0x86], [CHR 0xE2, CHR 0x80, CHR 0x87],
      [CHR 0xE2, CHR 0x80, CHR 0x88], [CHR 0xE2, CHR 0x80, CHR 0x89],
      [CHR 0xE2, CHR 0x80, CHR 0x8A], [CHR 0xE2, CHR 0x80, CHR 0xA8],
      [CHR 0xE2, CHR 0x80, CHR 0xA9], [CHR 0xE2, CHR 0x80, CHR 0xAF],
      [CHR 0xE2, CHR 0x81, CHR 0x9F], [CHR 0xE3, CHR 0x80, CHR 0x80]]"

definition stripRune :: "string list \<Rightarrow> string \<Rightarrow> string option" where
  "stripRune rs s =
     map_option (\<lambda>r. drop (length r) s) (List.find (\<lambda>r. r \<noteq> [] \<and> prefix r s) rs)"

lemma stripRune_length:
  assumes "stripRune rs s = Some t"
  shows "length t < length s"
proof -
  obtain r where r: "List.find (\<lambda>r. r \<noteq> [] \<and> prefix r s) rs = Some r" and t: "t = drop (length r) s"
    using assms by (auto simp: stripRune_def)
  from r have "r \<noteq> []" "prefix r s"
    by (auto simp: find_Some_iff)
  then show ?thesis
    using t prefix_length_le[of r s] by (cases s) auto
qed

function trimRunes :: "string list \<Rightarrow> string \<Rightarrow> string" where
  "trimRunes rs s = (case stripRune rs s of None \<Rightarrow> s | Some t \<Rightarrow> trimRunes rs t)"
  by pat_completeness auto
termination
  by (relation "measure (length \<circ> snd)") (auto simp: stripRune_length)

declare trimRunes.simps [simp del]

definition TrimSpace :: "string \<Rightarrow> string" where
  "TrimSpace s = rev (trimRunes (map rev spaceRunes) (rev (trimRunes spaceRunes s)))"

definition HasPrefix :: "string \<Rightarrow> string \<Rightarrow> bool" where
  "HasPrefix s p \<longleftrightarrow> prefix p s"

definition HasSuffix :: "string \<Rightarrow> string \<Rightarrow> bool" where
  "HasSuffix s p \<longleftrightarrow> suffix p s"

definition TrimPrefix :: "string \<Rightarrow> string \<Rightarrow> string" where
  "TrimPrefix s p = (if prefix p s then drop (length p) s else s)"

lemma trimRunes_stripped: "stripRune rs (trimRunes rs s) = None"
proof (induction rs s rule: trimRunes.induct)
  case (1 rs s)
  then show ?case
    by (subst trimRunes.simps) (auto split: option.splits)
qed

lemma trimRunes_fixed: "stripRune rs s = None \<Longrightarrow> trimRunes rs s = s"
  by (subst trimRunes.simps) simp

lemma trimRunes_suffix: "\<exists>p. s = p @ trimRunes rs s"
proof (induction rs s rule: trimRunes.induct)
  case (1 rs s)
  show ?case
  proof (cases "stripRune rs s")
    case None
    then show ?thesis by (simp add: trimRunes_fixed)
  next
    case (Some t)
    from Some have "\<exists>n. t = drop n s"
      by (auto simp: stripRune_def)
    then obtain q where q: "s = q @ t"
      by (metis append_take_drop_id)
    from "1.IH"[OF Some] obtain p where "t = p @ trimRunes rs t" by blast
    with q Some show ?thesis
      by (subst trimRunes.simps) (metis append.assoc option.simps(5))
  qed
qed

lemma stripRune_None_iff:
  "stripRune rs s = None \<longleftrightarrow> (\<forall>r \<in> set rs. r = [] \<or> \<not> prefix r s)"
  by (auto simp: stripRune_def find_None_iff)

lemma stripRune_None_prefix:
  "stripRune rs (s @ t) = None \<Longrightarrow> stripRune rs s = None"
  by (auto simp: stripRune_None_iff)

lemma TrimSpace_idem [simp]: "TrimSpace (TrimSpace s) = TrimSpace s"
proof -
  let ?l = "trimRunes spaceRunes s"
  let ?r = "trimRunes (map rev spaceRunes) (rev ?l)"
  obtain p where "rev ?l = p @ ?r" using trimRunes_suffix by blast
  then have "?l = rev ?r @ rev p" by (metis rev_append rev_rev_ident)
  then have "stripRune spaceRunes (rev ?r) = None"
    using stripRune_None_prefix trimRunes_stripped by metis
  then have "trimRunes spaceRunes (rev ?r) = rev ?r"
    by (rule trimRunes_fixed)
  moreover have "trimRunes (map rev spaceRunes) ?r = ?r"
    by (rule trimRunes_fixed) (rule trimRunes_stripped)
  ultimately show ?thesis
    by (simp add: TrimSpace_def)
qed

text \<open>A byte that neither starts nor ends an encoded space.\<close>

definition solidByte :: "char \<Rightarrow> bool" where
  "solidByte c \<longleftrightarrow> 33 \<le> byteOf c \<and> byteOf c \<le> 126"

lemma solid_not_strip:
  assumes "solidByte c"
  shows "stripRune spaceRunes (c # s) = None" and "stripRune (map rev spaceRunes) (c # s) = None"
  using assms by (auto simp: stripRune_None_iff spaceRunes_def solidByte_def byteOf_def)

lemma TrimSpace_Nil [simp]: "TrimSpace [] = []"
  by (simp add: TrimSpace_def trimRunes_fixed stripRune_None_iff)

lemma TrimSpace_solid:
  assumes "s \<noteq> []" "solidByte (hd s)" "solidByte (last s)"
  shows "TrimSpace s = s"
proof -
  obtain c t where s: "s = c # t" using assms(1) by (cases s) auto
  have l: "trimRunes spaceRunes s = s"
    using assms(2) by (simp add: s trimRunes_fixed solid_not_strip(1))
  have "rev s = last s # rev (butlast s)"
    by (metis assms(1) append_butlast_last_id rev_eq_Cons_iff rev_rev_ident)
  then have "trimRunes (map rev spaceRunes) (rev s) = rev s"
    using solid_not_strip(2)[OF assms(3)] trimRunes_fixed by metis
  then show ?thesis
    by (simp add: TrimSpace_def l)
qed

lemma trimRunes_keeps_last:
  assumes "\<forall>r \<in> set rs. r \<noteq> [] \<longrightarrow> last r \<noteq> a"
  shows "trimRunes rs (t @ [a]) \<noteq> []"
proof (induction "length t" arbitrary: t rule: less_induct)
  case less
  show ?case
  proof (cases "stripRune rs (t @ [a])")
    case None
    then show ?thesis by (simp add: trimRunes_fixed)
  next
    case (Some u)
    then obtain r where f: "List.find (\<lambda>r. r \<noteq> [] \<and> prefix r (t @ [a])) rs = Some r" and u: "u = drop (length r) (t @ [a])"
      by (auto simp: stripRune_def simp del: drop_append)
    from f obtain i where "i < length rs" "rs ! i = r" "r \<noteq> []" "prefix r (t @ [a])" unfolding find_Some_iff by blast
    then have r: "r \<in> set rs" "r \<noteq> []" "prefix r (t @ [a])" using nth_mem by auto
    with assms have "prefix r t" by auto
    then obtain t' where t': "t = r @ t'" by (rule prefixE)
    with r u have "u = t' @ [a]" "length t' < length t" by simp_all
    with less Some show ?thesis by (subst trimRunes.simps) simp
  qed
qed

lemma TrimSpace_not_blank: "solidByte a \<Longrightarrow> TrimSpace (a # t) \<noteq> []"
proof -
  assume a: "solidByte a"
  then have "\<forall>r \<in> set (map rev spaceRunes). r \<noteq> [] \<longrightarrow> last r \<noteq> a"
    by (auto simp: spaceRunes_def solidByte_def byteOf_def)
  from trimRunes_keeps_last[OF this, of "rev t"] a show ?thesis
    by (simp add: TrimSpace_def trimRunes_fixed solid_not_strip)
qed

lemma TrimSpace_length: "length (TrimSpace s) \<le> length s"
proof -
  have "length (trimRunes rs t) \<le> length t" for rs t
    using trimRunes_suffix[of t rs] by (metis length_append le_add2)
  then show ?thesis
    unfolding TrimSpace_def by (metis length_rev order_trans)
qed

section \<open>Go errors\<close>

text \<open>
  The errors the sources make or look into.  \<open>ApiErr\<close> is a status error of the Kubernetes API
  (with \<open>StatusReasonOther\<close> for all the reasons not listed, time-outs and internal errors among them),
  \<open>ReqErr\<close> the \<open>RequestError\<close> struct of one of the service packages, \<open>Wrapped\<close> a
  \<open>fmt.Errorf\<close> with one \<open>%w\<close> verb between two texts, \<open>Plain\<close> any other error.
\<close>

datatype api_reason =
    StatusReasonNotFound
  | StatusReasonAlreadyExists
  | StatusReasonConflict
  | StatusReasonForbidden
  | StatusReasonInvalid
  | StatusReasonOther

datatype gopkg = PkgVM | PkgAccount | PkgOffer | PkgPlatform

datatype goerr =
    ApiErr api_reason string
  | ReqErr gopkg string string
  | Wrapped string goerr string
  | Plain string

type_synonym 'a result = "goerr + 'a"

primrec errText :: "goerr \<Rightarrow> string" where
  "errText (ApiErr _ msg) = msg"
| "errText (ReqErr _ _ msg) = msg"
| "errText (Wrapped pre e post) = pre @ errText e @ post"
| "errText (Plain msg) = msg"

text \<open>\<open>apierrors.ReasonForError\<close> looks through wrapped errors (\<open>errors.As\<close>).\<close>

fun errReason :: "goerr \<Rightarrow> api_reason option" where
  "errReason (ApiErr r _) = Some r"
| "errReason (Wrapped _ e _) = errReason e"
| "errReason _ = None"

definition apiIsNotFound :: "goerr \<Rightarrow> bool" where
  "apiIsNotFound e \<longleftrightarrow> errReason e = Some StatusReasonNotFound"

definition apiIsAlreadyExists :: "goerr \<Rightarrow> bool" where
  "apiIsAlreadyExists e \<longleftrightarrow> errReason e = Some StatusReasonAlreadyExists"

definition apiIsConflict :: "goerr \<Rightarrow> bool" where
  "apiIsConflict e \<longleftrightarrow> errReason e = Some StatusReasonConflict"

lemmas api_error_defs = apiIsNotFound_def apiIsAlreadyExists_def apiIsConflict_def

section \<open>Go values\<close>

text \<open>
  A value of Go type \<open>any\<close> as the JSON decoder of the Kubernetes client builds it, or as the
  sources write it.  Of a float the sources only ever read the integral part.  A Go map is an
  association list; \<open>AList.update\<close> and \<open>AList.delete\<close> keep its keys distinct.
\<close>

datatype gov =
    GNil
  | GStr string
  | GBool bool
  | GInt int
  | GFloat int
  | GMap "(string \<times> gov) list"
  | GList "gov list"

type_synonym gomap = "(string \<times> gov) list"

text \<open>Type assertions with the comma-ok form: the zero value when the assertion fails.\<close>

fun asMap :: "gov option \<Rightarrow> gomap option" where
  "asMap (Some (GMap m)) = Some m"
| "asMap _ = None"

definition mapValue :: "gomap \<Rightarrow> string \<Rightarrow> gomap" where
  "mapValue m key = (case asMap (map_of m key) of Some sub \<Rightarrow> sub | None \<Rightarrow> [])"

definition stringValue :: "gomap \<Rightarrow> string \<Rightarrow> string" where
  "stringValue m key = (case map_of m key of Some (GStr s) \<Rightarrow> s | _ \<Rightarrow> [])"

definition intValue :: "gomap \<Rightarrow> string \<Rightarrow> int" where
  "intValue m key = (case map_of m key of Some (GInt i) \<Rightarrow> i | Some (GFloat i) \<Rightarrow> i | _ \<Rightarrow> 0)"

definition boolValue :: "gomap \<Rightarrow> string \<Rightarrow> bool" where
  "boolValue m key = (case map_of m key of Some (GBool b) \<Rightarrow> b | _ \<Rightarrow> False)"

lemmas value_defs = mapValue_def stringValue_def intValue_def boolValue_def

text \<open>
  \<open>unstructured.NestedFieldNoCopy\<close> and the accessors built on it: an error when a field on the
  way is neither absent, nil nor a map, \<open>None\<close> when the field is not found.
\<close>

fun NestedField :: "gov \<Rightarrow> string list \<Rightarrow> gov option result" where
  "NestedField v [] = Inr (Some v)"
| "NestedField GNil (f # fs) = Inr None"
| "NestedField (GMap m) (f # fs) =
     (case map_of m f of None \<Rightarrow> Inr None | Some v \<Rightarrow> NestedField v fs)"
| "NestedField _ (f # fs) = Inl (Plain ''accessor error'')"

definition NestedString :: "gomap \<Rightarrow> string list \<Rightarrow> string option result" where
  "NestedString m fs =
     (case NestedField (GMap m) fs of
        Inl e \<Rightarrow> Inl e
      | Inr None \<Rightarrow> Inr None
      | Inr (Some (GStr s)) \<Rightarrow> Inr (Some s)
      | Inr (Some _) \<Rightarrow> Inl (Plain ''accessor error''))"

definition NestedInt64 :: "gomap \<Rightarrow> string list \<Rightarrow> int option result" where
  "NestedInt64 m fs =
     (case NestedField (GMap m) fs of
        Inl e \<Rightarrow> Inl e
      | Inr None \<Rightarrow> Inr None
      | Inr (Some (GInt i)) \<Rightarrow> Inr (Some i)
      | Inr (Some _) \<Rightarrow> Inl (Plain ''accessor error''))"

definition NestedBool :: "gomap \<Rightarrow> string list \<Rightarrow> bool option result" where
  "NestedBool m fs =
     (case NestedField (GMap m) fs of
        Inl e \<Rightarrow> Inl e
      | Inr None \<Rightarrow> Inr None
      | Inr (Some (GBool b)) \<Rightarrow> Inr (Some b)
      | Inr (Some _) \<Rightarrow> Inl (Plain ''accessor error''))"

definition NestedSlice :: "gomap \<Rightarrow> string list \<Rightarrow> gov list option result" where
  "NestedSlice m fs =
     (case NestedField (GMap m) fs of
        Inl e \<Rightarrow> Inl e
      | Inr None \<Rightarrow> Inr None
      | Inr (Some (GList xs)) \<Rightarrow> Inr (Some xs)
      | Inr (Some _) \<Rightarrow> Inl (Plain ''accessor error''))"

definition NestedMap :: "gomap \<Rightarrow> string list \<Rightarrow> gomap option result" where
  "NestedMap m fs =
     (case NestedField (GMap m) fs of
        Inl e \<Rightarrow> Inl e
      | Inr None \<Rightarrow> Inr None
      | Inr (Some (GMap x)) \<Rightarrow> Inr (Some x)
      | Inr (Some _) \<Rightarrow> Inl (Plain ''accessor error''))"

fun asStringMap :: "gomap \<Rightarrow> (string \<times> string) list option" where
  "asStringMap [] = Some []"
| "asStringMap ((key, GStr s) # m) = map_option (Cons (key, s)) (asStringMap m)"
| "asStringMap ((key, _) # m) = None"

definition NestedStringMap :: "gomap \<Rightarrow> string list \<Rightarrow> (string \<times> string) list option result" where
  "NestedStringMap m fs =
     (case NestedMap m fs of
        Inl e \<Rightarrow> Inl e
      | Inr None \<Rightarrow> Inr None
      | Inr (Some x) \<Rightarrow>
          (case asStringMap x of
             None \<Rightarrow> Inl (Plain ''accessor error'')
           | Some y \<Rightarrow> Inr (Some y)))"

text \<open>\<open>v, _, _ := NestedString(...)\<close> and its likes: the zero value on error or absence.\<close>

definition nestedOr :: "'a \<Rightarrow> 'a option result \<Rightarrow> 'a" where
  "nestedOr z r = (case r of Inr (Some x) \<Rightarrow> x | _ \<Rightarrow> z)"

text \<open>\<open>unstructured.SetNestedField\<close> and \<open>unstructured.RemoveNestedField\<close>.\<close>

fun SetNestedField :: "gomap \<Rightarrow> gov \<Rightarrow> string list \<Rightarrow> gomap result" where
  "SetNestedField m v [] = Inr m"
| "SetNestedField m v [f] = Inr (AList.update f v m)"
| "SetNestedField m v (f # fs) =
     (case map_of m f of
        None \<Rightarrow>
          (case SetNestedField [] v fs of
             Inl e \<Rightarrow> Inl e
           | Inr sub \<Rightarrow> Inr (AList.update f (GMap sub) m))
      | Some (GMap sub0) \<Rightarrow>
          (case SetNestedField sub0 v fs of
             Inl e \<Rightarrow> Inl e
           | Inr sub \<Rightarrow> Inr (AList.update f (GMap sub) m))
      | Some _ \<Rightarrow> Inl (Plain ''value cannot be set because it is not a map[string]interface{}''))"

fun RemoveNestedField :: "gomap \<Rightarrow> string list \<Rightarrow> gomap" where
  "RemoveNestedField m [] = m"
| "RemoveNestedField m [f] = AList.delete f m"
| "RemoveNestedField m (f # fs) =
     (case map_of m f of
        Some (GMap sub) \<Rightarrow> AList.update f (GMap (RemoveNestedField sub fs)) m
      | _ \<Rightarrow> m)"

lemma map_of_update [simp]:
  "map_of (AList.update k v m) k' = (if k' = k then Some v else map_of m k')"
  by (simp add: update_conv')

lemma SetNestedField_frame:
  assumes "SetNestedField m v (f # fs) = Inr m'" "g \<noteq> f"
  shows "map_of m' g = map_of m g"
  using assms by (cases fs) (auto split: option.splits gov.splits sum.splits)

lemma SetNestedField_get:
  assumes "SetNestedField m v fs = Inr m'" "fs \<noteq> []"
  shows "NestedField (GMap m') fs = Inr (Some v)"
  using assms
proof (induction m v fs arbitrary: m' rule: SetNestedField.induct)
  case (3 m v f f' fs)
  then show ?case
    by (auto split: option.splits gov.splits sum.splits)
qed auto

section \<open>Effectful functions\<close>

definition ok :: "'a \<Rightarrow> ('s, 'a result) state" where
  "ok x = State_Monad.return (Inr x)"

definition fail :: "goerr \<Rightarrow> ('s, 'a result) state" where
  "fail e = State_Monad.return (Inl e)"

definition tryE :: "('s, 'a result) state \<Rightarrow> ('a \<Rightarrow> ('s, 'b result) state) \<Rightarrow> ('s, 'b result) state" where
  "tryE m k = do { r \<leftarrow> m; case r of Inl e \<Rightarrow> fail e | Inr x \<Rightarrow> k x }"

text \<open>A \<open>for\<close> loop over a slice whose body returns early on an error.\<close>

primrec forE :: "'x list \<Rightarrow> ('x \<Rightarrow> ('s, unit result) state) \<Rightarrow> ('s, unit result) state" where
  "forE [] body = ok ()"
| "forE (x # xs) body = tryE (body x) (\<lambda>_. forE xs body)"

definition wp :: "('s, 'a) state \<Rightarrow> ('a \<Rightarrow> 's \<Rightarrow> bool) \<Rightarrow> 's \<Rightarrow> bool" where
  "wp m Q s = (case run_state m s of (r, s') \<Rightarrow> Q r s')"

lemma wp_return [wp_simps]: "wp (State_Monad.return x) Q s = Q x s"
  by (simp add: wp_def)

lemma wp_ok [wp_simps]: "wp (ok x) Q s = Q (Inr x) s"
  by (simp add: ok_def wp_return)

lemma wp_fail [wp_simps]: "wp (fail e) Q s = Q (Inl e) s"
  by (simp add: fail_def wp_return)

lemma wp_bind [wp_simps]: "wp (State_Monad.bind m k) Q s = wp m (\<lambda>x. wp (k x) Q) s"
  by (simp add: wp_def split: prod.splits)

lemma wp_tryE [wp_simps]:
  "wp (tryE m k) Q s =
     wp m (\<lambda>r s'. case r of Inl e \<Rightarrow> Q (Inl e) s' | Inr x \<Rightarrow> wp (k x) Q s') s"
  by (auto simp: tryE_def wp_def fail_def split: prod.splits sum.splits)

lemma wp_mono:
  assumes "wp m P s" "\<And>r s'. P r s' \<Longrightarrow> Q r s'"
  shows "wp m Q s"
  using assms by (auto simp: wp_def)

lemma wpD: "wp m Q s \<Longrightarrow> run_state m s = (r, s') \<Longrightarrow> Q r s'"
  by (simp add: wp_def)

lemma wpI: "(\<And>r s'. run_state m s = (r, s') \<Longrightarrow> Q r s') \<Longrightarrow> wp m Q s"
  by (auto simp: wp_def)

lemma wp_snd: "wp m (\<lambda>r s'. P s') s \<longleftrightarrow> P (snd (run_state m s))"
  by (simp add: wp_def split: prod.splits)

lemma run_Inr: "\<not> isl (fst (run_state m s)) \<Longrightarrow> \<exists>x s'. run_state m s = (Inr x, s')"
  by (metis prod.collapse sum.collapse(2))

text \<open>A loop keeps what its body keeps.\<close>

lemma wp_forE:
  assumes "I s"
    and body: "\<And>x s. x \<in> set xs \<Longrightarrow> I s \<Longrightarrow> wp (body x) (\<lambda>r s'. I s') s"
  shows "wp (forE xs body) (\<lambda>r s'. I s') s"
  using assms
proof (induction xs arbitrary: s)
  case Nil
  then show ?case by (simp add: wp_simps)
next
  case (Cons x xs)
  have "wp (body x) (\<lambda>r s'. I s') s"
    using Cons.prems by simp
  then show ?case
    unfolding forE.simps wp_tryE
    by (rule wp_mono) (auto intro!: Cons.IH intro: Cons.prems(2) split: sum.splits)
qed

text \<open>A loop that ends without an error has processed every element.\<close>

lemma wp_forE_all:
  assumes "I [] s"
    and body: "\<And>ys x zs s. xs = ys @ x # zs \<Longrightarrow> I ys s \<Longrightarrow>
       wp (body x) (\<lambda>r s'. case r of Inl e \<Rightarrow> X e s' | Inr _ \<Rightarrow> I (ys @ [x]) s') s"
  shows "wp (forE xs body) (\<lambda>r s'. case r of Inl e \<Rightarrow> X e s' | Inr _ \<Rightarrow> I xs s') s"
proof -
  have "wp (forE zs body) (\<lambda>r s'. case r of Inl e \<Rightarrow> X e s' | Inr _ \<Rightarrow> I xs s') s"
    if "xs = ys @ zs" "I ys s" for ys zs s
    using that
  proof (induction zs arbitrary: ys s)
    case Nil
    then show ?case by (simp add: wp_simps)
  next
    case (Cons x zs)
    note step = body[OF Cons.prems]
    show ?case
      unfolding forE.simps wp_tryE
    proof (rule wp_mono[OF step])
      fix r s' assume r: "case r of Inl e \<Rightarrow> X e s' | Inr _ \<Rightarrow> I (ys @ [x]) s'"
      have "xs = (ys @ [x]) @ zs" using Cons.prems(1) by simp
      note rest = Cons.IH[OF this]
      show "case r of Inl e \<Rightarrow> case Inl e of Inl e \<Rightarrow> X e s' | Inr _ \<Rightarrow> I xs s'
          | Inr _ \<Rightarrow> wp (forE zs body) (\<lambda>r s'. case r of Inl e \<Rightarrow> X e s' | Inr _ \<Rightarrow> I xs s') s'"
        using r rest by (cases r) simp_all
    qed
  qed
  from this[of "[]" xs s] assms(1) show ?thesis by simp
qed

text \<open>
  Reading calls leave everything a view of the world shows untouched: \<open>keeps v m\<close>.
\<close>

definition keeps :: "('s \<Rightarrow> 'v) \<Rightarrow> ('s, 'a) state \<Rightarrow> bool" where
  "keeps v m \<longleftrightarrow> (\<forall>s. v (snd (run_state m s)) = v s)"

lemma keeps_return [intro]: "keeps v (State_Monad.return x)"
  by (simp add: keeps_def)

lemma keeps_ok [intro]: "keeps v (ok x)" and keeps_fail [intro]: "keeps v (fail e)"
  by (simp_all add: keeps_def ok_def fail_def)

lemma keeps_bind [intro]:
  "keeps v m \<Longrightarrow> (\<And>x. keeps v (k x)) \<Longrightarrow> keeps v (State_Monad.bind m k)"
  by (simp add: keeps_def split: prod.splits) (metis snd_conv)

lemma keeps_tryE [intro]:
  "keeps v m \<Longrightarrow> (\<And>x. keeps v (k x)) \<Longrightarrow> keeps v (tryE m k)"
  unfolding tryE_def by (rule keeps_bind) (auto split: sum.splits)

lemma keeps_case_sum [intro]:
  "(\<And>e. keeps v (f e)) \<Longrightarrow> (\<And>x. keeps v (g x)) \<Longrightarrow> keeps v (case r of Inl e \<Rightarrow> f e | Inr x \<Rightarrow> g x)"
  by (cases r) auto

lemma keeps_case_option [intro]:
  "keeps v a \<Longrightarrow> (\<And>x. keeps v (g x)) \<Longrightarrow> keeps v (case r of None \<Rightarrow> a | Some x \<Rightarrow> g x)"
  by (cases r) auto

lemma keeps_if [intro]: "keeps v a \<Longrightarrow> keeps v b \<Longrightarrow> keeps v (if c then a else b)"
  by simp

lemma keeps_forE [intro]: "(\<And>x. keeps v (body x)) \<Longrightarrow> keeps v (forE xs body)"
  by (induction xs) auto

lemmas keeps_intros =
  keeps_ok keeps_fail keeps_return keeps_bind keeps_tryE keeps_case_sum keeps_case_option keeps_if

lemma keepsD: "keeps v m \<Longrightarrow> run_state m s = (r, s') \<Longrightarrow> v s' = v s"
  unfolding keeps_def by (metis snd_conv)

lemma keeps_wp:
  "keeps v m \<Longrightarrow> (\<And>r s'. v s' = v s \<Longrightarrow> run_state m s = (r, s') \<Longrightarrow> Q r s') \<Longrightarrow> wp m Q s"
  by (rule wpI) (auto dest: keepsD)

text \<open>
  \<open>frames v K m\<close>: running \<open>m\<close> changes a keyed view of the world at most at the keys in \<open>K\<close>.
\<close>

definition frames :: "('s \<Rightarrow> 'k \<Rightarrow> 'v) \<Rightarrow> 'k set \<Rightarrow> ('s, 'a) state \<Rightarrow> bool" where
  "frames v K m \<longleftrightarrow> (\<forall>s k. k \<notin> K \<longrightarrow> v (snd (run_state m s)) k = v s k)"

lemma keeps_frames: "keeps v m \<Longrightarrow> frames v K m"
  by (simp add: keeps_def frames_def)

lemma frames_subset: "frames v K m \<Longrightarrow> K \<subseteq> L \<Longrightarrow> frames v L m"
  unfolding frames_def by blast

lemma frames_ok [intro]: "frames v K (ok x)" and frames_fail [intro]: "frames v K (fail e)"
  and frames_return [intro]: "frames v K (State_Monad.return y)"
  by (auto intro: keeps_frames)

lemma frames_bind [intro]:
  "frames v K m \<Longrightarrow> (\<And>x. frames v K (k x)) \<Longrightarrow> frames v K (State_Monad.bind m k)"
  by (simp add: frames_def split: prod.splits) (metis snd_conv)

lemma frames_tryE [intro]:
  "frames v K m \<Longrightarrow> (\<And>x. frames v K (k x)) \<Longrightarrow> frames v K (tryE m k)"
  unfolding tryE_def by (rule frames_bind) (auto split: sum.splits)

lemma frames_case_sum [intro]:
  "(\<And>e. r = Inl e \<Longrightarrow> frames v K (f e)) \<Longrightarrow> (\<And>x. r = Inr x \<Longrightarrow> frames v K (g x)) \<Longrightarrow>
   frames v K (case r of Inl e \<Rightarrow> f e | Inr x \<Rightarrow> g x)"
  by (cases r) auto

lemma frames_case_option [intro]:
  "frames v K a \<Longrightarrow> (\<And>x. frames v K (g x)) \<Longrightarrow> frames v K (case r of None \<Rightarrow> a | Some x \<Rightarrow> g x)"
  by (cases r) auto

lemma frames_if [intro]: "frames v K a \<Longrightarrow> frames v K b \<Longrightarrow> frames v K (if c then a else b)"
  by simp

lemma frames_forE: "(\<And>x. x \<in> set xs \<Longrightarrow> frames v K (body x)) \<Longrightarrow> frames v K (forE xs body)"
  by (induction xs) auto

lemmas frames_intros =
  frames_ok frames_fail frames_return frames_bind frames_tryE frames_case_sum frames_case_option frames_if

lemma frames_wp: "frames v K m \<longleftrightarrow> (\<forall>s. wp m (\<lambda>r s'. \<forall>k. k \<notin> K \<longrightarrow> v s' k = v s k) s)"
  unfolding frames_def wp_snd by auto

lemma framesD: "frames v K m \<Longrightarrow> run_state m s = (r, s') \<Longrightarrow> k \<notin> K \<Longrightarrow> v s' k = v s k"
  unfolding frames_def by (metis snd_conv)

text \<open>A result that does not depend on the world, and one whose values are known.\<close>

lemma frames_try_known:
  assumes "frames v K m" "\<And>s s' x. run_state m s = (Inr x, s') \<Longrightarrow> frames v K (k x)"
  shows "frames v K (tryE m k)"
  unfolding frames_def
proof (intro allI impI)
  fix s key assume key: "key \<notin> K"
  obtain r s' where run: "run_state m s = (r, s')" by fastforce
  have same: "v s' key = v s key" using framesD[OF assms(1) run key] .
  show "v (snd (run_state (tryE m k) s)) key = v s key"
  proof (cases r)
    case (Inl e)
    with run same show ?thesis by (simp add: tryE_def fail_def)
  next
    case (Inr x)
    obtain r2 s2 where run2: "run_state (k x) s' = (r2, s2)" by fastforce
    with Inr run have "run_state (tryE m k) s = (r2, s2)" by (simp add: tryE_def)
    with framesD[OF assms(2) run2 key] run Inr same show ?thesis by simp
  qed
qed

end
