(* ===== verification/Kube.thy ===== *)
theory Kube
  imports Kite_Prelude
begin

text \<open>
  The world outside the repository: the Kubernetes API the services and controllers talk to
  through the dynamic client, and the third-party functions they call.  None of this code is in
  the repository, so it is a parameter: a record \<open>'s env\<close> of operations over an arbitrary world
  state \<open>'s\<close>.  The locale \<open>kube_api\<close> states the documented behaviour of the API server that the
  code relies on, faults included: any call may fail, and a write that fails for a reason other
  than a definite status may or may not have taken effect.

  The last section is an executable reference server with a fault script.  It satisfies the
  contract, and it is the world in which concrete runs of the model are evaluated.
\<close>

section \<open>Objects and resources\<close>

datatype gvr =
    kiteUserGVR
  | kiteVirtualMachineGVR
  | kiteVirtualMachineOfferGVR
  | kubeVirtVirtualMachineGVR
  | dataVolumeGVR
  | secretGVR
  | serviceGVR
  | ingressGVR
  | configMapGVR
  | namespaceGVR
  | resourceQuotaGVR
  | networkPolicyGVR
  | traefikMiddlewareGVR

text \<open>
  \<open>unstructured.Unstructured\<close>: the metadata fields that the sources reach through accessors, and
  every other top-level field (\<open>spec\<close>, \<open>status\<close>, \<open>data\<close>, \<open>type\<close>, ...) in \<open>k_body\<close>.  Where a template
  sets annotations, its \<open>metadata\<close> entry in \<open>k_body\<close> holds them.  The \<open>apiVersion\<close> is left out: the \<open>gvr\<close> of a call says it.
\<close>

record kobj =
  k_kind :: string
  k_name :: string
  k_namespace :: string
  k_labels :: "(string \<times> string) list"
  k_finalizers :: "string list"
  k_deletionTimestamp :: "string option"
  k_generation :: int
  k_resourceVersion :: string
  k_uid :: string
  k_body :: gomap

definition newObject :: "string \<Rightarrow> string \<Rightarrow> string \<Rightarrow> (string \<times> string) list \<Rightarrow> gomap \<Rightarrow> kobj" where
  "newObject kind ns name labels body =
     \<lparr>k_kind = kind, k_name = name, k_namespace = ns, k_labels = labels, k_finalizers = [],
      k_deletionTimestamp = None, k_generation = 0, k_resourceVersion = [], k_uid = [],
      k_body = body\<rparr>"

definition objField :: "kobj \<Rightarrow> string \<Rightarrow> gov option" where
  "objField obj f = map_of (k_body obj) f"

definition setField :: "string \<Rightarrow> gov \<Rightarrow> kobj \<Rightarrow> kobj" where
  "setField f v obj = obj\<lparr>k_body := AList.update f v (k_body obj)\<rparr>"

lemma objField_setField [simp]:
  "objField (setField f v obj) g = (if g = f then Some v else objField obj g)"
  by (simp add: objField_def setField_def)

lemma setField_meta [simp]:
  "k_kind (setField f v obj) = k_kind obj"
  "k_name (setField f v obj) = k_name obj"
  "k_namespace (setField f v obj) = k_namespace obj"
  "k_labels (setField f v obj) = k_labels obj"
  "k_finalizers (setField f v obj) = k_finalizers obj"
  "k_deletionTimestamp (setField f v obj) = k_deletionTimestamp obj"
  "k_generation (setField f v obj) = k_generation obj"
  "k_resourceVersion (setField f v obj) = k_resourceVersion obj"
  "k_uid (setField f v obj) = k_uid obj"
  by (simp_all add: setField_def)

lemma newObject_sel [simp]:
  "k_kind (newObject kind ns name labels body) = kind"
  "k_name (newObject kind ns name labels body) = name"
  "k_namespace (newObject kind ns name labels body) = ns"
  "k_labels (newObject kind ns name labels body) = labels"
  "k_finalizers (newObject kind ns name labels body) = []"
  "k_deletionTimestamp (newObject kind ns name labels body) = None"
  "k_resourceVersion (newObject kind ns name labels body) = []"
  "objField (newObject kind ns name labels body) f = map_of body f"
  by (simp_all add: newObject_def objField_def)

text \<open>\<open>spec, _ := obj.Object["spec"].(map[string]any)\<close>, and the same for \<open>status\<close>.\<close>

definition specOf :: "kobj \<Rightarrow> gomap" where
  "specOf obj = mapValue (k_body obj) ''spec''"

definition statusOf :: "kobj \<Rightarrow> gomap" where
  "statusOf obj = mapValue (k_body obj) ''status''"

lemma specOf_cong: "objField a ''spec'' = objField b ''spec'' \<Longrightarrow> specOf a = specOf b"
  by (simp add: specOf_def mapValue_def objField_def)

lemma specOf_setField [simp]:
  "specOf (setField ''spec'' (GMap m) obj) = m"
  "f \<noteq> ''spec'' \<Longrightarrow> specOf (setField f v obj) = specOf obj"
  by (simp_all add: specOf_def mapValue_def setField_def)

lemma specOf_newObject [simp]:
  "specOf (newObject kind ns name labels body) = mapValue body ''spec''"
  by (simp add: specOf_def newObject_def)

section \<open>The environment\<close>

type_synonym kkey = "gvr \<times> string \<times> string"
type_synonym kview = "kkey \<Rightarrow> kobj option"

text \<open>
  Operations take the namespace as the dynamic client does, with the empty string for
  cluster-scoped resources (and for a list over all namespaces).  \<open>env_retry\<close> is
  \<open>retry.RetryOnConflict\<close>; the object its closure assigns is the closure's result.  Instants are
  nanoseconds since the Unix epoch, quantities are in units of \<open>10\<^sup>-\<^sup>9\<close>.
\<close>

record 's env =
  env_get :: "gvr \<Rightarrow> string \<Rightarrow> string \<Rightarrow> ('s, kobj result) state"
  env_list :: "gvr \<Rightarrow> string \<Rightarrow> ('s, kobj list result) state"
  env_create :: "gvr \<Rightarrow> string \<Rightarrow> kobj \<Rightarrow> ('s, kobj result) state"
  env_update :: "gvr \<Rightarrow> string \<Rightarrow> kobj \<Rightarrow> ('s, kobj result) state"
  env_updateStatus :: "gvr \<Rightarrow> string \<Rightarrow> kobj \<Rightarrow> ('s, kobj result) state"
  env_apply :: "gvr \<Rightarrow> string \<Rightarrow> kobj \<Rightarrow> ('s, kobj result) state"
  env_delete :: "gvr \<Rightarrow> string \<Rightarrow> string \<Rightarrow> ('s, unit result) state"
  env_retry :: "('s, kobj option result) state \<Rightarrow> ('s, kobj option result) state"
  env_uuid :: "('s, string) state"
  env_now :: "('s, int) state"
  env_randInt :: "nat \<Rightarrow> ('s, nat result) state"
  env_bcryptGenerate :: "string \<Rightarrow> nat \<Rightarrow> ('s, string result) state"
  env_bcryptCompare :: "string \<Rightarrow> string \<Rightarrow> goerr option"
  env_crypt :: "string \<Rightarrow> string \<Rightarrow> string result"
  env_randBytes :: "nat \<Rightarrow> ('s, string result) state"
  env_rsaGenerate :: "nat \<Rightarrow> ('s, string result) state"
  env_pemPrivateKey :: "string \<Rightarrow> string option"
  env_sshAuthorizedKey :: "string \<Rightarrow> string result"
  env_unicodeLower :: "string \<Rightarrow> string"
  env_quantity :: "string \<Rightarrow> int result"

text \<open>
  \<open>strings.ToLower\<close>: ASCII letters by arithmetic; a string with other characters goes through the
  Unicode tables, which are a parameter.
\<close>

definition ToLower :: "'s env \<Rightarrow> string \<Rightarrow> string" where
  "ToLower E s =
     (if list_all (\<lambda>c. byteOf c < 128) s
      then map (\<lambda>c. if isUpperByte c then char_of (byteOf c + 32) else c) s
      else env_unicodeLower E s)"

primrec retry_n :: "nat \<Rightarrow> ('s, 'a result) state \<Rightarrow> ('s, 'a result) state" where
  "retry_n 0 m = m"
| "retry_n (Suc n) m = do {
     r \<leftarrow> m;
     case r of
       Inl e \<Rightarrow> if apiIsConflict e then retry_n n m else State_Monad.return r
     | Inr x \<Rightarrow> State_Monad.return r
   }"

lemma retry_n_keeps: "keeps v m \<Longrightarrow> keeps v (retry_n n m)"
  by (induction n) (auto intro!: keeps_bind split: sum.splits)

text \<open>A property that every attempt establishes from an invariant that failed attempts keep.\<close>

lemma wp_retry_n:
  assumes "I s"
    and "\<And>s. I s \<Longrightarrow> wp m (\<lambda>r s'. Q r s' \<and> (isl r \<longrightarrow> I s')) s"
  shows "wp (retry_n n m) Q s"
  using assms(1)
proof (induction n arbitrary: s)
  case 0
  show ?case unfolding retry_n.simps
    by (rule wp_mono[OF assms(2)[OF 0]]) simp
next
  case (Suc n)
  show ?case unfolding retry_n.simps wp_bind
    by (rule wp_mono[OF assms(2)[OF Suc.prems]]) (auto simp: wp_simps Suc.IH split: sum.splits)
qed

text \<open>Only a conflict leads to another attempt.\<close>

lemma wp_retry_n_conflict:
  assumes "I s"
    and "\<And>s. I s \<Longrightarrow> wp m (\<lambda>r s'. Q r s' \<and> (\<forall>e. r = Inl e \<and> apiIsConflict e \<longrightarrow> I s')) s"
  shows "wp (retry_n n m) Q s"
  using assms(1)
proof (induction n arbitrary: s)
  case 0
  show ?case unfolding retry_n.simps
    by (rule wp_mono[OF assms(2)[OF 0]]) simp
next
  case (Suc n)
  show ?case unfolding retry_n.simps wp_bind
    by (rule wp_mono[OF assms(2)[OF Suc.prems]]) (auto simp: wp_simps Suc.IH split: sum.splits)
qed

section \<open>The contract of the API server\<close>

text \<open>
  Resources whose \<open>spec\<close> and \<open>data\<close> the server stores as they are written: the Kite CRDs (no
  defaulting in their schemas), Secrets and ConfigMaps.
\<close>

definition exactGVR :: "gvr \<Rightarrow> bool" where
  "exactGVR g \<longleftrightarrow> g \<in> {kiteUserGVR, kiteVirtualMachineGVR, kiteVirtualMachineOfferGVR,
                        secretGVR, configMapGVR}"

text \<open>Resources with a status subresource: \<open>create\<close> and \<open>update\<close> ignore \<open>status\<close>.\<close>

definition statusGVR :: "gvr \<Rightarrow> bool" where
  "statusGVR g \<longleftrightarrow> g \<in> {kiteUserGVR, kiteVirtualMachineGVR, kiteVirtualMachineOfferGVR}"

text \<open>Keys an object can have: names are not empty, cluster-scoped resources have no namespace.\<close>

definition validKey :: "gvr \<Rightarrow> string \<Rightarrow> string \<Rightarrow> bool" where
  "validKey g ns n \<longleftrightarrow> n \<noteq> [] \<and> (g = kiteUserGVR \<or> g = namespaceGVR \<longrightarrow> ns = [])"

definition sameBody :: "gvr \<Rightarrow> kobj \<Rightarrow> kobj \<Rightarrow> bool" where
  "sameBody g obj stored \<longleftrightarrow>
     (exactGVR g \<longrightarrow>
        (\<forall>f. f \<noteq> ''status'' \<and> f \<noteq> ''stringData'' \<and> (g = secretGVR \<and> f = ''data'' \<longrightarrow> objField obj ''stringData'' = None) \<longrightarrow>
             objField stored f = objField obj f))"

definition sameMeta :: "kobj \<Rightarrow> kobj \<Rightarrow> bool" where
  "sameMeta obj stored \<longleftrightarrow>
     k_name stored = k_name obj \<and> k_labels stored = k_labels obj \<and>
     k_finalizers stored = k_finalizers obj"

text \<open>
  Errors after which a client cannot know whether its write was done: one without a status, such as a
  broken connection, or a status that is not a refusal.  A \<open>RequestError\<close> is never an error of the client.
\<close>

primrec indefinite :: "goerr \<Rightarrow> bool" where
  "indefinite (ApiErr reason _) \<longleftrightarrow> reason = StatusReasonOther"
| "indefinite (ReqErr _ _ _) \<longleftrightarrow> False"
| "indefinite (Wrapped _ e _) \<longleftrightarrow> indefinite e"
| "indefinite (Plain _) \<longleftrightarrow> True"

lemma indefinite_not_definite:
  "indefinite e \<Longrightarrow> \<not> apiIsNotFound e" "indefinite e \<Longrightarrow> \<not> apiIsConflict e" "indefinite e \<Longrightarrow> \<not> apiIsAlreadyExists e"
  by (induction e) (auto simp: api_error_defs)

text \<open>The outcome of a write: refused with no effect, or done, with the reply or without it.\<close>

definition writeOutcome :: "'a result \<Rightarrow> 'v \<Rightarrow> 'v \<Rightarrow> ('a \<Rightarrow> bool) \<Rightarrow> bool" where
  "writeOutcome r v v' done \<longleftrightarrow>
     (\<exists>e. r = Inl e \<and> v' = v) \<or>
     (\<exists>x. done x \<and> (r = Inr x \<or> (\<exists>e. r = Inl e \<and> indefinite e)))"

definition created :: "gvr \<Rightarrow> string \<Rightarrow> kobj \<Rightarrow> kview \<Rightarrow> kview \<Rightarrow> kobj \<Rightarrow> bool" where
  "created g ns obj v v' stored \<longleftrightarrow>
     v (g, ns, k_name obj) = None \<and> v' = v((g, ns, k_name obj) \<mapsto> stored) \<and>
     sameMeta obj stored \<and> sameBody g obj stored \<and>
     k_namespace stored = ns \<and> k_deletionTimestamp stored = None \<and>
     (statusGVR g \<longrightarrow> objField stored ''status'' = None)"

definition replaced :: "gvr \<Rightarrow> string \<Rightarrow> kobj \<Rightarrow> kview \<Rightarrow> kview \<Rightarrow> kobj \<Rightarrow> bool" where
  "replaced g ns obj v v' stored \<longleftrightarrow>
     (\<exists>cur. v (g, ns, k_name obj) = Some cur \<and>
        (k_resourceVersion obj = [] \<or> k_resourceVersion obj = k_resourceVersion cur) \<and>
        sameMeta obj stored \<and> sameBody g obj stored \<and>
        k_namespace stored = ns \<and> k_deletionTimestamp stored = k_deletionTimestamp cur \<and>
        (statusGVR g \<longrightarrow> objField stored ''status'' = objField cur ''status'') \<and>
        (stored \<noteq> cur \<longrightarrow> k_resourceVersion stored \<noteq> k_resourceVersion cur) \<and>
        (if k_deletionTimestamp cur \<noteq> None \<and> k_finalizers obj = []
         then v' = v((g, ns, k_name obj) := None)
         else v' = v((g, ns, k_name obj) \<mapsto> stored)))"

definition statusReplaced :: "gvr \<Rightarrow> string \<Rightarrow> kobj \<Rightarrow> kview \<Rightarrow> kview \<Rightarrow> kobj \<Rightarrow> bool" where
  "statusReplaced g ns obj v v' stored \<longleftrightarrow>
     (\<exists>cur. v (g, ns, k_name obj) = Some cur \<and>
        (k_resourceVersion obj = [] \<or> k_resourceVersion obj = k_resourceVersion cur) \<and>
        sameMeta cur stored \<and> k_namespace stored = ns \<and> k_generation stored = k_generation cur \<and>
        k_deletionTimestamp stored = k_deletionTimestamp cur \<and>
        (\<forall>f. f \<noteq> ''status'' \<longrightarrow> objField stored f = objField cur f) \<and>
        objField stored ''status'' = objField obj ''status'' \<and>
        (stored \<noteq> cur \<longrightarrow> k_resourceVersion stored \<noteq> k_resourceVersion cur) \<and>
        v' = v((g, ns, k_name obj) \<mapsto> stored))"

text \<open>
  Server-side apply creates the object or merges the applied fields into it; of the result the
  code relies on the identity and on the applied labels.
\<close>

definition applied :: "gvr \<Rightarrow> string \<Rightarrow> kobj \<Rightarrow> kview \<Rightarrow> kview \<Rightarrow> kobj \<Rightarrow> bool" where
  "applied g ns obj v v' stored \<longleftrightarrow>
     v' = v((g, ns, k_name obj) \<mapsto> stored) \<and>
     k_name stored = k_name obj \<and> k_namespace stored = ns \<and>
     (\<forall>l x. map_of (k_labels obj) l = Some x \<longrightarrow> map_of (k_labels stored) l = Some x) \<and>
     k_deletionTimestamp stored = Option.bind (v (g, ns, k_name obj)) k_deletionTimestamp"

text \<open>An object marked for deletion keeps everything but its deletion timestamp and versions.\<close>

definition marked :: "kobj \<Rightarrow> kobj \<Rightarrow> bool" where
  "marked cur stored \<longleftrightarrow>
     sameMeta cur stored \<and> k_namespace stored = k_namespace cur \<and>
     k_deletionTimestamp stored \<noteq> None \<and> (\<forall>f. objField stored f = objField cur f)"

lemma marked_trans: "marked a b \<Longrightarrow> marked b c \<Longrightarrow> marked a c"
  by (simp add: marked_def sameMeta_def)

definition deleted :: "gvr \<Rightarrow> string \<Rightarrow> string \<Rightarrow> kview \<Rightarrow> kview \<Rightarrow> bool" where
  "deleted g ns name v v' \<longleftrightarrow>
     (\<exists>cur. v (g, ns, name) = Some cur \<and>
        (v' = v((g, ns, name) := None) \<and> k_finalizers cur = [] \<or>
         (\<exists>stored. v' = v((g, ns, name) \<mapsto> stored) \<and> marked cur stored \<and>
                   (k_finalizers cur \<noteq> [] \<or> \<not> exactGVR g))))"

text \<open>
  \<open>deletesOnly P v v'\<close>: the two views differ only in objects that satisfy \<open>P\<close>, and those were
  deleted or marked for deletion.
\<close>

definition goneOrMarked :: "kobj \<Rightarrow> kobj option \<Rightarrow> bool" where
  "goneOrMarked cur x = (case x of None \<Rightarrow> True | Some stored \<Rightarrow> marked cur stored)"

definition deletesOnly :: "(kkey \<Rightarrow> kobj \<Rightarrow> bool) \<Rightarrow> kview \<Rightarrow> kview \<Rightarrow> bool" where
  "deletesOnly P v v' \<longleftrightarrow>
     (\<forall>k. v' k = v k \<or> (\<exists>cur. v k = Some cur \<and> P k cur \<and> goneOrMarked cur (v' k)))"

lemma deletesOnly_refl [simp]: "deletesOnly P v v"
  by (simp add: deletesOnly_def)

lemma deletesOnly_at:
  assumes "deletesOnly P v v1" "v1 k = Some c"
  shows "\<exists>x. v k = Some x \<and> (c = x \<or> marked x c)"
  using assms unfolding deletesOnly_def by (metis goneOrMarked_def option.case(2))

lemma deletesOnly_None: "deletesOnly P v v' \<Longrightarrow> v k = None \<Longrightarrow> v' k = None"
  unfolding deletesOnly_def by (metis option.distinct(1))

lemma deleted_goneOrMarked:
  assumes "deleted g ns n v v'"
  obtains c where "v (g, ns, n) = Some c" "goneOrMarked c (v' (g, ns, n))" "\<And>k. k \<noteq> (g, ns, n) \<Longrightarrow> v' k = v k"
proof -
  obtain c where "v (g, ns, n) = Some c"
    "v' = v((g, ns, n) := None) \<or> (\<exists>stored. v' = v((g, ns, n) \<mapsto> stored) \<and> marked c stored)"
    using assms by (auto simp: deleted_def)
  then show thesis
    by (intro that[of c]) (auto simp: goneOrMarked_def split: if_splits)
qed

lemma goneOrMarked_trans: "c = x \<or> marked x c \<Longrightarrow> goneOrMarked c y \<Longrightarrow> goneOrMarked x y"
  by (auto simp: goneOrMarked_def dest: marked_trans split: option.splits)

lemma deletesOnly_deleted:
  assumes only: "deletesOnly P v v1" and x: "v (g, ns, n) = Some x" and P: "P (g, ns, n) x"
    and del: "deleted g ns n v1 v2"
  shows "deletesOnly P v v2" "goneOrMarked x (v2 (g, ns, n))"
proof -
  obtain c where c: "v1 (g, ns, n) = Some c" "goneOrMarked c (v2 (g, ns, n))"
    and other: "\<And>k. k \<noteq> (g, ns, n) \<Longrightarrow> v2 k = v1 k"
    using del by (rule deleted_goneOrMarked) blast
  have "c = x \<or> marked x c" using deletesOnly_at[OF only c(1)] x by auto
  with c(2) show gone: "goneOrMarked x (v2 (g, ns, n))" using goneOrMarked_trans by blast
  show "deletesOnly P v v2"
    unfolding deletesOnly_def
  proof
    fix k
    show "v2 k = v k \<or> (\<exists>cur. v k = Some cur \<and> P k cur \<and> goneOrMarked cur (v2 k))"
    proof (cases "k = (g, ns, n)")
      case True
      with x P gone show ?thesis by blast
    next
      case False
      with other[OF False] only show ?thesis unfolding deletesOnly_def by metis
    qed
  qed
qed

lemma goneOrMarked_stays:
  assumes "goneOrMarked x (v1 k)" "deleted g ns n v1 v2"
  shows "goneOrMarked x (v2 k)"
proof -
  obtain c where c: "v1 (g, ns, n) = Some c" "goneOrMarked c (v2 (g, ns, n))"
    and other: "\<And>k. k \<noteq> (g, ns, n) \<Longrightarrow> v2 k = v1 k"
    using assms(2) by (rule deleted_goneOrMarked) blast
  show ?thesis
    using assms(1) c other[of k] goneOrMarked_trans[of c x] by (cases "k = (g, ns, n)") (auto simp: goneOrMarked_def)
qed

definition listed :: "gvr \<Rightarrow> string \<Rightarrow> kview \<Rightarrow> kobj list \<Rightarrow> bool" where
  "listed g ns v items \<longleftrightarrow>
     distinct (map (\<lambda>x. (k_namespace x, k_name x)) items) \<and>
     set items = {obj. \<exists>ns' n. (ns = [] \<or> ns' = ns) \<and> v (g, ns', n) = Some obj}"

locale kube_api =
  fixes E :: "'s env" and view :: "'s \<Rightarrow> kview"
  assumes view_key: "view s (g, ns, n) = Some obj \<Longrightarrow> k_name obj = n \<and> k_namespace obj = ns \<and> validKey g ns n"
    and get_keeps: "keeps view (env_get E g ns n)"
    and get_found: "run_state (env_get E g ns n) s = (Inr obj, s') \<Longrightarrow> view s (g, ns, n) = Some obj"
    and get_notfound: "run_state (env_get E g ns n) s = (Inl e, s') \<Longrightarrow> apiIsNotFound e \<Longrightarrow>
                       view s (g, ns, n) = None"
    and list_keeps: "keeps view (env_list E g ns)"
    and list_all: "run_state (env_list E g ns) s = (Inr items, s') \<Longrightarrow> listed g ns (view s) items"
    and list_notfound: "run_state (env_list E g ns) s = (Inl e, s') \<Longrightarrow> apiIsNotFound e \<Longrightarrow>
                       view s (g, ns', n) = None"
    and create_law: "run_state (env_create E g ns obj) s = (r, s') \<Longrightarrow>
                     writeOutcome r (view s) (view s') (created g ns obj (view s) (view s'))"
    and create_exists: "run_state (env_create E g ns obj) s = (Inl e, s') \<Longrightarrow> apiIsAlreadyExists e \<Longrightarrow>
                     view s (g, ns, k_name obj) \<noteq> None"
    and update_law: "run_state (env_update E g ns obj) s = (r, s') \<Longrightarrow>
                     writeOutcome r (view s) (view s') (replaced g ns obj (view s) (view s'))"
    and updateStatus_law: "run_state (env_updateStatus E g ns obj) s = (r, s') \<Longrightarrow>
                     writeOutcome r (view s) (view s') (statusReplaced g ns obj (view s) (view s'))"
    and apply_law: "run_state (env_apply E g ns obj) s = (r, s') \<Longrightarrow>
                     writeOutcome r (view s) (view s') (applied g ns obj (view s) (view s'))"
    and delete_law: "run_state (env_delete E g ns n) s = (d, s') \<Longrightarrow>
                     writeOutcome d (view s) (view s') (\<lambda>_. deleted g ns n (view s) (view s'))"
    and delete_notfound: "run_state (env_delete E g ns n) s = (Inl e, s') \<Longrightarrow> apiIsNotFound e \<Longrightarrow>
                     view s (g, ns, n) = None"
    and retry_law: "\<exists>k. env_retry E m = retry_n k m"
    and uuid_keeps: "keeps view (env_uuid E)"
    and now_keeps: "keeps view (env_now E)"
    and randInt_keeps: "keeps view (env_randInt E bound)"
    and randBytes_keeps: "keeps view (env_randBytes E bound)"
    and rsaGenerate_keeps: "keeps view (env_rsaGenerate E bound)"
    and bcryptGenerate_keeps: "keeps view (env_bcryptGenerate E pw cost)"
begin

lemmas keeps_calls [intro] =
  get_keeps list_keeps uuid_keeps now_keeps randInt_keeps bcryptGenerate_keeps
  randBytes_keeps rsaGenerate_keeps

lemma retry_keeps: "keeps view m \<Longrightarrow> keeps view (env_retry E m)"
  using retry_law[of m] retry_n_keeps by metis

lemma wp_retry:
  assumes "I s" and "\<And>s. I s \<Longrightarrow> wp m (\<lambda>r s'. Q r s' \<and> (isl r \<longrightarrow> I s')) s"
  shows "wp (env_retry E m) Q s"
proof -
  obtain k where "env_retry E m = retry_n k m" using retry_law by blast
  with wp_retry_n[OF assms, where n = k] show ?thesis by simp
qed

lemma wp_retry_conflict:
  assumes "I s" and "\<And>s. I s \<Longrightarrow> wp m (\<lambda>r s'. Q r s' \<and> (\<forall>e. r = Inl e \<and> apiIsConflict e \<longrightarrow> I s')) s"
  shows "wp (env_retry E m) Q s"
proof -
  obtain k where "env_retry E m = retry_n k m" using retry_law by blast
  with wp_retry_n_conflict[OF assms, where n = k] show ?thesis by simp
qed

lemma wp_get:
  assumes "\<And>s' obj. view s' = view s \<Longrightarrow> view s (g, ns, n) = Some obj \<Longrightarrow> Q (Inr obj) s'"
    and "\<And>s' e. view s' = view s \<Longrightarrow> (apiIsNotFound e \<longrightarrow> view s (g, ns, n) = None) \<Longrightarrow> Q (Inl e) s'"
  shows "wp (env_get E g ns n) Q s"
proof (rule wpI)
  fix r s' assume run: "run_state (env_get E g ns n) s = (r, s')"
  show "Q r s'"
    using run keepsD[OF get_keeps run] get_found[of g ns n s _ s'] get_notfound[of g ns n s _ s']
    by (cases r) (simp_all add: assms)
qed

lemma wp_list:
  assumes "\<And>s' items. view s' = view s \<Longrightarrow> listed g ns (view s) items \<Longrightarrow> Q (Inr items) s'"
    and "\<And>s' e. view s' = view s \<Longrightarrow> (apiIsNotFound e \<longrightarrow> (\<forall>ns' n. view s (g, ns', n) = None)) \<Longrightarrow> Q (Inl e) s'"
  shows "wp (env_list E g ns) Q s"
proof (rule wpI)
  fix r s' assume run: "run_state (env_list E g ns) s = (r, s')"
  show "Q r s'"
    using run keepsD[OF list_keeps run] list_all[of g ns s _ s'] list_notfound[of g ns s _ s']
    by (cases r) (simp_all add: assms)
qed

lemma wp_create:
  assumes "\<And>s' e. view s' = view s \<Longrightarrow> Q (Inl e) s'"
    and "\<And>s' stored. created g ns obj (view s) (view s') stored \<Longrightarrow> Q (Inr stored) s'"
    and "\<And>s' stored e. created g ns obj (view s) (view s') stored \<Longrightarrow> indefinite e \<Longrightarrow> Q (Inl e) s'"
  shows "wp (env_create E g ns obj) Q s"
  using assms by (intro wpI) (auto dest!: create_law simp: writeOutcome_def)

lemma wp_update:
  assumes "\<And>s' e. view s' = view s \<Longrightarrow> Q (Inl e) s'"
    and "\<And>s' stored. replaced g ns obj (view s) (view s') stored \<Longrightarrow> Q (Inr stored) s'"
    and "\<And>s' stored e. replaced g ns obj (view s) (view s') stored \<Longrightarrow> indefinite e \<Longrightarrow> Q (Inl e) s'"
  shows "wp (env_update E g ns obj) Q s"
  using assms by (intro wpI) (auto dest!: update_law simp: writeOutcome_def)

lemma wp_updateStatus:
  assumes "\<And>s' e. view s' = view s \<Longrightarrow> Q (Inl e) s'"
    and "\<And>s' stored. statusReplaced g ns obj (view s) (view s') stored \<Longrightarrow> Q (Inr stored) s'"
    and "\<And>s' stored e. statusReplaced g ns obj (view s) (view s') stored \<Longrightarrow> indefinite e \<Longrightarrow> Q (Inl e) s'"
  shows "wp (env_updateStatus E g ns obj) Q s"
  using assms by (intro wpI) (auto dest!: updateStatus_law simp: writeOutcome_def)

lemma wp_apply:
  assumes "\<And>s' e. view s' = view s \<Longrightarrow> Q (Inl e) s'"
    and "\<And>s' stored. applied g ns obj (view s) (view s') stored \<Longrightarrow> Q (Inr stored) s'"
    and "\<And>s' stored e. applied g ns obj (view s) (view s') stored \<Longrightarrow> indefinite e \<Longrightarrow> Q (Inl e) s'"
  shows "wp (env_apply E g ns obj) Q s"
  using assms by (intro wpI) (auto dest!: apply_law simp: writeOutcome_def)

lemma wp_delete:
  assumes "\<And>s' e. view s' = view s \<Longrightarrow> (apiIsNotFound e \<longrightarrow> view s (g, ns, n) = None) \<Longrightarrow> Q (Inl e) s'"
    and "\<And>s'. deleted g ns n (view s) (view s') \<Longrightarrow> Q (Inr ()) s'"
    and "\<And>s' e. deleted g ns n (view s) (view s') \<Longrightarrow> indefinite e \<Longrightarrow> Q (Inl e) s'"
  shows "wp (env_delete E g ns n) Q s"
proof (rule wpI)
  fix r s' assume run: "run_state (env_delete E g ns n) s = (r, s')"
  show "Q r s'"
    using assms delete_law[OF run] run delete_notfound[of g ns n s _ s']
    by (auto simp: writeOutcome_def)
qed

text \<open>A step that reads only: its failure and its success both see the same view.\<close>

lemma wp_try_keeps:
  assumes "keeps view m" "\<And>s' e. view s' = view s \<Longrightarrow> Q (Inl e) s'"
    and "\<And>s' x. view s' = view s \<Longrightarrow> run_state m s = (Inr x, s') \<Longrightarrow> wp (k x) Q s'"
  shows "wp (tryE m k) Q s"
  unfolding wp_tryE using assms(2,3) by (intro keeps_wp[OF assms(1)]) (auto split: sum.split)

text \<open>The same with a property of the result.\<close>

lemma wp_try_spec:
  assumes "wp m (\<lambda>r s'. view s' = view s \<and> (\<forall>x. r = Inr x \<longrightarrow> P x)) s"
    and "\<And>s' e. view s' = view s \<Longrightarrow> Q (Inl e) s'"
    and "\<And>s' x. view s' = view s \<Longrightarrow> P x \<Longrightarrow> wp (k x) Q s'"
  shows "wp (tryE m k) Q s"
  unfolding wp_tryE by (rule wp_mono[OF assms(1)]) (auto split: sum.split intro: assms(2,3))

lemma wp_keeps:
  "keeps view m \<Longrightarrow> (\<And>r s'. view s' = view s \<Longrightarrow> Q r s') \<Longrightarrow> wp m Q s"
  by (rule keeps_wp) auto

text \<open>What each call can touch.\<close>

lemmas frames_calls [intro] = keeps_calls[THEN keeps_frames]

lemma frames_retry [intro]: "frames view K m \<Longrightarrow> frames view K (env_retry E m)"
proof -
  assume m: "frames view K m"
  have "frames view K (retry_n k m)" for k
    by (induction k) (auto intro!: m frames_bind)
  then show ?thesis using retry_law[of m] by metis
qed

lemma framesI:
  assumes "\<And>s r s'. run_state m s = (r, s') \<Longrightarrow> writeOutcome r (view s) (view s') (D s s')"
    and "\<And>s s' x k. D s s' x \<Longrightarrow> k \<notin> K \<Longrightarrow> view s' k = view s k"
  shows "frames view K m"
  unfolding frames_def
proof (intro allI impI)
  fix s k assume k: "k \<notin> K"
  have "writeOutcome (fst (run_state m s)) (view s) (view (snd (run_state m s))) (D s (snd (run_state m s)))"
    by (rule assms(1)) simp
  then show "view (snd (run_state m s)) k = view s k"
    using assms(2)[OF _ k] unfolding writeOutcome_def by auto
qed

lemma frames_create: "(g, ns, k_name obj) \<in> K \<Longrightarrow> frames view K (env_create E g ns obj)"
  by (rule framesI[OF create_law]) (auto simp: created_def)

lemma frames_update: "(g, ns, k_name obj) \<in> K \<Longrightarrow> frames view K (env_update E g ns obj)"
  by (rule framesI[OF update_law]) (auto simp: replaced_def split: if_splits)

lemma frames_updateStatus: "(g, ns, k_name obj) \<in> K \<Longrightarrow> frames view K (env_updateStatus E g ns obj)"
  by (rule framesI[OF updateStatus_law]) (auto simp: statusReplaced_def split: if_splits)

lemma frames_apply: "(g, ns, k_name obj) \<in> K \<Longrightarrow> frames view K (env_apply E g ns obj)"
  by (rule framesI[OF apply_law]) (auto simp: applied_def)

lemma frames_delete: "(g, ns, n) \<in> K \<Longrightarrow> frames view K (env_delete E g ns n)"
  by (rule framesI[OF delete_law]) (auto simp: deleted_def)

end

end
