(* ===== verification/Kube_Reference.thy ===== *)
theory Kube_Reference
  imports Kube
begin

text \<open>
  An executable API server that satisfies the contract \<open>kube_api\<close>, in the role of the in-memory
  dynamic client of the repository's own tests.  A fault script decides for each call whether it
  is served, refused, or served with the reply lost.  Concrete runs of the model use it.
\<close>

datatype fault = Served | Refused | ReplyLost

record mem =
  m_objs :: "(kkey \<times> kobj) list"
  m_faults :: "fault list"
  m_clock :: int

definition mem_init :: "(kkey \<times> kobj) list \<Rightarrow> fault list \<Rightarrow> mem" where
  "mem_init objs faults = \<lparr>m_objs = objs, m_faults = faults, m_clock = 0\<rparr>"

definition mem_view :: "mem \<Rightarrow> kview" where
  "mem_view s = (\<lambda>(g, ns, n).
     if \<not> validKey g ns n then None
     else map_option (\<lambda>x. x\<lparr>k_name := n, k_namespace := ns\<rparr>) (map_of (m_objs s) (g, ns, n)))"

definition mem_put :: "kkey \<Rightarrow> kobj \<Rightarrow> mem \<Rightarrow> mem" where
  "mem_put k x s = s\<lparr>m_objs := AList.update k x (m_objs s)\<rparr>"

definition mem_drop :: "kkey \<Rightarrow> mem \<Rightarrow> mem" where
  "mem_drop k s = s\<lparr>m_objs := AList.delete k (m_objs s)\<rparr>"

text \<open>One call: the fault script has the first word.\<close>

definition mem_call :: "(mem \<Rightarrow> 'a result \<times> mem) \<Rightarrow> (mem, 'a result) state" where
  "mem_call f = State (\<lambda>s.
     case m_faults s of
       [] \<Rightarrow> f s
     | Served # fs \<Rightarrow> f (s\<lparr>m_faults := fs\<rparr>)
     | Refused # fs \<Rightarrow> (Inl (ApiErr StatusReasonOther ''refused''), s\<lparr>m_faults := fs\<rparr>)
     | ReplyLost # fs \<Rightarrow>
         (case f (s\<lparr>m_faults := fs\<rparr>) of
            (Inl e, s') \<Rightarrow> (Inl e, s')
          | (Inr x, s') \<Rightarrow> (Inl (Plain ''reply lost''), s')))"

definition notFound :: "'a result" where
  "notFound = Inl (ApiErr StatusReasonNotFound ''not found'')"

definition mem_get :: "gvr \<Rightarrow> string \<Rightarrow> string \<Rightarrow> (mem, kobj result) state" where
  "mem_get g ns n = mem_call (\<lambda>s.
     case mem_view s (g, ns, n) of None \<Rightarrow> (notFound, s) | Some x \<Rightarrow> (Inr x, s))"

definition mem_list :: "gvr \<Rightarrow> string \<Rightarrow> (mem, kobj list result) state" where
  "mem_list g ns = mem_call (\<lambda>s.
     (Inr (map (\<lambda>((g', ns', n), x). x\<lparr>k_name := n, k_namespace := ns'\<rparr>)
             (filter (\<lambda>((g', ns', n), x). g' = g \<and> validKey g' ns' n \<and> (ns = [] \<or> ns' = ns))
                (AList.clearjunk (m_objs s)))), s))"

definition mem_status :: "gvr \<Rightarrow> gov option \<Rightarrow> gomap \<Rightarrow> gomap" where
  "mem_status g st body =
     (if statusGVR g
      then (case st of None \<Rightarrow> AList.delete ''status'' body
                     | Some v \<Rightarrow> AList.update ''status'' v body)
      else body)"

definition mem_create :: "gvr \<Rightarrow> string \<Rightarrow> kobj \<Rightarrow> (mem, kobj result) state" where
  "mem_create g ns obj = mem_call (\<lambda>s.
     case mem_view s (g, ns, k_name obj) of
       Some _ \<Rightarrow> (Inl (ApiErr StatusReasonAlreadyExists ''already exists''), s)
     | None \<Rightarrow>
         if \<not> validKey g ns (k_name obj) then (Inl (ApiErr StatusReasonOther ''invalid key''), s) else
         let x = obj\<lparr>k_namespace := ns, k_deletionTimestamp := None, k_generation := 1,
                     k_resourceVersion := ''1'', k_uid := ''uid-'' @ k_name obj,
                     k_body := mem_status g None (k_body obj)\<rparr>
         in (Inr x, mem_put (g, ns, k_name obj) x s))"

definition mem_update :: "gvr \<Rightarrow> string \<Rightarrow> kobj \<Rightarrow> (mem, kobj result) state" where
  "mem_update g ns obj = mem_call (\<lambda>s.
     case mem_view s (g, ns, k_name obj) of
       None \<Rightarrow> (notFound, s)
     | Some cur \<Rightarrow>
         if k_resourceVersion obj \<noteq> [] \<and> k_resourceVersion obj \<noteq> k_resourceVersion cur
         then (Inl (ApiErr StatusReasonConflict ''conflict''), s)
         else
           let x = obj\<lparr>k_namespace := ns, k_deletionTimestamp := k_deletionTimestamp cur,
                       k_generation := k_generation cur + 1,
                       k_resourceVersion := CHR ''1'' # k_resourceVersion cur, k_uid := k_uid cur,
                       k_body := mem_status g (objField cur ''status'') (k_body obj)\<rparr>
           in if k_deletionTimestamp cur \<noteq> None \<and> k_finalizers obj = []
              then (Inr x, mem_drop (g, ns, k_name obj) s)
              else (Inr x, mem_put (g, ns, k_name obj) x s))"

definition mem_updateStatus :: "gvr \<Rightarrow> string \<Rightarrow> kobj \<Rightarrow> (mem, kobj result) state" where
  "mem_updateStatus g ns obj = mem_call (\<lambda>s.
     case mem_view s (g, ns, k_name obj) of
       None \<Rightarrow> (notFound, s)
     | Some cur \<Rightarrow>
         if k_resourceVersion obj \<noteq> [] \<and> k_resourceVersion obj \<noteq> k_resourceVersion cur
         then (Inl (ApiErr StatusReasonConflict ''conflict''), s)
         else
           let x = cur\<lparr>k_resourceVersion := CHR ''1'' # k_resourceVersion cur,
                       k_body := (case objField obj ''status'' of
                                    None \<Rightarrow> AList.delete ''status'' (k_body cur)
                                  | Some v \<Rightarrow> AList.update ''status'' v (k_body cur))\<rparr>
           in (Inr x, mem_put (g, ns, k_name obj) x s))"

text \<open>Apply merges at the level of whole top-level fields and labels.\<close>

definition mem_apply :: "gvr \<Rightarrow> string \<Rightarrow> kobj \<Rightarrow> (mem, kobj result) state" where
  "mem_apply g ns obj = mem_call (\<lambda>s.
     let k = (g, ns, k_name obj) in
     case mem_view s k of
       None \<Rightarrow>
         if \<not> validKey g ns (k_name obj) then (Inl (ApiErr StatusReasonOther ''invalid key''), s) else
         let x = obj\<lparr>k_namespace := ns, k_deletionTimestamp := None, k_resourceVersion := ''1''\<rparr>
         in (Inr x, mem_put k x s)
     | Some cur \<Rightarrow>
         let x = cur\<lparr>k_labels := AList.merge (k_labels cur) (k_labels obj),
                     k_body := AList.merge (k_body cur) (k_body obj),
                     k_resourceVersion := CHR ''1'' # k_resourceVersion cur\<rparr>
         in (Inr x, mem_put k x s))"

definition mem_delete :: "gvr \<Rightarrow> string \<Rightarrow> string \<Rightarrow> (mem, unit result) state" where
  "mem_delete g ns n = mem_call (\<lambda>s.
     case mem_view s (g, ns, n) of
       None \<Rightarrow> (notFound, s)
     | Some cur \<Rightarrow>
         if k_finalizers cur = [] then (Inr (), mem_drop (g, ns, n) s)
         else (Inr (), mem_put (g, ns, n)
                 (cur\<lparr>k_deletionTimestamp := Some ''now'',
                      k_resourceVersion := CHR ''1'' # k_resourceVersion cur\<rparr>) s))"

text \<open>Concrete stand-ins for the third-party functions.\<close>

fun mem_nat :: "nat \<Rightarrow> string \<Rightarrow> (nat \<times> string) option" where
  "mem_nat acc [] = Some (acc, [])"
| "mem_nat acc (c # cs) =
     (if isDigitByte c then mem_nat (10 * acc + (byteOf c - 48)) cs else Some (acc, c # cs))"

definition mem_quantity :: "string \<Rightarrow> int result" where
  "mem_quantity s =
     (case mem_nat 0 s of
        Some (n, u) \<Rightarrow>
          (if s = u then Inl (Plain ''bad quantity'')
           else if u = [] then Inr (int n * 1000000000)
           else if u = ''Mi'' then Inr (int n * 1048576 * 1000000000)
           else if u = ''Gi'' then Inr (int n * 1073741824 * 1000000000)
           else Inl (Plain ''bad quantity''))
      | None \<Rightarrow> Inl (Plain ''bad quantity''))"

definition mem_env :: "mem env" where
  "mem_env =
     \<lparr>env_get = mem_get, env_list = mem_list, env_create = mem_create, env_update = mem_update,
      env_updateStatus = mem_updateStatus, env_apply = mem_apply, env_delete = mem_delete,
      env_retry = retry_n 4,
      env_uuid = State_Monad.return ''00000000-0000-4000-8000-000000000001'',
      env_now = State (\<lambda>s. (m_clock s, s)),
      env_randInt = (\<lambda>n. ok 0),
      env_bcryptGenerate = (\<lambda>pw cost.
        if 72 < length pw then fail (Plain ''bcrypt: password length exceeds 72 bytes'')
        else ok (''$2a$12$'' @ pw)),
      env_bcryptCompare = (\<lambda>h pw. if h = ''$2a$12$'' @ pw then None else Some (Plain ''mismatch'')),
      env_crypt = (\<lambda>pw salt. Inr (salt @ ''$'' @ pw)),
      env_randBytes = (\<lambda>n. ok (replicate n (CHR 0x07))),
      env_rsaGenerate = (\<lambda>bits. ok ''rsa-key''),
      env_pemPrivateKey = (\<lambda>k. Some (''pem:'' @ k)),
      env_sshAuthorizedKey = (\<lambda>k. Inr (''ssh-rsa '' @ k)),
      env_unicodeLower = (\<lambda>s. s),
      env_quantity = mem_quantity\<rparr>"

section \<open>The reference server meets the contract\<close>

lemma mem_view_upd [simp]:
  "mem_view (s\<lparr>m_faults := fs\<rparr>) = mem_view s"
  "mem_view (mem_drop k s) = (mem_view s)(k := None)"
  "validKey g ns n \<Longrightarrow> k_name x = n \<Longrightarrow> k_namespace x = ns \<Longrightarrow>
     mem_view (mem_put (g, ns, n) x s) = (mem_view s)((g, ns, n) \<mapsto> x)"
  by (auto simp: mem_view_def mem_drop_def mem_put_def delete_conv' fun_eq_iff)

lemma mem_view_key:
  "mem_view s (g, ns, n) = Some x \<Longrightarrow> k_name x = n \<and> k_namespace x = ns \<and> validKey g ns n"
  by (auto simp: mem_view_def split: if_splits)

lemma mem_call_cases:
  assumes "run_state (mem_call f) s = (r, s')"
    and "\<And>fs r0 s0. f (s\<lparr>m_faults := fs\<rparr>) = (r0, s0) \<Longrightarrow> P r0 s0"
    and "\<And>fs. P (Inl (ApiErr StatusReasonOther ''refused'')) (s\<lparr>m_faults := fs\<rparr>)"
    and "\<And>fs x s0. f (s\<lparr>m_faults := fs\<rparr>) = (Inr x, s0) \<Longrightarrow> P (Inl (Plain ''reply lost'')) s0"
  shows "P r s'"
proof -
  have nil: "f s = (r, s') \<Longrightarrow> P r s'"
    using assms(2)[of "m_faults s"] by simp
  show ?thesis
    using assms(1) nil
    by (auto simp: mem_call_def split: list.splits fault.splits prod.splits sum.splits intro: assms(2-4))
qed

lemma indefinite_lost [simp]: "indefinite (Plain m)"
  by simp

text \<open>A served call satisfies a law; the two faults preserve it.\<close>

lemma mem_write:
  assumes run: "run_state (mem_call f) s = (r, s')"
    and served: "\<And>s0 r0 s1. mem_view s0 = mem_view s \<Longrightarrow> f s0 = (r0, s1) \<Longrightarrow>
       (case r0 of Inl e \<Rightarrow> mem_view s1 = mem_view s | Inr x \<Rightarrow> D (mem_view s) (mem_view s1) x)"
  shows "writeOutcome r (mem_view s) (mem_view s') (D (mem_view s) (mem_view s'))"
  using run
proof (rule mem_call_cases)
  fix fs r0 s0 assume "f (s\<lparr>m_faults := fs\<rparr>) = (r0, s0)"
  from served[OF _ this] show "writeOutcome r0 (mem_view s) (mem_view s0) (D (mem_view s) (mem_view s0))"
    by (auto simp: writeOutcome_def split: sum.splits)
next
  fix fs x s0 assume "f (s\<lparr>m_faults := fs\<rparr>) = (Inr x, s0)"
  from served[OF _ this]
  show "writeOutcome (Inl (Plain ''reply lost'')) (mem_view s) (mem_view s0) (D (mem_view s) (mem_view s0))"
    by (auto simp: writeOutcome_def)
qed (simp add: writeOutcome_def)

lemma objField_mem_status:
  "objField (x\<lparr>k_body := mem_status g st b\<rparr>) f =
     (if statusGVR g \<and> f = ''status'' then st else map_of b f)"
  by (auto simp: objField_def mem_status_def delete_conv' split: option.splits)

lemmas mem_law_defs =
  created_def replaced_def statusReplaced_def applied_def deleted_def marked_def
  sameMeta_def sameBody_def Let_def notFound_def

lemma mem_create_law:
  "run_state (mem_create g ns obj) s = (r, s') \<Longrightarrow>
   writeOutcome r (mem_view s) (mem_view s') (created g ns obj (mem_view s) (mem_view s'))"
  unfolding mem_create_def
  by (erule mem_write)
     (auto simp: mem_law_defs objField_def mem_status_def delete_conv' split: option.splits if_splits)

lemma mem_update_law:
  "run_state (mem_update g ns obj) s = (r, s') \<Longrightarrow>
   writeOutcome r (mem_view s) (mem_view s') (replaced g ns obj (mem_view s) (mem_view s'))"
  unfolding mem_update_def
  apply (erule mem_write)
  apply (cases "mem_view s (g, ns, k_name obj)"; (frule mem_view_key)?)
   apply (auto simp: mem_law_defs objField_def mem_status_def delete_conv' exactGVR_def statusGVR_def
       split: option.splits if_splits)
  done

lemma mem_updateStatus_law:
  "run_state (mem_updateStatus g ns obj) s = (r, s') \<Longrightarrow>
   writeOutcome r (mem_view s) (mem_view s') (statusReplaced g ns obj (mem_view s) (mem_view s'))"
  unfolding mem_updateStatus_def
  apply (erule mem_write)
  apply (cases "mem_view s (g, ns, k_name obj)"; (frule mem_view_key)?)
   apply (auto simp: mem_law_defs objField_def delete_conv' split: option.splits if_splits)
  done

lemma mem_apply_law:
  "run_state (mem_apply g ns obj) s = (r, s') \<Longrightarrow>
   writeOutcome r (mem_view s) (mem_view s') (applied g ns obj (mem_view s) (mem_view s'))"
  unfolding mem_apply_def
  apply (erule mem_write)
  apply (cases "mem_view s (g, ns, k_name obj)"; (frule mem_view_key)?)
   apply (auto simp: mem_law_defs merge_conv' split: if_splits)
  done

lemma mem_delete_law:
  "run_state (mem_delete g ns n) s = (r, s') \<Longrightarrow>
   writeOutcome r (mem_view s) (mem_view s') (\<lambda>_. deleted g ns n (mem_view s) (mem_view s'))"
  unfolding mem_delete_def
  apply (erule mem_write[where D = "\<lambda>v v' _. deleted g ns n v v'"])
  apply (cases "mem_view s (g, ns, n)"; (frule mem_view_key)?)
   apply (auto simp: mem_law_defs objField_def split: if_splits)
  apply (rule exI, rule conjI, rule refl)
  apply simp
  done

lemma mem_get_run:
  "run_state (mem_get g ns n) s = (r, s') \<Longrightarrow>
   mem_view s' = mem_view s \<and>
   (case r of Inl e \<Rightarrow> apiIsNotFound e \<longrightarrow> mem_view s (g, ns, n) = None
            | Inr x \<Rightarrow> mem_view s (g, ns, n) = Some x)"
  unfolding mem_get_def
  by (erule mem_call_cases) (auto simp: notFound_def apiIsNotFound_def split: option.splits)

lemma mem_listed:
  "listed g ns (mem_view s)
     (map (\<lambda>((g', ns', n), x). x\<lparr>k_name := n, k_namespace := ns'\<rparr>)
        (filter (\<lambda>((g', ns', n), x). g' = g \<and> validKey g' ns' n \<and> (ns = [] \<or> ns' = ns)) (AList.clearjunk (m_objs s))))"
proof -
  let ?c = "AList.clearjunk (m_objs s)"
  let ?f = "filter (\<lambda>((g', ns', n), x). g' = g \<and> validKey g' ns' n \<and> (ns = [] \<or> ns' = ns)) ?c"
  have dist: "distinct (map fst ?c)" by simp
  then have "distinct (map fst ?f)" by (simp add: distinct_map_filter)
  moreover have "inj_on snd (set (map fst ?f))" by (auto simp: inj_on_def)
  ultimately have "distinct (map snd (map fst ?f))" using distinct_map by blast
  then have *: "distinct (map (\<lambda>y. (k_namespace y, k_name y))
     (map (\<lambda>((g', ns', n), x). x\<lparr>k_name := n, k_namespace := ns'\<rparr>) ?f))"
    by (simp add: comp_def case_prod_beta)
  have "(k, x) \<in> set ?c \<longleftrightarrow> map_of (m_objs s) k = Some x" for k x
    using dist by (metis map_of_clearjunk map_of_eq_Some_iff)
  then have "set (map (\<lambda>((g', ns', n), x). x\<lparr>k_name := n, k_namespace := ns'\<rparr>) ?f) =
    {obj. \<exists>ns' n. (ns = [] \<or> ns' = ns) \<and> mem_view s (g, ns', n) = Some obj}"
    by (force simp: mem_view_def image_iff)
  with * show ?thesis by (simp add: listed_def)
qed

lemma mem_list_run:
  "run_state (mem_list g ns) s = (r, s') \<Longrightarrow>
   mem_view s' = mem_view s \<and>
   (case r of Inl e \<Rightarrow> \<not> apiIsNotFound e | Inr items \<Rightarrow> listed g ns (mem_view s) items)"
  unfolding mem_list_def
  by (erule mem_call_cases) (use mem_listed in \<open>auto simp: apiIsNotFound_def\<close>)

lemma mem_create_exists:
  "run_state (mem_create g ns obj) s = (r, s') \<Longrightarrow>
   case r of Inl e \<Rightarrow> apiIsAlreadyExists e \<longrightarrow> mem_view s (g, ns, k_name obj) \<noteq> None | Inr _ \<Rightarrow> True"
  unfolding mem_create_def
  by (erule mem_call_cases) (auto simp: apiIsAlreadyExists_def Let_def split: option.splits if_splits)

lemma mem_delete_notfound:
  "run_state (mem_delete g ns n) s = (r, s') \<Longrightarrow>
   case r of Inl e \<Rightarrow> apiIsNotFound e \<longrightarrow> mem_view s (g, ns, n) = None | Inr _ \<Rightarrow> True"
  unfolding mem_delete_def
  by (erule mem_call_cases)
     (auto simp: apiIsNotFound_def notFound_def split: option.splits if_splits)

lemma keepsI_run: "(\<And>s r s'. run_state m s = (r, s') \<Longrightarrow> v s' = v s) \<Longrightarrow> keeps v m"
  unfolding keeps_def by (metis prod.collapse)

lemma mem_env_sel [simp]:
  "env_get mem_env = mem_get" "env_list mem_env = mem_list" "env_create mem_env = mem_create"
  "env_update mem_env = mem_update" "env_updateStatus mem_env = mem_updateStatus"
  "env_apply mem_env = mem_apply" "env_delete mem_env = mem_delete" "env_retry mem_env = retry_n 4"
  "env_uuid mem_env = State_Monad.return ''00000000-0000-4000-8000-000000000001''"
  "env_now mem_env = State (\<lambda>s. (m_clock s, s))"
  "env_randInt mem_env n = ok 0"
  "env_bcryptGenerate mem_env pw cost =
     (if 72 < length pw then fail (Plain ''bcrypt: password length exceeds 72 bytes'')
      else ok (''$2a$12$'' @ pw))"
  "env_bcryptCompare mem_env h pw = (if h = ''$2a$12$'' @ pw then None else Some (Plain ''mismatch''))"
  "env_crypt mem_env pw salt = Inr (salt @ ''$'' @ pw)"
  "env_randBytes mem_env n = ok (replicate n (CHR 0x07))"
  "env_rsaGenerate mem_env bits = ok ''rsa-key''"
  "env_pemPrivateKey mem_env k = Some (''pem:'' @ k)"
  "env_sshAuthorizedKey mem_env k = Inr (''ssh-rsa '' @ k)"
  "env_unicodeLower mem_env str = str"
  "env_quantity mem_env = mem_quantity"
  by (simp_all add: mem_env_def)

lemma mem_kube_api: "kube_api mem_env mem_view"
proof unfold_locales
  fix s g ns n obj assume "mem_view s (g, ns, n) = Some obj"
  then show "k_name obj = n \<and> k_namespace obj = ns \<and> validKey g ns n" by (rule mem_view_key)
next
  fix g ns n
  show "keeps mem_view (env_get mem_env g ns n)"
    by (rule keepsI_run) (simp add: mem_get_run)
next
  fix g ns n s obj s' assume "run_state (env_get mem_env g ns n) s = (Inr obj, s')"
  then show "mem_view s (g, ns, n) = Some obj" using mem_get_run by fastforce
next
  fix g ns n s e s' assume "run_state (env_get mem_env g ns n) s = (Inl e, s')" "apiIsNotFound e"
  then show "mem_view s (g, ns, n) = None" using mem_get_run by fastforce
next
  fix g ns
  show "keeps mem_view (env_list mem_env g ns)"
    by (rule keepsI_run) (simp add: mem_list_run)
next
  fix g ns s items s' assume "run_state (env_list mem_env g ns) s = (Inr items, s')"
  then show "listed g ns (mem_view s) items" using mem_list_run by fastforce
next
  fix g ns s e s' ns' n assume "run_state (env_list mem_env g ns) s = (Inl e, s')" "apiIsNotFound e"
  then show "mem_view s (g, ns', n) = None" using mem_list_run by fastforce
next
  fix g ns obj s e s'
  assume "run_state (env_create mem_env g ns obj) s = (Inl e, s')" "apiIsAlreadyExists e"
  then show "mem_view s (g, ns, k_name obj) \<noteq> None" using mem_create_exists by fastforce
next
  fix g ns n s e s' assume "run_state (env_delete mem_env g ns n) s = (Inl e, s')" "apiIsNotFound e"
  then show "mem_view s (g, ns, n) = None" using mem_delete_notfound by fastforce
qed (auto simp: mem_create_law mem_update_law mem_updateStatus_law mem_apply_law mem_delete_law
       keeps_def ok_def fail_def)

interpretation mem: kube_api mem_env mem_view
  by (rule mem_kube_api)

end
