(* ===== verification/Store.thy ===== *)
theory Store
  imports Kube_Reference
begin

text \<open>
  \<open>internal/store\<close>: the typed records of the three Kite CRDs, their conversion to unstructured
  objects, and the CRUD operations of \<open>UserStore\<close>, \<open>VirtualMachineStore\<close> and
  \<open>VirtualMachineOfferStore\<close> over the dynamic client.

  The locale \<open>record_codec\<close> is the contract between a record type and its spec map; the services
  that decode records from objects interpret it.
\<close>

section \<open>Records\<close>

record KiteUserSpec =
  us_username :: string
  us_email :: string
  us_password :: string
  us_namespace :: string
  us_profileImage :: string
  us_accessLevel :: int

record KiteUserRecord =
  ur_name :: string
  ur_spec :: KiteUserSpec

record KiteVirtualMachineSpec =
  vs_cpu :: int
  vs_memory :: string
  vs_image :: string
  vs_disk :: string
  vs_powerState :: string
  vs_domainPrefix :: string
  vs_sshID :: string
  vs_sshPasswordHash :: string
  vs_delete :: bool

record KiteVirtualMachineRecord =
  vr_name :: string
  vr_namespace :: string
  vr_spec :: KiteVirtualMachineSpec

record KiteVirtualMachineOfferSpec =
  os_cpu :: int
  os_memory :: string
  os_image :: string
  os_disk :: string
  os_expiresAt :: string
  os_createdBy :: string

record KiteVirtualMachineOfferRecord =
  or_name :: string
  or_namespace :: string
  or_spec :: KiteVirtualMachineOfferSpec

section \<open>KiteUser store\<close>

definition newKiteUserObject :: "KiteUserRecord \<Rightarrow> kobj" where
  "newKiteUserObject rec =
     newObject ''KiteUser'' [] (ur_name rec) []
       [(''spec'', GMap
          [(''username'', GStr (us_username (ur_spec rec))),
           (''email'', GStr (us_email (ur_spec rec))),
           (''password'', GStr (us_password (ur_spec rec))),
           (''namespace'', GStr (us_namespace (ur_spec rec))),
           (''profile_image'', GStr (us_profileImage (ur_spec rec))),
           (''access_level'', GInt (us_accessLevel (ur_spec rec)))])]"

definition UserStore_Create :: "'s env \<Rightarrow> KiteUserRecord \<Rightarrow> ('s, kobj result) state" where
  "UserStore_Create E rec = env_create E kiteUserGVR [] (newKiteUserObject rec)"

definition UserStore_Get :: "'s env \<Rightarrow> string \<Rightarrow> ('s, kobj result) state" where
  "UserStore_Get E name = env_get E kiteUserGVR [] name"

definition UserStore_List :: "'s env \<Rightarrow> ('s, kobj list result) state" where
  "UserStore_List E = env_list E kiteUserGVR []"

definition UserStore_Update :: "'s env \<Rightarrow> KiteUserRecord \<Rightarrow> ('s, kobj result) state" where
  "UserStore_Update E rec =
     tryE (UserStore_Get E (ur_name rec)) (\<lambda>current.
       env_update E kiteUserGVR []
         ((newKiteUserObject rec)\<lparr>k_resourceVersion := k_resourceVersion current\<rparr>))"

definition UserStore_Delete :: "'s env \<Rightarrow> string \<Rightarrow> ('s, unit result) state" where
  "UserStore_Delete E name = env_delete E kiteUserGVR [] name"

section \<open>KiteVirtualMachine store\<close>

definition kiteVirtualMachineSpecMap :: "KiteVirtualMachineSpec \<Rightarrow> gomap" where
  "kiteVirtualMachineSpecMap spec =
     [(''cpu'', GInt (vs_cpu spec)),
      (''memory'', GStr (vs_memory spec)),
      (''image'', GStr (vs_image spec)),
      (''disk'', GStr (vs_disk spec)),
      (''powerState'', GStr (vs_powerState spec)),
      (''domainPrefix'', GStr (vs_domainPrefix spec)),
      (''sshId'', GStr (vs_sshID spec)),
      (''sshPasswordHash'', GStr (vs_sshPasswordHash spec)),
      (''delete'', GBool (vs_delete spec))]"

definition newKiteVirtualMachineObject :: "KiteVirtualMachineRecord \<Rightarrow> kobj" where
  "newKiteVirtualMachineObject rec =
     newObject ''KiteVirtualMachine'' (vr_namespace rec) (vr_name rec) []
       [(''spec'', GMap (kiteVirtualMachineSpecMap (vr_spec rec)))]"

lemma newKiteVirtualMachineObject_sel [simp]:
  "k_name (newKiteVirtualMachineObject rec) = vr_name rec"
  "k_namespace (newKiteVirtualMachineObject rec) = vr_namespace rec"
  "k_finalizers (newKiteVirtualMachineObject rec) = []"
  "specOf (newKiteVirtualMachineObject rec) = kiteVirtualMachineSpecMap (vr_spec rec)"
  by (simp_all add: newKiteVirtualMachineObject_def mapValue_def)

definition VirtualMachineStore_Create :: "'s env \<Rightarrow> KiteVirtualMachineRecord \<Rightarrow> ('s, kobj result) state" where
  "VirtualMachineStore_Create E rec =
     env_create E kiteVirtualMachineGVR (vr_namespace rec) (newKiteVirtualMachineObject rec)"

definition VirtualMachineStore_Get :: "'s env \<Rightarrow> string \<Rightarrow> string \<Rightarrow> ('s, kobj result) state" where
  "VirtualMachineStore_Get E namespace name = env_get E kiteVirtualMachineGVR namespace name"

definition VirtualMachineStore_List :: "'s env \<Rightarrow> string \<Rightarrow> ('s, kobj list result) state" where
  "VirtualMachineStore_List E namespace = env_list E kiteVirtualMachineGVR namespace"

definition VirtualMachineStore_ListAll :: "'s env \<Rightarrow> ('s, kobj list result) state" where
  "VirtualMachineStore_ListAll E = env_list E kiteVirtualMachineGVR []"

text \<open>
  The closure of \<open>RetryOnConflict\<close> assigns \<open>updated\<close>; it is nil only when the closure failed, so
  the last branch of \<open>Update\<close> is never taken.
\<close>

definition updateVMOnce :: "'s env \<Rightarrow> KiteVirtualMachineRecord \<Rightarrow> ('s, kobj option result) state" where
  "updateVMOnce E rec =
     tryE (VirtualMachineStore_Get E (vr_namespace rec) (vr_name rec)) (\<lambda>current.
       tryE (env_update E kiteVirtualMachineGVR (vr_namespace rec)
               (setField ''spec'' (GMap (kiteVirtualMachineSpecMap (vr_spec rec))) current))
         (\<lambda>updated. ok (Some updated)))"

definition VirtualMachineStore_Update :: "'s env \<Rightarrow> KiteVirtualMachineRecord \<Rightarrow> ('s, kobj result) state" where
  "VirtualMachineStore_Update E rec =
     tryE (env_retry E (updateVMOnce E rec)) (\<lambda>updated.
       case updated of Some x \<Rightarrow> ok x | None \<Rightarrow> fail (Plain ''nil object''))"

definition VirtualMachineStore_Delete :: "'s env \<Rightarrow> string \<Rightarrow> string \<Rightarrow> ('s, unit result) state" where
  "VirtualMachineStore_Delete E namespace name = env_delete E kiteVirtualMachineGVR namespace name"

section \<open>KiteVirtualMachineOffer store\<close>

definition newKiteVirtualMachineOfferObject :: "KiteVirtualMachineOfferRecord \<Rightarrow> kobj" where
  "newKiteVirtualMachineOfferObject rec =
     newObject ''KiteVirtualMachineOffer'' (or_namespace rec) (or_name rec) []
       [(''spec'', GMap
          [(''cpu'', GInt (os_cpu (or_spec rec))),
           (''memory'', GStr (os_memory (or_spec rec))),
           (''image'', GStr (os_image (or_spec rec))),
           (''disk'', GStr (os_disk (or_spec rec))),
           (''expiresAt'', GStr (os_expiresAt (or_spec rec))),
           (''createdBy'', GStr (os_createdBy (or_spec rec)))])]"

definition OfferStore_Create :: "'s env \<Rightarrow> KiteVirtualMachineOfferRecord \<Rightarrow> ('s, kobj result) state" where
  "OfferStore_Create E rec =
     env_create E kiteVirtualMachineOfferGVR (or_namespace rec) (newKiteVirtualMachineOfferObject rec)"

definition OfferStore_Get :: "'s env \<Rightarrow> string \<Rightarrow> string \<Rightarrow> ('s, kobj result) state" where
  "OfferStore_Get E namespace name = env_get E kiteVirtualMachineOfferGVR namespace name"

definition OfferStore_List :: "'s env \<Rightarrow> string \<Rightarrow> ('s, kobj list result) state" where
  "OfferStore_List E namespace = env_list E kiteVirtualMachineOfferGVR namespace"

definition OfferStore_ListAll :: "'s env \<Rightarrow> ('s, kobj list result) state" where
  "OfferStore_ListAll E = env_list E kiteVirtualMachineOfferGVR []"

definition OfferStore_UpdateStatus :: "'s env \<Rightarrow> kobj \<Rightarrow> gomap \<Rightarrow> ('s, kobj result) state" where
  "OfferStore_UpdateStatus E current status =
     env_updateStatus E kiteVirtualMachineOfferGVR (k_namespace current)
       (setField ''status'' (GMap status) current)"

definition OfferStore_Delete :: "'s env \<Rightarrow> string \<Rightarrow> string \<Rightarrow> ('s, unit result) state" where
  "OfferStore_Delete E namespace name = env_delete E kiteVirtualMachineOfferGVR namespace name"

lemmas store_read_defs =
  UserStore_Get_def UserStore_List_def VirtualMachineStore_Get_def VirtualMachineStore_List_def
  VirtualMachineStore_ListAll_def OfferStore_Get_def OfferStore_List_def OfferStore_ListAll_def

section \<open>The record contract\<close>

text \<open>
  A record type is written to a CRD object by \<open>enc\<close> and read back by \<open>dec\<close>.  The contract is the
  round trip; with it, what a client decodes after a successful create is the record it wrote.
\<close>

locale record_codec =
  fixes g :: gvr
    and enc :: "'r \<Rightarrow> kobj"
    and ns :: "'r \<Rightarrow> string"
    and dec :: "kobj \<Rightarrow> 'r result"
  assumes exact: "exactGVR g"
    and enc_ns: "k_namespace (enc r) = ns r"
    and dec_enc: "dec (enc r) = Inr r"
    and dec_cong: "k_name a = k_name b \<Longrightarrow> k_namespace a = k_namespace b \<Longrightarrow>
                   objField a ''spec'' = objField b ''spec'' \<Longrightarrow> dec a = dec b"
begin

lemma enc_inj: "enc r = enc r' \<Longrightarrow> r = r'"
  using dec_enc by (metis sum.inject(2))

lemma created_dec: "created g (ns r) (enc r) v v' stored \<Longrightarrow> dec stored = Inr r"
  using dec_enc[of r] dec_cong[of stored "enc r"] exact enc_ns[of r]
  by (simp add: created_def sameMeta_def sameBody_def)

end

section \<open>Updating a virtual machine\<close>

text \<open>
  What the store's update leaves behind: either nothing changed, or the addressed VM has the new
  spec and every other object, and the VM's own status, finalizers and labels, are as before.
\<close>

definition vmSpecWritten :: "KiteVirtualMachineRecord \<Rightarrow> kobj \<Rightarrow> kobj \<Rightarrow> bool" where
  "vmSpecWritten rec cur stored \<longleftrightarrow>
     specOf stored = kiteVirtualMachineSpecMap (vr_spec rec) \<and>
     sameMeta cur stored \<and> k_namespace stored = k_namespace cur \<and>
     k_deletionTimestamp stored = k_deletionTimestamp cur \<and>
     objField stored ''status'' = objField cur ''status''"

definition vmUpdateEffect :: "KiteVirtualMachineRecord \<Rightarrow> kview \<Rightarrow> kview \<Rightarrow> kobj \<Rightarrow> bool" where
  "vmUpdateEffect rec v v' stored \<longleftrightarrow>
     (\<exists>cur. v (kiteVirtualMachineGVR, vr_namespace rec, vr_name rec) = Some cur \<and>
        vmSpecWritten rec cur stored \<and>
        (v' = v((kiteVirtualMachineGVR, vr_namespace rec, vr_name rec) \<mapsto> stored) \<or>
         v' = v((kiteVirtualMachineGVR, vr_namespace rec, vr_name rec) := None) \<and>
           k_deletionTimestamp cur \<noteq> None \<and> k_finalizers cur = []))"

context kube_api begin

lemma replaced_vmUpdateEffect:
  assumes cur: "view s (kiteVirtualMachineGVR, vr_namespace rec, vr_name rec) = Some cur"
    and rep: "replaced kiteVirtualMachineGVR (vr_namespace rec)
           (setField ''spec'' (GMap (kiteVirtualMachineSpecMap (vr_spec rec))) cur) (view s) v' stored"
  shows "vmUpdateEffect rec (view s) v' stored"
proof -
  let ?new = "setField ''spec'' (GMap (kiteVirtualMachineSpecMap (vr_spec rec))) cur"
  have key: "k_name cur = vr_name rec" "k_namespace cur = vr_namespace rec"
    using view_key[OF cur] by auto
  have meta: "sameMeta ?new stored" "sameBody kiteVirtualMachineGVR ?new stored"
      "k_namespace stored = vr_namespace rec" "k_deletionTimestamp stored = k_deletionTimestamp cur"
      "objField stored ''status'' = objField cur ''status''"
    and eff: "if k_deletionTimestamp cur \<noteq> None \<and> k_finalizers cur = []
       then v' = (view s)((kiteVirtualMachineGVR, vr_namespace rec, vr_name rec) := None)
       else v' = (view s)((kiteVirtualMachineGVR, vr_namespace rec, vr_name rec) \<mapsto> stored)"
    using rep cur key by (simp_all add: replaced_def statusGVR_def)
  have "objField stored ''spec'' = objField ?new ''spec''"
    using meta(2) unfolding sameBody_def exactGVR_def by simp
  then have "specOf stored = specOf ?new" by (rule specOf_cong)
  then have "vmSpecWritten rec cur stored"
    using meta key by (simp add: vmSpecWritten_def sameMeta_def)
  with cur eff show ?thesis
    unfolding vmUpdateEffect_def by (metis (lifting))
qed

lemma wp_updateVMOnce:
  assumes "\<And>s' e. view s' = view s \<Longrightarrow> Q (Inl e) s'"
    and "\<And>s' stored. vmUpdateEffect rec (view s) (view s') stored \<Longrightarrow> Q (Inr (Some stored)) s'"
    and "\<And>s' stored e. vmUpdateEffect rec (view s) (view s') stored \<Longrightarrow> indefinite e \<Longrightarrow> Q (Inl e) s'"
  shows "wp (updateVMOnce E rec) Q s"
  unfolding updateVMOnce_def VirtualMachineStore_Get_def wp_tryE
proof (rule wp_get, unfold sum.case)
  let ?new = "\<lambda>cur. setField ''spec'' (GMap (kiteVirtualMachineSpecMap (vr_spec rec))) cur"
  fix s' obj
  assume s': "view s' = view s" and "view s (kiteVirtualMachineGVR, vr_namespace rec, vr_name rec) = Some obj"
  then have "view s' (kiteVirtualMachineGVR, vr_namespace rec, vr_name rec) = Some obj" by simp
  note eff = replaced_vmUpdateEffect[OF this, unfolded s']
  show "wp (env_update E kiteVirtualMachineGVR (vr_namespace rec) (?new obj))
          (\<lambda>r s'. case r of Inl e \<Rightarrow> Q (Inl e) s' | Inr x \<Rightarrow> wp (ok (Some x)) Q s') s'"
    by (rule wp_update) (auto simp: wp_ok s' intro: assms eff)
qed (use assms in auto)

text \<open>A definite conflict means the attempt changed nothing, so a retried update takes effect once.\<close>

lemma wp_VirtualMachineStore_Update:
  assumes "\<And>s' e. view s' = view s \<Longrightarrow> Q (Inl e) s'"
    and "\<And>s' stored. vmUpdateEffect rec (view s) (view s') stored \<Longrightarrow> Q (Inr stored) s'"
    and "\<And>s' stored e. vmUpdateEffect rec (view s) (view s') stored \<Longrightarrow> indefinite e \<Longrightarrow> Q (Inl e) s'"
  shows "wp (VirtualMachineStore_Update E rec) Q s"
proof -
  let ?Q = "\<lambda>r s'. case r of Inl e \<Rightarrow> Q (Inl e) s'
      | Inr u \<Rightarrow> wp (case u of Some x \<Rightarrow> ok x | None \<Rightarrow> fail (Plain ''nil object'')) Q s'"
  have "wp (retry_n n (updateVMOnce E rec)) ?Q s0" if "view s0 = view s" for n s0
    using that
  proof (induction n arbitrary: s0)
    case 0
    then show ?case
      using assms by (auto simp: wp_simps intro!: wp_updateVMOnce)
  next
    case (Suc n)
    have conflict: "\<not> (indefinite e \<and> apiIsConflict e)" for e
      by (auto dest: indefinite_not_definite)
    show ?case
      unfolding retry_n.simps wp_bind
      using Suc.prems Suc.IH assms conflict
      by (auto simp: wp_simps intro!: wp_updateVMOnce split: if_splits)
  qed
  then show ?thesis
    unfolding VirtualMachineStore_Update_def wp_tryE
    using retry_law[of "updateVMOnce E rec"] by auto
qed

end

section \<open>Unique keys\<close>

text \<open>
  Several services look up every object of a resource before they write one, so that no two
  objects share an identifying spec field (an SSH id, a domain prefix, a user name, an e-mail
  address).  \<open>uniqueIn g key v\<close> is that invariant.  The locale states what the field has to
  satisfy and proves what each kind of write does to the invariant.
\<close>

definition uniqueIn :: "gvr \<Rightarrow> (kobj \<Rightarrow> string) \<Rightarrow> kview \<Rightarrow> bool" where
  "uniqueIn g key v \<longleftrightarrow>
     (\<forall>ns n ns' n' a b. v (g, ns, n) = Some a \<longrightarrow> v (g, ns', n') = Some b \<longrightarrow>
        key a \<noteq> [] \<longrightarrow> key a = key b \<longrightarrow> ns = ns' \<and> n = n')"

text \<open>No object other than the one at \<open>(ns, n)\<close> uses the key \<open>k\<close>.\<close>

definition keyFree :: "gvr \<Rightarrow> (kobj \<Rightarrow> string) \<Rightarrow> string \<Rightarrow> string \<Rightarrow> string \<Rightarrow> kview \<Rightarrow> bool" where
  "keyFree g key ns n k v \<longleftrightarrow>
     (\<forall>ns' n' a. v (g, ns', n') = Some a \<longrightarrow> \<not> (ns' = ns \<and> n' = n) \<longrightarrow> key a \<noteq> k)"

lemma keyFree_noMatch:
  assumes "\<forall>ns n x. v (g, ns, n) = Some x \<longrightarrow> \<not> P x" "\<And>x. key x = k \<Longrightarrow> P x"
  shows "\<forall>ns n. keyFree g key ns n k v"
  using assms unfolding keyFree_def by blast

locale unique_key =
  fixes g :: gvr and key :: "kobj \<Rightarrow> string"
  assumes key_cong: "objField a ''spec'' = objField b ''spec'' \<Longrightarrow> key a = key b"
begin

lemma unique_put:
  "uniqueIn g key v \<Longrightarrow> key x = [] \<or> keyFree g key ns n (key x) v \<Longrightarrow> uniqueIn g key (v((g, ns, n) \<mapsto> x))"
  unfolding uniqueIn_def keyFree_def by (auto split: if_splits; metis)

lemma unique_replace:
  assumes "uniqueIn g key v" "v (g, ns, n) = Some cur" "key x = key cur"
  shows "uniqueIn g key (v((g, ns, n) \<mapsto> x))"
  using assms unfolding uniqueIn_def by (auto split: if_splits)

lemma unique_drop: "uniqueIn g key v \<Longrightarrow> uniqueIn g key (v((g, ns, n) := None))"
  unfolding uniqueIn_def by (auto split: if_splits)

lemma unique_other: "uniqueIn g key v \<Longrightarrow> g' \<noteq> g \<Longrightarrow> uniqueIn g key (v((g', ns, n) := x))"
  unfolding uniqueIn_def by auto

lemma unique_deleted:
  assumes "uniqueIn g key v" "deleted g' ns n v v'"
  shows "uniqueIn g key v'"
proof (cases "g' = g")
  case True
  with assms(2) obtain cur where cur: "v (g, ns, n) = Some cur"
    and eff: "v' = v((g, ns, n) := None) \<or> (\<exists>stored. v' = v((g, ns, n) \<mapsto> stored) \<and> marked cur stored)"
    by (auto simp: deleted_def)
  have "marked cur stored \<Longrightarrow> key stored = key cur" for stored
    by (rule key_cong) (simp add: marked_def)
  then show ?thesis
    using eff unique_drop[OF assms(1)] unique_replace[OF assms(1) cur] by auto
next
  case False
  then show ?thesis
    using assms unique_other by (auto simp: deleted_def)
qed

lemma unique_created:
  assumes "uniqueIn g key v" "exactGVR g'" "created g' ns obj v v' stored"
    "g' = g \<Longrightarrow> key obj = [] \<or> keyFree g key ns (k_name obj) (key obj) v"
  shows "uniqueIn g key v'"
proof (cases "g' = g")
  case True
  have "key stored = key obj"
    using assms(2,3) by (intro key_cong) (simp add: created_def sameBody_def)
  then show ?thesis
    using assms True unique_put[OF assms(1)] by (simp add: created_def)
next
  case False
  then show ?thesis
    using assms unique_other by (simp add: created_def)
qed

end

text \<open>A key check over a complete list establishes \<open>keyFree\<close>.\<close>

context kube_api begin

lemma keyFree_listed:
  assumes "listed g [] (view s) items"
    and "\<not> list_ex (\<lambda>item. \<not> (k_namespace item = ns \<and> k_name item = n) \<and> key item = k) items"
  shows "keyFree g key ns n k (view s)"
  unfolding keyFree_def
proof (intro allI impI)
  fix ns' n' a assume a: "view s (g, ns', n') = Some a" "\<not> (ns' = ns \<and> n' = n)"
  then have "a \<in> set items" using assms(1) by (auto simp: listed_def)
  then show "key a \<noteq> k" using assms(2) a view_key[OF a(1)] by (auto simp: list_ex_iff)
qed

end

end
