(* ===== verification/Go_Encoding.thy ===== *)
theory Go_Encoding
  imports Kite_Prelude "HOL-Library.Word"
begin

text \<open>
  The encoders of Go's standard library that the sources use: \<open>strconv\<close> integers, \<open>encoding/hex\<close>,
  \<open>encoding/base64\<close> (standard and raw URL alphabets) and \<open>crypto/sha256\<close> with \<open>crypto/hmac\<close>.
  The round trips of the integer and base64 encoders are proved here.
\<close>

definition byteChar :: "nat \<Rightarrow> char" where
  "byteChar n = char_of n"

lemma byteOf_less [simp]: "byteOf c < 256"
  by (simp add: byteOf_def)

lemma byteOf_byteChar [simp]: "n < 256 \<Longrightarrow> byteOf (byteChar n) = n"
  by (simp add: byteOf_def byteChar_def)

lemma byteChar_byteOf [simp]: "byteChar (byteOf c) = c"
  by (simp add: byteOf_def byteChar_def)

section \<open>Hexadecimal\<close>

definition hexDigit :: "nat \<Rightarrow> char" where
  "hexDigit n = (if n < 10 then byteChar (48 + n) else byteChar (87 + n))"

definition hexEncode :: "string \<Rightarrow> string" where
  "hexEncode bs = concat (map (\<lambda>c. [hexDigit (byteOf c div 16), hexDigit (byteOf c mod 16)]) bs)"

text \<open>
  \<open>strconv.Quote\<close> and the verb \<open>%q\<close>: quotes, backslashes and ASCII control characters are escaped.  Other runes are taken to
  be printable.
\<close>

definition quotedByte :: "char \<Rightarrow> string" where
  "quotedByte c =
     (if c = CHR 0x22 \<or> c = CHR 0x5C then [CHR 0x5C, c]
      else case map_of [(CHR 0x07, CHR ''a''), (CHR 0x08, CHR ''b''), (CHR 0x09, CHR ''t''), (CHR 0x0A, CHR ''n''),
          (CHR 0x0B, CHR ''v''), (CHR 0x0C, CHR ''f''), (CHR 0x0D, CHR ''r'')] c of
        Some e \<Rightarrow> [CHR 0x5C, e]
      | None \<Rightarrow> if byteOf c < 32 \<or> byteOf c = 127 then [CHR 0x5C, CHR ''x''] @ hexEncode [c] else [c])"

definition quoted :: "string \<Rightarrow> string" where
  "quoted s = [CHR 0x22] @ concat (map quotedByte s) @ [CHR 0x22]"

text \<open>Texts of the sources that are not ASCII (they are Korean): their UTF-8 bytes are written as numbers.\<close>

definition runes :: "nat list \<Rightarrow> string" where
  "runes bytes = map byteChar bytes"

section \<open>Integers in decimal\<close>

fun natDigits :: "nat \<Rightarrow> string" where
  "natDigits n = (if n < 10 then [byteChar (48 + n)]
                  else natDigits (n div 10) @ [byteChar (48 + n mod 10)])"

declare natDigits.simps [simp del]

definition Itoa :: "int \<Rightarrow> string" where
  "Itoa i = (if i < 0 then CHR ''-'' # natDigits (nat (- i)) else natDigits (nat i))"

fun parseDigits :: "nat \<Rightarrow> string \<Rightarrow> nat option" where
  "parseDigits acc [] = Some acc"
| "parseDigits acc (c # cs) =
     (if isDigitByte c then parseDigits (10 * acc + (byteOf c - 48)) cs else None)"

text \<open>\<open>strconv.Atoi\<close> on a 64-bit platform: an optional sign, digits, and a range check.  A number
  that leaves 64 bits is reported as out of range before a later byte is looked at.\<close>

definition inInt64 :: "int \<Rightarrow> bool" where
  "inInt64 i \<longleftrightarrow> - (2 ^ 63) \<le> i \<and> i < 2 ^ 63"

definition Atoi :: "string \<Rightarrow> int result" where
  "Atoi s =
     (let failure = (\<lambda>why. Inl (Plain (''strconv.Atoi: parsing '' @ quoted s @ '': '' @ why)));
          signed = (\<lambda>sgn ds. if ds = [] then failure ''invalid syntax'' else
             case parseDigits 0 ds of
               None \<Rightarrow> (case parseDigits 0 (takeWhile isDigitByte ds) of
                   Some n \<Rightarrow> failure (if int n < 2 ^ 64 then ''invalid syntax'' else ''value out of range'')
                 | None \<Rightarrow> failure ''invalid syntax'')
             | Some n \<Rightarrow> if inInt64 (sgn * int n) then Inr (sgn * int n) else failure ''value out of range'')
      in case s of
           [] \<Rightarrow> failure ''invalid syntax''
         | c # cs \<Rightarrow>
             if c = CHR ''-'' then signed (- 1) cs
             else if c = CHR ''+'' then signed 1 cs
             else signed 1 s)"

lemma isDigitByte_digit [simp]: "n < 10 \<Longrightarrow> isDigitByte (byteChar (48 + n))"
  by (simp add: isDigitByte_def)

lemma parseDigits_append:
  "parseDigits acc (xs @ ys) = Option.bind (parseDigits acc xs) (\<lambda>n. parseDigits n ys)"
  by (induction acc xs rule: parseDigits.induct) auto

lemma parseDigits_natDigits: "parseDigits 0 (natDigits n) = Some n"
proof (induction n rule: natDigits.induct)
  case (1 n)
  show ?case
  proof (cases "n < 10")
    case True
    then show ?thesis by (subst natDigits.simps) simp
  next
    case False
    then show ?thesis
      using 1 by (subst natDigits.simps) (simp add: parseDigits_append)
  qed
qed

lemma natDigits_hd: "\<exists>c cs. natDigits n = c # cs \<and> isDigitByte c"
proof (induction n rule: natDigits.induct)
  case (1 n)
  then show ?case
    by (subst natDigits.simps) (auto split: if_splits)
qed

lemma not_digit_sign [simp]: "\<not> isDigitByte CHR ''-''" "\<not> isDigitByte CHR ''+''"
  by (simp_all add: isDigitByte_def byteOf_def)

lemma natDigits_all: "list_all isDigitByte (natDigits n)"
proof (induction n rule: natDigits.induct)
  case (1 n)
  then show ?case by (subst natDigits.simps) (simp split: if_splits)
qed

lemma Atoi_Itoa:
  assumes "inInt64 i"
  shows "Atoi (Itoa i) = Inr i"
proof -
  obtain c cs where d: "natDigits (nat i) = c # cs" "isDigitByte c" using natDigits_hd by blast
  obtain c' cs' where d': "natDigits (nat (- i)) = c' # cs'" using natDigits_hd by blast
  from d(2) have sign: "c \<noteq> CHR ''-''" "c \<noteq> CHR ''+''" by auto
  show ?thesis
    using assms d d' sign parseDigits_natDigits[of "nat i"] parseDigits_natDigits[of "nat (- i)"]
    by (auto simp: Atoi_def Itoa_def Let_def)
qed

section \<open>Base64\<close>

definition stdAlphabet :: string where
  "stdAlphabet = ''ABCDEFGHIJKLMNOPQRSTUVWXYZabcdefghijklmnopqrstuvwxyz0123456789+/''"

definition urlAlphabet :: string where
  "urlAlphabet = ''ABCDEFGHIJKLMNOPQRSTUVWXYZabcdefghijklmnopqrstuvwxyz0123456789-_''"

fun sextets :: "nat list \<Rightarrow> nat list" where
  "sextets [] = []"
| "sextets [a] = [a div 4, (a mod 4) * 16]"
| "sextets [a, b] = [a div 4, (a mod 4) * 16 + b div 16, (b mod 16) * 4]"
| "sextets (a # b # c # bs) =
     [a div 4, (a mod 4) * 16 + b div 16, (b mod 16) * 4 + c div 64, c mod 64] @ sextets bs"

definition base64Pad :: "bool \<Rightarrow> nat \<Rightarrow> string" where
  "base64Pad pad n =
     (if \<not> pad \<or> n mod 3 = 0 then [] else if n mod 3 = 1 then ''=='' else ''='')"

definition base64Encode :: "string \<Rightarrow> bool \<Rightarrow> string \<Rightarrow> string" where
  "base64Encode alphabet pad bs =
     map (\<lambda>i. alphabet ! i) (sextets (map byteOf bs)) @ base64Pad pad (length bs)"

fun findIndex :: "char \<Rightarrow> string \<Rightarrow> nat \<Rightarrow> nat option" where
  "findIndex c [] i = None"
| "findIndex c (d # ds) i = (if c = d then Some i else findIndex c ds (Suc i))"

text \<open>
  Decoding: carriage returns and newlines are skipped, padding is required exactly where the
  encoding has it, unused trailing bits are not checked.
\<close>

fun octets :: "string \<Rightarrow> bool \<Rightarrow> string \<Rightarrow> nat list option" where
  "octets al pad [] = Some []"
| "octets al pad [c] = None"
| "octets al pad [c, d] =
     (if pad then None else
      case (findIndex c al 0, findIndex d al 0) of
        (Some w, Some x) \<Rightarrow> Some [w * 4 + x div 16]
      | _ \<Rightarrow> None)"
| "octets al pad [c, d, e] =
     (if pad then None else
      case (findIndex c al 0, findIndex d al 0, findIndex e al 0) of
        (Some w, Some x, Some y) \<Rightarrow> Some [w * 4 + x div 16, (x mod 16) * 16 + y div 4]
      | _ \<Rightarrow> None)"
| "octets al pad (c # d # e # f # rest) =
     (if pad \<and> rest = [] \<and> e = CHR ''='' \<and> f = CHR ''='' then octets al False [c, d]
      else if pad \<and> rest = [] \<and> f = CHR ''='' then octets al False [c, d, e]
      else
        case (findIndex c al 0, findIndex d al 0, findIndex e al 0, findIndex f al 0) of
          (Some w, Some x, Some y, Some z) \<Rightarrow>
            map_option (\<lambda>bs. [w * 4 + x div 16, (x mod 16) * 16 + y div 4, (y mod 4) * 64 + z] @ bs)
              (octets al pad rest)
        | _ \<Rightarrow> None)"

definition base64Decode :: "string \<Rightarrow> bool \<Rightarrow> string \<Rightarrow> string result" where
  "base64Decode al pad s =
     (case octets al pad (filter (\<lambda>c. c \<noteq> CHR 0x0A \<and> c \<noteq> CHR 0x0D) s) of
        None \<Rightarrow> Inl (Plain ''illegal base64 data'')
      | Some bs \<Rightarrow> Inr (map byteChar bs))"

abbreviation "StdEncoding_EncodeToString \<equiv> base64Encode stdAlphabet True"
abbreviation "StdEncoding_DecodeString \<equiv> base64Decode stdAlphabet True"
abbreviation "RawURLEncoding_EncodeToString \<equiv> base64Encode urlAlphabet False"
abbreviation "RawURLEncoding_DecodeString \<equiv> base64Decode urlAlphabet False"

text \<open>What the round trip needs of an alphabet.\<close>

definition goodAlphabet :: "string \<Rightarrow> bool" where
  "goodAlphabet al \<longleftrightarrow> length al = 64 \<and> distinct al \<and>
     CHR ''='' \<notin> set al \<and> CHR 0x0A \<notin> set al \<and> CHR 0x0D \<notin> set al"

lemma good_std: "goodAlphabet stdAlphabet"
  by (simp add: goodAlphabet_def stdAlphabet_def)

lemma good_url: "goodAlphabet urlAlphabet"
  by (simp add: goodAlphabet_def urlAlphabet_def)

lemma findIndex_nth: "distinct al \<Longrightarrow> i < length al \<Longrightarrow> findIndex (al ! i) al k = Some (k + i)"
proof (induction al arbitrary: i k)
  case (Cons d ds)
  then show ?case
    by (cases i) (auto dest: nth_mem)
qed simp

lemma good_find [simp]: "goodAlphabet al \<Longrightarrow> i < 64 \<Longrightarrow> findIndex (al ! i) al 0 = Some i"
  using findIndex_nth[of al i 0] by (simp add: goodAlphabet_def)

lemma good_neq:
  "goodAlphabet al \<Longrightarrow> i < 64 \<Longrightarrow> al ! i \<noteq> CHR ''=''"
  "goodAlphabet al \<Longrightarrow> i < 64 \<Longrightarrow> al ! i \<noteq> CHR 0x0A"
  "goodAlphabet al \<Longrightarrow> i < 64 \<Longrightarrow> al ! i \<noteq> CHR 0x0D"
  unfolding goodAlphabet_def by (metis nth_mem)+

lemma sextets_less: "\<forall>b \<in> set bs. b < 256 \<Longrightarrow> \<forall>i \<in> set (sextets bs). i < 64"
  by (induction bs rule: sextets.induct) auto

lemma mixed_div: "k < q \<Longrightarrow> (m * q + k) div q = m" for k q m :: nat
  by simp

lemma mixed_mod: "k < q \<Longrightarrow> (m * q + k) mod q = k" for k q m :: nat
  by simp

lemma octet_arith:
  fixes a b c :: nat
  assumes "b < 256" "c < 256"
  shows "a div 4 * 4 + (a mod 4 * 16 + b div 16) div 16 = a"
    and "(a mod 4 * 16 + b div 16) mod 16 * 16 + (b mod 16 * 4 + c div 64) div 4 = b"
    and "(b mod 16 * 4 + c div 64) mod 4 * 64 + c mod 64 = c"
proof -
  have q: "b div 16 < 16" "c div 64 < 4" using assms by auto
  show "a div 4 * 4 + (a mod 4 * 16 + b div 16) div 16 = a"
    unfolding mixed_div[OF q(1)] by (rule div_mult_mod_eq)
  show "(a mod 4 * 16 + b div 16) mod 16 * 16 + (b mod 16 * 4 + c div 64) div 4 = b"
    unfolding mixed_mod[OF q(1)] mixed_div[OF q(2)] by (rule div_mult_mod_eq)
  show "(b mod 16 * 4 + c div 64) mod 4 * 64 + c mod 64 = c"
    unfolding mixed_mod[OF q(2)] by (rule div_mult_mod_eq)
qed

lemma sextet_bounds:
  fixes a b c :: nat
  assumes "a < 256" "b < 256" "c < 256"
  shows "a div 4 < 64" "a mod 4 * 16 + b div 16 < 64" "b mod 16 * 4 + c div 64 < 64"
proof -
  have "b div 16 < 16" "c div 64 < 4" using assms by auto
  moreover have "a mod 4 < 4" "b mod 16 < 16" by auto
  ultimately show "a mod 4 * 16 + b div 16 < 64" "b mod 16 * 4 + c div 64 < 64" by linarith+
  show "a div 4 < 64" using assms by auto
qed

lemma octets_sextets:
  assumes "goodAlphabet al" "\<forall>b \<in> set bs. b < 256"
  shows "octets al pad (map (\<lambda>i. al ! i) (sextets bs) @ base64Pad pad (length bs)) = Some bs"
  using assms(2)
proof (induction bs rule: sextets.induct)
  case (4 a b c bs)
  have bound: "a < 256" "b < 256" "c < 256" using "4.prems" by auto
  note less = sextet_bounds[OF bound]
  have len: "base64Pad pad (length (a # b # c # bs)) = base64Pad pad (length bs)"
    by (simp add: base64Pad_def)
  have find: "findIndex (al ! (a div 4)) al 0 = Some (a div 4)" "al ! (c mod 64) \<noteq> CHR ''=''"
    using assms(1) less(1) by (auto simp: good_neq)
  show ?case
    unfolding len
    using "4.IH" "4.prems" assms(1) less octet_arith(2)[OF bound(2,3), of a]
      octet_arith(3)[OF bound(2,3)] octet_arith(1)[OF bound(2,3), of a]
    by (simp add: find)
qed (use assms in \<open>auto simp: base64Pad_def good_neq\<close>)

lemma base64_no_newline:
  assumes "goodAlphabet al"
  shows "filter (\<lambda>c. c \<noteq> CHR 0x0A \<and> c \<noteq> CHR 0x0D) (base64Encode al pad s) = base64Encode al pad s"
  using assms sextets_less[of "map byteOf s"]
  by (auto simp: base64Encode_def filter_id_conv good_neq base64Pad_def)

lemma base64_roundtrip:
  assumes "goodAlphabet al"
  shows "base64Decode al pad (base64Encode al pad s) = Inr s"
proof -
  have "octets al pad (base64Encode al pad s) = Some (map byteOf s)"
    using octets_sextets[OF assms, of "map byteOf s" pad] by (simp add: base64Encode_def)
  then show ?thesis
    by (simp add: base64Decode_def base64_no_newline[OF assms] comp_def)
qed

lemmas base64_std [simp] = base64_roundtrip[OF good_std, of True]
lemmas base64_url [simp] = base64_roundtrip[OF good_url, of False]

section \<open>SHA-256 and HMAC\<close>

definition rotr32 :: "nat \<Rightarrow> 32 word \<Rightarrow> 32 word" where
  "rotr32 n w = word_rotr n w"

text \<open>The round constants (fractional parts of cube roots of primes) and the initial state
  (fractional parts of square roots), in decimal.\<close>

definition shaK :: "32 word list" where
  "shaK = map word_of_nat
    [1116352408, 1899447441, 3049323471, 3921009573, 961987163, 1508970993,
     2453635748, 2870763221, 3624381080, 310598401, 607225278, 1426881987,
     1925078388, 2162078206, 2614888103, 3248222580, 3835390401, 4022224774,
     264347078, 604807628, 770255983, 1249150122, 1555081692, 1996064986,
     2554220882, 2821834349, 2952996808, 3210313671, 3336571891, 3584528711,
     113926993, 338241895, 666307205, 773529912, 1294757372, 1396182291,
     1695183700, 1986661051, 2177026350, 2456956037, 2730485921, 2820302411,
     3259730800, 3345764771, 3516065817, 3600352804, 4094571909, 275423344,
     430227734, 506948616, 659060556, 883997877, 958139571, 1322822218,
     1537002063, 1747873779, 1955562222, 2024104815, 2227730452, 2361852424,
     2428436474, 2756734187, 3204031479, 3329325298]"

definition shaInit :: "32 word list" where
  "shaInit = map word_of_nat
    [1779033703, 3144134277, 1013904242, 2773480762,
     1359893119, 2600822924, 528734635, 1541459225]"

text \<open>A big-endian number of \<open>n\<close> bytes.\<close>

primrec bigEndian :: "nat \<Rightarrow> nat \<Rightarrow> string" where
  "bigEndian 0 x = []"
| "bigEndian (Suc n) x = bigEndian n (x div 256) @ [byteChar (x mod 256)]"

definition shaPad :: "string \<Rightarrow> string" where
  "shaPad msg =
     (let len = length msg; zeros = (119 - len mod 64) mod 64
      in msg @ [CHR 0x80] @ replicate zeros (CHR 0x00) @ bigEndian 8 ((8 * len) mod 2 ^ 64))"

fun wordsBE :: "string \<Rightarrow> 32 word list" where
  "wordsBE (a # b # c # d # rest) =
     word_of_nat (((byteOf a * 256 + byteOf b) * 256 + byteOf c) * 256 + byteOf d) # wordsBE rest"
| "wordsBE _ = []"

unbundle bit_operations_syntax

definition smallSigma0 :: "32 word \<Rightarrow> 32 word" where
  "smallSigma0 x = (rotr32 7 x XOR rotr32 18 x) XOR drop_bit 3 x"

definition smallSigma1 :: "32 word \<Rightarrow> 32 word" where
  "smallSigma1 x = (rotr32 17 x XOR rotr32 19 x) XOR drop_bit 10 x"

text \<open>The message schedule, kept newest word first.\<close>

fun shaSchedule :: "nat \<Rightarrow> 32 word list \<Rightarrow> 32 word list" where
  "shaSchedule 0 ws = rev ws"
| "shaSchedule (Suc n) ws =
     shaSchedule n ((smallSigma1 (ws ! 1) + ws ! 6 + smallSigma0 (ws ! 14) + ws ! 15) # ws)"

fun shaRound :: "32 word list \<Rightarrow> 32 word \<times> 32 word \<Rightarrow> 32 word list" where
  "shaRound [a, b, c, d, e, f, g, h] (k, w) =
     (let s1 = (rotr32 6 e XOR rotr32 11 e) XOR rotr32 25 e;
          ch = (e AND f) XOR (NOT e AND g);
          t1 = h + s1 + ch + k + w;
          s0 = (rotr32 2 a XOR rotr32 13 a) XOR rotr32 22 a;
          maj = ((a AND b) XOR (a AND c)) XOR (b AND c);
          t2 = s0 + maj
      in [t1 + t2, a, b, c, d + t1, e, f, g])"
| "shaRound st _ = st"

definition shaBlock :: "32 word list \<Rightarrow> 32 word list \<Rightarrow> 32 word list" where
  "shaBlock st block =
     map2 (+) st (foldl shaRound st (zip shaK (shaSchedule 48 (rev block))))"

fun shaBlocks :: "nat \<Rightarrow> 32 word list \<Rightarrow> 32 word list \<Rightarrow> 32 word list" where
  "shaBlocks 0 st ws = st"
| "shaBlocks (Suc n) st ws = shaBlocks n (shaBlock st (take 16 ws)) (drop 16 ws)"

definition Sum256 :: "string \<Rightarrow> string" where
  "Sum256 msg =
     (let ws = wordsBE (shaPad msg)
      in concat (map (\<lambda>w. bigEndian 4 (unat w)) (shaBlocks (length ws div 16) shaInit ws)))"

definition xorBytes :: "nat \<Rightarrow> string \<Rightarrow> string" where
  "xorBytes pad bs = map (\<lambda>c. byteChar (byteOf c XOR pad)) bs"

definition hmacSHA256 :: "string \<Rightarrow> string \<Rightarrow> string" where
  "hmacSHA256 key msg =
     (let k0 = (if length key > 64 then Sum256 key else key);
          k = k0 @ replicate (64 - length k0) (CHR 0x00)
      in Sum256 (xorBytes 0x5c k @ Sum256 (xorBytes 0x36 k @ msg)))"

lemma bigEndian_length [simp]: "length (bigEndian n x) = n"
  by (induction n arbitrary: x) auto

lemma shaRound_length: "length st = 8 \<Longrightarrow> length (shaRound st kw) = 8"
  by (cases kw; rule shaRound.cases[of "(st, kw)"]) (auto simp: Let_def)

lemma shaBlock_length: "length st = 8 \<Longrightarrow> length (shaBlock st block) = 8"
proof -
  assume st: "length st = 8"
  then have "length (foldl shaRound st kws) = 8" for kws
    by (induction kws arbitrary: st) (auto simp: shaRound_length)
  with st show ?thesis by (simp add: shaBlock_def)
qed

lemma shaBlocks_length: "length st = 8 \<Longrightarrow> length (shaBlocks n st ws) = 8"
  by (induction n st ws rule: shaBlocks.induct) (auto simp: shaBlock_length)

lemma Sum256_length: "length (Sum256 msg) = 32"
proof -
  have "length (concat (map (\<lambda>w. bigEndian 4 (unat w)) ws)) = 4 * length ws" for ws :: "32 word list"
    by (induction ws) auto
  then show ?thesis
    by (simp add: Sum256_def Let_def shaBlocks_length shaInit_def)
qed

end
