(* ===== verification/Auth.thy ===== *)
theory Auth
  imports Kube_Reference Go_Encoding
begin

text \<open>
  Password handling: \<open>internal/auth/password.go\<close> (bcrypt with a legacy salted SHA-256 chain) and
  \<open>internal/guestlogin/password.go\<close> (the Linux SHA-512 crypt hash of a VM's console login).
\<close>

section \<open>Gateway and account passwords\<close>

definition passwordHashIterations :: nat where
  "passwordHashIterations = 100000"

definition bcryptCost :: nat where
  "bcryptCost = 12"

definition HashPassword :: "'s env \<Rightarrow> string \<Rightarrow> string \<Rightarrow> ('s, string result) state" where
  "HashPassword E password salt =
     tryE (env_bcryptGenerate E password bcryptCost) (\<lambda>hash. ok hash)"

definition legacyHashPassword :: "string \<Rightarrow> string \<Rightarrow> string" where
  "legacyHashPassword password salt =
     hexEncode ((Sum256 ^^ (passwordHashIterations - 1)) (Sum256 (salt @ password)))"

definition isBcryptHash :: "string \<Rightarrow> bool" where
  "isBcryptHash hash \<longleftrightarrow>
     HasPrefix hash ''$2a$'' \<or> HasPrefix hash ''$2b$'' \<or> HasPrefix hash ''$2y$''"

definition constantTimeEqual :: "string \<Rightarrow> string \<Rightarrow> bool" where
  "constantTimeEqual a b \<longleftrightarrow> a = b"

definition VerifyPassword :: "'s env \<Rightarrow> string \<Rightarrow> string \<Rightarrow> string \<Rightarrow> bool" where
  "VerifyPassword E password salt expectedHash =
     (if isBcryptHash expectedHash then env_bcryptCompare E expectedHash password = None
      else constantTimeEqual (legacyHashPassword password salt) expectedHash)"

definition PasswordNeedsRehash :: "string \<Rightarrow> bool" where
  "PasswordNeedsRehash expectedHash \<longleftrightarrow> \<not> isBcryptHash expectedHash"

definition LegacyHashPassword :: "string \<Rightarrow> string \<Rightarrow> string" where
  "LegacyHashPassword password salt = legacyHashPassword password salt"

text \<open>
  What the package \<open>bcrypt\<close> documents: a generated hash has the version prefix and compares with
  the password it was made from; passwords of more than 72 bytes are refused.
\<close>

definition bcrypt_spec :: "'s env \<Rightarrow> bool" where
  "bcrypt_spec E \<longleftrightarrow>
     (\<forall>pw cost s h s'. run_state (env_bcryptGenerate E pw cost) s = (Inr h, s') \<longrightarrow>
        HasPrefix h ''$2a$'' \<and> env_bcryptCompare E h pw = None)"

definition bcrypt_limit :: "'s env \<Rightarrow> bool" where
  "bcrypt_limit E \<longleftrightarrow>
     (\<forall>pw cost s. 72 < length pw \<longrightarrow>
        fst (run_state (env_bcryptGenerate E pw cost) s) =
          Inl (Plain ''bcrypt: password length exceeds 72 bytes''))"

lemma HashPassword_run: "run_state (HashPassword E pw salt) s = run_state (env_bcryptGenerate E pw bcryptCost) s"
  by (simp add: HashPassword_def tryE_def fail_def ok_def split: prod.splits sum.splits)

lemma HashPassword_keeps: "keeps v (env_bcryptGenerate E pw bcryptCost) \<Longrightarrow> keeps v (HashPassword E pw salt)"
  unfolding HashPassword_def by auto

lemma HashPassword_verifies:
  assumes "bcrypt_spec E" "run_state (HashPassword E pw salt) s = (Inr h, s')"
  shows "VerifyPassword E pw salt' h" and "\<not> PasswordNeedsRehash h"
proof -
  have "HasPrefix h ''$2a$'' \<and> env_bcryptCompare E h pw = None"
    using assms unfolding HashPassword_run bcrypt_spec_def by blast
  then show "VerifyPassword E pw salt' h" and "\<not> PasswordNeedsRehash h"
    by (auto simp: VerifyPassword_def PasswordNeedsRehash_def isBcryptHash_def)
qed

text \<open>Some run of \<open>HashPassword\<close> on the password produced this hash.\<close>

definition hashedBy :: "'s env \<Rightarrow> string \<Rightarrow> string \<Rightarrow> string \<Rightarrow> bool" where
  "hashedBy E pw salt h \<longleftrightarrow> (\<exists>t t'. run_state (HashPassword E pw salt) t = (Inr h, t'))"

lemma hashedByI [intro]: "run_state (HashPassword E pw salt) t = (Inr h, t') \<Longrightarrow> hashedBy E pw salt h"
  unfolding hashedBy_def by blast

lemma hashedBy_verifies:
  assumes "bcrypt_spec E" "hashedBy E pw salt h"
  shows "VerifyPassword E pw salt' h \<and> \<not> PasswordNeedsRehash h"
proof -
  obtain t t' where run: "run_state (HashPassword E pw salt) t = (Inr h, t')"
    using assms(2) by (auto simp: hashedBy_def)
  show ?thesis using HashPassword_verifies[OF assms(1) run] by simp
qed

lemma mem_bcrypt_spec: "bcrypt_spec mem_env"
  by (auto simp: bcrypt_spec_def ok_def fail_def HasPrefix_def split: if_splits)

lemma mem_bcrypt_limit: "bcrypt_limit mem_env"
  by (simp add: bcrypt_limit_def fail_def)

section \<open>Guest login hashes\<close>

definition PasswordHashKey :: string where
  "PasswordHashKey = ''passwordHash''"

definition passwordSaltLength :: nat where
  "passwordSaltLength = 16"

definition passwordSaltChars :: string where
  "passwordSaltChars = ''./0123456789ABCDEFGHIJKLMNOPQRSTUVWXYZabcdefghijklmnopqrstuvwxyz''"

definition SecretName :: "string \<Rightarrow> string" where
  "SecretName vmName = TrimSpace vmName @ ''-guest-login''"

primrec randomSaltLoop :: "'s env \<Rightarrow> nat \<Rightarrow> string \<Rightarrow> ('s, string result) state" where
  "randomSaltLoop E 0 built = ok built"
| "randomSaltLoop E (Suc n) built = do {
     index \<leftarrow> env_randInt E (length passwordSaltChars);
     case index of
       Inl e \<Rightarrow> fail (Wrapped ''generate Linux guest password salt: '' e [])
     | Inr i \<Rightarrow> randomSaltLoop E n (built @ [passwordSaltChars ! i])
   }"

definition randomSalt :: "'s env \<Rightarrow> ('s, string result) state" where
  "randomSalt E = randomSaltLoop E passwordSaltLength []"

definition GeneratePasswordHash :: "'s env \<Rightarrow> string \<Rightarrow> ('s, string result) state" where
  "GeneratePasswordHash E password =
     tryE (randomSalt E) (\<lambda>salt.
       case env_crypt E password (''$6$rounds=500000$'' @ salt) of
         Inl e \<Rightarrow> fail (Wrapped ''generate Linux guest password hash: '' e [])
       | Inr hashed \<Rightarrow> ok hashed)"

lemma randomSaltLoop_keeps:
  "keeps v (env_randInt E (length passwordSaltChars)) \<Longrightarrow> keeps v (randomSaltLoop E n built)"
  by (induction n arbitrary: built) auto

lemma GeneratePasswordHash_keeps:
  "keeps v (env_randInt E (length passwordSaltChars)) \<Longrightarrow> keeps v (GeneratePasswordHash E pw)"
  unfolding GeneratePasswordHash_def randomSalt_def
  by (intro keeps_tryE randomSaltLoop_keeps) auto

text \<open>\<open>rand.Int\<close> returns an index below its bound, so the salt stays inside the alphabet.\<close>

definition randInt_spec :: "'s env \<Rightarrow> bool" where
  "randInt_spec E \<longleftrightarrow>
     (\<forall>n s i s'. 0 < n \<longrightarrow> run_state (env_randInt E n) s = (Inr i, s') \<longrightarrow> i < n)"

lemma randomSaltLoop_shape:
  assumes "randInt_spec E" "set built \<subseteq> set passwordSaltChars"
    "run_state (randomSaltLoop E n built) s = (Inr salt, s')"
  shows "length salt = length built + n \<and> set salt \<subseteq> set passwordSaltChars"
  using assms(2,3)
proof (induction n arbitrary: built s)
  case 0
  then show ?case by (simp add: ok_def)
next
  case (Suc n)
  let ?k = "length passwordSaltChars"
  have pos: "0 < ?k" by (simp add: passwordSaltChars_def)
  from Suc.prems obtain i t where i: "run_state (env_randInt E ?k) s = (Inr i, t)"
    and rest: "run_state (randomSaltLoop E n (built @ [passwordSaltChars ! i])) t = (Inr salt, s')"
    by (auto simp: fail_def split: prod.splits sum.splits)
  have "i < ?k" using assms(1) i pos unfolding randInt_spec_def by blast
  then have "set (built @ [passwordSaltChars ! i]) \<subseteq> set passwordSaltChars"
    using Suc.prems(1) by auto
  from Suc.IH[OF this rest] show ?case by simp
qed

lemma randomSalt_shape:
  assumes "randInt_spec E" "run_state (randomSalt E) s = (Inr salt, s')"
  shows "length salt = passwordSaltLength \<and> set salt \<subseteq> set passwordSaltChars"
  using randomSaltLoop_shape[of E "[]"] assms by (simp add: randomSalt_def)

end
