(* ===== verification/VM_Service.thy ===== *)
theory VM_Service
  imports Store Auth
begin

text \<open>
  \<open>internal/vm/service.go\<close>: the operations \<open>kite-api\<close> performs on KiteVirtualMachine resources.
  Requests are normalised and validated (\<open>createRecord\<close>, \<open>applyUpdate\<close>), identifiers are checked
  against every VM of the cluster, the CRD and its guest-login Secret are written, and a failed
  Secret write rolls the CRD back.
\<close>

section \<open>Constants and patterns\<close>

definition ErrorKindInvalid :: string where
  "ErrorKindInvalid = ''invalid''"

definition ErrorKindConflict :: string where
  "ErrorKindConflict = ''conflict''"

definition invalid :: "string \<Rightarrow> goerr" where
  "invalid message = ReqErr PkgVM ErrorKindInvalid message"

definition conflict :: "string \<Rightarrow> goerr" where
  "conflict message = ReqErr PkgVM ErrorKindConflict message"

definition minDiskSize :: string where
  "minDiskSize = ''20Gi''"

definition maxSSHPasswordLen :: nat where
  "maxSSHPasswordLen = 128"

definition maxDomainPrefixLen :: nat where
  "maxDomainPrefixLen = 63"

definition kiteSecretTypeLabel :: string where
  "kiteSecretTypeLabel = ''hy3ons.github.io/secret-type''"

definition kiteVMGuestLoginSecretType :: string where
  "kiteVMGuestLoginSecretType = ''kite-vm-guest-login''"

text \<open>The regular expression \<open>^[a-z_][a-z0-9_-]{0,31}$\<close>.\<close>

fun sshIDPattern :: "string \<Rightarrow> bool" where
  "sshIDPattern [] = False"
| "sshIDPattern (c # cs) \<longleftrightarrow>
     (isLowerByte c \<or> c = CHR ''_'') \<and> length cs \<le> 31 \<and>
     list_all (\<lambda>d. isLowerByte d \<or> isDigitByte d \<or> d = CHR ''_'' \<or> d = CHR ''-'') cs"

definition labelByte :: "char \<Rightarrow> bool" where
  "labelByte c \<longleftrightarrow> isLowerByte c \<or> isDigitByte c"

text \<open>The regular expression \<open>^[a-z0-9]([-a-z0-9]{0,61}[a-z0-9])?$\<close>.\<close>

definition domainPrefixPattern :: "string \<Rightarrow> bool" where
  "domainPrefixPattern s \<longleftrightarrow>
     s \<noteq> [] \<and> labelByte (hd s) \<and> labelByte (last s) \<and> length s \<le> 63 \<and>
     list_all (\<lambda>c. labelByte c \<or> c = CHR ''-'') s"

definition reservedDomainPrefixes :: "string list" where
  "reservedDomainPrefixes =
     [''admin'', ''api'', ''assets'', ''auth'', ''console'', ''dashboard'', ''kite'', ''kite-api'',
      ''ssh'', ''www'']"

section \<open>Requests and responses\<close>

record CreateRequest =
  cr_name :: string
  cr_namespace :: string
  cr_cpu :: int
  cr_memory :: string
  cr_image :: string
  cr_disk :: string
  cr_domainPrefix :: string
  cr_sshID :: string
  cr_sshPassword :: string
  cr_powerState :: string

record UpdateRequest =
  up_cpu :: "int option"
  up_memory :: "string option"
  up_image :: "string option"
  up_disk :: "string option"
  up_domainPrefix :: "string option"
  up_sshID :: "string option"
  up_sshPassword :: "string option"
  up_powerState :: "string option"
  up_delete :: "bool option"

definition emptyUpdate :: UpdateRequest where
  "emptyUpdate = \<lparr>up_cpu = None, up_memory = None, up_image = None, up_disk = None,
     up_domainPrefix = None, up_sshID = None, up_sshPassword = None, up_powerState = None,
     up_delete = None\<rparr>"

record VirtualMachine =
  vm_id :: string
  vm_name :: string
  vm_namespace :: string
  vm_owner :: string
  vm_domain :: string
  vm_phase :: string
  vm_powerState :: string
  vm_currentPowerState :: string
  vm_cpu :: int
  vm_memory :: string
  vm_image :: string
  vm_disk :: string
  vm_domainPrefix :: string
  vm_sshID :: string
  vm_delete :: bool
  vm_dataVolumePhase :: string
  vm_dataVolumeProgress :: string
  vm_dataVolumeMessage :: string

section \<open>Validation\<close>

definition validateDomainPrefix :: "string \<Rightarrow> unit result" where
  "validateDomainPrefix domainPrefix0 =
     (let domainPrefix = TrimSpace domainPrefix0 in
      if domainPrefix = [] then Inl (invalid ''domainPrefix is required'')
      else if length domainPrefix > maxDomainPrefixLen then
        Inl (invalid ''domainPrefix must be at most 63 characters'')
      else if \<not> domainPrefixPattern domainPrefix then
        Inl (invalid ''domainPrefix must be a lowercase DNS label'')
      else if domainPrefix \<in> set reservedDomainPrefixes then
        Inl (invalid ''domainPrefix is reserved for Kite platform routes'')
      else Inr ())"

text \<open>
  \<open>minimumDiskQuantity\<close> is a package variable, \<open>resource.MustParse("20Gi")\<close>: were it not to parse,
  the program would not start.
\<close>

definition minimumDiskQuantity :: "'s env \<Rightarrow> int" where
  "minimumDiskQuantity E = (case env_quantity E minDiskSize of Inr q \<Rightarrow> q | Inl _ \<Rightarrow> 0)"

definition validateDisk :: "'s env \<Rightarrow> string \<Rightarrow> unit result" where
  "validateDisk E disk =
     (case env_quantity E (TrimSpace disk) of
        Inl _ \<Rightarrow> Inl (invalid ''disk must be a valid Kubernetes quantity'')
      | Inr quantity \<Rightarrow>
          if quantity < minimumDiskQuantity E then Inl (invalid ''disk must be at least 20Gi'')
          else Inr ())"

text \<open>
  The loop over the runes of the password looks for control characters; all of them are ASCII,
  and no byte of a longer UTF-8 sequence is below 0x80.
\<close>

definition validateSSHPassword :: "string \<Rightarrow> unit result" where
  "validateSSHPassword password =
     (if password = [] then Inl (invalid ''sshPassword is required'')
      else if password \<noteq> TrimSpace password then
        Inl (invalid ''sshPassword must not start or end with whitespace'')
      else if length password > maxSSHPasswordLen then
        Inl (invalid ''sshPassword must be at most 128 bytes'')
      else if CHR '':'' \<in> set password then
        Inl (invalid ''sshPassword must not contain colon'')
      else if list_ex (\<lambda>r. byteOf r < 32 \<or> byteOf r = 127) password then
        Inl (invalid ''sshPassword must not contain control characters'')
      else Inr ())"

section \<open>Records from requests and objects\<close>

definition trimCreateRequest :: "CreateRequest \<Rightarrow> CreateRequest" where
  "trimCreateRequest req = req\<lparr>
     cr_name := TrimSpace (cr_name req),
     cr_namespace := TrimSpace (cr_namespace req),
     cr_memory := TrimSpace (cr_memory req),
     cr_image := TrimSpace (cr_image req),
     cr_disk := TrimSpace (cr_disk req),
     cr_domainPrefix := TrimSpace (cr_domainPrefix req),
     cr_sshID := TrimSpace (cr_sshID req),
     cr_powerState := TrimSpace (cr_powerState req)\<rparr>"

text \<open>The defaults of an otherwise complete request.\<close>

definition defaultCreateRequest :: "CreateRequest \<Rightarrow> CreateRequest" where
  "defaultCreateRequest req = req\<lparr>
     cr_cpu := (if cr_cpu req = 0 then 2 else cr_cpu req),
     cr_memory := (if cr_memory req = [] then ''4Gi'' else cr_memory req),
     cr_image := (if cr_image req = [] then ''ubuntu-22.04'' else cr_image req),
     cr_powerState := (if cr_powerState req = [] then ''Off'' else cr_powerState req)\<rparr>"

definition recordFromRequest :: "CreateRequest \<Rightarrow> KiteVirtualMachineRecord" where
  "recordFromRequest req =
     \<lparr>vr_name = cr_name req, vr_namespace = cr_namespace req,
      vr_spec =
        \<lparr>vs_cpu = cr_cpu req, vs_memory = cr_memory req, vs_image = cr_image req,
         vs_disk = cr_disk req, vs_powerState = cr_powerState req,
         vs_domainPrefix = cr_domainPrefix req, vs_sshID = cr_sshID req,
         vs_sshPasswordHash = [], vs_delete = False\<rparr>\<rparr>"

text \<open>\<open>createRecord\<close> after the name is settled: defaults, then the checks in source order.\<close>

definition checkCreateRequest :: "'s env \<Rightarrow> CreateRequest \<Rightarrow> KiteVirtualMachineRecord result" where
  "checkCreateRequest E named =
     (if cr_namespace named = [] then Inl (invalid ''namespace is required'') else
      let req = defaultCreateRequest named in
      if cr_disk req = [] \<or> cr_sshID req = [] \<or> cr_sshPassword req = [] then
        Inl (invalid ''disk, sshId, and sshPassword are required'')
      else case validateSSHPassword (cr_sshPassword req) of Inl e \<Rightarrow> Inl e | Inr _ \<Rightarrow>
      case validateDisk E (cr_disk req) of Inl e \<Rightarrow> Inl e | Inr _ \<Rightarrow>
      if \<not> sshIDPattern (cr_sshID req) then
        Inl (invalid ''sshId must be a Linux username using lowercase letters, numbers, underscore, or hyphen'')
      else case validateDomainPrefix (cr_domainPrefix req) of Inl e \<Rightarrow> Inl e | Inr _ \<Rightarrow>
      if cr_cpu req < 1 then Inl (invalid ''cpu must be greater than zero'')
      else if cr_powerState req \<noteq> ''On'' \<and> cr_powerState req \<noteq> ''Off'' then
        Inl (invalid ''powerState must be On or Off'')
      else Inr (recordFromRequest req))"

definition createRecord :: "'s env \<Rightarrow> CreateRequest \<Rightarrow> ('s, KiteVirtualMachineRecord result) state" where
  "createRecord E req0 = do {
     let req = trimCreateRequest req0;
     name \<leftarrow> (if cr_name req = [] then do { u \<leftarrow> env_uuid E; State_Monad.return (''vm-'' @ u) }
              else State_Monad.return (cr_name req));
     State_Monad.return (checkCreateRequest E (req\<lparr>cr_name := name\<rparr>))
   }"

definition recordFromObject :: "kobj \<Rightarrow> KiteVirtualMachineRecord result" where
  "recordFromObject obj =
     (case asMap (objField obj ''spec'') of
        None \<Rightarrow> Inl (invalid ''invalid kite virtual machine spec'')
      | Some spec \<Rightarrow> Inr
          \<lparr>vr_name = k_name obj, vr_namespace = k_namespace obj,
           vr_spec =
             \<lparr>vs_cpu = intValue spec ''cpu'', vs_memory = stringValue spec ''memory'',
              vs_image = stringValue spec ''image'', vs_disk = stringValue spec ''disk'',
              vs_powerState = stringValue spec ''powerState'',
              vs_domainPrefix = stringValue spec ''domainPrefix'',
              vs_sshID = stringValue spec ''sshId'',
              vs_sshPasswordHash = stringValue spec ''sshPasswordHash'',
              vs_delete = boolValue spec ''delete''\<rparr>\<rparr>)"

text \<open>
  \<open>applyUpdate\<close> modifies the record in place, field by field; an error abandons the record, so the
  model returns the updated spec or the first error.
\<close>

definition optUpd :: "'a option \<Rightarrow> ('a \<Rightarrow> 'r \<Rightarrow> 'r result) \<Rightarrow> 'r \<Rightarrow> 'r result" where
  "optUpd field f r = (case field of None \<Rightarrow> Inr r | Some x \<Rightarrow> f x r)"

definition applySpecUpdate :: "'s env \<Rightarrow> UpdateRequest \<Rightarrow> KiteVirtualMachineSpec \<Rightarrow> KiteVirtualMachineSpec result" where
  "applySpecUpdate E req spec0 =
     (case optUpd (up_cpu req) (\<lambda>cpu spec.
        if cpu < 1 then Inl (invalid ''cpu must be greater than zero'')
        else Inr (spec\<lparr>vs_cpu := cpu\<rparr>)) spec0 of Inl e \<Rightarrow> Inl e | Inr spec1 \<Rightarrow>
      case optUpd (up_memory req) (\<lambda>memory spec. Inr (spec\<lparr>vs_memory := TrimSpace memory\<rparr>)) spec1
        of Inl e \<Rightarrow> Inl e | Inr spec2 \<Rightarrow>
      case optUpd (up_image req) (\<lambda>image spec. Inr (spec\<lparr>vs_image := TrimSpace image\<rparr>)) spec2
        of Inl e \<Rightarrow> Inl e | Inr spec3 \<Rightarrow>
      case optUpd (up_disk req) (\<lambda>disk spec.
        case validateDisk E (TrimSpace disk) of Inl e \<Rightarrow> Inl e
        | Inr _ \<Rightarrow> Inr (spec\<lparr>vs_disk := TrimSpace disk\<rparr>)) spec3 of Inl e \<Rightarrow> Inl e | Inr spec4 \<Rightarrow>
      case optUpd (up_domainPrefix req) (\<lambda>domainPrefix spec.
        case validateDomainPrefix (TrimSpace domainPrefix) of Inl e \<Rightarrow> Inl e
        | Inr _ \<Rightarrow> Inr (spec\<lparr>vs_domainPrefix := TrimSpace domainPrefix\<rparr>)) spec4
        of Inl e \<Rightarrow> Inl e | Inr spec5 \<Rightarrow>
      case optUpd (up_sshID req) (\<lambda>sshID spec.
        if \<not> sshIDPattern (TrimSpace sshID) then
          Inl (invalid ''sshId must be a Linux username using lowercase letters, numbers, underscore, or hyphen'')
        else Inr (spec\<lparr>vs_sshID := TrimSpace sshID\<rparr>)) spec5 of Inl e \<Rightarrow> Inl e | Inr spec6 \<Rightarrow>
      if up_sshPassword req \<noteq> None then
        Inl (invalid ''sshPassword cannot be changed after VM creation'')
      else
      case optUpd (up_powerState req) (\<lambda>powerState0 spec.
        let powerState = TrimSpace powerState0 in
        if powerState \<noteq> ''On'' \<and> powerState \<noteq> ''Off'' then
          Inl (invalid ''powerState must be On or Off'')
        else Inr (spec\<lparr>vs_powerState := powerState\<rparr>)) spec6 of Inl e \<Rightarrow> Inl e | Inr spec7 \<Rightarrow>
      optUpd (up_delete req) (\<lambda>delete spec. Inr (spec\<lparr>vs_delete := delete\<rparr>)) spec7)"

definition applyUpdate :: "'s env \<Rightarrow> KiteVirtualMachineRecord \<Rightarrow> UpdateRequest \<Rightarrow> KiteVirtualMachineRecord result" where
  "applyUpdate E rec req =
     (case applySpecUpdate E req (vr_spec rec) of
        Inl e \<Rightarrow> Inl e
      | Inr spec \<Rightarrow> Inr (rec\<lparr>vr_spec := spec\<rparr>))"

definition vmFromObject :: "kobj \<Rightarrow> VirtualMachine" where
  "vmFromObject obj =
     (let spec = specOf obj; status = statusOf obj; phase = stringValue status ''phase'' in
      \<lparr>vm_id = k_namespace obj @ ''/'' @ k_name obj,
       vm_name = k_name obj,
       vm_namespace = k_namespace obj,
       vm_owner = k_namespace obj,
       vm_domain = stringValue status ''domain'',
       vm_phase = (if phase = [] then ''Creating'' else phase),
       vm_powerState = stringValue spec ''powerState'',
       vm_currentPowerState = stringValue status ''currentPowerState'',
       vm_cpu = intValue spec ''cpu'',
       vm_memory = stringValue spec ''memory'',
       vm_image = stringValue spec ''image'',
       vm_disk = stringValue spec ''disk'',
       vm_domainPrefix = stringValue spec ''domainPrefix'',
       vm_sshID = stringValue spec ''sshId'',
       vm_delete = boolValue spec ''delete'',
       vm_dataVolumePhase = stringValue status ''dataVolumePhase'',
       vm_dataVolumeProgress = stringValue status ''dataVolumeProgress'',
       vm_dataVolumeMessage = stringValue status ''dataVolumeMessage''\<rparr>)"

definition vmsFromList :: "kobj list \<Rightarrow> VirtualMachine list" where
  "vmsFromList items = map vmFromObject items"

text \<open>
  \<open>NormalizeDisk\<close> switches on the dynamic type: \<open>float64\<close>, \<open>int\<close>, \<open>string\<close>, anything else.
\<close>

definition NormalizeDisk :: "gov \<Rightarrow> string" where
  "NormalizeDisk v =
     (case v of
        GFloat typed \<Rightarrow> Itoa typed @ ''Gi''
      | GInt typed \<Rightarrow> Itoa typed @ ''Gi''
      | GStr typed \<Rightarrow>
          (let trimmed = TrimSpace typed in
           if trimmed = [] then []
           else case Atoi trimmed of Inr _ \<Rightarrow> trimmed @ ''Gi'' | Inl _ \<Rightarrow> trimmed)
      | _ \<Rightarrow> [])"

definition RequestErrorKind :: "goerr \<Rightarrow> string option" where
  "RequestErrorKind e = (case e of ReqErr p kind _ \<Rightarrow> if p = PkgVM then Some kind else None | _ \<Rightarrow> None)"

definition VM_IsNotFound :: "goerr \<Rightarrow> bool" where
  "VM_IsNotFound e = apiIsNotFound e"

definition ConflictMessage :: "goerr \<Rightarrow> string" where
  "ConflictMessage e =
     (if apiIsAlreadyExists e then ''kite virtual machine already exists''
      else case e of
        ReqErr p kind message \<Rightarrow> if p = PkgVM \<and> kind = ErrorKindConflict then message else []
      | _ \<Rightarrow> [])"

section \<open>Service operations\<close>

definition vmKeyOf :: "string \<Rightarrow> kobj \<Rightarrow> string" where
  "vmKeyOf field obj = TrimSpace (stringValue (specOf obj) field)"

definition ensureUniqueSSHID :: "'s env \<Rightarrow> string \<Rightarrow> string \<Rightarrow> string \<Rightarrow> ('s, unit result) state" where
  "ensureUniqueSSHID E sshID0 currentNamespace currentName =
     (let sshID = TrimSpace sshID0 in
      if sshID = [] then fail (invalid ''sshId is required'')
      else tryE (VirtualMachineStore_ListAll E) (\<lambda>items.
        if list_ex (\<lambda>item.
             \<not> (k_namespace item = currentNamespace \<and> k_name item = currentName) \<and>
             vmKeyOf ''sshId'' item = sshID) items
        then fail (conflict ''sshId is already used by another virtual machine'')
        else ok ()))"

definition ensureUniqueDomainPrefix :: "'s env \<Rightarrow> string \<Rightarrow> string \<Rightarrow> string \<Rightarrow> ('s, unit result) state" where
  "ensureUniqueDomainPrefix E domainPrefix0 currentNamespace currentName =
     (let domainPrefix = TrimSpace domainPrefix0 in
      if domainPrefix = [] then ok ()
      else tryE (VirtualMachineStore_ListAll E) (\<lambda>items.
        if list_ex (\<lambda>item.
             \<not> (k_namespace item = currentNamespace \<and> k_name item = currentName) \<and>
             vmKeyOf ''domainPrefix'' item = domainPrefix) items
        then fail (conflict ''domainPrefix is already used by another virtual machine'')
        else ok ()))"

definition newGuestLoginSecret :: "KiteVirtualMachineRecord \<Rightarrow> string \<Rightarrow> kobj" where
  "newGuestLoginSecret rec guestPasswordHash =
     newObject ''Secret'' (vr_namespace rec) (SecretName (vr_name rec))
       [(''hy3ons.github.io/managed-by'', ''kite-controller''),
        (kiteSecretTypeLabel, kiteVMGuestLoginSecretType),
        (''hy3ons.github.io/kite-vm-name'', vr_name rec),
        (''hy3ons.github.io/kite-vm-namespace'', vr_namespace rec)]
       [(''type'', GStr ''Opaque''),
        (''data'', GMap [(PasswordHashKey, GStr (StdEncoding_EncodeToString guestPasswordHash))])]"

definition createGuestLoginSecret :: "'s env \<Rightarrow> KiteVirtualMachineRecord \<Rightarrow> string \<Rightarrow> ('s, unit result) state" where
  "createGuestLoginSecret E rec guestPasswordHash = do {
     r \<leftarrow> env_create E secretGVR (vr_namespace rec) (newGuestLoginSecret rec guestPasswordHash);
     case r of
       Inl e \<Rightarrow> fail (Wrapped (''failed to create guest login Secret '' @ vr_namespace rec @ ''/'' @
                 SecretName (vr_name rec) @ '': '') e [])
     | Inr _ \<Rightarrow> ok ()
   }"

definition rollbackText :: string where
  "rollbackText = ''; failed to roll back virtual machine after guest login Secret error: ''"

text \<open>The part of \<open>Create\<close> that writes: CRD, Secret, and the rollback of the CRD.\<close>

definition writeVM :: "'s env \<Rightarrow> KiteVirtualMachineRecord \<Rightarrow> string \<Rightarrow> ('s, VirtualMachine result) state" where
  "writeVM E rec guestPasswordHash =
     tryE (VirtualMachineStore_Create E rec) (\<lambda>createdObj. do {
       r \<leftarrow> createGuestLoginSecret E rec guestPasswordHash;
       case r of
         Inr _ \<Rightarrow> ok (vmFromObject createdObj)
       | Inl e \<Rightarrow> do {
           cleanup \<leftarrow> VirtualMachineStore_Delete E (vr_namespace rec) (vr_name rec);
           case cleanup of
             Inl cleanupErr \<Rightarrow>
               if \<not> apiIsNotFound cleanupErr
               then fail (Wrapped [] e (rollbackText @ errText cleanupErr))
               else fail e
           | Inr _ \<Rightarrow> fail e
         }
     })"

definition VM_Create :: "'s env \<Rightarrow> string \<Rightarrow> CreateRequest \<Rightarrow> ('s, VirtualMachine result) state" where
  "VM_Create E passwordSalt req =
     (if passwordSalt = [] then fail (invalid ''password salt is required'') else
      tryE (createRecord E req) (\<lambda>rec0.
      tryE (HashPassword E (cr_sshPassword req) passwordSalt) (\<lambda>passwordHash.
      let rec = rec0\<lparr>vr_spec := (vr_spec rec0)\<lparr>vs_sshPasswordHash := passwordHash\<rparr>\<rparr> in
      tryE (ensureUniqueSSHID E (vs_sshID (vr_spec rec)) [] []) (\<lambda>_.
      tryE (ensureUniqueDomainPrefix E (vs_domainPrefix (vr_spec rec)) [] []) (\<lambda>_.
      tryE (GeneratePasswordHash E (cr_sshPassword req)) (\<lambda>guestPasswordHash.
      writeVM E rec guestPasswordHash))))))"

definition VM_List :: "'s env \<Rightarrow> string \<Rightarrow> ('s, VirtualMachine list result) state" where
  "VM_List E namespace =
     tryE (VirtualMachineStore_List E namespace) (\<lambda>items. ok (vmsFromList items))"

definition VM_ListAll :: "'s env \<Rightarrow> ('s, VirtualMachine list result) state" where
  "VM_ListAll E = tryE (VirtualMachineStore_ListAll E) (\<lambda>items. ok (vmsFromList items))"

definition VM_Get :: "'s env \<Rightarrow> string \<Rightarrow> string \<Rightarrow> ('s, VirtualMachine result) state" where
  "VM_Get E namespace name =
     tryE (VirtualMachineStore_Get E namespace name) (\<lambda>obj. ok (vmFromObject obj))"

definition VM_Update :: "'s env \<Rightarrow> string \<Rightarrow> string \<Rightarrow> string \<Rightarrow> UpdateRequest \<Rightarrow> ('s, VirtualMachine result) state" where
  "VM_Update E passwordSalt namespace name req =
     (if passwordSalt = [] then fail (invalid ''password salt is required'') else
      tryE (VirtualMachineStore_Get E namespace name) (\<lambda>current.
      tryE (State_Monad.return (recordFromObject current)) (\<lambda>rec0.
      tryE (State_Monad.return (applyUpdate E rec0 req)) (\<lambda>rec.
      tryE (if up_sshID req \<noteq> None
            then ensureUniqueSSHID E (vs_sshID (vr_spec rec)) namespace name else ok ()) (\<lambda>_.
      tryE (if up_domainPrefix req \<noteq> None
            then ensureUniqueDomainPrefix E (vs_domainPrefix (vr_spec rec)) namespace name else ok ()) (\<lambda>_.
      tryE (VirtualMachineStore_Update E rec) (\<lambda>updated. ok (vmFromObject updated))))))))"

definition MarkDelete :: "'s env \<Rightarrow> string \<Rightarrow> string \<Rightarrow> string \<Rightarrow> ('s, VirtualMachine result) state" where
  "MarkDelete E passwordSalt namespace name =
     VM_Update E passwordSalt namespace name (emptyUpdate\<lparr>up_delete := Some True\<rparr>)"

section \<open>Well-formed specs\<close>

text \<open>
  What the service promises about a spec it writes: a positive CPU count, a power state of the
  two allowed ones, an SSH id that is a Linux user name, a domain prefix that is a DNS label and
  not one of the platform's own, and a disk of at least 20Gi.
\<close>

definition validDomain :: "string \<Rightarrow> bool" where
  "validDomain d \<longleftrightarrow> domainPrefixPattern d \<and> d \<notin> set reservedDomainPrefixes"

definition validDisk :: "'s env \<Rightarrow> string \<Rightarrow> bool" where
  "validDisk E d \<longleftrightarrow> (\<exists>q. env_quantity E d = Inr q \<and> minimumDiskQuantity E \<le> q)"

definition wfVMSpec :: "'s env \<Rightarrow> KiteVirtualMachineSpec \<Rightarrow> bool" where
  "wfVMSpec E spec \<longleftrightarrow>
     1 \<le> vs_cpu spec \<and> vs_powerState spec \<in> {''On'', ''Off''} \<and>
     sshIDPattern (vs_sshID spec) \<and> validDomain (vs_domainPrefix spec) \<and>
     validDisk E (vs_disk spec)"

definition validPassword :: "string \<Rightarrow> bool" where
  "validPassword pw \<longleftrightarrow>
     pw \<noteq> [] \<and> TrimSpace pw = pw \<and> length pw \<le> 128 \<and>
     (\<forall>c \<in> set pw. 32 \<le> byteOf c \<and> byteOf c \<noteq> 127 \<and> c \<noteq> CHR '':'')"

lemma labelByte_solid: "labelByte c \<Longrightarrow> solidByte c"
  by (auto simp: labelByte_def isLowerByte_def isDigitByte_def solidByte_def)

lemma domainPrefixPattern_trim: "domainPrefixPattern d \<Longrightarrow> TrimSpace d = d"
  by (rule TrimSpace_solid) (auto simp: domainPrefixPattern_def labelByte_solid)

lemma sshIDPattern_solid: "sshIDPattern s \<Longrightarrow> list_all solidByte s"
  by (cases s)
     (auto simp: list_all_iff isLowerByte_def isDigitByte_def solidByte_def byteOf_def)

lemma sshIDPattern_trim: "sshIDPattern s \<Longrightarrow> TrimSpace s = s"
  using sshIDPattern_solid[of s] by (intro TrimSpace_solid) (cases s; auto simp: list_all_iff)+

lemma sshIDPattern_nonempty: "sshIDPattern s \<Longrightarrow> s \<noteq> []"
  by auto

text \<open>A chain of checks succeeds when each of them does.\<close>

lemma check_then:
  "((case r of Inl e \<Rightarrow> Inl e | Inr _ \<Rightarrow> k) = Inr x) \<longleftrightarrow> r = Inr () \<and> k = Inr x" for r :: "unit result"
  by (cases r) auto

lemma guard_then: "((if c then Inl e else k) = Inr x) \<longleftrightarrow> \<not> c \<and> k = Inr x"
  by simp

lemma validateDomainPrefix_iff:
  "validateDomainPrefix d = Inr () \<longleftrightarrow> validDomain (TrimSpace d)"
  by (auto simp: validateDomainPrefix_def validDomain_def domainPrefixPattern_def Let_def
      maxDomainPrefixLen_def)

lemma validateDisk_iff: "validateDisk E d = Inr () \<longleftrightarrow> validDisk E (TrimSpace d)"
  by (auto simp: validateDisk_def validDisk_def split: sum.splits)

lemma validateSSHPassword_iff: "validateSSHPassword pw = Inr () \<longleftrightarrow> validPassword pw"
proof -
  have bytes: "\<not> list_ex (\<lambda>r. byteOf r < 32 \<or> byteOf r = 127) pw \<longleftrightarrow>
    (\<forall>c \<in> set pw. 32 \<le> byteOf c \<and> byteOf c \<noteq> 127)"
    by (auto simp: list_ex_iff)
  show ?thesis
    unfolding validateSSHPassword_def validPassword_def guard_then bytes maxSSHPasswordLen_def not_less
      not_not eq_commute[of pw "TrimSpace pw"]
    by blast
qed

lemma validPassword_nonempty: "validPassword pw \<Longrightarrow> pw \<noteq> []"
  by (simp add: validPassword_def)

text \<open>The decision of \<open>createRecord\<close> on a named request, as a predicate.\<close>

definition validCreateRequest :: "'s env \<Rightarrow> CreateRequest \<Rightarrow> bool" where
  "validCreateRequest E req \<longleftrightarrow>
     cr_namespace req \<noteq> [] \<and> validPassword (cr_sshPassword req) \<and>
     cr_disk req \<noteq> [] \<and> validDisk E (TrimSpace (cr_disk req)) \<and>
     sshIDPattern (cr_sshID req) \<and> validDomain (TrimSpace (cr_domainPrefix req)) \<and>
     0 \<le> cr_cpu req \<and> cr_powerState req \<in> {[], ''On'', ''Off''}"

lemma checkCreateRequest_iff:
  "checkCreateRequest E req = Inr rec \<longleftrightarrow>
     validCreateRequest E req \<and> rec = recordFromRequest (defaultCreateRequest req)"
proof -
  have fields: "cr_namespace (defaultCreateRequest req) = cr_namespace req"
    "cr_disk (defaultCreateRequest req) = cr_disk req" "cr_sshID (defaultCreateRequest req) = cr_sshID req"
    "cr_sshPassword (defaultCreateRequest req) = cr_sshPassword req"
    "cr_domainPrefix (defaultCreateRequest req) = cr_domainPrefix req"
    "cr_cpu (defaultCreateRequest req) < 1 \<longleftrightarrow> cr_cpu req < 0"
    "cr_powerState (defaultCreateRequest req) \<noteq> ''On'' \<and> cr_powerState (defaultCreateRequest req) \<noteq> ''Off'' \<longleftrightarrow>
       cr_powerState req \<notin> {[], ''On'', ''Off''}"
    by (auto simp: defaultCreateRequest_def)
  show ?thesis
    unfolding checkCreateRequest_def Let_def fields validCreateRequest_def check_then guard_then
      validateSSHPassword_iff validateDisk_iff validateDomainPrefix_iff
    using validPassword_nonempty[of "cr_sshPassword req"] sshIDPattern_nonempty[of "cr_sshID req"]
    by (auto simp del: insert_iff)
qed

lemma recordFromRequest_wf:
  assumes "validCreateRequest E req" "TrimSpace (cr_disk req) = cr_disk req"
    "TrimSpace (cr_domainPrefix req) = cr_domainPrefix req"
  shows "wfVMSpec E (vr_spec (recordFromRequest (defaultCreateRequest req)))"
proof -
  have "1 \<le> cr_cpu (defaultCreateRequest req)" "cr_powerState (defaultCreateRequest req) \<in> {''On'', ''Off''}"
    using assms(1) by (auto simp: validCreateRequest_def defaultCreateRequest_def)
  then show ?thesis
    using assms
    by (simp add: validCreateRequest_def wfVMSpec_def recordFromRequest_def defaultCreateRequest_def)
qed

lemma createRecord_run:
  "run_state (createRecord E req) s =
     (let (name, s') = (if TrimSpace (cr_name req) = []
                        then (case run_state (env_uuid E) s of (u, s') \<Rightarrow> (''vm-'' @ u, s'))
                        else (TrimSpace (cr_name req), s))
      in (checkCreateRequest E ((trimCreateRequest req)\<lparr>cr_name := name\<rparr>), s'))"
  by (auto simp: createRecord_def Let_def trimCreateRequest_def split: prod.splits)

lemma createRecord_cases:
  assumes "run_state (createRecord E req) s = (Inr rec, s')"
  obtains named where "validCreateRequest E named" "rec = recordFromRequest (defaultCreateRequest named)"
    "named = (trimCreateRequest req)\<lparr>cr_name := cr_name named\<rparr>" "cr_name named \<noteq> []"
    "TrimSpace (cr_name req) \<noteq> [] \<Longrightarrow> cr_name named = TrimSpace (cr_name req)"
proof -
  obtain name where check: "checkCreateRequest E ((trimCreateRequest req)\<lparr>cr_name := name\<rparr>) = Inr rec"
    and name: "name \<noteq> []" "TrimSpace (cr_name req) \<noteq> [] \<longrightarrow> name = TrimSpace (cr_name req)"
    using assms by (auto simp: createRecord_run Let_def split: prod.splits if_splits)
  show ?thesis
    by (rule that[of "(trimCreateRequest req)\<lparr>cr_name := name\<rparr>"])
       (use check name in \<open>auto simp: checkCreateRequest_iff\<close>)
qed

text \<open>What every record that \<open>createRecord\<close> returns satisfies.\<close>

definition freshVMRecord :: "'s env \<Rightarrow> KiteVirtualMachineRecord \<Rightarrow> bool" where
  "freshVMRecord E rec \<longleftrightarrow>
     wfVMSpec E (vr_spec rec) \<and> vr_name rec \<noteq> [] \<and> vr_namespace rec \<noteq> [] \<and>
     vs_memory (vr_spec rec) \<noteq> [] \<and> vs_image (vr_spec rec) \<noteq> [] \<and> \<not> vs_delete (vr_spec rec)"

lemma createRecord_fresh:
  assumes "run_state (createRecord E req) s = (Inr rec, s')"
  shows "freshVMRecord E rec"
proof -
  obtain named where v: "validCreateRequest E named"
    and rec: "rec = recordFromRequest (defaultCreateRequest named)"
    and n: "named = (trimCreateRequest req)\<lparr>cr_name := cr_name named\<rparr>" "cr_name named \<noteq> []"
    using assms by (rule createRecord_cases) blast
  have "TrimSpace (cr_disk named) = cr_disk named" "TrimSpace (cr_domainPrefix named) = cr_domainPrefix named"
    by (subst (1 2) n, simp add: trimCreateRequest_def)+
  then show ?thesis
    using recordFromRequest_wf[OF v] v n(2)
    by (auto simp: freshVMRecord_def rec recordFromRequest_def defaultCreateRequest_def validCreateRequest_def)
qed

section \<open>Record round trip\<close>

lemma recordFromObject_new: "recordFromObject (newKiteVirtualMachineObject rec) = Inr rec"
  by (simp add: recordFromObject_def newKiteVirtualMachineObject_def kiteVirtualMachineSpecMap_def value_defs)

interpretation vmCodec: record_codec kiteVirtualMachineGVR newKiteVirtualMachineObject vr_namespace recordFromObject
proof (unfold_locales, goal_cases)
  case (4 a b)
  show ?case unfolding recordFromObject_def 4 by (rule refl)
qed (simp_all add: exactGVR_def recordFromObject_new)

section \<open>Uniqueness of SSH ids and domain prefixes\<close>

lemma vmKeyOf_cong: "objField a ''spec'' = objField b ''spec'' \<Longrightarrow> vmKeyOf f a = vmKeyOf f b"
  unfolding vmKeyOf_def by (metis specOf_cong)

interpretation sshKey: unique_key kiteVirtualMachineGVR "vmKeyOf ''sshId''"
  by unfold_locales (rule vmKeyOf_cong)

interpretation domainKey: unique_key kiteVirtualMachineGVR "vmKeyOf ''domainPrefix''"
  by unfold_locales (rule vmKeyOf_cong)

text \<open>The cluster-wide invariant: no SSH id and no domain prefix is used twice.\<close>

definition vmKeysUnique :: "kview \<Rightarrow> bool" where
  "vmKeysUnique v \<longleftrightarrow>
     uniqueIn kiteVirtualMachineGVR (vmKeyOf ''sshId'') v \<and>
     uniqueIn kiteVirtualMachineGVR (vmKeyOf ''domainPrefix'') v"

abbreviation vmKeyFree :: "string \<Rightarrow> string \<Rightarrow> string \<Rightarrow> string \<Rightarrow> kview \<Rightarrow> bool" where
  "vmKeyFree f \<equiv> keyFree kiteVirtualMachineGVR (vmKeyOf f)"

lemma vmKeyOf_spec:
  assumes "specOf obj = kiteVirtualMachineSpecMap spec"
  shows "vmKeyOf ''sshId'' obj = TrimSpace (vs_sshID spec)"
    and "vmKeyOf ''domainPrefix'' obj = TrimSpace (vs_domainPrefix spec)"
  by (simp_all add: vmKeyOf_def assms kiteVirtualMachineSpecMap_def stringValue_def)

lemma vmKeyOf_new:
  "vmKeyOf ''sshId'' (newKiteVirtualMachineObject rec) = TrimSpace (vs_sshID (vr_spec rec))"
  "vmKeyOf ''domainPrefix'' (newKiteVirtualMachineObject rec) = TrimSpace (vs_domainPrefix (vr_spec rec))"
  by (rule vmKeyOf_spec, simp add: newKiteVirtualMachineObject_def mapValue_def)+

lemma vmKeysUnique_created:
  assumes "vmKeysUnique v" "created kiteVirtualMachineGVR ns (newKiteVirtualMachineObject rec) v v' stored"
    "vmKeyFree ''sshId'' ns (vr_name rec) (TrimSpace (vs_sshID (vr_spec rec))) v"
    "TrimSpace (vs_domainPrefix (vr_spec rec)) = [] \<or>
     vmKeyFree ''domainPrefix'' ns (vr_name rec) (TrimSpace (vs_domainPrefix (vr_spec rec))) v"
  shows "vmKeysUnique v'"
  using assms sshKey.unique_created[OF _ _ assms(2)] domainKey.unique_created[OF _ _ assms(2)]
  by (simp add: vmKeysUnique_def vmKeyOf_new exactGVR_def)

lemma vmKeysUnique_secret:
  "vmKeysUnique v \<Longrightarrow> created secretGVR ns obj v v' stored \<Longrightarrow> vmKeysUnique v'"
  unfolding vmKeysUnique_def
  by (auto intro: sshKey.unique_created domainKey.unique_created simp: exactGVR_def)

lemma vmKeysUnique_deleted: "vmKeysUnique v \<Longrightarrow> deleted g ns n v v' \<Longrightarrow> vmKeysUnique v'"
  unfolding vmKeysUnique_def by (auto intro: sshKey.unique_deleted domainKey.unique_deleted)

text \<open>Excluding no object, as \<open>Create\<close> does with empty names, is excluding less than any one.\<close>

lemma keyFree_anywhere:
  assumes "keyFree g key [] [] k v" "\<And>ns' a. v (g, ns', []) = Some a \<Longrightarrow> False"
  shows "keyFree g key ns n k v"
  using assms unfolding keyFree_def by blast

context kube_api begin

lemma wp_ensureUniqueSSHID:
  assumes "\<And>s' e. view s' = view s \<Longrightarrow> Q (Inl e) s'"
    and "\<And>s'. view s' = view s \<Longrightarrow> vmKeyFree ''sshId'' ns n (TrimSpace k) (view s) \<Longrightarrow>
           TrimSpace k \<noteq> [] \<Longrightarrow> Q (Inr ()) s'"
  shows "wp (ensureUniqueSSHID E k ns n) Q s"
  unfolding ensureUniqueSSHID_def Let_def VirtualMachineStore_ListAll_def
  using assms keyFree_listed
  by (auto simp: wp_simps intro!: wp_list)

lemma wp_ensureUniqueDomainPrefix:
  assumes "\<And>s' e. view s' = view s \<Longrightarrow> Q (Inl e) s'"
    and "\<And>s'. view s' = view s \<Longrightarrow>
           TrimSpace k = [] \<or> vmKeyFree ''domainPrefix'' ns n (TrimSpace k) (view s) \<Longrightarrow> Q (Inr ()) s'"
  shows "wp (ensureUniqueDomainPrefix E k ns n) Q s"
  unfolding ensureUniqueDomainPrefix_def Let_def VirtualMachineStore_ListAll_def
  using assms keyFree_listed
  by (auto simp: wp_simps intro!: wp_list)

lemma keyFree_create: "keyFree g key [] [] k (view s) \<Longrightarrow> keyFree g key ns n k (view s)"
  by (rule keyFree_anywhere) (auto dest: view_key simp: validKey_def)

end

section \<open>The write path of Create\<close>

text \<open>
  What a successful create leaves behind: the VM object decodes to the record, and its guest-login
  Secret, new as well, holds the base64 text of the guest password hash.
\<close>

definition vmCreated :: "KiteVirtualMachineRecord \<Rightarrow> string \<Rightarrow> kview \<Rightarrow> kview \<Rightarrow> bool" where
  "vmCreated rec hash v v' \<longleftrightarrow>
     (\<exists>vmObj secretObj.
        v (kiteVirtualMachineGVR, vr_namespace rec, vr_name rec) = None \<and>
        v (secretGVR, vr_namespace rec, SecretName (vr_name rec)) = None \<and>
        v' = v((kiteVirtualMachineGVR, vr_namespace rec, vr_name rec) \<mapsto> vmObj,
               (secretGVR, vr_namespace rec, SecretName (vr_name rec)) \<mapsto> secretObj) \<and>
        recordFromObject vmObj = Inr rec \<and> objField vmObj ''status'' = None \<and>
        k_deletionTimestamp vmObj = None \<and>
        nestedOr [] (NestedString (k_body secretObj) [''data'', PasswordHashKey]) =
          StdEncoding_EncodeToString hash)"

lemma secret_created_data:
  assumes "created secretGVR ns (newGuestLoginSecret rec hash) v v' stored"
  shows "nestedOr [] (NestedString (k_body stored) [''data'', PasswordHashKey]) =
           StdEncoding_EncodeToString hash"
proof -
  have "objField stored ''data'' = objField (newGuestLoginSecret rec hash) ''data''"
    using assms by (simp add: created_def sameBody_def exactGVR_def newGuestLoginSecret_def)
  then show ?thesis
    by (simp add: objField_def newGuestLoginSecret_def newObject_def NestedString_def nestedOr_def)
qed

lemma newGuestLoginSecret_name [simp]:
  "k_name (newGuestLoginSecret rec hash) = SecretName (vr_name rec)"
  by (simp add: newGuestLoginSecret_def)

text \<open>The possible outcomes of \<open>writeVM\<close>: \<open>abandoned\<close> lists the states an error may leave.\<close>

definition rollbackFailed :: "goerr \<Rightarrow> bool" where
  "rollbackFailed e \<longleftrightarrow> (\<exists>e1 e2. e = Wrapped [] e1 (rollbackText @ errText e2))"

definition abandoned :: "KiteVirtualMachineRecord \<Rightarrow> string \<Rightarrow> kview \<Rightarrow> kview \<Rightarrow> goerr \<Rightarrow> bool" where
  "abandoned rec hash v v' e \<longleftrightarrow>
     v' = v \<or>
     ((indefinite e \<or> rollbackFailed e) \<and>
      (\<exists>vm v1 s1. created kiteVirtualMachineGVR (vr_namespace rec) (newKiteVirtualMachineObject rec) v v1 vm \<and>
         (v' = v1 \<or> created secretGVR (vr_namespace rec) (newGuestLoginSecret rec hash) v1 v' s1 \<or>
          (\<exists>v2. (v2 = v1 \<or> created secretGVR (vr_namespace rec) (newGuestLoginSecret rec hash) v1 v2 s1) \<and>
                deleted kiteVirtualMachineGVR (vr_namespace rec) (vr_name rec) v2 v'))))"

lemma abandoned_error: "abandoned rec hash v v' e \<Longrightarrow> v' = v \<or> indefinite e \<or> rollbackFailed e"
  by (auto simp: abandoned_def)

text \<open>A VM object that was not there before holds the record.\<close>

lemma abandoned_new:
  assumes "abandoned rec hash v v' e" "v (kiteVirtualMachineGVR, ns, n) = None" "v' (kiteVirtualMachineGVR, ns, n) = Some obj"
  shows "ns = vr_namespace rec \<and> recordFromObject obj = Inr rec"
proof -
  obtain vm v1 s1 where vm: "created kiteVirtualMachineGVR (vr_namespace rec) (newKiteVirtualMachineObject rec) v v1 vm"
    and v': "v' = v1 \<or> created secretGVR (vr_namespace rec) (newGuestLoginSecret rec hash) v1 v' s1 \<or>
      (\<exists>v2. (v2 = v1 \<or> created secretGVR (vr_namespace rec) (newGuestLoginSecret rec hash) v1 v2 s1) \<and>
        deleted kiteVirtualMachineGVR (vr_namespace rec) (vr_name rec) v2 v')"
    using assms unfolding abandoned_def by auto
  have "v1 (kiteVirtualMachineGVR, ns, n) = Some obj"
    using v' assms(2,3) vm
    by (auto simp: created_def deleted_def exactGVR_def sameMeta_def split: if_splits)
  with vm assms(2) vmCodec.created_dec[OF vm] show ?thesis by (auto simp: created_def split: if_splits)
qed

lemma vmCreated_new:
  "vmCreated rec hash v v' \<Longrightarrow> v (kiteVirtualMachineGVR, ns, n) = None \<Longrightarrow> v' (kiteVirtualMachineGVR, ns, n) = Some obj \<Longrightarrow>
   ns = vr_namespace rec \<and> recordFromObject obj = Inr rec"
  by (auto simp: vmCreated_def split: if_splits)

lemma created_deleted_undo:
  assumes "created kiteVirtualMachineGVR (vr_namespace rec) (newKiteVirtualMachineObject rec) v v1 vm"
    "deleted kiteVirtualMachineGVR (vr_namespace rec) (vr_name rec) v1 v'"
  shows "v' = v"
  using assms by (auto simp: created_def deleted_def exactGVR_def sameMeta_def fun_eq_iff)

context kube_api begin

lemma wp_createGuestLoginSecret:
  assumes "\<And>s' e. view s' = view s \<Longrightarrow> Q (Inl e) s'"
    and "\<And>s' stored. created secretGVR (vr_namespace rec) (newGuestLoginSecret rec hash) (view s) (view s') stored \<Longrightarrow>
           Q (Inr ()) s'"
    and "\<And>s' stored e. created secretGVR (vr_namespace rec) (newGuestLoginSecret rec hash) (view s) (view s') stored \<Longrightarrow>
           indefinite e \<Longrightarrow> Q (Inl e) s'"
  shows "wp (createGuestLoginSecret E rec hash) Q s"
  unfolding createGuestLoginSecret_def wp_bind
  by (rule wp_create) (auto simp: wp_simps intro: assms)

lemma wp_rollback:
  assumes vm: "created kiteVirtualMachineGVR (vr_namespace rec) (newKiteVirtualMachineObject rec) v v1 vm"
    and v2: "view s = v1 \<or> created secretGVR (vr_namespace rec) (newGuestLoginSecret rec hash) v1 (view s) s1 \<and> indefinite e"
    and Q: "\<And>s' e. abandoned rec hash v (view s') e \<Longrightarrow> Q (Inl e) s'"
  shows "wp (VirtualMachineStore_Delete E (vr_namespace rec) (vr_name rec)) (\<lambda>cleanup s'.
           wp (case cleanup of
             Inl cleanupErr \<Rightarrow>
               if \<not> apiIsNotFound cleanupErr then fail (Wrapped [] e (rollbackText @ errText cleanupErr))
               else fail e
           | Inr _ \<Rightarrow> fail e) Q s') s"
  unfolding VirtualMachineStore_Delete_def
proof (rule wp_delete)
  let ?key = "(kiteVirtualMachineGVR, vr_namespace rec, vr_name rec)"
  let ?k = "\<lambda>r. case r of
             Inl cleanupErr \<Rightarrow>
               if \<not> apiIsNotFound cleanupErr then fail (Wrapped [] e (rollbackText @ errText cleanupErr))
               else fail e
           | Inr _ \<Rightarrow> fail e"
  have present: "view s ?key \<noteq> None"
    using vm v2 by (auto simp: created_def)
  have rb: "rollbackFailed (Wrapped [] e (rollbackText @ errText ce))" for ce
    by (auto simp: rollbackFailed_def)
  fix s'
  {
    fix ce assume same: "view s' = view s" and nf: "apiIsNotFound ce \<longrightarrow> view s ?key = None"
    have "abandoned rec hash v (view s') (Wrapped [] e (rollbackText @ errText ce))"
      using vm v2 rb unfolding abandoned_def same by blast
    with present nf show "wp (?k (Inl ce)) Q s'"
      by (auto simp: wp_simps intro: Q)
  next
    assume del: "deleted kiteVirtualMachineGVR (vr_namespace rec) (vr_name rec) (view s) (view s')"
    have ab: "abandoned rec hash v (view s') e"
      using v2 created_deleted_undo[OF vm, of "view s'"] del vm unfolding abandoned_def by blast
    then show "wp (?k (Inr ())) Q s'" by (simp add: wp_simps Q)
    fix ce assume "indefinite ce"
    moreover have "abandoned rec hash v (view s') (Wrapped [] e (rollbackText @ errText ce))"
      using v2 created_deleted_undo[OF vm, of "view s'"] del vm rb unfolding abandoned_def by blast
    ultimately show "wp (?k (Inl ce)) Q s'" using ab by (auto simp: wp_simps intro: Q)
  }
qed

lemma wp_writeVM:
  assumes Q: "\<And>s' e. abandoned rec hash (view s) (view s') e \<Longrightarrow> Q (Inl e) s'"
    and success: "\<And>s' obj. vmCreated rec hash (view s) (view s') \<Longrightarrow> recordFromObject obj = Inr rec \<Longrightarrow>
       (\<exists>v1. created kiteVirtualMachineGVR (vr_namespace rec) (newKiteVirtualMachineObject rec) (view s) v1 obj \<and>
         (\<exists>sec. created secretGVR (vr_namespace rec) (newGuestLoginSecret rec hash) v1 (view s') sec)) \<Longrightarrow>
       Q (Inr (vmFromObject obj)) s'"
  shows "wp (writeVM E rec hash) Q s"
  unfolding writeVM_def VirtualMachineStore_Create_def wp_tryE
proof (rule wp_create, unfold sum.case wp_bind)
  fix s' e assume "view s' = view s"
  then show "Q (Inl e) s'" by (simp add: Q abandoned_def)
next
  fix s' vm e
  assume "created kiteVirtualMachineGVR (vr_namespace rec) (newKiteVirtualMachineObject rec) (view s) (view s') vm"
    "indefinite e"
  then show "Q (Inl e) s'" by (intro Q) (auto simp: abandoned_def)
next
  fix s' vm
  assume vm: "created kiteVirtualMachineGVR (vr_namespace rec) (newKiteVirtualMachineObject rec) (view s) (view s') vm"
  have dec: "recordFromObject vm = Inr rec" using vmCodec.created_dec[OF vm] .
  have new: "vmCreated rec hash (view s) (view t)"
    if sec: "created secretGVR (vr_namespace rec) (newGuestLoginSecret rec hash) (view s') (view t) x" for t x
    using vm sec dec secret_created_data[OF sec]
    by (auto simp: vmCreated_def created_def statusGVR_def)
  show "wp (createGuestLoginSecret E rec hash) (\<lambda>x. wp (case x of
          Inl e \<Rightarrow> VirtualMachineStore_Delete E (vr_namespace rec) (vr_name rec) \<bind>
            (\<lambda>cleanup. case cleanup of
                Inl ce \<Rightarrow> if \<not> apiIsNotFound ce then fail (Wrapped [] e (rollbackText @ errText ce)) else fail e
              | Inr _ \<Rightarrow> fail e)
        | Inr _ \<Rightarrow> ok (vmFromObject vm)) Q) s'"
    by (rule wp_createGuestLoginSecret)
       (auto simp: wp_simps intro!: wp_rollback[OF vm] Q intro: success[OF new dec] vm)
qed

end

section \<open>Create\<close>

text \<open>The record is the one the request asks for, up to the password hash.\<close>

definition requestedAs :: "CreateRequest \<Rightarrow> KiteVirtualMachineRecord \<Rightarrow> bool" where
  "requestedAs req rec \<longleftrightarrow>
     (\<exists>n. recordFromRequest (defaultCreateRequest ((trimCreateRequest req)\<lparr>cr_name := n\<rparr>)) =
            rec\<lparr>vr_spec := (vr_spec rec)\<lparr>vs_sshPasswordHash := []\<rparr>\<rparr> \<and>
          (TrimSpace (cr_name req) \<noteq> [] \<longrightarrow> n = TrimSpace (cr_name req)))"

lemma createRecord_requestedAs:
  assumes "run_state (createRecord E req) s = (Inr rec, s')"
  shows "requestedAs req (rec\<lparr>vr_spec := (vr_spec rec)\<lparr>vs_sshPasswordHash := h\<rparr>\<rparr>)"
proof -
  obtain named where rec: "rec = recordFromRequest (defaultCreateRequest named)"
    and n: "named = (trimCreateRequest req)\<lparr>cr_name := cr_name named\<rparr>"
    and t: "TrimSpace (cr_name req) \<noteq> [] \<Longrightarrow> cr_name named = TrimSpace (cr_name req)"
    using assms by (rule createRecord_cases) blast
  have "rec\<lparr>vr_spec := (vr_spec rec)\<lparr>vs_sshPasswordHash := []\<rparr>\<rparr> = rec"
    by (simp add: rec recordFromRequest_def)
  with rec n t show ?thesis
    unfolding requestedAs_def by (intro exI[of _ "cr_name named"]) simp
qed

text \<open>The facts \<open>Create\<close> has established when it reaches its first write.\<close>

definition createReady :: "'s env \<Rightarrow> string \<Rightarrow> CreateRequest \<Rightarrow> kview \<Rightarrow> KiteVirtualMachineRecord \<Rightarrow> string \<Rightarrow> bool" where
  "createReady E salt req v rec hash \<longleftrightarrow>
     freshVMRecord E rec \<and> requestedAs req rec \<and>
     hashedBy E (cr_sshPassword req) salt (vs_sshPasswordHash (vr_spec rec)) \<and>
     (\<exists>crypt_salt. env_crypt E (cr_sshPassword req) (''$6$rounds=500000$'' @ crypt_salt) = Inr hash) \<and>
     (\<forall>ns n. vmKeyFree ''sshId'' ns n (vs_sshID (vr_spec rec)) v) \<and>
     (\<forall>ns n. vmKeyFree ''domainPrefix'' ns n (vs_domainPrefix (vr_spec rec)) v)"

lemma GeneratePasswordHash_run:
  assumes "run_state (GeneratePasswordHash E pw) s = (Inr hash, s')"
  shows "\<exists>salt. env_crypt E pw (''$6$rounds=500000$'' @ salt) = Inr hash"
  using assms
  by (auto simp: GeneratePasswordHash_def tryE_def fail_def ok_def split: prod.splits sum.splits)

lemma fresh_setHash:
  "freshVMRecord E rec \<Longrightarrow> freshVMRecord E (rec\<lparr>vr_spec := (vr_spec rec)\<lparr>vs_sshPasswordHash := h\<rparr>\<rparr>)"
  by (simp add: freshVMRecord_def wfVMSpec_def)

lemma fresh_trim:
  assumes "freshVMRecord E rec"
  shows "TrimSpace (vs_sshID (vr_spec rec)) = vs_sshID (vr_spec rec)"
    and "TrimSpace (vs_domainPrefix (vr_spec rec)) = vs_domainPrefix (vr_spec rec)"
    and "vs_domainPrefix (vr_spec rec) \<noteq> []"
  using assms
  by (auto simp: freshVMRecord_def wfVMSpec_def validDomain_def sshIDPattern_trim domainPrefixPattern_trim
      domainPrefixPattern_def)

context kube_api begin

lemma createRecord_keeps: "keeps view (createRecord E req)"
  unfolding createRecord_def Let_def by auto

lemma wp_try_ensureUnique:
  assumes "\<And>s' e. view s' = view s \<Longrightarrow> Q (Inl e) s'"
    and "\<And>s'. view s' = view s \<Longrightarrow> vmKeyFree ''sshId'' ns n (TrimSpace ssh) (view s) \<Longrightarrow>
           TrimSpace dp = [] \<or> vmKeyFree ''domainPrefix'' ns n (TrimSpace dp) (view s) \<Longrightarrow> wp k Q s'"
  shows "wp (tryE (ensureUniqueSSHID E ssh ns n) (\<lambda>_. tryE (ensureUniqueDomainPrefix E dp ns n) (\<lambda>_. k))) Q s"
  unfolding wp_tryE
  by (rule wp_ensureUniqueSSHID)
     (auto simp: assms(1) intro!: wp_ensureUniqueDomainPrefix assms(2))

lemma wp_VM_Create:
  assumes unchanged: "\<And>s' e. view s' = view s \<Longrightarrow> Q (Inl e) s'"
    and writing: "\<And>s' rec hash. view s' = view s \<Longrightarrow> createReady E salt req (view s) rec hash \<Longrightarrow>
       wp (writeVM E rec hash) Q s'"
  shows "wp (VM_Create E salt req) Q s"
proof -
  let ?rec = "\<lambda>rec0 h. rec0\<lparr>vr_spec := (vr_spec rec0)\<lparr>vs_sshPasswordHash := h\<rparr>\<rparr>"
  have hash: "keeps view (HashPassword E pw salt)" for pw
    by (rule HashPassword_keeps) (rule bcryptGenerate_keeps)
  have guest: "keeps view (GeneratePasswordHash E pw)" for pw
    by (rule GeneratePasswordHash_keeps) (rule randInt_keeps)
  have ready: "createReady E salt req (view s) (?rec rec0 h) g"
    if "run_state (createRecord E req) s = (Inr rec0, s1)"
      "run_state (HashPassword E (cr_sshPassword req) salt) s1 = (Inr h, s2)"
      "vmKeyFree ''sshId'' [] [] (TrimSpace (vs_sshID (vr_spec rec0))) (view s)"
      "TrimSpace (vs_domainPrefix (vr_spec rec0)) = [] \<or>
       vmKeyFree ''domainPrefix'' [] [] (TrimSpace (vs_domainPrefix (vr_spec rec0))) (view s)"
      "run_state (GeneratePasswordHash E (cr_sshPassword req)) s3 = (Inr g, s4)" for rec0 s1 h s2 g s3 s4
    using that createRecord_fresh[OF that(1)] fresh_trim[OF createRecord_fresh[OF that(1)]]
      GeneratePasswordHash_run[OF that(5)] keyFree_create createRecord_requestedAs[OF that(1)]
    by (auto simp: createReady_def intro: fresh_setHash)
  show ?thesis
    unfolding VM_Create_def Let_def
    by (auto simp: wp_fail unchanged
        intro!: wp_try_keeps[OF createRecord_keeps] wp_try_keeps[OF hash] wp_try_ensureUnique
          wp_try_keeps[OF guest] writing intro: ready)
qed

lemma createReady_unique:
  assumes "createReady E salt req v rec hash" "vmKeysUnique v"
    "created kiteVirtualMachineGVR (vr_namespace rec) (newKiteVirtualMachineObject rec) v v' stored"
  shows "vmKeysUnique v'"
  using assms fresh_trim[of E rec]
  by (intro vmKeysUnique_created[OF assms(2,3)]) (auto simp: createReady_def)

lemma createReady_abandoned:
  assumes "createReady E salt req v rec hash" "vmKeysUnique v" "abandoned rec hash v v' e"
  shows "vmKeysUnique v'"
  using assms(3) createReady_unique[OF assms(1,2)] assms(2) vmKeysUnique_secret vmKeysUnique_deleted
  unfolding abandoned_def by metis

lemma VM_Create_unique:
  assumes "vmKeysUnique (view s)"
  shows "wp (VM_Create E salt req) (\<lambda>r s'. vmKeysUnique (view s')) s"
proof (rule wp_VM_Create)
  fix s' rec hash
  assume v: "view s' = view s" and ready: "createReady E salt req (view s) rec hash"
  show "wp (writeVM E rec hash) (\<lambda>r s'. vmKeysUnique (view s')) s'"
    by (rule wp_writeVM)
       (auto simp: v assms intro: createReady_abandoned[OF ready assms] vmKeysUnique_secret createReady_unique[OF ready assms])
qed (simp add: assms)

lemma VM_Create_outcome:
  "wp (VM_Create E salt req) (\<lambda>r s'. case r of
       Inl e \<Rightarrow> view s' = view s \<or> indefinite e \<or> rollbackFailed e
     | Inr vm \<Rightarrow> \<exists>rec hash. createReady E salt req (view s) rec hash \<and> vmCreated rec hash (view s) (view s') \<and>
         vm_name vm = vr_name rec \<and> vm_namespace vm = vr_namespace rec \<and> vm_phase vm = ''Creating'') s"
proof (rule wp_VM_Create)
  fix s' rec hash
  assume v: "view s' = view s" and ready: "createReady E salt req (view s) rec hash"
  let ?Q = "\<lambda>r s'. case r of
       Inl e \<Rightarrow> view s' = view s \<or> indefinite e \<or> rollbackFailed e
     | Inr vm \<Rightarrow> \<exists>rec hash. createReady E salt req (view s) rec hash \<and> vmCreated rec hash (view s) (view s') \<and>
         vm_name vm = vr_name rec \<and> vm_namespace vm = vr_namespace rec \<and> vm_phase vm = ''Creating''"
  have vm: "vm_name (vmFromObject obj) = vr_name rec \<and> vm_namespace (vmFromObject obj) = vr_namespace rec \<and>
      vm_phase (vmFromObject obj) = ''Creating''"
    if "created kiteVirtualMachineGVR (vr_namespace rec) (newKiteVirtualMachineObject rec) (view s) v1 obj" for v1 obj
  proof -
    have "statusOf obj = []"
      using that by (simp add: created_def statusGVR_def statusOf_def mapValue_def objField_def)
    with that show ?thesis
      by (simp add: vmFromObject_def Let_def created_def sameMeta_def stringValue_def)
  qed
  show "wp (writeVM E rec hash) ?Q s'"
  proof (rule wp_writeVM)
    fix t e assume "abandoned rec hash (view s') (view t) e"
    then show "?Q (Inl e) t" by (auto simp: abandoned_def v)
  next
    fix t obj assume "vmCreated rec hash (view s') (view t)"
      "\<exists>v1. created kiteVirtualMachineGVR (vr_namespace rec) (newKiteVirtualMachineObject rec) (view s') v1 obj \<and>
         (\<exists>sec. created secretGVR (vr_namespace rec) (newGuestLoginSecret rec hash) v1 (view t) sec)"
    then show "?Q (Inr (vmFromObject obj)) t"
      using ready vm unfolding v by auto
  qed
qed simp

text \<open>Something is left behind only by a request that had passed every check.\<close>

lemma VM_Create_failed:
  "wp (VM_Create E salt req) (\<lambda>r s'. \<forall>e. r = Inl e \<longrightarrow> view s' = view s \<or>
     (\<exists>rec hash. createReady E salt req (view s) rec hash \<and> abandoned rec hash (view s) (view s') e)) s"
proof (rule wp_VM_Create)
  fix s' rec hash
  assume v: "view s' = view s" and ready: "createReady E salt req (view s) rec hash"
  show "wp (writeVM E rec hash) (\<lambda>r s'. \<forall>e. r = Inl e \<longrightarrow> view s' = view s \<or>
     (\<exists>rec hash. createReady E salt req (view s) rec hash \<and> abandoned rec hash (view s) (view s') e)) s'"
    by (rule wp_writeVM) (use ready v in auto)
qed simp

end

section \<open>Update\<close>

lemma optUpd_simps [simp]: "optUpd None f r = Inr r" "optUpd (Some x) f r = f x r"
  by (simp_all add: optUpd_def)

lemma then_result: "((case r of Inl e \<Rightarrow> Inl e | Inr x \<Rightarrow> k x) = Inr y) \<longleftrightarrow> (\<exists>x. r = Inr x \<and> k x = Inr y)"
  by (cases r) auto

lemma optUpd_Inr:
  "optUpd field f r = Inr r' \<longleftrightarrow> (case field of None \<Rightarrow> r' = r | Some x \<Rightarrow> f x r = Inr r')"
  by (cases field) auto

text \<open>
  The specification of \<open>applySpecUpdate\<close>: each requested field is checked and stored trimmed, each
  absent field and the password hash stay as they were, and a password change is refused.
\<close>

definition specUpdated :: "'s env \<Rightarrow> UpdateRequest \<Rightarrow> KiteVirtualMachineSpec \<Rightarrow> KiteVirtualMachineSpec \<Rightarrow> bool" where
  "specUpdated E req old new \<longleftrightarrow>
     up_sshPassword req = None \<and>
     vs_sshPasswordHash new = vs_sshPasswordHash old \<and>
     vs_cpu new = (case up_cpu req of None \<Rightarrow> vs_cpu old | Some c \<Rightarrow> c) \<and>
     vs_memory new = (case up_memory req of None \<Rightarrow> vs_memory old | Some m \<Rightarrow> TrimSpace m) \<and>
     vs_image new = (case up_image req of None \<Rightarrow> vs_image old | Some i \<Rightarrow> TrimSpace i) \<and>
     vs_disk new = (case up_disk req of None \<Rightarrow> vs_disk old | Some d \<Rightarrow> TrimSpace d) \<and>
     vs_domainPrefix new = (case up_domainPrefix req of None \<Rightarrow> vs_domainPrefix old | Some d \<Rightarrow> TrimSpace d) \<and>
     vs_sshID new = (case up_sshID req of None \<Rightarrow> vs_sshID old | Some i \<Rightarrow> TrimSpace i) \<and>
     vs_powerState new = (case up_powerState req of None \<Rightarrow> vs_powerState old | Some p \<Rightarrow> TrimSpace p) \<and>
     vs_delete new = (case up_delete req of None \<Rightarrow> vs_delete old | Some d \<Rightarrow> d) \<and>
     (\<forall>c. up_cpu req = Some c \<longrightarrow> 1 \<le> c) \<and>
     (\<forall>d. up_disk req = Some d \<longrightarrow> validDisk E (TrimSpace d)) \<and>
     (\<forall>d. up_domainPrefix req = Some d \<longrightarrow> validDomain (TrimSpace d)) \<and>
     (\<forall>i. up_sshID req = Some i \<longrightarrow> sshIDPattern (TrimSpace i)) \<and>
     (\<forall>p. up_powerState req = Some p \<longrightarrow> TrimSpace p \<in> {''On'', ''Off''})"

lemma optUpd_guarded:
  assumes "\<And>x s s'. f x s = Inr s' \<longleftrightarrow> G x \<and> s' = F x s"
  shows "optUpd m f r = Inr r' \<longleftrightarrow>
     (\<forall>x. m = Some x \<longrightarrow> G x) \<and> r' = (case m of None \<Rightarrow> r | Some x \<Rightarrow> F x r)"
  using assms by (cases m) auto

text \<open>An optional field update is a field update with an optional value.\<close>

lemma option_field_upd:
  "(case m of None \<Rightarrow> r | Some x \<Rightarrow> r\<lparr>vs_cpu := f1 x\<rparr>) = r\<lparr>vs_cpu := case m of None \<Rightarrow> vs_cpu r | Some x \<Rightarrow> f1 x\<rparr>"
  "(case m of None \<Rightarrow> r | Some x \<Rightarrow> r\<lparr>vs_memory := f x\<rparr>) = r\<lparr>vs_memory := case m of None \<Rightarrow> vs_memory r | Some x \<Rightarrow> f x\<rparr>"
  "(case m of None \<Rightarrow> r | Some x \<Rightarrow> r\<lparr>vs_image := f x\<rparr>) = r\<lparr>vs_image := case m of None \<Rightarrow> vs_image r | Some x \<Rightarrow> f x\<rparr>"
  "(case m of None \<Rightarrow> r | Some x \<Rightarrow> r\<lparr>vs_disk := f x\<rparr>) = r\<lparr>vs_disk := case m of None \<Rightarrow> vs_disk r | Some x \<Rightarrow> f x\<rparr>"
  "(case m of None \<Rightarrow> r | Some x \<Rightarrow> r\<lparr>vs_domainPrefix := f x\<rparr>) = r\<lparr>vs_domainPrefix := case m of None \<Rightarrow> vs_domainPrefix r | Some x \<Rightarrow> f x\<rparr>"
  "(case m of None \<Rightarrow> r | Some x \<Rightarrow> r\<lparr>vs_sshID := f x\<rparr>) = r\<lparr>vs_sshID := case m of None \<Rightarrow> vs_sshID r | Some x \<Rightarrow> f x\<rparr>"
  "(case m of None \<Rightarrow> r | Some x \<Rightarrow> r\<lparr>vs_powerState := f x\<rparr>) = r\<lparr>vs_powerState := case m of None \<Rightarrow> vs_powerState r | Some x \<Rightarrow> f x\<rparr>"
  "(case m of None \<Rightarrow> r | Some x \<Rightarrow> r\<lparr>vs_delete := f2 x\<rparr>) = r\<lparr>vs_delete := case m of None \<Rightarrow> vs_delete r | Some x \<Rightarrow> f2 x\<rparr>"
  for r :: KiteVirtualMachineSpec
  by (cases m; simp)+

lemma applySpecUpdate_iff:
  "applySpecUpdate E req old = Inr new \<longleftrightarrow> specUpdated E req old new"
proof -
  have power: "(let p = TrimSpace p0 in if p \<noteq> ''On'' \<and> p \<noteq> ''Off'' then Inl e
      else Inr (s\<lparr>vs_powerState := p\<rparr>)) = Inr s' \<longleftrightarrow>
      TrimSpace p0 \<in> {''On'', ''Off''} \<and> s' = s\<lparr>vs_powerState := TrimSpace p0\<rparr>" for p0 e s s'
    by (auto simp: Let_def)
  have cpu: "(if c < 1 then Inl e else Inr (s\<lparr>vs_cpu := c\<rparr>)) = Inr s' \<longleftrightarrow> 1 \<le> c \<and> s' = s\<lparr>vs_cpu := c\<rparr>" for c s s' e
    by auto
  have disk: "(case validateDisk E (TrimSpace d) of Inl e \<Rightarrow> Inl e | Inr _ \<Rightarrow> Inr (s\<lparr>vs_disk := TrimSpace d\<rparr>)) = Inr s' \<longleftrightarrow>
      validDisk E (TrimSpace d) \<and> s' = s\<lparr>vs_disk := TrimSpace d\<rparr>" for d s s'
    by (auto simp: check_then validateDisk_iff)
  have prefix: "(case validateDomainPrefix (TrimSpace d) of Inl e \<Rightarrow> Inl e | Inr _ \<Rightarrow> Inr (s\<lparr>vs_domainPrefix := TrimSpace d\<rparr>)) = Inr s' \<longleftrightarrow>
      validDomain (TrimSpace d) \<and> s' = s\<lparr>vs_domainPrefix := TrimSpace d\<rparr>" for d s s'
    by (auto simp: check_then validateDomainPrefix_iff)
  have ssh: "(if \<not> sshIDPattern (TrimSpace i) then Inl e else Inr (s\<lparr>vs_sshID := TrimSpace i\<rparr>)) = Inr s' \<longleftrightarrow>
      sshIDPattern (TrimSpace i) \<and> s' = s\<lparr>vs_sshID := TrimSpace i\<rparr>" for i s s' e
    by auto
  have always: "(Inr a :: KiteVirtualMachineSpec result) = Inr b \<longleftrightarrow> True \<and> b = a" for a b
    by auto
  note stages = optUpd_guarded[OF cpu] optUpd_guarded[OF disk] optUpd_guarded[OF prefix]
    optUpd_guarded[OF ssh] optUpd_guarded[OF power] optUpd_guarded[OF always]
  show ?thesis
    unfolding applySpecUpdate_def then_result guard_then stages option_field_upd specUpdated_def
    by (cases old; cases new) (simp cong: option.case_cong, blast)
qed

lemma specUpdated_wf: "specUpdated E req old new \<Longrightarrow> wfVMSpec E old \<Longrightarrow> wfVMSpec E new"
  unfolding specUpdated_def wfVMSpec_def by (auto split: option.splits)

lemma applyUpdate_Inr:
  "applyUpdate E rec req = Inr rec' \<longleftrightarrow>
     (\<exists>spec. specUpdated E req (vr_spec rec) spec \<and> rec' = rec\<lparr>vr_spec := spec\<rparr>)"
  by (auto simp: applyUpdate_def then_result applySpecUpdate_iff[symmetric] split: sum.splits)

lemma recordFromObject_sel:
  assumes "recordFromObject obj = Inr rec"
  shows "vr_name rec = k_name obj" "vr_namespace rec = k_namespace obj"
    and "vs_sshID (vr_spec rec) = stringValue (specOf obj) ''sshId''"
    and "vs_domainPrefix (vr_spec rec) = stringValue (specOf obj) ''domainPrefix''"
  using assms by (auto simp: recordFromObject_def specOf_def mapValue_def objField_def split: option.splits)

text \<open>What \<open>Update\<close> knows when it hands the record to the store.\<close>

definition updateReady :: "'s env \<Rightarrow> string \<Rightarrow> string \<Rightarrow> UpdateRequest \<Rightarrow> kview \<Rightarrow> kobj \<Rightarrow>
    KiteVirtualMachineRecord \<Rightarrow> KiteVirtualMachineRecord \<Rightarrow> bool" where
  "updateReady E ns n req v cur old new \<longleftrightarrow>
     v (kiteVirtualMachineGVR, ns, n) = Some cur \<and> recordFromObject cur = Inr old \<and>
     vr_name new = n \<and> vr_namespace new = ns \<and>
     specUpdated E req (vr_spec old) (vr_spec new) \<and>
     (up_sshID req \<noteq> None \<longrightarrow> vmKeyFree ''sshId'' ns n (TrimSpace (vs_sshID (vr_spec new))) v) \<and>
     (up_domainPrefix req \<noteq> None \<longrightarrow>
        TrimSpace (vs_domainPrefix (vr_spec new)) = [] \<or>
        vmKeyFree ''domainPrefix'' ns n (TrimSpace (vs_domainPrefix (vr_spec new))) v)"

context kube_api begin

lemma wp_try_checked:
  assumes "\<And>s' e. view s' = view s \<Longrightarrow> Q (Inl e) s'"
    and "\<And>s'. view s' = view s \<Longrightarrow>
       (c1 \<longrightarrow> vmKeyFree ''sshId'' ns n (TrimSpace ssh) (view s)) \<Longrightarrow>
       (c2 \<longrightarrow> TrimSpace dp = [] \<or> vmKeyFree ''domainPrefix'' ns n (TrimSpace dp) (view s)) \<Longrightarrow> wp k Q s'"
  shows "wp (tryE (if c1 then ensureUniqueSSHID E ssh ns n else ok ()) (\<lambda>_.
             tryE (if c2 then ensureUniqueDomainPrefix E dp ns n else ok ()) (\<lambda>_. k))) Q s"
  unfolding wp_tryE
  by (cases c1; cases c2)
     (auto simp: wp_simps assms(1) intro!: wp_ensureUniqueSSHID wp_ensureUniqueDomainPrefix assms(2))

lemma wp_VM_Update:
  assumes unchanged: "\<And>s' e. view s' = view s \<Longrightarrow> Q (Inl e) s'"
    and effect: "\<And>s' cur old new stored. updateReady E ns n req (view s) cur old new \<Longrightarrow>
       vmUpdateEffect new (view s) (view s') stored \<Longrightarrow>
       Q (Inr (vmFromObject stored)) s' \<and> (\<forall>e. indefinite e \<longrightarrow> Q (Inl e) s')"
  shows "wp (VM_Update E salt ns n req) Q s"
proof (cases "salt = []")
  case True
  then show ?thesis by (simp add: VM_Update_def wp_simps unchanged)
next
  case False
  have get: "keeps view (VirtualMachineStore_Get E ns n)"
    unfolding VirtualMachineStore_Get_def by auto
  have ready: "updateReady E ns n req (view s) cur old new"
    if "run_state (VirtualMachineStore_Get E ns n) s = (Inr cur, s1)"
      "recordFromObject cur = Inr old" "applyUpdate E old req = Inr new"
      "up_sshID req \<noteq> None \<longrightarrow> vmKeyFree ''sshId'' ns n (TrimSpace (vs_sshID (vr_spec new))) (view s)"
      "up_domainPrefix req \<noteq> None \<longrightarrow> TrimSpace (vs_domainPrefix (vr_spec new)) = [] \<or>
         vmKeyFree ''domainPrefix'' ns n (TrimSpace (vs_domainPrefix (vr_spec new))) (view s)" for s1 cur old new
  proof -
    have cur: "view s (kiteVirtualMachineGVR, ns, n) = Some cur"
      using that(1) get_found unfolding VirtualMachineStore_Get_def by blast
    then show ?thesis
      using that view_key[OF cur] recordFromObject_sel[OF that(2)]
      by (auto simp: updateReady_def applyUpdate_Inr)
  qed
  have store: "wp (tryE (VirtualMachineStore_Update E new) (\<lambda>updated. ok (vmFromObject updated))) Q s'"
    if "view s' = view s" "updateReady E ns n req (view s) cur old new" for s' cur old new
    unfolding wp_tryE
    by (rule wp_VirtualMachineStore_Update)
       (use that(1) unchanged effect[OF that(2)] in \<open>auto simp: wp_simps\<close>)
  show ?thesis
    unfolding VM_Update_def if_not_P[OF False]
    by (intro wp_try_keeps[OF get] wp_try_keeps[OF keeps_return] wp_try_checked)
       (auto intro: unchanged store[OF _ ready])
qed

end

lemma update_keys_unique:
  assumes ready: "updateReady E ns n req v cur old new" and eff: "vmUpdateEffect new v v' stored"
    and uniq: "vmKeysUnique v"
  shows "vmKeysUnique v'"
proof -
  let ?key = "(kiteVirtualMachineGVR, ns, n)"
  have cur: "v ?key = Some cur" and new: "vr_name new = n" "vr_namespace new = ns"
    and old: "recordFromObject cur = Inr old" and upd: "specUpdated E req (vr_spec old) (vr_spec new)"
    using ready by (auto simp: updateReady_def)
  have spec: "specOf stored = kiteVirtualMachineSpecMap (vr_spec new)"
    and v': "v' = v(?key \<mapsto> stored) \<or> v' = v(?key := None)"
    using eff cur new by (auto simp: vmUpdateEffect_def vmSpecWritten_def)
  note keys = vmKeyOf_spec[OF spec]
  have same: "up_sshID req = None \<Longrightarrow> vmKeyOf ''sshId'' stored = vmKeyOf ''sshId'' cur"
    "up_domainPrefix req = None \<Longrightarrow> vmKeyOf ''domainPrefix'' stored = vmKeyOf ''domainPrefix'' cur"
    unfolding keys using upd recordFromObject_sel(3,4)[OF old] by (auto simp: specUpdated_def vmKeyOf_def)
  have free: "up_sshID req \<noteq> None \<Longrightarrow> vmKeyFree ''sshId'' ns n (vmKeyOf ''sshId'' stored) v"
    "up_domainPrefix req \<noteq> None \<Longrightarrow> vmKeyOf ''domainPrefix'' stored = [] \<or>
       vmKeyFree ''domainPrefix'' ns n (vmKeyOf ''domainPrefix'' stored) v"
    unfolding keys using ready by (auto simp: updateReady_def)
  have "uniqueIn kiteVirtualMachineGVR (vmKeyOf ''sshId'') (v(?key \<mapsto> stored))"
    using uniq same(1) free(1) sshKey.unique_replace[of v ns n cur stored] cur sshKey.unique_put[of v stored ns n]
    unfolding vmKeysUnique_def by blast
  moreover have "uniqueIn kiteVirtualMachineGVR (vmKeyOf ''domainPrefix'') (v(?key \<mapsto> stored))"
    using uniq same(2) free(2) domainKey.unique_replace[of v ns n cur stored] cur domainKey.unique_put[of v stored ns n]
    unfolding vmKeysUnique_def by blast
  ultimately show ?thesis
    using v' uniq sshKey.unique_drop domainKey.unique_drop unfolding vmKeysUnique_def by blast
qed

text \<open>
  The frame of an update: every other object is untouched, and of the VM itself only the spec
  changes, by what the request says.  A VM that was already being deleted and has no finalizer
  left disappears with the write.
\<close>

definition updateFrame :: "'s env \<Rightarrow> UpdateRequest \<Rightarrow> string \<Rightarrow> string \<Rightarrow> kview \<Rightarrow> kview \<Rightarrow> bool" where
  "updateFrame E req ns n v v' \<longleftrightarrow>
     (\<forall>k. k \<noteq> (kiteVirtualMachineGVR, ns, n) \<longrightarrow> v' k = v k) \<and>
     (\<exists>cur old. v (kiteVirtualMachineGVR, ns, n) = Some cur \<and> recordFromObject cur = Inr old \<and>
        (case v' (kiteVirtualMachineGVR, ns, n) of
           None \<Rightarrow> k_deletionTimestamp cur \<noteq> None \<and> k_finalizers cur = []
         | Some x \<Rightarrow>
             (\<exists>new. recordFromObject x = Inr new \<and> specUpdated E req (vr_spec old) (vr_spec new)) \<and>
             k_finalizers x = k_finalizers cur \<and> k_labels x = k_labels cur \<and>
             k_deletionTimestamp x = k_deletionTimestamp cur \<and>
             objField x ''status'' = objField cur ''status''))"

lemma recordFromObject_spec:
  assumes "specOf x = kiteVirtualMachineSpecMap spec"
  shows "recordFromObject x = Inr \<lparr>vr_name = k_name x, vr_namespace = k_namespace x, vr_spec = spec\<rparr>"
proof -
  have "specOf x \<noteq> []" using assms by (simp add: kiteVirtualMachineSpecMap_def)
  then have "asMap (objField x ''spec'') = Some (kiteVirtualMachineSpecMap spec)"
    using assms by (auto simp: specOf_def mapValue_def objField_def split: option.splits)
  then show ?thesis
    by (simp add: recordFromObject_def kiteVirtualMachineSpecMap_def value_defs)
qed

lemma update_frame:
  assumes ready: "updateReady E ns n req v cur old new" and eff: "vmUpdateEffect new v v' stored"
  shows "updateFrame E req ns n v v'"
proof -
  let ?key = "(kiteVirtualMachineGVR, ns, n)"
  have cur: "v ?key = Some cur" and new: "vr_name new = n" "vr_namespace new = ns"
    and old: "recordFromObject cur = Inr old" and upd: "specUpdated E req (vr_spec old) (vr_spec new)"
    using ready by (auto simp: updateReady_def)
  have written: "vmSpecWritten new cur stored"
    and v': "v' = v(?key \<mapsto> stored) \<or> v' = v(?key := None) \<and> k_deletionTimestamp cur \<noteq> None \<and> k_finalizers cur = []"
    using eff cur new by (auto simp: vmUpdateEffect_def)
  have "recordFromObject stored = Inr \<lparr>vr_name = k_name stored, vr_namespace = k_namespace stored, vr_spec = vr_spec new\<rparr>"
    using written by (intro recordFromObject_spec) (simp add: vmSpecWritten_def)
  then show ?thesis
    using v' cur old upd written
    by (auto simp: updateFrame_def vmSpecWritten_def sameMeta_def)
qed

lemma checkCreateRequest_error:
  "checkCreateRequest E req = Inl e \<Longrightarrow> RequestErrorKind e = Some ErrorKindInvalid"
  unfolding checkCreateRequest_def Let_def validateSSHPassword_def validateDisk_def validateDomainPrefix_def
  by (auto simp: RequestErrorKind_def invalid_def split: if_splits sum.splits)

lemma validCreateRequest_name: "validCreateRequest E (req\<lparr>cr_name := n\<rparr>) = validCreateRequest E req"
  by (simp add: validCreateRequest_def)

section \<open>Properties\<close>

text \<open>C20: \<open>createRecord\<close> decides exactly the documented validity of the trimmed request, for any
  environment: a valid request yields a record with well-formed spec, name, namespace, memory and
  image; any other request yields a RequestError of kind invalid.\<close>

theorem createRecord_decides:
  "case fst (run_state (createRecord E req) s) of
     Inr rec \<Rightarrow> validCreateRequest E (trimCreateRequest req) \<and> freshVMRecord E rec
   | Inl e \<Rightarrow> \<not> validCreateRequest E (trimCreateRequest req) \<and> RequestErrorKind e = Some ErrorKindInvalid"
proof -
  obtain r s' where run: "run_state (createRecord E req) s = (r, s')" by fastforce
  obtain n where check: "r = checkCreateRequest E ((trimCreateRequest req)\<lparr>cr_name := n\<rparr>)"
    using run by (auto simp: createRecord_run Let_def split: prod.splits if_splits)
  show ?thesis
  proof (cases r)
    case (Inl e)
    then have "checkCreateRequest E ((trimCreateRequest req)\<lparr>cr_name := n\<rparr>) \<noteq> Inr rec" for rec
      using check by simp
    then have "\<not> validCreateRequest E (trimCreateRequest req)"
      unfolding checkCreateRequest_iff validCreateRequest_name by blast
    then show ?thesis
      using Inl run check[symmetric] checkCreateRequest_error by simp
  next
    case (Inr rec)
    then have "validCreateRequest E (trimCreateRequest req)"
      using check checkCreateRequest_iff[of E "(trimCreateRequest req)\<lparr>cr_name := n\<rparr>" rec]
      unfolding validCreateRequest_name by simp
    then show ?thesis
      using Inr run createRecord_fresh by simp
  qed
qed

definition demoRequest :: CreateRequest where
  "demoRequest = \<lparr>cr_name = '' web '', cr_namespace = ''ku-ns'', cr_cpu = 0, cr_memory = [], cr_image = [],
     cr_disk = ''25Gi'', cr_domainPrefix = ''blog'', cr_sshID = ''alice'', cr_sshPassword = ''secret'',
     cr_powerState = ''On''\<rparr>"

lemma vmKeysUnique_empty: "vmKeysUnique (mem_view (mem_init [] f))"
  by (simp add: vmKeysUnique_def uniqueIn_def mem_view_def mem_init_def)

text \<open>Whatever faults the API server shows, \<open>Create\<close> keeps SSH ids and domain prefixes unique
  across the cluster.\<close>

theorem VM_Create_keeps_unique:
  assumes "kube_api E view" "vmKeysUnique (view s)"
  shows "vmKeysUnique (view (snd (run_state (VM_Create E salt req) s)))"
  using kube_api.VM_Create_unique[OF assms] unfolding wp_snd .

theorem VM_Create_keeps_unique_witness:
  "vmKeysUnique (mem_view (snd (run_state (VM_Create mem_env ''salt'' demoRequest)
     (mem_init [] [Served, ReplyLost, Served, Refused]))))"
  by (rule VM_Create_keeps_unique[OF mem_kube_api vmKeysUnique_empty])

text \<open>C9: a successful \<open>Create\<close> leaves exactly two new objects: a VM that decodes to a well-formed
  record with the generated password hash, and the guest-login Secret with the crypt hash of the
  password.  Nothing else changes.\<close>

theorem VM_Create_success:
  assumes "kube_api E view" "run_state (VM_Create E salt req) s = (Inr vm, s')"
  shows "\<exists>rec hash. createReady E salt req (view s) rec hash \<and> vmCreated rec hash (view s) (view s') \<and>
     vm_name vm = vr_name rec \<and> vm_namespace vm = vr_namespace rec \<and> vm_phase vm = ''Creating''"
  using wpD[OF kube_api.VM_Create_outcome[OF assms(1)] assms(2)] by simp

lemma demo_create_succeeds:
  "\<not> isl (fst (run_state (VM_Create mem_env ''salt'' demoRequest) (mem_init [] [])))"
  by code_simp

theorem VM_Create_success_witness:
  "\<exists>vm s' rec hash. run_state (VM_Create mem_env ''salt'' demoRequest) (mem_init [] []) = (Inr vm, s') \<and>
     vmCreated rec hash (mem_view (mem_init [] [])) (mem_view s') \<and> vm_phase vm = ''Creating''"
proof -
  obtain vm s' where run: "run_state (VM_Create mem_env ''salt'' demoRequest) (mem_init [] []) = (Inr vm, s')"
    using run_Inr[OF demo_create_succeeds] by blast
  from VM_Create_success[OF mem_kube_api run] run show ?thesis by blast
qed

text \<open>C21: when \<open>Create\<close> fails, the cluster is as before, unless the request had passed every check (it was valid, its SSH
  id and domain prefix were free, its password hashed) and the error leaves the outcome of a write open or reports a
  failed rollback.  Then what is left is the VM object, possibly marked for deletion, its Secret, or both.\<close>

theorem VM_Create_failure:
  assumes "kube_api E view" "run_state (VM_Create E salt req) s = (Inl e, s')"
  shows "view s' = view s \<or> (indefinite e \<or> rollbackFailed e) \<and>
    (\<exists>rec hash. createReady E salt req (view s) rec hash \<and> abandoned rec hash (view s) (view s') e)"
  using wpD[OF kube_api.VM_Create_failed[OF assms(1)] assms(2)] abandoned_error by blast

lemma demo_create_rolls_back:
  "run_state (VM_Create mem_env ''salt'' demoRequest)
     (mem_init [((secretGVR, ''ku-ns'', ''web-guest-login''), newObject ''Secret'' ''ku-ns'' ''web-guest-login'' [] [])] []) =
   (Inl (Wrapped ''failed to create guest login Secret ku-ns/web-guest-login: ''
      (ApiErr StatusReasonAlreadyExists ''already exists'') []),
    mem_init [((secretGVR, ''ku-ns'', ''web-guest-login''), newObject ''Secret'' ''ku-ns'' ''web-guest-login'' [] [])] [])"
  by code_simp

theorem VM_Create_failure_witness:
  "\<exists>e s s'. run_state (VM_Create mem_env ''salt'' demoRequest) s = (Inl e, s') \<and>
     mem_view s' = mem_view s \<and> apiIsAlreadyExists e"
proof -
  have "\<not> rollbackFailed (Wrapped ''failed to create guest login Secret ku-ns/web-guest-login: ''
      (ApiErr StatusReasonAlreadyExists ''already exists'') [])"
    by (simp add: rollbackFailed_def)
  with VM_Create_failure[OF mem_kube_api demo_create_rolls_back] demo_create_rolls_back show ?thesis
    by (intro exI conjI) (assumption, simp, simp add: apiIsAlreadyExists_def)
qed

text \<open>A password that \<open>validateSSHPassword\<close> accepts but that has more than the 72 bytes bcrypt
  takes makes every \<open>Create\<close> fail with bcrypt's error, which is not a RequestError, although the
  service announces a limit of 128 bytes.\<close>

theorem VM_Create_password_over_72:
  assumes "bcrypt_limit E" "72 < length (cr_sshPassword req)" "salt \<noteq> []"
    "run_state (createRecord E req) s = (Inr rec, s1)"
  shows "fst (run_state (VM_Create E salt req) s) = Inl (Plain ''bcrypt: password length exceeds 72 bytes'')"
proof -
  have "fst (run_state (HashPassword E (cr_sshPassword req) salt) s1) =
      Inl (Plain ''bcrypt: password length exceeds 72 bytes'')"
    using assms(1,2) unfolding HashPassword_run bcrypt_limit_def by blast
  then show ?thesis
    using assms(3,4)
    by (auto simp: VM_Create_def tryE_def fail_def Let_def split: prod.splits)
qed

definition longPasswordRequest :: CreateRequest where
  "longPasswordRequest = demoRequest\<lparr>cr_sshPassword := replicate 100 (CHR ''a'')\<rparr>"

theorem VM_Create_password_over_72_witness:
  "fst (run_state (VM_Create mem_env ''salt'' longPasswordRequest) (mem_init [] [])) =
     Inl (Plain ''bcrypt: password length exceeds 72 bytes'')"
proof -
  have "\<not> isl (fst (run_state (createRecord mem_env longPasswordRequest) (mem_init [] [])))"
    by code_simp
  from run_Inr[OF this] obtain rec s1
    where "run_state (createRecord mem_env longPasswordRequest) (mem_init [] []) = (Inr rec, s1)"
    by blast
  from VM_Create_password_over_72[OF mem_bcrypt_limit _ _ this, of "''salt''"] show ?thesis
    by (simp add: longPasswordRequest_def)
qed

text \<open>\<open>Update\<close> keeps SSH ids and domain prefixes unique, faults included.\<close>

theorem VM_Update_keeps_unique:
  assumes "kube_api E view" "vmKeysUnique (view s)"
  shows "vmKeysUnique (view (snd (run_state (VM_Update E salt ns n req) s)))"
proof -
  have "wp (VM_Update E salt ns n req) (\<lambda>r s'. vmKeysUnique (view s')) s"
    by (rule kube_api.wp_VM_Update[OF assms(1)]) (auto simp: assms(2) intro: update_keys_unique)
  then show ?thesis unfolding wp_snd .
qed

theorem VM_Update_keeps_unique_witness:
  "vmKeysUnique (mem_view (snd (run_state (VM_Update mem_env ''salt'' ''ku-ns'' ''web''
     (emptyUpdate\<lparr>up_sshID := Some ''bob''\<rparr>)) (mem_init [] [Served, ReplyLost]))))"
  by (rule VM_Update_keeps_unique[OF mem_kube_api vmKeysUnique_empty])

lemma VM_Update_outcome:
  assumes "kube_api E view"
  shows "wp (VM_Update E salt ns n req) (\<lambda>r s'. case r of
     Inr vm \<Rightarrow> updateFrame E req ns n (view s) (view s')
   | Inl e \<Rightarrow> view s' = view s \<or> indefinite e \<and> updateFrame E req ns n (view s) (view s')) s"
  by (rule kube_api.wp_VM_Update[OF assms]) (auto intro: update_frame)

lemma VM_Update_effect:
  assumes "kube_api E view" "run_state (VM_Update E salt ns n req) s = (Inr vm, s')"
  shows "updateFrame E req ns n (view s) (view s')"
  using wpD[OF VM_Update_outcome[OF assms(1)] assms(2)] by simp


definition demoSpec :: KiteVirtualMachineSpec where
  "demoSpec = \<lparr>vs_cpu = 2, vs_memory = ''4Gi'', vs_image = ''ubuntu-22.04'', vs_disk = ''25Gi'',
     vs_powerState = ''On'', vs_domainPrefix = ''blog'', vs_sshID = ''alice'',
     vs_sshPasswordHash = ''$2a$12$secret'', vs_delete = False\<rparr>"

definition demoVM :: kobj where
  "demoVM = newKiteVirtualMachineObject \<lparr>vr_name = ''web'', vr_namespace = ''ku-ns'', vr_spec = demoSpec\<rparr>"

definition demoWorld :: mem where
  "demoWorld = mem_init [((kiteVirtualMachineGVR, ''ku-ns'', ''web''), demoVM)] []"

lemma demo_update_succeeds:
  "\<not> isl (fst (run_state (VM_Update mem_env ''salt'' ''ku-ns'' ''web'' (emptyUpdate\<lparr>up_powerState := Some '' Off''\<rparr>)) demoWorld))"
  by code_simp


text \<open>\<open>MarkDelete\<close> changes nothing of the VM but \<open>spec.delete\<close>, which becomes true, whatever the
  rest of the spec holds.\<close>

theorem MarkDelete_only_marks:
  assumes "kube_api E view" "run_state (MarkDelete E salt ns n) s = (Inr vm, s')"
    "view s' (kiteVirtualMachineGVR, ns, n) = Some x"
  shows "\<exists>cur old. view s (kiteVirtualMachineGVR, ns, n) = Some cur \<and> recordFromObject cur = Inr old \<and>
     recordFromObject x = Inr (old\<lparr>vr_spec := (vr_spec old)\<lparr>vs_delete := True\<rparr>\<rparr>) \<and>
     objField x ''status'' = objField cur ''status'' \<and> k_finalizers x = k_finalizers cur"
proof -
  let ?req = "emptyUpdate\<lparr>up_delete := Some True\<rparr>"
  from VM_Update_effect[OF assms(1) assms(2)[unfolded MarkDelete_def]] assms(3)
  obtain cur old new where cur: "view s (kiteVirtualMachineGVR, ns, n) = Some cur" and old: "recordFromObject cur = Inr old"
    and x: "recordFromObject x = Inr new" and upd: "specUpdated E ?req (vr_spec old) (vr_spec new)"
    and keep: "k_finalizers x = k_finalizers cur" "objField x ''status'' = objField cur ''status''"
    by (auto simp: updateFrame_def)
  have "new = old\<lparr>vr_spec := (vr_spec old)\<lparr>vs_delete := True\<rparr>\<rparr>"
    using upd recordFromObject_sel(1,2)[OF x] recordFromObject_sel(1,2)[OF old]
      kube_api.view_key[OF assms(1) cur] kube_api.view_key[OF assms(1) assms(3)]
    by (cases old; cases new; cases "vr_spec old"; cases "vr_spec new") (auto simp: specUpdated_def emptyUpdate_def)
  with cur old x keep show ?thesis by auto
qed

theorem MarkDelete_only_marks_witness:
  "\<exists>x cur old. mem_view demoWorld (kiteVirtualMachineGVR, ''ku-ns'', ''web'') = Some cur \<and>
     recordFromObject cur = Inr old \<and> vr_spec old = demoSpec \<and>
     recordFromObject x = Inr (old\<lparr>vr_spec := (vr_spec old)\<lparr>vs_delete := True\<rparr>\<rparr>)"
proof -
  let ?run = "run_state (MarkDelete mem_env ''salt'' ''ku-ns'' ''web'') demoWorld"
  let ?key = "(kiteVirtualMachineGVR, ''ku-ns'', ''web'')"
  have "\<not> isl (fst ?run)" by code_simp
  from run_Inr[OF this] obtain vm s' where run: "?run = (Inr vm, s')" by blast
  have "\<not> Option.is_none (mem_view (snd ?run) ?key)" by code_simp
  then obtain x where x: "mem_view s' ?key = Some x" using run by (auto simp: Option.is_none_def)
  have "mem_view demoWorld ?key = Some demoVM"
    by (simp add: demoWorld_def mem_view_def validKey_def mem_init_def demoVM_def newKiteVirtualMachineObject_def newObject_def)
  with MarkDelete_only_marks[OF mem_kube_api, OF run x] show ?thesis
    by (auto simp: demoVM_def recordFromObject_new)
qed

end
