(* ===== verification/Go_Time.thy ===== *)
theory Go_Time
  imports Go_Encoding
begin

text \<open>
  The part of Go's package \<open>time\<close> the sources use: instants in UTC, \<open>time.Parse\<close> and
  \<open>Time.Format\<close> with the layout \<open>time.RFC3339\<close>.  An instant is a number of nanoseconds since the
  Unix epoch.  The round trip of formatting and parsing is proved for the years 0 to 9999, the
  range that a four-digit year can express.
\<close>

section \<open>The calendar\<close>

definition isLeap :: "int \<Rightarrow> bool" where
  "isLeap year \<longleftrightarrow> year mod 4 = 0 \<and> (year mod 100 \<noteq> 0 \<or> year mod 400 = 0)"

definition daysIn :: "int \<Rightarrow> int \<Rightarrow> int" where
  "daysIn month year =
     (if month = 2 then (if isLeap year then 29 else 28)
      else if month \<in> {4, 6, 9, 11} then 30 else 31)"

text \<open>Days of a year before the first of a month.\<close>

definition daysBeforeMonth :: "bool \<Rightarrow> int \<Rightarrow> int" where
  "daysBeforeMonth leap month =
     [0, 31, 59, 90, 120, 151, 181, 212, 243, 273, 304, 334] ! nat (month - 1) +
     (if leap \<and> 2 < month then 1 else 0)"

text \<open>Days from 1 January of year 1 to 1 January of year \<open>y + 1\<close>.\<close>

definition daysBeforeYear :: "int \<Rightarrow> int" where
  "daysBeforeYear y = 365 * y + y div 4 - y div 100 + y div 400"

definition epochDays :: int where
  "epochDays = 719162"

definition dayNumber :: "int \<Rightarrow> int \<Rightarrow> int \<Rightarrow> int" where
  "dayNumber year month day =
     daysBeforeYear (year - 1) + daysBeforeMonth (isLeap year) month + day - 1 - epochDays"

text \<open>The date of a day number: 400-year cycles, then centuries, 4-year cycles and years.\<close>

definition yearOfDay :: "int \<Rightarrow> int \<times> int" where
  "yearOfDay d =
     (let a = d + epochDays; era = a div 146097; r = a mod 146097;
          n100 = min 3 (r div 36524); r1 = r - 36524 * n100;
          n4 = r1 div 1461; r2 = r1 - 1461 * n4;
          n1 = min 3 (r2 div 365)
      in (400 * era + 100 * n100 + 4 * n4 + n1 + 1, r2 - 365 * n1))"

fun monthOfYday :: "bool \<Rightarrow> int list \<Rightarrow> int \<Rightarrow> int" where
  "monthOfYday leap [] yday = 1"
| "monthOfYday leap (m # ms) yday = (if daysBeforeMonth leap m \<le> yday then m else monthOfYday leap ms yday)"

definition civilDate :: "int \<Rightarrow> int \<times> int \<times> int" where
  "civilDate d =
     (case yearOfDay d of (year, yday) \<Rightarrow>
        let month = monthOfYday (isLeap year) [12, 11, 10, 9, 8, 7, 6, 5, 4, 3, 2] yday
        in (year, month, yday - daysBeforeMonth (isLeap year) month + 1))"

lemma daysBeforeYear_split:
  assumes "0 \<le> n100" "n100 \<le> 3" "0 \<le> n4" "n4 \<le> 24" "0 \<le> n1" "n1 \<le> 3"
  shows "daysBeforeYear (400 * era + 100 * n100 + 4 * n4 + n1) =
    146097 * era + 36524 * n100 + 1461 * n4 + 365 * n1"
proof -
  let ?y = "400 * era + 100 * n100 + 4 * n4 + n1"
  have "?y div 4 = 100 * era + 25 * n100 + n4"
    by (rule int_div_pos_eq[where r = n1]) (use assms in simp_all)
  moreover have "?y div 100 = 4 * era + n100"
    by (rule int_div_pos_eq[where r = "4 * n4 + n1"]) (use assms in simp_all)
  moreover have "?y div 400 = era"
    by (rule int_div_pos_eq[where r = "100 * n100 + 4 * n4 + n1"]) (use assms in simp_all)
  ultimately show ?thesis
    unfolding daysBeforeYear_def by (simp only: distrib_left)
qed

lemma mod_int_eq: "a = b * q + r \<Longrightarrow> 0 \<le> r \<Longrightarrow> r < b \<Longrightarrow> a mod b = (r :: int)"
  by (rule int_mod_pos_eq)

lemma isLeap_split:
  assumes "0 \<le> n100" "n100 \<le> 3" "0 \<le> n4" "n4 \<le> 24" "0 \<le> n1" "n1 \<le> 3"
  shows "isLeap (400 * e + 100 * n100 + 4 * n4 + n1 + 1) \<longleftrightarrow> n1 = 3 \<and> (n4 \<noteq> 24 \<or> n100 = 3)"
proof -
  let ?y = "400 * e + 100 * n100 + 4 * n4 + n1 + 1"
  consider (no) "n1 < 3" | (four) "n1 = 3" "n4 < 24" | (century) "n1 = 3" "n4 = 24" "n100 < 3"
    | (era) "n1 = 3" "n4 = 24" "n100 = 3"
    using assms by linarith
  then show ?thesis
  proof cases
    case no
    have "?y mod 4 = n1 + 1"
      by (rule mod_int_eq[where q = "100 * e + 25 * n100 + n4"]) (use assms no in simp_all)
    with no assms show ?thesis by (simp add: isLeap_def)
  next
    case four
    have "?y mod 4 = 0"
      by (rule mod_int_eq[where q = "100 * e + 25 * n100 + n4 + 1"]) (use four in simp_all)
    moreover have "?y mod 100 = 4 * n4 + 4"
      by (rule mod_int_eq[where q = "4 * e + n100"]) (use assms four in simp_all)
    ultimately show ?thesis using four assms by (simp add: isLeap_def)
  next
    case century
    have "?y mod 100 = 0"
      by (rule mod_int_eq[where q = "4 * e + n100 + 1"]) (use century in simp_all)
    moreover have "?y mod 400 = 100 * n100 + 100"
      by (rule mod_int_eq[where q = e]) (use assms century in simp_all)
    ultimately show ?thesis using century assms by (simp add: isLeap_def)
  next
    case era
    have "?y mod 400 = 0"
      by (rule mod_int_eq[where q = "e + 1"]) (use era in simp_all)
    moreover have "?y mod 4 = 0"
      by (rule mod_int_eq[where q = "100 * e + 100"]) (use era in simp_all)
    ultimately show ?thesis using era by (simp add: isLeap_def)
  qed
qed

text \<open>A remainder split off by a capped quotient, as each level of the calendar does.\<close>

lemma capped_div:
  assumes "0 \<le> (r::int)" "r < (cap + 1) * unit + slack" "0 < unit" "0 \<le> slack" "0 \<le> cap" "slack \<le> 1"
  defines "n \<equiv> min cap (r div unit)"
  shows "0 \<le> n" "n \<le> cap" "0 \<le> r - unit * n" "r - unit * n < unit + slack" "n < cap \<Longrightarrow> r - unit * n < unit"
proof -
  have div: "0 \<le> r div unit" using assms by (simp add: pos_imp_zdiv_nonneg_iff)
  have rem: "unit * (r div unit) \<le> r" "r - unit * (r div unit) < unit"
    using assms(3) pos_mod_bound[of unit r] pos_mod_sign[of unit r] mult_div_mod_eq[of unit r] by linarith+
  show "0 \<le> n" "n \<le> cap" using div assms(5) by (simp_all add: n_def)
  have "unit * n \<le> unit * (r div unit)" using assms(3) by (simp add: n_def)
  with rem show "0 \<le> r - unit * n" by linarith
  show "n < cap \<Longrightarrow> r - unit * n < unit" using rem by (simp add: n_def min_def split: if_splits)
  moreover have "n = cap \<Longrightarrow> r - unit * n < unit + slack" using assms(2) by (simp add: algebra_simps)
  ultimately show "r - unit * n < unit + slack" using \<open>n \<le> cap\<close> assms(4) by linarith
qed

lemma yearOfDay_spec:
  assumes "yearOfDay d = (year, yday)"
  shows "d + epochDays = daysBeforeYear (year - 1) + yday" "0 \<le> yday"
    "yday < (if isLeap year then 366 else 365)"
proof -
  define a where "a = d + epochDays"
  define era where "era = a div 146097"
  define r where "r = a mod 146097"
  define n100 where "n100 = min 3 (r div 36524)"
  define r1 where "r1 = r - 36524 * n100"
  define n4 where "n4 = r1 div 1461"
  define r2 where "r2 = r1 - 1461 * n4"
  define n1 where "n1 = min 3 (r2 div 365)"
  have year: "year = 400 * era + 100 * n100 + 4 * n4 + n1 + 1" and yday: "yday = r2 - 365 * n1"
  proof -
    have "yearOfDay d = (400 * era + 100 * n100 + 4 * n4 + n1 + 1, r2 - 365 * n1)"
      unfolding yearOfDay_def Let_def n1_def r2_def n4_def r1_def n100_def r_def era_def a_def
      by (rule refl)
    with assms show "year = 400 * era + 100 * n100 + 4 * n4 + n1 + 1" "yday = r2 - 365 * n1"
      by (simp_all only: prod.inject)
  qed
  have r: "0 \<le> r" "r < 146097" "a = 146097 * era + r"
    by (simp_all add: r_def era_def)
  note c100 = capped_div[of r 3 36524 1, folded n100_def, folded r1_def]
  have b100: "0 \<le> n100" "n100 \<le> 3" "0 \<le> r1" "r1 < 36524 + 1" "n100 < 3 \<Longrightarrow> r1 < 36524"
    by (rule c100; use r in simp)+
  have n4: "n4 = min 24 (r1 div 1461)"
    unfolding n4_def using b100(4) by (simp add: min_def) linarith
  note c4 = capped_div[of r1 24 1461 0, folded n4, folded r2_def]
  have b4: "0 \<le> n4" "n4 \<le> 24" "0 \<le> r2" "r2 < 1461"
    by (rule c4(1-3); use b100(3,4) in simp)+ (use c4(4) b100(3,4) in simp)
  note c1 = capped_div[of r2 3 365 1, folded n1_def, folded yday]
  have b1: "0 \<le> n1" "n1 \<le> 3" "0 \<le> yday" "yday < 365 + 1" "n1 < 3 \<Longrightarrow> yday < 365"
    by (rule c1; use b4(3,4) in simp)+
  show "d + epochDays = daysBeforeYear (year - 1) + yday"
    using daysBeforeYear_split[OF b100(1,2) b4(1,2) b1(1,2), of era] r(3)
    unfolding year yday a_def[symmetric] r1_def r2_def by simp
  show "0 \<le> yday" by (rule b1)
  have "yday < 365" if "n1 = 3" "n4 = 24" "n100 < 3"
    using b100(5) that unfolding yday r2_def by simp
  then show "yday < (if isLeap year then 366 else 365)"
    using isLeap_split[OF b100(1,2) b4(1,2) b1(1,2), of era] b1 b100(2) unfolding year by force
qed

definition monthLength :: "bool \<Rightarrow> int \<Rightarrow> int" where
  "monthLength leap month =
     (if month = 2 then (if leap then 29 else 28) else if month \<in> {4, 6, 9, 11} then 30 else 31)"

lemma monthOfYday_spec:
  assumes "0 \<le> yday" "yday < (if leap then 366 else 365)"
  defines "m \<equiv> monthOfYday leap [12, 11, 10, 9, 8, 7, 6, 5, 4, 3, 2] yday"
  shows "daysBeforeMonth leap m \<le> yday \<and> yday < daysBeforeMonth leap m + monthLength leap m"
proof (cases leap)
  case True
  then show ?thesis using assms(1,2) unfolding m_def
    by (simp add: daysBeforeMonth_def monthLength_def)
next
  case False
  then show ?thesis using assms(1,2) unfolding m_def
    by (simp add: daysBeforeMonth_def monthLength_def)
qed

lemma daysIn_monthLength: "daysIn month year = monthLength (isLeap year) month"
  by (simp add: daysIn_def monthLength_def)

lemma civilDate_spec:
  assumes "civilDate d = (year, month, day)"
  shows "dayNumber year month day = d" "1 \<le> month" "month \<le> 12" "1 \<le> day" "day \<le> daysIn month year"
proof -
  obtain yday where y: "yearOfDay d = (year, yday)"
    and month: "month = monthOfYday (isLeap year) [12, 11, 10, 9, 8, 7, 6, 5, 4, 3, 2] yday"
    and day: "day = yday - daysBeforeMonth (isLeap year) month + 1"
    using assms by (auto simp: civilDate_def Let_def split: prod.splits)
  note b = yearOfDay_spec[OF y]
  show "dayNumber year month day = d"
    using b(1) by (simp add: dayNumber_def day)
  show "1 \<le> month" "month \<le> 12"
    unfolding month by simp_all
  show "1 \<le> day" "day \<le> daysIn month year"
    using monthOfYday_spec[OF b(2,3), folded month] unfolding day daysIn_monthLength by auto
qed

section \<open>Formatting and parsing RFC3339\<close>

definition nsPerSec :: int where
  "nsPerSec = 1000000000"

definition pad2 :: "int \<Rightarrow> string" where
  "pad2 n = [byteChar (48 + nat n div 10), byteChar (48 + nat n mod 10)]"

text \<open>\<open>appendInt\<close> with width 4: shorter years are padded, longer ones are written in full.\<close>

definition pad4 :: "int \<Rightarrow> string" where
  "pad4 n =
     (if 0 \<le> n \<and> n < 10000 then pad2 (n div 100) @ pad2 (n mod 100)
      else if n < 0 then CHR ''-'' # replicate (4 - length (Itoa (- n))) (CHR ''0'') @ Itoa (- n)
      else Itoa n)"

text \<open>\<open>t.UTC().Format(time.RFC3339)\<close>\<close>

definition dateTimeText :: "int \<Rightarrow> string" where
  "dateTimeText t =
     (let sec = t div nsPerSec; sod = sec mod 86400 in
      case civilDate (sec div 86400) of (year, month, day) \<Rightarrow>
        pad4 year @ ''-'' @ pad2 month @ ''-'' @ pad2 day @ ''T'' @
        pad2 (sod div 3600) @ '':'' @ pad2 (sod div 60 mod 60) @ '':'' @ pad2 (sod mod 60))"

definition formatRFC3339 :: "int \<Rightarrow> string" where
  "formatRFC3339 t = dateTimeText t @ ''Z''"

definition digitVal :: "char \<Rightarrow> int" where
  "digitVal c = int (byteOf c) - 48"

text \<open>\<open>getnum\<close>: two digits, or a single one when \<open>fixed\<close> is false.\<close>

fun getnum :: "bool \<Rightarrow> string \<Rightarrow> (int \<times> string) option" where
  "getnum fixed (c # d # r) =
     (if \<not> isDigitByte c then None
      else if isDigitByte d then Some (10 * digitVal c + digitVal d, r)
      else if fixed then None else Some (digitVal c, d # r))"
| "getnum fixed [c] = (if isDigitByte c \<and> \<not> fixed then Some (digitVal c, []) else None)"
| "getnum fixed [] = None"

fun getyear :: "string \<Rightarrow> (int \<times> string) option" where
  "getyear (a # b # c # d # r) =
     (if list_all isDigitByte [a, b, c, d]
      then Some (1000 * digitVal a + 100 * digitVal b + 10 * digitVal c + digitVal d, r) else None)"
| "getyear _ = None"

fun skipChar :: "char \<Rightarrow> string \<Rightarrow> string option" where
  "skipChar c (d # r) = (if c = d then Some r else None)"
| "skipChar c [] = None"

definition inRange :: "int \<Rightarrow> int \<Rightarrow> (int \<times> string) option \<Rightarrow> (int \<times> string) option" where
  "inRange lo hi r = (case r of Some (n, s) \<Rightarrow> if lo \<le> n \<and> n \<le> hi then r else None | None \<Rightarrow> None)"

text \<open>
  A fraction after the seconds, introduced by a period or a comma: nine digits count, further
  ones are dropped.
\<close>

definition fraction :: "string \<Rightarrow> int \<times> string" where
  "fraction s =
     (case s of
        c # rest \<Rightarrow>
          (let ds = takeWhile isDigitByte rest; nine = take 9 ds in
           if (c = CHR ''.'' \<or> c = CHR '','') \<and> ds \<noteq> []
           then (foldl (\<lambda>acc d. 10 * acc + digitVal d) 0 nine * 10 ^ (9 - length nine), drop (length ds) rest)
           else (0, s))
      | [] \<Rightarrow> (0, s))"

text \<open>The zone: \<open>Z\<close> or a signed offset of hours and minutes, in seconds.\<close>

definition zone :: "string \<Rightarrow> int option" where
  "zone s =
     (if s = ''Z'' then Some 0 else
      case s of
        sign # rest \<Rightarrow>
          if sign \<noteq> CHR ''+'' \<and> sign \<noteq> CHR ''-'' then None else
          do { (hh, r1) \<leftarrow> inRange 0 24 (getnum True rest); r2 \<leftarrow> skipChar (CHR '':'') r1;
               (mm, r3) \<leftarrow> inRange 0 60 (getnum True r2);
               if r3 \<noteq> [] then None
               else Some ((if sign = CHR ''-'' then -1 else 1) * ((hh * 60 + mm) * 60)) }
      | [] \<Rightarrow> None)"

text \<open>\<open>time.Parse(time.RFC3339, s)\<close>: the instant, or nothing when it returns an error.\<close>

definition parseRFC3339 :: "string \<Rightarrow> int option" where
  "parseRFC3339 s = do {
     (year, s1) \<leftarrow> getyear s; s2 \<leftarrow> skipChar (CHR ''-'') s1;
     (month, s3) \<leftarrow> inRange 1 12 (getnum True s2); s4 \<leftarrow> skipChar (CHR ''-'') s3;
     (day, s5) \<leftarrow> getnum True s4; s6 \<leftarrow> skipChar (CHR ''T'') s5;
     (hour, s7) \<leftarrow> inRange 0 23 (getnum False s6); s8 \<leftarrow> skipChar (CHR '':'') s7;
     (minute, s9) \<leftarrow> inRange 0 59 (getnum True s8); s10 \<leftarrow> skipChar (CHR '':'') s9;
     (sec, s11) \<leftarrow> inRange 0 59 (getnum True s10);
     let (nsec, s12) = fraction s11;
     offset \<leftarrow> zone s12;
     if 1 \<le> day \<and> day \<le> daysIn month year
     then Some ((dayNumber year month day * 86400 + hour * 3600 + minute * 60 + sec - offset) * nsPerSec + nsec)
     else None
   }"

lemma getnum_pad2:
  assumes "0 \<le> n" "n < 100"
  shows "getnum fixed (pad2 n @ r) = Some (n, r)"
proof -
  have "nat n div 10 < 10" "nat n mod 10 < 10" using assms by auto
  moreover have "10 * int (nat n div 10) + int (nat n mod 10) = n"
    using assms(1) by (simp add: zdiv_int zmod_int)
  ultimately show ?thesis
    by (simp add: pad2_def digitVal_def)
qed

lemma digitVal_digit: "n < 10 \<Longrightarrow> digitVal (byteChar (48 + n)) = int n"
  by (simp add: digitVal_def)

lemma getyear_pad2:
  assumes "0 \<le> a" "a < 100" "0 \<le> b" "b < 100"
  shows "getyear (pad2 a @ pad2 b @ r) = Some (100 * a + b, r)"
proof -
  have d: "nat a div 10 < 10" "nat b div 10 < 10" "nat a mod 10 < 10" "nat b mod 10 < 10" using assms by auto
  have "10 * int (nat a div 10) + int (nat a mod 10) = a" "10 * int (nat b div 10) + int (nat b mod 10) = b"
    using assms by (simp_all add: zdiv_int zmod_int)
  then have "1000 * int (nat a div 10) + 100 * int (nat a mod 10) + 10 * int (nat b div 10) + int (nat b mod 10) = 100 * a + b"
    by linarith
  with d show ?thesis
    by (simp add: pad2_def digitVal_digit d)
qed

lemma getyear_pad4:
  assumes "0 \<le> n" "n < 10000"
  shows "getyear (pad4 n @ r) = Some (n, r)"
proof -
  have b: "0 \<le> n div 100" "n div 100 < 100" "0 \<le> n mod 100" "n mod 100 < 100" using assms by auto
  have "pad4 n = pad2 (n div 100) @ pad2 (n mod 100)" using assms by (simp add: pad4_def)
  then show ?thesis using getyear_pad2[OF b, of r] by simp
qed

lemma fraction_Z: "fraction ''Z'' = (0, ''Z'')" and zone_Z: "zone ''Z'' = Some 0"
  by (simp_all add: fraction_def zone_def)

lemma parse_parts:
  assumes "0 \<le> year" "year < 10000" "1 \<le> month" "month \<le> 12" "1 \<le> day" "day \<le> daysIn month year"
    "0 \<le> h" "h \<le> 23" "0 \<le> m" "m \<le> 59" "0 \<le> s" "s \<le> 59" "fraction tail = (nsec, ''Z'')"
  shows "parseRFC3339 (pad4 year @ ''-'' @ pad2 month @ ''-'' @ pad2 day @ ''T'' @
      pad2 h @ '':'' @ pad2 m @ '':'' @ pad2 s @ tail) =
    Some ((dayNumber year month day * 86400 + h * 3600 + m * 60 + s) * nsPerSec + nsec)"
proof -
  have d: "day < 100" using assms(6) by (auto simp: daysIn_def split: if_splits)
  show ?thesis
    unfolding parseRFC3339_def using assms d
    by (simp add: getyear_pad4 getnum_pad2 inRange_def zone_Z)
qed

lemma clockParts:
  "0 \<le> t mod 86400 div (3600 :: int)" "t mod 86400 div (3600 :: int) \<le> 23"
  "0 \<le> t mod 86400 div 60 mod (60 :: int)" "t mod 86400 div 60 mod (60 :: int) \<le> 59"
  "0 \<le> t mod 86400 mod (60 :: int)" "t mod 86400 mod (60 :: int) \<le> 59"
proof -
  have sod: "0 \<le> t mod 86400" "t mod 86400 < 86400" by auto
  show "0 \<le> t mod 86400 div 3600" "t mod 86400 div 3600 \<le> 23"
    using zdiv_mono1[of "t mod 86400" 86399 3600] sod by (simp_all add: pos_imp_zdiv_nonneg_iff)
  show "0 \<le> t mod 86400 div 60 mod 60" "t mod 86400 div 60 mod 60 \<le> 59" "0 \<le> t mod 86400 mod 60" "t mod 86400 mod 60 \<le> 59"
    using pos_mod_bound[of 60 "t mod 86400 div 60"] pos_mod_bound[of 60 "t mod 86400"] by auto
qed

text \<open>For every instant in a year that four digits can hold, parsing restores what was written.\<close>

lemma parse_dateTime:
  assumes "0 \<le> fst (civilDate (t div nsPerSec div 86400))" "fst (civilDate (t div nsPerSec div 86400)) < 10000"
    and tail: "fraction tail = (nsec, ''Z'')"
  shows "parseRFC3339 (dateTimeText t @ tail) = Some (t div nsPerSec * nsPerSec + nsec)"
proof -
  let ?sec = "t div nsPerSec" let ?sod = "t div nsPerSec mod 86400"
  obtain year month day where c: "civilDate (?sec div 86400) = (year, month, day)" by (cases "civilDate (?sec div 86400)") auto
  note spec = civilDate_spec[OF c]
  have y: "0 \<le> year" "year < 10000" using assms c by auto
  have "?sod div 3600 = ?sod div 60 div 60"
    using zdiv_zmult2_eq[of 60 ?sod 60] by simp
  then have sum: "?sod div 3600 * 3600 + ?sod div 60 mod 60 * 60 + ?sod mod 60 = ?sod"
    using div_mult_mod_eq[of "?sod div 60" 60] div_mult_mod_eq[of ?sod 60] by linarith
  have day: "dayNumber year month day * 86400 + ?sod = ?sec"
    unfolding spec(1) by simp
  have "(dayNumber year month day * 86400 + ?sod div 3600 * 3600 + ?sod div 60 mod 60 * 60 + ?sod mod 60) = ?sec"
    using sum day by linarith
  then show ?thesis
    unfolding dateTimeText_def Let_def c prod.case append_assoc parse_parts[OF y spec(2-5) clockParts tail] by (simp only:)
qed

text \<open>Formatting drops the nanoseconds.\<close>

lemma parse_format:
  assumes "0 \<le> fst (civilDate (t div nsPerSec div 86400))" "fst (civilDate (t div nsPerSec div 86400)) < 10000"
  shows "parseRFC3339 (formatRFC3339 t) = Some (t div nsPerSec * nsPerSec)"
  using parse_dateTime[OF assms fraction_Z] by (simp add: formatRFC3339_def)

end
