(* ===== verification/Controller_Base.thy ===== *)
theory Controller_Base
  imports VM_Service Go_Time
begin

text \<open>
  What the reconcilers under \<open>cmd/kite-controller/apps\<close> share: informer event objects, the typed
  view of a KiteVirtualMachine (\<open>api/v1/types.go\<close>), ownership labels, the Ready condition, and the
  lemmas on writing fields of \<open>status\<close>.

  Three third-party functions are parameters, in the record \<open>converters\<close>: the conversion of an
  unstructured object into a typed one (\<open>runtime.DefaultUnstructuredConverter\<close>), the rendering of
  an embedded YAML template (\<open>text/template\<close> followed by the YAML decoder), and the text of an
  instant in the time zone of the process.
\<close>

section \<open>Typed resources and events\<close>

text \<open>
  The fields of the typed resources that the reconcilers read.  The conditions of a VM status and the status of a
  user are only read and written through the unstructured object.
\<close>

record KiteVirtualMachineStatus =
  st_phase :: string
  st_currentPowerState :: string
  st_observedGeneration :: int
  st_domain :: string
  st_nodeName :: string
  st_sshKeySecretName :: string
  st_cloudInitSecretName :: string
  st_serviceName :: string
  st_dataVolumeName :: string
  st_dataVolumePhase :: string
  st_dataVolumeProgress :: string
  st_dataVolumeMessage :: string

record KiteVirtualMachine =
  kv_name :: string
  kv_namespace :: string
  kv_finalizers :: "string list"
  kv_spec :: KiteVirtualMachineSpec
  kv_status :: KiteVirtualMachineStatus

record KiteUser =
  ku_name :: string
  ku_generation :: int
  ku_spec :: KiteUserSpec

record converters =
  cv_vm :: "kobj \<Rightarrow> KiteVirtualMachine result"
  cv_user :: "kobj \<Rightarrow> KiteUser result"
  cv_render :: "string \<Rightarrow> (string \<times> string) list \<Rightarrow> kobj list result"
  cv_localTime :: "int \<Rightarrow> string"

text \<open>What the reconcilers rely on of the conversion: it copies the fields it is named after.\<close>

definition vmConverted :: "kobj \<Rightarrow> KiteVirtualMachine \<Rightarrow> bool" where
  "vmConverted obj vm \<longleftrightarrow>
     kv_name vm = k_name obj \<and> kv_namespace vm = k_namespace obj \<and> kv_finalizers vm = k_finalizers obj \<and>
     vs_cpu (kv_spec vm) = intValue (specOf obj) ''cpu'' \<and>
     vs_memory (kv_spec vm) = stringValue (specOf obj) ''memory'' \<and>
     vs_image (kv_spec vm) = stringValue (specOf obj) ''image'' \<and>
     vs_disk (kv_spec vm) = stringValue (specOf obj) ''disk'' \<and>
     vs_powerState (kv_spec vm) = stringValue (specOf obj) ''powerState'' \<and>
     vs_domainPrefix (kv_spec vm) = stringValue (specOf obj) ''domainPrefix'' \<and>
     vs_sshID (kv_spec vm) = stringValue (specOf obj) ''sshId'' \<and>
     vs_delete (kv_spec vm) = boolValue (specOf obj) ''delete''"

definition convertsVM :: "converters \<Rightarrow> bool" where
  "convertsVM C \<longleftrightarrow> (\<forall>obj vm. cv_vm C obj = Inr vm \<longrightarrow> vmConverted obj vm)"

text \<open>
  The object an informer hands to a handler: the object itself, the tombstone of a deletion the
  informer missed, or something else.
\<close>

datatype eventObj =
    EventObject kobj
  | DeletedFinalStateUnknown "kobj option"
  | OtherEvent

definition eventResource :: "string \<Rightarrow> eventObj \<Rightarrow> kobj result" where
  "eventResource kind ev =
     (case ev of
        EventObject obj \<Rightarrow> Inr obj
      | DeletedFinalStateUnknown (Some obj) \<Rightarrow> Inr obj
      | _ \<Rightarrow> Inl (Plain (kind @ '' event object is not unstructured'')))"

definition kiteVirtualMachineResourceFromEventObject :: "eventObj \<Rightarrow> kobj result" where
  "kiteVirtualMachineResourceFromEventObject = eventResource ''KiteVirtualMachine''"

definition kubeVirtVirtualMachineFromEventObject :: "eventObj \<Rightarrow> kobj result" where
  "kubeVirtVirtualMachineFromEventObject = eventResource ''KubeVirt VirtualMachine''"

definition dataVolumeFromEventObject :: "eventObj \<Rightarrow> kobj result" where
  "dataVolumeFromEventObject = eventResource ''DataVolume''"

definition serviceFromEventObject :: "eventObj \<Rightarrow> kobj result" where
  "serviceFromEventObject = eventResource ''Service''"

definition namespaceFromEventObject :: "eventObj \<Rightarrow> kobj result" where
  "namespaceFromEventObject = eventResource ''namespace''"

definition baseResourceFromEventObject :: "eventObj \<Rightarrow> kobj result" where
  "baseResourceFromEventObject = eventResource ''KiteUser base resource''"

definition kiteVirtualMachineFromUnstructured :: "converters \<Rightarrow> kobj \<Rightarrow> KiteVirtualMachine result" where
  "kiteVirtualMachineFromUnstructured C resource = cv_vm C resource"

definition kiteVirtualMachineFromEventObject :: "converters \<Rightarrow> eventObj \<Rightarrow> KiteVirtualMachine result" where
  "kiteVirtualMachineFromEventObject C ev =
     (case kiteVirtualMachineResourceFromEventObject ev of Inl e \<Rightarrow> Inl e | Inr resource \<Rightarrow> cv_vm C resource)"

text \<open>\<open>Render\<close>: the first object of a template; \<open>RenderAll\<close> is the parameter itself.\<close>

definition Render :: "converters \<Rightarrow> string \<Rightarrow> (string \<times> string) list \<Rightarrow> kobj result" where
  "Render C template data =
     (case cv_render C template data of
        Inl e \<Rightarrow> Inl e
      | Inr [] \<Rightarrow> Inl (Plain ''EOF'')
      | Inr (obj # _) \<Rightarrow> Inr obj)"

section \<open>Labels\<close>

definition kiteManagedByLabel :: string where
  "kiteManagedByLabel = ''hy3ons.github.io/managed-by''"

definition kiteVMNameLabel :: string where
  "kiteVMNameLabel = ''hy3ons.github.io/kite-vm-name''"

definition kiteVMNamespaceLabel :: string where
  "kiteVMNamespaceLabel = ''hy3ons.github.io/kite-vm-namespace''"

definition kiteControllerLabel :: string where
  "kiteControllerLabel = ''kite-controller''"

definition labelOf :: "kobj \<Rightarrow> string \<Rightarrow> string" where
  "labelOf obj l = (case map_of (k_labels obj) l of None \<Rightarrow> [] | Some x \<Rightarrow> x)"

definition resourceOwnedByKiteVirtualMachine :: "kobj \<Rightarrow> string \<Rightarrow> string \<Rightarrow> bool" where
  "resourceOwnedByKiteVirtualMachine obj ownerNamespace ownerName \<longleftrightarrow>
     labelOf obj kiteManagedByLabel = kiteControllerLabel \<and>
     labelOf obj kiteVMNamespaceLabel = ownerNamespace \<and>
     labelOf obj kiteVMNameLabel = ownerName"

section \<open>Phases\<close>

definition kiteVMPhaseProvisioning :: string where "kiteVMPhaseProvisioning = ''Provisioning''"
definition kiteVMPhaseRunning :: string where "kiteVMPhaseRunning = ''Running''"
definition kiteVMPhaseStopped :: string where "kiteVMPhaseStopped = ''Stopped''"
definition kiteVMPhaseReady :: string where "kiteVMPhaseReady = ''Ready''"
definition kiteVMPhaseDeleting :: string where "kiteVMPhaseDeleting = ''Deleting''"
definition kiteVMPhaseFailed :: string where "kiteVMPhaseFailed = ''Failed''"
definition kiteVMConditionReady :: string where "kiteVMConditionReady = ''VirtualMachineReady''"
definition kiteVMReasonReconciled :: string where "kiteVMReasonReconciled = ''Reconciled''"
definition kiteVMReasonDeleting :: string where "kiteVMReasonDeleting = ''Deleting''"
definition kiteVMReasonFailed :: string where "kiteVMReasonFailed = ''ReconcileFailed''"
definition ConditionTrue :: string where "ConditionTrue = ''True''"
definition ConditionFalse :: string where "ConditionFalse = ''False''"

lemmas phase_defs =
  kiteVMPhaseProvisioning_def kiteVMPhaseRunning_def kiteVMPhaseStopped_def kiteVMPhaseReady_def
  kiteVMPhaseDeleting_def kiteVMPhaseFailed_def

definition kiteVMPhaseIsRuntimeStable :: "string \<Rightarrow> bool" where
  "kiteVMPhaseIsRuntimeStable phase \<longleftrightarrow>
     phase = kiteVMPhaseRunning \<or> phase = kiteVMPhaseStopped \<or> phase = kiteVMPhaseReady"

section \<open>Names of child resources\<close>

definition sshKeySecretName :: "string \<Rightarrow> string" where
  "sshKeySecretName vmName = vmName @ ''-ssh-key''"

definition kiteVirtualMachineResourceNames :: "string \<Rightarrow> (string \<times> string) list" where
  "kiteVirtualMachineResourceNames vmName =
     [(''sshKeySecretName'', sshKeySecretName vmName),
      (''cloudInitSecretName'', vmName @ ''-cloud-init-userdata''),
      (''serviceName'', ''vps-access-'' @ vmName),
      (''dataVolumeName'', vmName @ ''-disk'')]"

section \<open>Conditions\<close>

definition machineStringValue :: "gov option \<Rightarrow> string" where
  "machineStringValue v = (case v of Some (GStr s) \<Rightarrow> s | _ \<Rightarrow> [])"

definition kiteVirtualMachineCondition :: "string \<Rightarrow> int \<Rightarrow> string \<Rightarrow> string \<Rightarrow> string \<Rightarrow> gomap" where
  "kiteVirtualMachineCondition time observedGeneration conditionStatus reason message =
     [(''type'', GStr kiteVMConditionReady), (''status'', GStr conditionStatus),
      (''lastTransitionTime'', GStr time), (''reason'', GStr reason), (''message'', GStr message),
      (''observedGeneration'', GInt observedGeneration)]"

definition isReadyCondition :: "gomap \<Rightarrow> bool" where
  "isReadyCondition c \<longleftrightarrow> machineStringValue (map_of c ''type'') = kiteVMConditionReady"

fun replaceConditions :: "gov list \<Rightarrow> gomap \<Rightarrow> gov list" where
  "replaceConditions [] new = []"
| "replaceConditions (GMap c # items) new =
     (if isReadyCondition c then GMap new else GMap c) # replaceConditions items new"
| "replaceConditions (_ # items) new = replaceConditions items new"

fun hasReadyCondition :: "gov list \<Rightarrow> bool" where
  "hasReadyCondition [] = False"
| "hasReadyCondition (GMap c # items) = (isReadyCondition c \<or> hasReadyCondition items)"
| "hasReadyCondition (_ # items) = hasReadyCondition items"

definition replaceKiteVirtualMachineCondition :: "gov list \<Rightarrow> gomap \<Rightarrow> gov list" where
  "replaceKiteVirtualMachineCondition conditions new =
     replaceConditions conditions new @ (if hasReadyCondition conditions then [] else [GMap new])"

fun findReady :: "gov list \<Rightarrow> gomap" where
  "findReady [] = []"
| "findReady (GMap c # items) = (if isReadyCondition c then c else findReady items)"
| "findReady (_ # items) = findReady items"

definition findKiteVirtualMachineCondition :: "gomap \<Rightarrow> gomap" where
  "findKiteVirtualMachineCondition object =
     findReady (nestedOr [] (NestedSlice object [''status'', ''conditions'']))"

lemma ready_condition: "isReadyCondition (kiteVirtualMachineCondition t g s r m)"
  by (simp add: isReadyCondition_def kiteVirtualMachineCondition_def machineStringValue_def)

text \<open>The condition found after a replacement is the new one, and other conditions stay.\<close>

lemma findReady_replace:
  assumes "isReadyCondition new"
  shows "findReady (replaceKiteVirtualMachineCondition cs new) = new"
proof -
  have "findReady (replaceConditions cs new @ rest) = (if hasReadyCondition cs then new else findReady rest)" for rest
    using assms by (induction cs new rule: replaceConditions.induct) auto
  then show ?thesis
    by (simp add: replaceKiteVirtualMachineCondition_def assms)
qed

lemma replace_keeps_others:
  assumes "GMap c \<in> set cs" "\<not> isReadyCondition c"
  shows "GMap c \<in> set (replaceKiteVirtualMachineCondition cs new)"
proof -
  have "GMap c \<in> set (replaceConditions cs new)"
    using assms by (induction cs new rule: replaceConditions.induct) auto
  then show ?thesis by (simp add: replaceKiteVirtualMachineCondition_def)
qed

section \<open>Fields of the status\<close>

definition statusField :: "gomap \<Rightarrow> string \<Rightarrow> gov option" where
  "statusField body f = map_of (mapValue body ''status'') f"

definition statusString :: "kobj \<Rightarrow> string \<Rightarrow> string" where
  "statusString obj f = nestedOr [] (NestedString (k_body obj) [''status'', f])"

definition statusInt :: "kobj \<Rightarrow> string \<Rightarrow> int" where
  "statusInt obj f = nestedOr 0 (NestedInt64 (k_body obj) [''status'', f])"

lemma NestedField_status:
  "NestedField (GMap body) [''status'', f] =
     (case map_of body ''status'' of
        None \<Rightarrow> Inr None | Some GNil \<Rightarrow> Inr None
      | Some (GMap m) \<Rightarrow> Inr (map_of m f) | Some _ \<Rightarrow> Inl (Plain ''accessor error''))"
  by (auto split: option.splits gov.splits)

lemma statusString_field:
  "statusString obj f = machineStringValue (statusField (k_body obj) f)"
  unfolding statusString_def NestedString_def NestedField_status statusField_def mapValue_def machineStringValue_def nestedOr_def
  by (auto split: option.splits gov.splits)

lemma statusInt_field:
  "statusInt obj f = (case statusField (k_body obj) f of Some (GInt i) \<Rightarrow> i | _ \<Rightarrow> 0)"
  unfolding statusInt_def NestedInt64_def NestedField_status statusField_def mapValue_def nestedOr_def
  by (auto split: option.splits gov.splits)

lemma findCondition_field:
  "findKiteVirtualMachineCondition body =
     findReady (case statusField body ''conditions'' of Some (GList xs) \<Rightarrow> xs | _ \<Rightarrow> [])"
  unfolding findKiteVirtualMachineCondition_def NestedSlice_def NestedField_status statusField_def mapValue_def nestedOr_def
  by (auto split: option.splits gov.splits)

text \<open>
  A run of \<open>SetNestedField(obj, v, "status", f)\<close> and \<open>RemoveNestedField(obj, "status", f)\<close> calls
  with the early return on an error.
\<close>

fun setStatusFields :: "(string \<times> gov option) list \<Rightarrow> gomap \<Rightarrow> gomap result" where
  "setStatusFields [] body = Inr body"
| "setStatusFields ((f, Some v) # fs) body =
     (case SetNestedField body v [''status'', f] of Inl e \<Rightarrow> Inl e | Inr body' \<Rightarrow> setStatusFields fs body')"
| "setStatusFields ((f, None) # fs) body = setStatusFields fs (RemoveNestedField body [''status'', f])"

definition optStr :: "string \<Rightarrow> gov option" where
  "optStr s = (if s \<noteq> [] then Some (GStr s) else None)"

lemma set_status_field:
  assumes "SetNestedField body v [''status'', f] = Inr body'"
  shows "statusField body' g = (if g = f then Some v else statusField body g)"
    and "h \<noteq> ''status'' \<Longrightarrow> map_of body' h = map_of body h"
  using assms
  by (auto simp: statusField_def mapValue_def split: option.splits gov.splits)

lemma remove_status_field:
  "statusField (RemoveNestedField body [''status'', f]) g = (if g = f then None else statusField body g)"
  "h \<noteq> ''status'' \<Longrightarrow> map_of (RemoveNestedField body [''status'', f]) h = map_of body h"
  by (auto simp: statusField_def mapValue_def delete_conv' split: option.splits gov.splits)

lemma setStatusFields_get:
  assumes "setStatusFields fs body = Inr body'" "distinct (map fst fs)"
  shows "statusField body' g = (case map_of fs g of Some x \<Rightarrow> x | None \<Rightarrow> statusField body g)"
    and "h \<noteq> ''status'' \<Longrightarrow> map_of body' h = map_of body h"
  using assms
proof (induction fs body arbitrary: body' rule: setStatusFields.induct)
  case (2 f v fs body)
  case 1
  then obtain b1 where b1: "SetNestedField body v [''status'', f] = Inr b1" "setStatusFields fs b1 = Inr body'"
    by (auto split: sum.splits)
  show ?case
    using "2.IH"(1)[OF b1] 1 set_status_field(1)[OF b1(1)]
    by (auto split: option.splits simp: map_of_eq_None_iff image_iff)
next
  case (2 f v fs body)
  case 2
  then obtain b1 where b1: "SetNestedField body v [''status'', f] = Inr b1" "setStatusFields fs b1 = Inr body'"
    by (auto split: sum.splits)
  then show ?case
    using "2.IH"(2)[OF b1(1) _ b1(2)] 2 set_status_field(2)[OF b1(1)] by simp
next
  case (3 f fs body)
  case 1
  then show ?case
    using "3.IH"(1)[of body'] remove_status_field(1)
    by (auto split: option.splits simp: map_of_eq_None_iff image_iff)
next
  case (3 f fs body)
  case 2
  then show ?case
    using "3.IH"(2)[of body'] remove_status_field(2) by simp
qed simp_all

end
