(* ===== verification/Machine_Status.thy ===== *)
theory Machine_Status
  imports Controller_Base
begin

text \<open>
  Status writes of the KiteVirtualMachine controller: \<open>updateKiteVirtualMachineStatus\<close> of
  \<open>machine-reconcile.go\<close> and \<open>updateKiteVirtualMachineDataVolumeStatus\<close> of
  \<open>data-volume-reconcile.go\<close>, with their no-op checks.
\<close>

section \<open>The VM status\<close>

record statusWrite =
  sw_phase :: string
  sw_powerState :: string
  sw_domain :: string
  sw_nodeName :: string
  sw_conditionStatus :: string
  sw_reason :: string
  sw_message :: string

definition shouldPreserveRuntimeStatus :: "string \<Rightarrow> int \<Rightarrow> int \<Rightarrow> string \<Rightarrow> bool" where
  "shouldPreserveRuntimeStatus currentPhase currentObservedGeneration observedGeneration requestedPhase =
     (if requestedPhase \<noteq> kiteVMPhaseProvisioning then False
      else if currentObservedGeneration \<noteq> observedGeneration then False
      else kiteVMPhaseIsRuntimeStable currentPhase)"

definition conditionMatches :: "gomap \<Rightarrow> string \<Rightarrow> string \<Rightarrow> string \<Rightarrow> bool" where
  "conditionMatches condition conditionStatus reason message \<longleftrightarrow>
     machineStringValue (map_of condition ''status'') = conditionStatus \<and>
     machineStringValue (map_of condition ''reason'') = reason \<and>
     machineStringValue (map_of condition ''message'') = message"

definition kiteVirtualMachineStatusMatches :: "kobj \<Rightarrow> int \<Rightarrow> string \<Rightarrow> statusWrite \<Rightarrow> bool \<Rightarrow> bool" where
  "kiteVirtualMachineStatusMatches current observedGeneration phase w ignoreCondition =
     (let currentCondition = findKiteVirtualMachineCondition (k_body current) in
      if list_ex (\<lambda>(field, value). statusString current field \<noteq> value)
           (kiteVirtualMachineResourceNames (k_name current)) then False
      else
        let metadataMatches =
              statusString current ''phase'' = phase \<and>
              statusString current ''currentPowerState'' = sw_powerState w \<and>
              statusInt current ''observedGeneration'' = observedGeneration \<and>
              statusString current ''domain'' = sw_domain w \<and>
              statusString current ''nodeName'' = sw_nodeName w in
        if ignoreCondition then metadataMatches
        else metadataMatches \<and>
          conditionMatches currentCondition (sw_conditionStatus w) (sw_reason w) (sw_message w))"

text \<open>The fields the closure writes, and the object it sends.\<close>

definition vmStatusFields :: "string \<Rightarrow> int \<Rightarrow> string \<Rightarrow> statusWrite \<Rightarrow> (string \<times> gov option) list" where
  "vmStatusFields vmName observedGeneration targetPhase w =
     [(''phase'', Some (GStr targetPhase)),
      (''currentPowerState'', Some (GStr (sw_powerState w))),
      (''observedGeneration'', Some (GInt observedGeneration)),
      (''domain'', optStr (sw_domain w)),
      (''nodeName'', optStr (sw_nodeName w))] @
     map (\<lambda>(field, value). (field, Some (GStr value))) (kiteVirtualMachineResourceNames vmName)"

definition withCondition :: "gomap \<Rightarrow> gomap \<Rightarrow> gomap result" where
  "withCondition body condition =
     SetNestedField body
       (GList (replaceKiteVirtualMachineCondition
          (nestedOr [] (NestedSlice body [''status'', ''conditions''])) condition))
       [''status'', ''conditions'']"

text \<open>
  Both status writers run the same closure under \<open>RetryOnConflict\<close>: read the VM, leave a missing or
  deleting one alone, decide what to write, and write it with the resource version read.  The
  decision is a \<open>statusPlan\<close>: nothing, or the fields to set and the condition to put, if any (a
  function of the time text).
\<close>

type_synonym statusPlan = "kobj \<Rightarrow> ((string \<times> gov option) list \<times> (string \<Rightarrow> gomap) option) option"

definition writeStatusOnce :: "'s env \<Rightarrow> converters \<Rightarrow> KiteVirtualMachine \<Rightarrow> string \<Rightarrow> statusPlan \<Rightarrow> ('s, kobj option result) state" where
  "writeStatusOnce E C vm what plan = do {
     r \<leftarrow> env_get E kiteVirtualMachineGVR (kv_namespace vm) (kv_name vm);
     case r of
       Inl e \<Rightarrow>
         if apiIsNotFound e then ok None
         else fail (Wrapped (''failed to read KiteVirtualMachine '' @ kv_namespace vm @ ''/'' @ kv_name vm @
                '' before '' @ what @ '' update: '') e [])
     | Inr current \<Rightarrow>
         if k_deletionTimestamp current \<noteq> None then ok None else
         case plan current of
           None \<Rightarrow> ok None
         | Some (flds, condition) \<Rightarrow>
             tryE (State_Monad.return (setStatusFields flds (k_body current))) (\<lambda>body1.
             tryE (case condition of
                     None \<Rightarrow> ok body1
                   | Some c \<Rightarrow> do { now \<leftarrow> env_now E; State_Monad.return (withCondition body1 (c (cv_localTime C now))) })
               (\<lambda>body2.
             tryE (env_updateStatus E kiteVirtualMachineGVR (kv_namespace vm) (current\<lparr>k_body := body2\<rparr>))
               (\<lambda>_. ok None)))
   }"

definition writeStatus :: "'s env \<Rightarrow> converters \<Rightarrow> KiteVirtualMachine \<Rightarrow> string \<Rightarrow> statusPlan \<Rightarrow> ('s, unit result) state" where
  "writeStatus E C vm what plan = do {
     r \<leftarrow> env_retry E (writeStatusOnce E C vm what plan);
     case r of
       Inl e \<Rightarrow> fail (Wrapped (''failed to update KiteVirtualMachine '' @ kv_namespace vm @ ''/'' @ kv_name vm @
                 '' '' @ what @ '': '') e [])
     | Inr _ \<Rightarrow> ok ()
   }"

definition vmStatusPlan :: "KiteVirtualMachine \<Rightarrow> statusWrite \<Rightarrow> statusPlan" where
  "vmStatusPlan vm w current =
     (let observedGeneration = k_generation current;
          currentPhase = statusString current ''phase'';
          preserve = shouldPreserveRuntimeStatus currentPhase (statusInt current ''observedGeneration'')
                       observedGeneration (sw_phase w);
          targetPhase = (if preserve then currentPhase else sw_phase w) in
      if kiteVirtualMachineStatusMatches current observedGeneration targetPhase w preserve then None
      else Some (vmStatusFields (kv_name vm) observedGeneration targetPhase w,
        if preserve then None
        else Some (\<lambda>time. kiteVirtualMachineCondition time observedGeneration
               (sw_conditionStatus w) (sw_reason w) (sw_message w))))"

definition updateKiteVirtualMachineStatus :: "'s env \<Rightarrow> converters \<Rightarrow> KiteVirtualMachine \<Rightarrow> statusWrite \<Rightarrow> ('s, unit result) state" where
  "updateKiteVirtualMachineStatus E C vm w = writeStatus E C vm ''status'' (vmStatusPlan vm w)"

section \<open>The DataVolume status\<close>

record dataVolumeWrite =
  dw_phase :: string
  dw_progress :: string
  dw_message :: string
  dw_overallPhase :: string
  dw_conditionStatus :: string
  dw_reason :: string

definition dataVolumeStatusMessage :: "kobj \<Rightarrow> string" where
  "dataVolumeStatusMessage dataVolume =
     (case List.find (\<lambda>m. m \<noteq> [])
         (List.map_filter (\<lambda>item. case item of
              GMap condition \<Rightarrow> Some (machineStringValue (map_of condition ''message''))
            | _ \<Rightarrow> None)
          (nestedOr [] (NestedSlice (k_body dataVolume) [''status'', ''conditions'']))) of
        Some m \<Rightarrow> m
      | None \<Rightarrow> [])"

definition dataVolumeStatus :: "kobj \<Rightarrow> dataVolumeWrite" where
  "dataVolumeStatus dataVolume =
     (let phase0 = TrimSpace (statusString dataVolume ''phase'');
          phase = (if phase0 = [] then ''Pending'' else phase0);
          message0 = dataVolumeStatusMessage dataVolume;
          message = (if message0 = [] then ''DataVolume phase is '' @ phase else message0) in
      \<lparr>dw_phase = phase, dw_progress = statusString dataVolume ''progress'', dw_message = message,
       dw_overallPhase = (if phase = ''Failed'' then kiteVMPhaseFailed else kiteVMPhaseProvisioning),
       dw_conditionStatus = ConditionFalse,
       dw_reason = (if phase = ''Succeeded'' then ''DataVolumeReady''
                    else if phase = ''Failed'' then ''DataVolumeFailed'' else ''DataVolumeProgress'')\<rparr>)"

definition kiteVirtualMachineDataVolumeStatusMatches :: "kobj \<Rightarrow> int \<Rightarrow> dataVolumeWrite \<Rightarrow> bool \<Rightarrow> bool" where
  "kiteVirtualMachineDataVolumeStatusMatches current observedGeneration w ignoreCondition =
     (let currentPhase = statusString current ''phase'';
          phaseMatches = (if dw_overallPhase w \<noteq> kiteVMPhaseFailed \<and> currentPhase \<noteq> [] \<and>
                             currentPhase \<noteq> kiteVMPhaseProvisioning
                          then True else currentPhase = dw_overallPhase w);
          metadataMatches =
            statusInt current ''observedGeneration'' = observedGeneration \<and>
            statusString current ''dataVolumePhase'' = dw_phase w \<and>
            statusString current ''dataVolumeProgress'' = dw_progress w \<and>
            statusString current ''dataVolumeMessage'' = dw_message w \<and> phaseMatches in
      if ignoreCondition then metadataMatches
      else metadataMatches \<and>
        conditionMatches (findKiteVirtualMachineCondition (k_body current))
          (dw_conditionStatus w) (dw_reason w) (dw_message w))"

definition dataVolumeFields :: "int \<Rightarrow> string \<Rightarrow> dataVolumeWrite \<Rightarrow> (string \<times> gov option) list" where
  "dataVolumeFields observedGeneration currentPhase w =
     [(''observedGeneration'', Some (GInt observedGeneration)),
      (''dataVolumePhase'', Some (GStr (dw_phase w))),
      (''dataVolumeProgress'', optStr (dw_progress w)),
      (''dataVolumeMessage'', Some (GStr (dw_message w)))] @
     (if dw_overallPhase w = kiteVMPhaseFailed \<or> currentPhase = [] \<or> currentPhase = kiteVMPhaseProvisioning
      then [(''phase'', Some (GStr (dw_overallPhase w)))] else [])"

definition dataVolumePlan :: "dataVolumeWrite \<Rightarrow> statusPlan" where
  "dataVolumePlan w current =
     (let observedGeneration = k_generation current;
          currentPhase = statusString current ''phase'';
          preserve = dw_overallPhase w \<noteq> kiteVMPhaseFailed \<and> kiteVMPhaseIsRuntimeStable currentPhase in
      if kiteVirtualMachineDataVolumeStatusMatches current observedGeneration w preserve then None
      else Some (dataVolumeFields observedGeneration currentPhase w,
        if preserve then None
        else Some (\<lambda>time. kiteVirtualMachineCondition time observedGeneration
               (dw_conditionStatus w) (dw_reason w) (dw_message w))))"

definition updateKiteVirtualMachineDataVolumeStatus :: "'s env \<Rightarrow> converters \<Rightarrow> KiteVirtualMachine \<Rightarrow> dataVolumeWrite \<Rightarrow> ('s, unit result) state" where
  "updateKiteVirtualMachineDataVolumeStatus E C vm w =
     writeStatus E C vm ''DataVolume status'' (dataVolumePlan w)"

section \<open>What a status write does\<close>

definition vmKey :: "string \<Rightarrow> string \<Rightarrow> kkey" where
  "vmKey ns n = (kiteVirtualMachineGVR, ns, n)"

text \<open>The planned body, for some reading of the clock.\<close>

definition plannedBody :: "statusPlan \<Rightarrow> kobj \<Rightarrow> gomap \<Rightarrow> bool" where
  "plannedBody plan cur body \<longleftrightarrow>
     (\<exists>flds condition body1. plan cur = Some (flds, condition) \<and>
        setStatusFields flds (k_body cur) = Inr body1 \<and>
        (case condition of None \<Rightarrow> body = body1 | Some c \<Rightarrow> \<exists>time. withCondition body1 (c time) = Inr body))"

definition statusWritten :: "statusPlan \<Rightarrow> string \<Rightarrow> string \<Rightarrow> kview \<Rightarrow> kview \<Rightarrow> bool" where
  "statusWritten plan ns n v v' \<longleftrightarrow>
     (\<exists>cur stored body. v (vmKey ns n) = Some cur \<and> k_deletionTimestamp cur = None \<and> plannedBody plan cur body \<and>
        v' = v(vmKey ns n \<mapsto> stored) \<and> objField stored ''status'' = map_of body ''status'' \<and>
        (\<forall>f. f \<noteq> ''status'' \<longrightarrow> objField stored f = objField cur f) \<and>
        sameMeta cur stored \<and> k_namespace stored = k_namespace cur \<and> k_generation stored = k_generation cur \<and>
        k_deletionTimestamp stored = None)"

text \<open>Nothing left to write: the VM is gone, being deleted, or shows what the plan wants.\<close>

definition statusSettled :: "statusPlan \<Rightarrow> string \<Rightarrow> string \<Rightarrow> kview \<Rightarrow> bool" where
  "statusSettled plan ns n v \<longleftrightarrow>
     (case v (vmKey ns n) of None \<Rightarrow> True | Some cur \<Rightarrow> k_deletionTimestamp cur \<noteq> None \<or> plan cur = None)"

context kube_api begin

lemma statusReplaced_written:
  assumes cur: "view s (vmKey ns n) = Some cur" "k_deletionTimestamp cur = None" "plannedBody plan cur body"
    and rep: "statusReplaced kiteVirtualMachineGVR ns (cur\<lparr>k_body := body\<rparr>) (view s) v' stored"
  shows "statusWritten plan ns n (view s) v'"
proof -
  have key: "k_name cur = n" "k_namespace cur = ns"
    using view_key[OF cur(1)[unfolded vmKey_def]] by auto
  have "v' = (view s)(vmKey ns n \<mapsto> stored)" "objField stored ''status'' = map_of body ''status''"
    "\<forall>f. f \<noteq> ''status'' \<longrightarrow> objField stored f = objField cur f" "sameMeta cur stored"
    "k_namespace stored = k_namespace cur" "k_generation stored = k_generation cur" "k_deletionTimestamp stored = None"
    using rep cur key by (auto simp: statusReplaced_def vmKey_def objField_def)
  with cur show ?thesis unfolding statusWritten_def by blast
qed

lemma wp_writeStatusOnce:
  assumes same: "\<And>s' e. view s' = view s \<Longrightarrow> Q (Inl e) s'"
    and settled: "\<And>s'. view s' = view s \<Longrightarrow> statusSettled plan (kv_namespace vm) (kv_name vm) (view s) \<Longrightarrow> Q (Inr None) s'"
    and written: "\<And>s'. statusWritten plan (kv_namespace vm) (kv_name vm) (view s) (view s') \<Longrightarrow> Q (Inr None) s'"
    and lost: "\<And>s' e. statusWritten plan (kv_namespace vm) (kv_name vm) (view s) (view s') \<Longrightarrow> indefinite e \<Longrightarrow> Q (Inl e) s'"
  shows "wp (writeStatusOnce E C vm what plan) Q s"
  unfolding writeStatusOnce_def wp_bind
proof (rule wp_get, unfold sum.case)
  let ?ns = "kv_namespace vm" let ?n = "kv_name vm"
  fix s1 cur assume v1: "view s1 = view s" and "view s (kiteVirtualMachineGVR, ?ns, ?n) = Some cur"
  then have cur: "view s (vmKey ?ns ?n) = Some cur" by (simp add: vmKey_def)
  let ?send = "\<lambda>body2. tryE (env_updateStatus E kiteVirtualMachineGVR ?ns (cur\<lparr>k_body := body2\<rparr>)) (\<lambda>_. ok None)"
  have send: "wp (?send body2) Q s2"
    if "view s2 = view s" "k_deletionTimestamp cur = None" "plannedBody plan cur body2" for s2 body2
  proof -
    have w: "statusReplaced kiteVirtualMachineGVR ?ns (cur\<lparr>k_body := body2\<rparr>) (view s2) v' stored \<Longrightarrow>
        statusWritten plan ?ns ?n (view s) v'" for v' stored
      using statusReplaced_written[of s ?ns ?n cur plan body2] cur that by simp
    show ?thesis
      unfolding wp_tryE
      by (rule wp_updateStatus) (auto simp: wp_simps that(1) intro: same written[OF w] lost[OF w])
  qed
  show "wp (if k_deletionTimestamp cur \<noteq> None then ok None else
      case plan cur of None \<Rightarrow> ok None
      | Some (flds, condition) \<Rightarrow>
        tryE (State_Monad.return (setStatusFields flds (k_body cur))) (\<lambda>body1.
        tryE (case condition of None \<Rightarrow> ok body1
              | Some c \<Rightarrow> do { now \<leftarrow> env_now E; State_Monad.return (withCondition body1 (c (cv_localTime C now))) })
          ?send)) Q s1"
  proof (cases "k_deletionTimestamp cur \<noteq> None \<or> plan cur = None")
    case True
    then have "statusSettled plan ?ns ?n (view s)" using cur by (auto simp: statusSettled_def)
    with True show ?thesis using settled[OF v1] by (auto simp: wp_ok)
  next
    case False
    then obtain flds condition where p: "plan cur = Some (flds, condition)" and d: "k_deletionTimestamp cur = None"
      by auto
    have planned: "plannedBody plan cur body2"
      if "setStatusFields flds (k_body cur) = Inr body1"
        "case condition of None \<Rightarrow> body2 = body1 | Some c \<Rightarrow> \<exists>t. withCondition body1 (c t) = Inr body2" for body1 body2
      using p that by (auto simp: plannedBody_def)
    show ?thesis
    proof (cases "setStatusFields flds (k_body cur)")
      case (Inl e)
      then show ?thesis using p d by (simp add: wp_tryE wp_return wp_ok same[OF v1])
    next
      case (Inr body1)
      have "wp (tryE (case condition of None \<Rightarrow> ok body1
              | Some c \<Rightarrow> do { now \<leftarrow> env_now E; State_Monad.return (withCondition body1 (c (cv_localTime C now))) }) ?send) Q s1"
      proof (cases condition)
        case None
        then show ?thesis
          using send[OF v1 d planned[OF Inr]] by (simp add: wp_tryE wp_ok)
      next
        case (Some c)
        have "wp (env_now E) (\<lambda>now. wp (State_Monad.return (withCondition body1 (c (cv_localTime C now))))
            (\<lambda>r s2. case r of Inl e \<Rightarrow> Q (Inl e) s2 | Inr body2 \<Rightarrow> wp (?send body2) Q s2)) s1"
          by (rule wp_keeps[OF now_keeps])
             (use Some in \<open>auto simp: v1 wp_return intro!: same send[OF _ d planned[OF Inr]] split: sum.splits\<close>)
        with Some show ?thesis unfolding wp_tryE by (simp add: wp_bind)
      qed
      with Inr p d show ?thesis by (simp add: wp_tryE wp_return)
    qed
  qed
qed (use same settled in \<open>auto simp: wp_simps statusSettled_def vmKey_def\<close>)

text \<open>A conflict is definite, so a retried write has not taken effect before.\<close>

lemma wp_writeStatus:
  assumes same: "\<And>s' e. view s' = view s \<Longrightarrow> Q (Inl e) s'"
    and settled: "\<And>s'. view s' = view s \<Longrightarrow> statusSettled plan (kv_namespace vm) (kv_name vm) (view s) \<Longrightarrow> Q (Inr ()) s'"
    and written: "\<And>s'. statusWritten plan (kv_namespace vm) (kv_name vm) (view s) (view s') \<Longrightarrow> Q (Inr ()) s'"
    and lost: "\<And>s' e. statusWritten plan (kv_namespace vm) (kv_name vm) (view s) (view s') \<Longrightarrow> indefinite e \<Longrightarrow> Q (Inl e) s'"
  shows "wp (writeStatus E C vm what plan) Q s"
  unfolding writeStatus_def wp_bind
proof (rule wp_retry_conflict[where I = "\<lambda>s0. view s0 = view s"])
  fix s0 assume "view s0 = view s"
  moreover have "\<not> (indefinite e \<and> apiIsConflict e)" for e
    by (auto dest: indefinite_not_definite)
  ultimately show "wp (writeStatusOnce E C vm what plan) (\<lambda>r s'. wp (case r of
      Inl e \<Rightarrow> fail (Wrapped (''failed to update KiteVirtualMachine '' @ kv_namespace vm @ ''/'' @ kv_name vm @
                 '' '' @ what @ '': '') e []) | Inr _ \<Rightarrow> ok ()) Q s' \<and>
      (\<forall>e. r = Inl e \<and> apiIsConflict e \<longrightarrow> view s' = view s)) s0"
    by (intro wp_writeStatusOnce) (auto simp: wp_simps intro: same settled written lost)
qed simp

lemma statusWritten_other: "statusWritten plan ns n v v' \<Longrightarrow> k \<noteq> vmKey ns n \<Longrightarrow> v' k = v k"
  unfolding statusWritten_def by (metis fun_upd_other)

lemma frames_writeStatus:
  assumes "vmKey (kv_namespace vm) (kv_name vm) \<in> K"
  shows "frames view K (writeStatus E C vm what plan)"
  unfolding frames_wp by (intro allI wp_writeStatus) (use assms statusWritten_other in metis)+

lemma frames_vmStatus: "vmKey (kv_namespace vm) (kv_name vm) \<in> K \<Longrightarrow> frames view K (updateKiteVirtualMachineStatus E C vm w)"
  unfolding updateKiteVirtualMachineStatus_def by (rule frames_writeStatus)

lemma frames_dataVolumeStatus: "vmKey (kv_namespace vm) (kv_name vm) \<in> K \<Longrightarrow>
    frames view K (updateKiteVirtualMachineDataVolumeStatus E C vm w)"
  unfolding updateKiteVirtualMachineDataVolumeStatus_def by (rule frames_writeStatus)

end

section \<open>Written statuses settle\<close>

lemma statusField_cong: "map_of a ''status'' = map_of b ''status'' \<Longrightarrow> statusField a f = statusField b f"
  by (simp add: statusField_def mapValue_def)

lemma withCondition_fields:
  assumes "withCondition body c = Inr body'"
  shows "statusField body' f = (if f = ''conditions'' then
      Some (GList (replaceKiteVirtualMachineCondition (nestedOr [] (NestedSlice body [''status'', ''conditions''])) c))
    else statusField body f)"
  using set_status_field(1)[OF assms[unfolded withCondition_def]] by simp

text \<open>The fields and the condition of a planned body.\<close>

lemma plannedBody_fields:
  assumes "plannedBody plan cur body" "plan cur = Some (flds, condition)" "distinct (map fst flds)"
    "f \<noteq> ''conditions''"
  shows "statusField body f = (case map_of flds f of Some x \<Rightarrow> x | None \<Rightarrow> statusField (k_body cur) f)"
proof -
  obtain body1 where b1: "setStatusFields flds (k_body cur) = Inr body1"
    and c: "case condition of None \<Rightarrow> body = body1 | Some c \<Rightarrow> \<exists>time. withCondition body1 (c time) = Inr body"
    using assms(1,2) by (auto simp: plannedBody_def)
  have "statusField body f = statusField body1 f"
    using c assms(4) withCondition_fields by (auto split: option.splits)
  then show ?thesis using setStatusFields_get(1)[OF b1 assms(3)] by simp
qed

lemma plannedBody_condition:
  assumes "plannedBody plan cur body" "plan cur = Some (flds, Some c)" "\<And>time. isReadyCondition (c time)"
  shows "\<exists>time. findKiteVirtualMachineCondition body = c time"
proof -
  obtain body1 time where "withCondition body1 (c time) = Inr body"
    using assms(1,2) by (auto simp: plannedBody_def)
  from withCondition_fields[OF this, of "''conditions''"] show ?thesis
    by (auto simp: findCondition_field findReady_replace assms(3) intro!: exI[of _ time])
qed

lemma plannedBody_kept_condition:
  assumes "plannedBody plan cur body" "plan cur = Some (flds, None)" "distinct (map fst flds)"
    "map_of flds ''conditions'' = None"
  shows "statusField body ''conditions'' = statusField (k_body cur) ''conditions''"
  using assms setStatusFields_get(1)[OF _ assms(3), of "k_body cur" body "''conditions''"]
  by (auto simp: plannedBody_def)

lemma vmStatusFields_distinct: "distinct (map fst (vmStatusFields n g p w))"
  by (simp add: vmStatusFields_def kiteVirtualMachineResourceNames_def)

lemma optStr_value [simp]: "machineStringValue (optStr s) = s"
  by (auto simp: optStr_def machineStringValue_def)

lemma machineStringValue_str [simp]: "machineStringValue (Some (GStr s)) = s" "machineStringValue None = []"
  by (simp_all add: machineStringValue_def)

lemma conditionMatches_new: "conditionMatches (kiteVirtualMachineCondition t g s r m) s r m"
  by (simp add: conditionMatches_def kiteVirtualMachineCondition_def)

text \<open>What a status shows when the fields have just been written.\<close>

definition showsStatus :: "kobj \<Rightarrow> string \<Rightarrow> statusWrite \<Rightarrow> bool" where
  "showsStatus obj phase w \<longleftrightarrow>
     statusString obj ''phase'' = phase \<and> statusString obj ''currentPowerState'' = sw_powerState w \<and>
     statusInt obj ''observedGeneration'' = k_generation obj \<and>
     statusString obj ''domain'' = sw_domain w \<and> statusString obj ''nodeName'' = sw_nodeName w \<and>
     (\<forall>(f, x) \<in> set (kiteVirtualMachineResourceNames (k_name obj)). statusString obj f = x)"

lemma statusMatches_iff:
  "kiteVirtualMachineStatusMatches obj (k_generation obj) phase w ignore \<longleftrightarrow>
     showsStatus obj phase w \<and>
     (ignore \<or> conditionMatches (findKiteVirtualMachineCondition (k_body obj))
        (sw_conditionStatus w) (sw_reason w) (sw_message w))"
  by (auto simp: kiteVirtualMachineStatusMatches_def Let_def showsStatus_def list_ex_iff case_prod_beta)

lemma vmStatus_stored:
  assumes planned: "plannedBody (vmStatusPlan vm w) cur body"
    and plan: "vmStatusPlan vm w cur = Some (vmStatusFields (kv_name vm) (k_generation cur) phase w, cond)"
    and st: "objField stored ''status'' = map_of body ''status''" "k_generation stored = k_generation cur" "k_name stored = kv_name vm"
  shows "showsStatus stored phase w"
proof -
  have field: "statusField (k_body stored) f =
      (case map_of (vmStatusFields (kv_name vm) (k_generation cur) phase w) f of
         Some x \<Rightarrow> x | None \<Rightarrow> statusField (k_body cur) f)" if "f \<noteq> ''conditions''" for f
    using plannedBody_fields[OF planned plan vmStatusFields_distinct that]
      statusField_cong[of "k_body stored" body] st(1) by (simp add: objField_def)
  show ?thesis
    using st(2,3)
    by (simp add: showsStatus_def statusString_field statusInt_field field vmStatusFields_def kiteVirtualMachineResourceNames_def)
qed

lemma findCondition_cong:
  "map_of a ''status'' = map_of b ''status'' \<Longrightarrow> findKiteVirtualMachineCondition a = findKiteVirtualMachineCondition b"
  unfolding findCondition_field by (metis statusField_cong)

lemma stable_not_provisioning: "\<not> kiteVMPhaseIsRuntimeStable kiteVMPhaseProvisioning"
  by (simp add: kiteVMPhaseIsRuntimeStable_def phase_defs)

lemma vmStatus_settles:
  assumes written: "statusWritten (vmStatusPlan vm w) (kv_namespace vm) (kv_name vm) v v'"
    and name: "\<And>cur. v (vmKey (kv_namespace vm) (kv_name vm)) = Some cur \<Longrightarrow> k_name cur = kv_name vm"
  shows "statusSettled (vmStatusPlan vm w) (kv_namespace vm) (kv_name vm) v'"
proof -
  obtain cur stored body where cur: "v (vmKey (kv_namespace vm) (kv_name vm)) = Some cur"
    and planned: "plannedBody (vmStatusPlan vm w) cur body"
    and v': "v' = v(vmKey (kv_namespace vm) (kv_name vm) \<mapsto> stored)"
    and st: "objField stored ''status'' = map_of body ''status''" "sameMeta cur stored" "k_generation stored = k_generation cur"
    using written unfolding statusWritten_def by blast
  have n: "k_name stored = kv_name vm" using st(2) name[OF cur] by (simp add: sameMeta_def)
  let ?cp = "statusString cur ''phase''"
  define keep where "keep = shouldPreserveRuntimeStatus ?cp (statusInt cur ''observedGeneration'') (k_generation cur) (sw_phase w)"
  define phase where "phase = (if keep then ?cp else sw_phase w)"
  define cond where "cond = (if keep then None else Some (\<lambda>time. kiteVirtualMachineCondition time (k_generation cur)
      (sw_conditionStatus w) (sw_reason w) (sw_message w)))"
  have plan: "vmStatusPlan vm w cur = Some (vmStatusFields (kv_name vm) (k_generation cur) phase w, cond)"
    using planned by (auto simp: plannedBody_def vmStatusPlan_def Let_def keep_def phase_def cond_def split: if_splits)
  note shown = vmStatus_stored[OF planned plan st(1,3) n]
  have found: "findKiteVirtualMachineCondition (k_body stored) = findKiteVirtualMachineCondition body"
    using st(1) by (intro findCondition_cong) (simp add: objField_def)
  let ?keep' = "shouldPreserveRuntimeStatus (statusString stored ''phase'') (statusInt stored ''observedGeneration'')
      (k_generation stored) (sw_phase w)"
  have ph: "statusString stored ''phase'' = phase" "statusInt stored ''observedGeneration'' = k_generation stored"
    using shown by (simp_all add: showsStatus_def)
  have keep': "?keep' = keep"
    using stable_not_provisioning unfolding ph by (auto simp: phase_def keep_def shouldPreserveRuntimeStatus_def)
  have "conditionMatches (findKiteVirtualMachineCondition (k_body stored)) (sw_conditionStatus w) (sw_reason w) (sw_message w)"
    if "\<not> keep"
    using plannedBody_condition[OF planned, of _ "\<lambda>time. kiteVirtualMachineCondition time (k_generation cur)
        (sw_conditionStatus w) (sw_reason w) (sw_message w)"] plan that ready_condition conditionMatches_new
    unfolding found cond_def by auto
  then have match: "kiteVirtualMachineStatusMatches stored (k_generation stored) phase w keep"
    unfolding statusMatches_iff using shown by blast
  have "(if keep then statusString stored ''phase'' else sw_phase w) = phase"
    unfolding ph(1) by (simp add: phase_def)
  then have "vmStatusPlan vm w stored = None"
    unfolding vmStatusPlan_def Let_def keep' using match by simp
  then show ?thesis by (simp add: statusSettled_def v')
qed

lemma dataVolumeFields_distinct: "distinct (map fst (dataVolumeFields g p w))"
  by (simp add: dataVolumeFields_def)

text \<open>A DataVolume write shows up in the status as well, with the phase it leads to.\<close>

definition dataVolumeTarget :: "string \<Rightarrow> dataVolumeWrite \<Rightarrow> string" where
  "dataVolumeTarget currentPhase w =
     (if dw_overallPhase w = kiteVMPhaseFailed \<or> currentPhase = [] \<or> currentPhase = kiteVMPhaseProvisioning
      then dw_overallPhase w else currentPhase)"

definition showsDataVolume :: "kobj \<Rightarrow> string \<Rightarrow> dataVolumeWrite \<Rightarrow> bool" where
  "showsDataVolume obj phase w \<longleftrightarrow>
     statusString obj ''phase'' = phase \<and> statusInt obj ''observedGeneration'' = k_generation obj \<and>
     statusString obj ''dataVolumePhase'' = dw_phase w \<and>
     statusString obj ''dataVolumeProgress'' = dw_progress w \<and> statusString obj ''dataVolumeMessage'' = dw_message w"

lemma dataVolume_stored:
  assumes planned: "plannedBody (dataVolumePlan w) cur body"
    and plan: "dataVolumePlan w cur = Some (dataVolumeFields (k_generation cur) (statusString cur ''phase'') w, cond)"
    and st: "objField stored ''status'' = map_of body ''status''" "k_generation stored = k_generation cur"
  shows "showsDataVolume stored (dataVolumeTarget (statusString cur ''phase'') w) w"
proof -
  have field: "statusField (k_body stored) f =
      (case map_of (dataVolumeFields (k_generation cur) (statusString cur ''phase'') w) f of
         Some x \<Rightarrow> x | None \<Rightarrow> statusField (k_body cur) f)" if "f \<noteq> ''conditions''" for f
    using plannedBody_fields[OF planned plan dataVolumeFields_distinct that]
      statusField_cong[of "k_body stored" body] st(1) by (simp add: objField_def)
  have phase: "statusString stored ''phase'' = dataVolumeTarget (statusString cur ''phase'') w"
    unfolding statusString_field[of stored] field[of "''phase''", simplified]
    by (simp add: dataVolumeFields_def dataVolumeTarget_def statusString_field)
  show ?thesis
    using st(2) phase
    by (simp add: showsDataVolume_def statusString_field[of stored] statusInt_field[of stored] field dataVolumeFields_def)
qed

lemma dataVolume_settles:
  assumes written: "statusWritten (dataVolumePlan w) ns n v v'"
  shows "statusSettled (dataVolumePlan w) ns n v'"
proof -
  obtain cur stored body where planned: "plannedBody (dataVolumePlan w) cur body"
    and v': "v' = v(vmKey ns n \<mapsto> stored)"
    and st: "objField stored ''status'' = map_of body ''status''" "k_generation stored = k_generation cur"
    using written unfolding statusWritten_def by blast
  let ?cp = "statusString cur ''phase''"
  define keep where "keep \<longleftrightarrow> dw_overallPhase w \<noteq> kiteVMPhaseFailed \<and> kiteVMPhaseIsRuntimeStable ?cp"
  define cond where "cond = (if keep then None else Some (\<lambda>time. kiteVirtualMachineCondition time (k_generation cur)
      (dw_conditionStatus w) (dw_reason w) (dw_message w)))"
  have plan: "dataVolumePlan w cur = Some (dataVolumeFields (k_generation cur) ?cp w, cond)"
    using planned by (auto simp: plannedBody_def dataVolumePlan_def Let_def keep_def cond_def split: if_splits)
  note shown = dataVolume_stored[OF planned plan st]
  have found: "findKiteVirtualMachineCondition (k_body stored) = findKiteVirtualMachineCondition body"
    using st(1) by (intro findCondition_cong) (simp add: objField_def)
  have match: "conditionMatches (findKiteVirtualMachineCondition (k_body stored)) (dw_conditionStatus w) (dw_reason w) (dw_message w)"
    if "\<not> keep"
    using plannedBody_condition[OF planned, of _ "\<lambda>time. kiteVirtualMachineCondition time (k_generation cur)
        (dw_conditionStatus w) (dw_reason w) (dw_message w)"] plan that ready_condition conditionMatches_new
    unfolding found cond_def by auto
  have keep: "keep \<Longrightarrow> dw_overallPhase w \<noteq> kiteVMPhaseFailed \<and> kiteVMPhaseIsRuntimeStable (statusString stored ''phase'')"
    using shown by (auto simp: keep_def showsDataVolume_def dataVolumeTarget_def stable_not_provisioning)
      (simp add: kiteVMPhaseIsRuntimeStable_def phase_defs)
  have "kiteVirtualMachineDataVolumeStatusMatches stored (k_generation stored) w
     (dw_overallPhase w \<noteq> kiteVMPhaseFailed \<and> kiteVMPhaseIsRuntimeStable (statusString stored ''phase''))"
  proof -
    let ?p = "statusString stored ''phase''"
    have "(if dw_overallPhase w \<noteq> kiteVMPhaseFailed \<and> ?p \<noteq> [] \<and> ?p \<noteq> kiteVMPhaseProvisioning then True else ?p = dw_overallPhase w)"
      using shown unfolding showsDataVolume_def dataVolumeTarget_def by presburger
    then show ?thesis
      using shown match keep unfolding kiteVirtualMachineDataVolumeStatusMatches_def Let_def showsDataVolume_def
      by (cases keep) auto
  qed
  then have "dataVolumePlan w stored = None"
    by (simp add: dataVolumePlan_def Let_def)
  then show ?thesis by (simp add: statusSettled_def v')
qed

section \<open>Stable phases are kept\<close>

text \<open>
  A VM whose phase came from KubeVirt keeps its phase and its Ready condition when a writer asks for
  \<open>Provisioning\<close> in the same generation, or when DataVolume progress is reported.
\<close>

definition runtimeKept :: "kobj \<Rightarrow> kobj \<Rightarrow> bool" where
  "runtimeKept cur stored \<longleftrightarrow>
     statusString stored ''phase'' = statusString cur ''phase'' \<and>
     findKiteVirtualMachineCondition (k_body stored) = findKiteVirtualMachineCondition (k_body cur)"

lemma kept_condition:
  assumes "plannedBody plan cur body" "plan cur = Some (flds, None)" "distinct (map fst flds)"
    "map_of flds ''conditions'' = None" "objField stored ''status'' = map_of body ''status''"
  shows "findKiteVirtualMachineCondition (k_body stored) = findKiteVirtualMachineCondition (k_body cur)"
proof -
  have "statusField (k_body stored) ''conditions'' = statusField (k_body cur) ''conditions''"
    using plannedBody_kept_condition[OF assms(1-4)] statusField_cong[of "k_body stored" body] assms(5)
    by (simp add: objField_def)
  then show ?thesis by (simp add: findCondition_field)
qed

lemma vmStatus_keeps_runtime:
  assumes written: "statusWritten (vmStatusPlan vm w) ns (kv_name vm) v v'" and cur: "v (vmKey ns (kv_name vm)) = Some cur"
    and name: "k_name cur = kv_name vm"
    and req: "sw_phase w = kiteVMPhaseProvisioning" "kiteVMPhaseIsRuntimeStable (statusString cur ''phase'')"
      "statusInt cur ''observedGeneration'' = k_generation cur"
  shows "\<exists>x. v' (vmKey ns (kv_name vm)) = Some x \<and> runtimeKept cur x"
proof -
  obtain stored body where planned: "plannedBody (vmStatusPlan vm w) cur body"
    and v': "v' = v(vmKey ns (kv_name vm) \<mapsto> stored)"
    and st: "objField stored ''status'' = map_of body ''status''" "sameMeta cur stored" "k_generation stored = k_generation cur"
    using written cur unfolding statusWritten_def by auto
  have keep: "shouldPreserveRuntimeStatus (statusString cur ''phase'') (statusInt cur ''observedGeneration'')
     (k_generation cur) (sw_phase w)"
    using req by (simp add: shouldPreserveRuntimeStatus_def)
  then have plan: "vmStatusPlan vm w cur =
      Some (vmStatusFields (kv_name vm) (k_generation cur) (statusString cur ''phase'') w, None)"
    using planned by (auto simp: plannedBody_def vmStatusPlan_def Let_def split: if_splits)
  have n: "k_name stored = kv_name vm" using st(2) name by (simp add: sameMeta_def)
  have "map_of (vmStatusFields (kv_name vm) (k_generation cur) (statusString cur ''phase'') w) ''conditions'' = None"
    by (simp add: vmStatusFields_def kiteVirtualMachineResourceNames_def)
  from kept_condition[OF planned plan vmStatusFields_distinct this st(1)] vmStatus_stored[OF planned plan st(1,3) n]
  show ?thesis by (simp add: v' runtimeKept_def showsStatus_def)
qed

lemma dataVolume_keeps_runtime:
  assumes written: "statusWritten (dataVolumePlan w) ns n v v'" and cur: "v (vmKey ns n) = Some cur"
    and req: "dw_overallPhase w \<noteq> kiteVMPhaseFailed" "kiteVMPhaseIsRuntimeStable (statusString cur ''phase'')"
  shows "\<exists>x. v' (vmKey ns n) = Some x \<and> runtimeKept cur x"
proof -
  obtain stored body where planned: "plannedBody (dataVolumePlan w) cur body"
    and v': "v' = v(vmKey ns n \<mapsto> stored)"
    and st: "objField stored ''status'' = map_of body ''status''" "k_generation stored = k_generation cur"
    using written cur unfolding statusWritten_def by auto
  have plan: "dataVolumePlan w cur = Some (dataVolumeFields (k_generation cur) (statusString cur ''phase'') w, None)"
    using planned req by (auto simp: plannedBody_def dataVolumePlan_def Let_def split: if_splits)
  have "map_of (dataVolumeFields (k_generation cur) (statusString cur ''phase'') w) ''conditions'' = None"
    by (simp add: dataVolumeFields_def)
  note cond = kept_condition[OF planned plan dataVolumeFields_distinct this st(1)]
  have "dataVolumeTarget (statusString cur ''phase'') w = statusString cur ''phase''"
    using req stable_not_provisioning
    by (auto simp: dataVolumeTarget_def kiteVMPhaseIsRuntimeStable_def phase_defs)
  with dataVolume_stored[OF planned plan st] cond show ?thesis
    by (simp add: v' runtimeKept_def showsDataVolume_def)
qed

end
