(* ===== verification/Machine_Cleanup.thy ===== *)
theory Machine_Cleanup
  imports Machine_Status
begin

text \<open>
  Clean-up of a KiteVirtualMachine (\<open>machine-reconcile.go\<close>): deletion of owned child resources,
  finalizers, and the deletion path of the reconciler.
\<close>

section \<open>Operations\<close>

definition kiteVirtualMachineCleanupFinalizer :: string where
  "kiteVirtualMachineCleanupFinalizer = ''hy3ons.github.io/kite-vm-cleanup''"

definition hasKiteVirtualMachineFinalizer :: "string list \<Rightarrow> bool" where
  "hasKiteVirtualMachineFinalizer finalizers = list_ex (\<lambda>f. f = kiteVirtualMachineCleanupFinalizer) finalizers"

definition removeKiteVirtualMachineFinalizer :: "string list \<Rightarrow> string list" where
  "removeKiteVirtualMachineFinalizer finalizers = filter (\<lambda>f. f \<noteq> kiteVirtualMachineCleanupFinalizer) finalizers"

definition deleteOwnedNamespacedResource ::
  "'s env \<Rightarrow> gvr \<Rightarrow> string \<Rightarrow> string \<Rightarrow> string \<Rightarrow> string \<Rightarrow> ('s, unit result) state" where
  "deleteOwnedNamespacedResource E g namespace name ownerNamespace ownerName = do {
     r \<leftarrow> env_get E g namespace name;
     case r of
       Inl e \<Rightarrow> if apiIsNotFound e then ok () else fail e
     | Inr current \<Rightarrow>
         if \<not> resourceOwnedByKiteVirtualMachine current ownerNamespace ownerName then ok () else do {
           d \<leftarrow> env_delete E g namespace name;
           case d of
             Inl e \<Rightarrow> if apiIsNotFound e then ok () else fail e
           | Inr _ \<Rightarrow> ok ()
         }
   }"

definition gvrResource :: "gvr \<Rightarrow> string" where
  "gvrResource g =
     (case g of
        kiteUserGVR \<Rightarrow> ''kiteusers'' | kiteVirtualMachineGVR \<Rightarrow> ''kitevirtualmachines''
      | kiteVirtualMachineOfferGVR \<Rightarrow> ''kitevirtualmachineoffers''
      | kubeVirtVirtualMachineGVR \<Rightarrow> ''virtualmachines'' | dataVolumeGVR \<Rightarrow> ''datavolumes''
      | secretGVR \<Rightarrow> ''secrets'' | serviceGVR \<Rightarrow> ''services'' | ingressGVR \<Rightarrow> ''ingresses''
      | configMapGVR \<Rightarrow> ''configmaps'' | namespaceGVR \<Rightarrow> ''namespaces''
      | resourceQuotaGVR \<Rightarrow> ''resourcequotas'' | networkPolicyGVR \<Rightarrow> ''networkpolicies''
      | traefikMiddlewareGVR \<Rightarrow> ''middlewares'')"

definition ownedResources :: "string \<Rightarrow> (gvr \<times> string) list" where
  "ownedResources name =
     [(ingressGVR, name),
      (serviceGVR, ''vps-access-'' @ name),
      (serviceGVR, ''vps-web-'' @ name),
      (secretGVR, sshKeySecretName name),
      (secretGVR, SecretName name),
      (secretGVR, name @ ''-cloud-init-userdata''),
      (dataVolumeGVR, name @ ''-disk'')]"

definition deleteOwnedStep :: "'s env \<Rightarrow> string \<Rightarrow> string \<Rightarrow> gvr \<times> string \<Rightarrow> ('s, unit result) state" where
  "deleteOwnedStep E namespace name res = do {
     r \<leftarrow> deleteOwnedNamespacedResource E (fst res) namespace (snd res) namespace name;
     case r of
       Inl e \<Rightarrow> fail (Wrapped (''failed to delete owned resource '' @ gvrResource (fst res) @ ''/'' @ snd res @
                 '' in '' @ namespace @ '': '') e [])
     | Inr _ \<Rightarrow> ok ()
   }"

definition deleteKiteVirtualMachineOwnedResources :: "'s env \<Rightarrow> string \<Rightarrow> string \<Rightarrow> ('s, unit result) state" where
  "deleteKiteVirtualMachineOwnedResources E namespace name =
     forE (ownedResources name) (deleteOwnedStep E namespace name)"

definition deleteKubeVirtVirtualMachine :: "'s env \<Rightarrow> string \<Rightarrow> string \<Rightarrow> ('s, unit result) state" where
  "deleteKubeVirtVirtualMachine E namespace name =
     deleteOwnedNamespacedResource E kubeVirtVirtualMachineGVR namespace name namespace name"

definition kubeVirtVirtualMachineExists :: "'s env \<Rightarrow> string \<Rightarrow> string \<Rightarrow> ('s, bool result) state" where
  "kubeVirtVirtualMachineExists E namespace name = do {
     r \<leftarrow> env_get E kubeVirtVirtualMachineGVR namespace name;
     case r of
       Inr _ \<Rightarrow> ok True
     | Inl e \<Rightarrow> if apiIsNotFound e then ok False else fail e
   }"

definition updateFinalizersOnce :: "'s env \<Rightarrow> kobj \<Rightarrow> string list \<Rightarrow> ('s, kobj option result) state" where
  "updateFinalizersOnce E resource finalizers = do {
     r \<leftarrow> env_get E kiteVirtualMachineGVR (k_namespace resource) (k_name resource);
     case r of
       Inl e \<Rightarrow> if apiIsNotFound e then ok None else fail e
     | Inr current \<Rightarrow>
         tryE (env_update E kiteVirtualMachineGVR (k_namespace current) (current\<lparr>k_finalizers := finalizers\<rparr>))
           (\<lambda>_. ok None)
   }"

definition updateKiteVirtualMachineFinalizers :: "'s env \<Rightarrow> kobj \<Rightarrow> string list \<Rightarrow> ('s, unit result) state" where
  "updateKiteVirtualMachineFinalizers E resource finalizers =
     tryE (env_retry E (updateFinalizersOnce E resource finalizers)) (\<lambda>_. ok ())"

definition deleteKiteVirtualMachineCRD :: "'s env \<Rightarrow> string \<Rightarrow> string \<Rightarrow> ('s, unit result) state" where
  "deleteKiteVirtualMachineCRD E namespace name = do {
     r \<leftarrow> env_delete E kiteVirtualMachineGVR namespace name;
     case r of
       Inl e \<Rightarrow> if apiIsNotFound e then ok () else fail e
     | Inr _ \<Rightarrow> ok ()
   }"

text \<open>
  The two clean-up paths share their body: remove the KubeVirt VM while it exists, the other children
  in any case, and only when the KubeVirt VM is absent run the last step.
\<close>

definition cleanupThen :: "'s env \<Rightarrow> string \<Rightarrow> string \<Rightarrow> ('s, unit result) state \<Rightarrow> ('s, unit result) state" where
  "cleanupThen E namespace name lastStep =
     tryE (kubeVirtVirtualMachineExists E namespace name) (\<lambda>exists.
       if exists then
         tryE (deleteKubeVirtVirtualMachine E namespace name) (\<lambda>_.
         tryE (deleteKiteVirtualMachineOwnedResources E namespace name) (\<lambda>_. ok ()))
       else
         tryE (deleteKiteVirtualMachineOwnedResources E namespace name) (\<lambda>_. lastStep))"

definition reconcileKiteVirtualMachineDeletion :: "'s env \<Rightarrow> kobj \<Rightarrow> KiteVirtualMachine \<Rightarrow> ('s, unit result) state" where
  "reconcileKiteVirtualMachineDeletion E resource vm =
     (if \<not> hasKiteVirtualMachineFinalizer (kv_finalizers vm) then ok ()
      else cleanupThen E (kv_namespace vm) (kv_name vm)
        (updateKiteVirtualMachineFinalizers E resource (removeKiteVirtualMachineFinalizer (kv_finalizers vm))))"

section \<open>What clean-up may delete\<close>

definition childKeys :: "string \<Rightarrow> string \<Rightarrow> kkey set" where
  "childKeys ns n = insert (kubeVirtVirtualMachineGVR, ns, n) ((\<lambda>(g, name). (g, ns, name)) ` set (ownedResources n))"

definition ownedChild :: "string \<Rightarrow> string \<Rightarrow> kkey \<Rightarrow> kobj \<Rightarrow> bool" where
  "ownedChild ns n k x \<longleftrightarrow> k \<in> childKeys ns n \<and> resourceOwnedByKiteVirtualMachine x ns n"

text \<open>A child that clean-up is done with: absent, on its way out, or not owned by the VM.\<close>

definition childCleared :: "string \<Rightarrow> string \<Rightarrow> kkey \<Rightarrow> kview \<Rightarrow> bool" where
  "childCleared ns n k v \<longleftrightarrow>
     (case v k of None \<Rightarrow> True
      | Some x \<Rightarrow> k_deletionTimestamp x \<noteq> None \<or> \<not> resourceOwnedByKiteVirtualMachine x ns n)"

definition childrenCleared :: "string \<Rightarrow> string \<Rightarrow> kview \<Rightarrow> bool" where
  "childrenCleared ns n v \<longleftrightarrow> (\<forall>(g, name) \<in> set (ownedResources n). childCleared ns n (g, ns, name) v)"

lemma owned_marked: "marked x c \<Longrightarrow> resourceOwnedByKiteVirtualMachine c ns n = resourceOwnedByKiteVirtualMachine x ns n"
  by (simp add: marked_def sameMeta_def resourceOwnedByKiteVirtualMachine_def labelOf_def)

lemma childCleared_deleted:
  assumes "deleted g ns' n' v v'" "childCleared ns n k v \<or> k = (g, ns', n')"
  shows "childCleared ns n k v'"
proof -
  obtain c where c: "v (g, ns', n') = Some c" "goneOrMarked c (v' (g, ns', n'))"
    and other: "\<And>k. k \<noteq> (g, ns', n') \<Longrightarrow> v' k = v k"
    using assms(1) by (rule deleted_goneOrMarked) blast
  show ?thesis
  proof (cases "k = (g, ns', n')")
    case True
    with c(2) show ?thesis by (auto simp: childCleared_def goneOrMarked_def marked_def split: option.splits)
  next
    case False
    with other[OF False] assms(2) show ?thesis by (simp add: childCleared_def)
  qed
qed

text \<open>The effect of a finalizer update.\<close>

definition sameExceptFinalizers :: "kobj \<Rightarrow> kobj \<Rightarrow> bool" where
  "sameExceptFinalizers cur stored \<longleftrightarrow>
     k_name stored = k_name cur \<and> k_namespace stored = k_namespace cur \<and> k_labels stored = k_labels cur \<and>
     k_deletionTimestamp stored = k_deletionTimestamp cur \<and> specOf stored = specOf cur \<and>
     objField stored ''status'' = objField cur ''status''"

definition finalizersReplaced :: "string \<Rightarrow> string \<Rightarrow> string list \<Rightarrow> kview \<Rightarrow> kview \<Rightarrow> bool" where
  "finalizersReplaced ns n fs v v' \<longleftrightarrow>
     (\<exists>cur. v (vmKey ns n) = Some cur \<and>
        (if k_deletionTimestamp cur \<noteq> None \<and> fs = [] then v' = v(vmKey ns n := None)
         else \<exists>stored. v' = v(vmKey ns n \<mapsto> stored) \<and> k_finalizers stored = fs \<and> sameExceptFinalizers cur stored))"

lemma finalizersReplaced_other: "finalizersReplaced ns n fs v v' \<Longrightarrow> k \<noteq> vmKey ns n \<Longrightarrow> v' k = v k"
  unfolding finalizersReplaced_def by (metis fun_upd_other)

lemma finalizersReplaced_update:
  assumes "replaced kiteVirtualMachineGVR ns (cur\<lparr>k_finalizers := fs\<rparr>) v v' stored"
    "k_name cur = n" "k_namespace cur = ns" "v (kiteVirtualMachineGVR, ns, n) = Some cur"
  shows "finalizersReplaced ns n fs v v'"
proof -
  let ?obj = "cur\<lparr>k_finalizers := fs\<rparr>"
  have meta: "sameMeta ?obj stored" "sameBody kiteVirtualMachineGVR ?obj stored" "k_namespace stored = ns"
    "k_deletionTimestamp stored = k_deletionTimestamp cur" "objField stored ''status'' = objField cur ''status''"
    and v': "if k_deletionTimestamp cur \<noteq> None \<and> fs = [] then v' = v(vmKey ns n := None) else v' = v(vmKey ns n \<mapsto> stored)"
    using assms(1,2,4) unfolding replaced_def vmKey_def statusGVR_def by simp_all
  have "objField stored ''spec'' = objField cur ''spec''"
    using meta(2) by (simp add: sameBody_def exactGVR_def objField_def)
  then have "specOf stored = specOf cur" by (rule specOf_cong)
  with meta assms(3) have "sameExceptFinalizers cur stored" "k_finalizers stored = fs"
    by (simp_all add: sameExceptFinalizers_def sameMeta_def)
  with v' assms(4) show ?thesis
    unfolding finalizersReplaced_def by (intro exI[of _ cur]) (auto simp: vmKey_def split: if_splits)
qed

context kube_api begin

text \<open>
  One owned delete, from a state reached by owned deletes only: it stays within them, and on success
  the child is cleared.
\<close>

lemma wp_deleteOwned:
  assumes inv: "deletesOnly (ownedChild ns n) v0 (view s)" and k: "(g, ns, name) \<in> childKeys ns n"
    and failed: "\<And>s' e. deletesOnly (ownedChild ns n) v0 (view s') \<Longrightarrow> Q (Inl e) s'"
    and success: "\<And>s'. deletesOnly (ownedChild ns n) v0 (view s') \<Longrightarrow> childCleared ns n (g, ns, name) (view s') \<Longrightarrow>
       (\<And>k. childCleared ns n k (view s) \<Longrightarrow> childCleared ns n k (view s')) \<Longrightarrow> Q (Inr ()) s'"
  shows "wp (deleteOwnedNamespacedResource E g ns name ns n) Q s"
  unfolding deleteOwnedNamespacedResource_def wp_bind
proof (rule wp_get, unfold sum.case)
  fix s1 cur assume v1: "view s1 = view s" and cur: "view s (g, ns, name) = Some cur"
  obtain x where x: "v0 (g, ns, name) = Some x" "cur = x \<or> marked x cur"
    using deletesOnly_at[OF inv cur] by blast
  show "wp (if \<not> resourceOwnedByKiteVirtualMachine cur ns n then ok () else do {
      d \<leftarrow> env_delete E g ns name;
      case d of Inl e \<Rightarrow> if apiIsNotFound e then ok () else fail e | Inr _ \<Rightarrow> ok () }) Q s1"
  proof (cases "resourceOwnedByKiteVirtualMachine cur ns n")
    case True
    then have own: "ownedChild ns n (g, ns, name) x"
      using x(2) k owned_marked by (auto simp: ownedChild_def)
    have del: "deletesOnly (ownedChild ns n) v0 v2" "childCleared ns n (g, ns, name) v2"
      "childCleared ns n k' (view s) \<Longrightarrow> childCleared ns n k' v2"
      if "deleted g ns name (view s) v2" for v2 k'
      using deletesOnly_deleted(1)[OF inv x(1) own that] childCleared_deleted[OF that] by auto
    have present: "view s1 (g, ns, name) \<noteq> None" using cur v1 by simp
    have "wp (env_delete E g ns name)
        (\<lambda>d. wp (case d of Inl e \<Rightarrow> if apiIsNotFound e then ok () else fail e | Inr _ \<Rightarrow> ok ()) Q) s1"
      by (rule wp_delete)
         (use present in \<open>auto simp: wp_simps v1 inv intro: failed success del\<close>)
    with True show ?thesis by (simp only: wp_bind not_True_eq_False if_False)
  next
    case False
    then have "childCleared ns n (g, ns, name) (view s)" using cur by (simp add: childCleared_def)
    with False inv show ?thesis by (simp add: wp_ok success v1)
  qed
qed (use inv in \<open>auto simp: wp_simps childCleared_def intro!: failed success\<close>)

lemma wp_deleteOwnedResources:
  assumes inv: "deletesOnly (ownedChild ns n) v0 (view s)"
    and failed: "\<And>s' e. deletesOnly (ownedChild ns n) v0 (view s') \<Longrightarrow> Q (Inl e) s'"
    and success: "\<And>s'. deletesOnly (ownedChild ns n) v0 (view s') \<Longrightarrow> childrenCleared ns n (view s') \<Longrightarrow> Q (Inr ()) s'"
  shows "wp (deleteKiteVirtualMachineOwnedResources E ns n) Q s"
proof -
  let ?I = "\<lambda>done s. deletesOnly (ownedChild ns n) v0 (view s) \<and>
     (\<forall>(g, name) \<in> set done. childCleared ns n (g, ns, name) (view s))"
  have "wp (forE (ownedResources n) (deleteOwnedStep E ns n)) (\<lambda>r s'. case r of
      Inl e \<Rightarrow> deletesOnly (ownedChild ns n) v0 (view s') | Inr _ \<Rightarrow> ?I (ownedResources n) s') s"
  proof (rule wp_forE_all)
    fix ys res zs s1 assume split: "ownedResources n = ys @ res # zs" and I: "?I ys s1"
    have "(fst res, ns, snd res) \<in> childKeys ns n"
      unfolding childKeys_def split by (auto simp: case_prod_beta)
    then show "wp (deleteOwnedStep E ns n res) (\<lambda>r s'. case r of
        Inl e \<Rightarrow> deletesOnly (ownedChild ns n) v0 (view s') | Inr _ \<Rightarrow> ?I (ys @ [res]) s') s1"
      unfolding deleteOwnedStep_def wp_bind
      by (intro wp_deleteOwned[OF conjunct1[OF I]]) (use I in \<open>auto simp: wp_simps\<close>)
  qed (simp add: inv)
  then show ?thesis
    unfolding deleteKiteVirtualMachineOwnedResources_def
    by (rule wp_mono) (auto simp: childrenCleared_def intro: failed success split: sum.splits)
qed

lemma wp_kubeVirtExists:
  assumes "\<And>s' e. view s' = view s \<Longrightarrow> Q (Inl e) s'"
    and "\<And>s'. view s' = view s \<Longrightarrow> view s (kubeVirtVirtualMachineGVR, ns, n) \<noteq> None \<Longrightarrow> Q (Inr True) s'"
    and "\<And>s'. view s' = view s \<Longrightarrow> view s (kubeVirtVirtualMachineGVR, ns, n) = None \<Longrightarrow> Q (Inr False) s'"
  shows "wp (kubeVirtVirtualMachineExists E ns n) Q s"
  unfolding kubeVirtVirtualMachineExists_def wp_bind
  by (rule wp_get) (auto simp: wp_simps intro: assms)

text \<open>The shared clean-up body: the last step runs only when all children are dealt with.\<close>

lemma wp_cleanupThen:
  assumes deleting: "\<And>s' r. deletesOnly (ownedChild ns n) (view s) (view s') \<Longrightarrow> Q r s'"
    and last: "\<And>s'. deletesOnly (ownedChild ns n) (view s) (view s') \<Longrightarrow>
       view s (kubeVirtVirtualMachineGVR, ns, n) = None \<Longrightarrow> childrenCleared ns n (view s') \<Longrightarrow> wp lastStep Q s'"
  shows "wp (cleanupThen E ns n lastStep) Q s"
proof -
  let ?rest = "\<lambda>exists. if exists then
         tryE (deleteKubeVirtVirtualMachine E ns n) (\<lambda>_.
         tryE (deleteKiteVirtualMachineOwnedResources E ns n) (\<lambda>_. ok ()))
       else tryE (deleteKiteVirtualMachineOwnedResources E ns n) (\<lambda>_. lastStep)"
  have k: "(kubeVirtVirtualMachineGVR, ns, n) \<in> childKeys ns n" by (simp add: childKeys_def)
  have owned: "wp (tryE (deleteKiteVirtualMachineOwnedResources E ns n) (\<lambda>_. ok ())) Q s2"
    if "deletesOnly (ownedChild ns n) (view s) (view s2)" for s2
    unfolding wp_tryE by (rule wp_deleteOwnedResources[OF that]) (auto simp: wp_simps intro: deleting)
  have "wp (?rest True) Q s1" if "view s1 = view s" for s1
    unfolding if_True wp_tryE deleteKubeVirtVirtualMachine_def
    by (rule wp_deleteOwned[OF _ k]) (auto simp: that intro: deleting owned[unfolded wp_tryE])
  moreover have "wp (?rest False) Q s1"
    if "view s1 = view s" "view s (kubeVirtVirtualMachineGVR, ns, n) = None" for s1
  proof -
    have "deletesOnly (ownedChild ns n) (view s) (view s1)" by (simp add: that)
    then show ?thesis
      unfolding if_False wp_tryE by (rule wp_deleteOwnedResources) (auto simp: that intro: deleting last)
  qed
  ultimately show ?thesis
    unfolding cleanupThen_def wp_tryE[of "kubeVirtVirtualMachineExists E ns n"]
    by (intro wp_kubeVirtExists) (simp_all only: sum.case, simp add: deleting)
qed

text \<open>What clean-up can touch.\<close>

lemma frames_deleteOwned: "(g, ns, name) \<in> K \<Longrightarrow> frames view K (deleteOwnedNamespacedResource E g ns name ons on)"
  unfolding deleteOwnedNamespacedResource_def
  by (intro frames_intros frames_calls frames_delete)

lemma frames_deleteOwnedResources:
  "childKeys ns n \<subseteq> K \<Longrightarrow> frames view K (deleteKiteVirtualMachineOwnedResources E ns n)"
  unfolding deleteKiteVirtualMachineOwnedResources_def deleteOwnedStep_def
  by (auto simp: childKeys_def case_prod_beta intro!: frames_forE frames_bind frames_deleteOwned)

lemma frames_deleteKubeVirt: "childKeys ns n \<subseteq> K \<Longrightarrow> frames view K (deleteKubeVirtVirtualMachine E ns n)"
  unfolding deleteKubeVirtVirtualMachine_def by (rule frames_deleteOwned) (auto simp: childKeys_def)

lemma exists_keeps: "keeps view (kubeVirtVirtualMachineExists E ns n)"
  unfolding kubeVirtVirtualMachineExists_def by auto

lemma frames_cleanupThen:
  "childKeys ns n \<subseteq> K \<Longrightarrow> frames view K lastStep \<Longrightarrow> frames view K (cleanupThen E ns n lastStep)"
  unfolding cleanupThen_def
  by (intro frames_tryE frames_if frames_ok keeps_frames[OF exists_keeps] frames_deleteKubeVirt frames_deleteOwnedResources)

lemma frames_deleteCRD: "vmKey ns n \<in> K \<Longrightarrow> frames view K (deleteKiteVirtualMachineCRD E ns n)"
  unfolding deleteKiteVirtualMachineCRD_def vmKey_def by (auto intro!: frames_bind frames_delete)

text \<open>A finalizer update replaces the list and nothing else, or removes a VM that was waiting for it.\<close>

lemma wp_updateFinalizers:
  assumes same: "\<And>s' e. view s' = view s \<Longrightarrow> Q (Inl e) s'"
    and gone: "\<And>s'. view s' = view s \<Longrightarrow> view s (vmKey (k_namespace resource) (k_name resource)) = None \<Longrightarrow> Q (Inr ()) s'"
    and replaced: "\<And>s' r. finalizersReplaced (k_namespace resource) (k_name resource) fs (view s) (view s') \<Longrightarrow> Q r s'"
  shows "wp (updateKiteVirtualMachineFinalizers E resource fs) Q s"
  unfolding updateKiteVirtualMachineFinalizers_def wp_tryE
proof (rule wp_retry_conflict[where I = "\<lambda>s0. view s0 = view s"])
  let ?ns = "k_namespace resource" let ?n = "k_name resource"
  let ?Q = "\<lambda>r s'. (case r of Inl e \<Rightarrow> Q (Inl e) s' | Inr x \<Rightarrow> wp (ok ()) Q s') \<and>
      (\<forall>e. r = Inl e \<and> apiIsConflict e \<longrightarrow> view s' = view s)"
  fix s0 assume v0: "view s0 = view s"
  have conflict: "\<not> (indefinite e \<and> apiIsConflict e)" for e
    by (auto dest: indefinite_not_definite)
  show "wp (updateFinalizersOnce E resource fs) ?Q s0"
    unfolding updateFinalizersOnce_def wp_bind
  proof (rule wp_get, unfold sum.case)
    fix s1 cur assume v1: "view s1 = view s0" and cur: "view s0 (kiteVirtualMachineGVR, ?ns, ?n) = Some cur"
    have key: "k_name cur = ?n" "k_namespace cur = ?ns" using view_key[OF cur] by auto
    have fin: "Q r s2" if "Kube.replaced kiteVirtualMachineGVR ?ns (cur\<lparr>k_finalizers := fs\<rparr>) (view s1) (view s2) stored" for r s2 stored
      using finalizersReplaced_update[OF that[unfolded v1 v0] key cur[unfolded v0]] replaced by blast
    show "wp (tryE (env_update E kiteVirtualMachineGVR (k_namespace cur) (cur\<lparr>k_finalizers := fs\<rparr>)) (\<lambda>_. ok None)) ?Q s1"
      unfolding wp_tryE key(2)
      by (rule wp_update) (use v1 v0 conflict in \<open>auto simp: wp_simps same fin\<close>)
  qed (use v0 in \<open>auto simp: wp_simps vmKey_def intro: same gone\<close>)
qed simp

lemma frames_updateFinalizers:
  assumes "vmKey (k_namespace resource) (k_name resource) \<in> K"
  shows "frames view K (updateKiteVirtualMachineFinalizers E resource fs)"
  unfolding frames_wp
  by (intro allI wp_updateFinalizers) (use assms finalizersReplaced_other in metis)+

end

end
