(* ===== verification/Machine_Resources.thy ===== *)
theory Machine_Resources
  imports Machine_Cleanup
begin

text \<open>
  The resources a KiteVirtualMachine owns (\<open>machine-reconcile.go\<close>, \<open>internal/sshkey\<close>,
  \<open>internal/render\<close>): validation of the spec, the SSH key Secret, the guest login hash, the TLS
  Secret of the ingress, the rendered objects, and their server-side apply.
\<close>

section \<open>SSH key pairs\<close>

record KeyPair =
  PrivateKey :: string
  PublicKey :: string

definition GenerateRSA :: "'s env \<Rightarrow> nat \<Rightarrow> ('s, KeyPair result) state" where
  "GenerateRSA E bits =
     tryE (env_rsaGenerate E bits) (\<lambda>privateKey.
       case env_pemPrivateKey E privateKey of
         None \<Rightarrow> fail (Plain ''failed to encode private key'')
       | Some privateKeyPEM \<Rightarrow>
           (case env_sshAuthorizedKey E privateKey of
              Inl e \<Rightarrow> fail e
            | Inr authorizedKey \<Rightarrow>
                ok \<lparr>PrivateKey = privateKeyPEM, PublicKey = TrimSpace authorizedKey\<rparr>))"

definition machine_kiteSecretTypeLabel :: string where
  "machine_kiteSecretTypeLabel = ''hy3ons.github.io/kite-secret-type''"

definition kiteVMSSHKeySecretType :: string where
  "kiteVMSSHKeySecretType = ''vm-ssh-key''"

definition kitePlatformTLSSecretType :: string where
  "kitePlatformTLSSecretType = ''platform-ingress-tls''"

definition vmSSHPrivateKeyName :: string where
  "vmSSHPrivateKeyName = ''id_rsa''"

definition vmSSHPublicKeyName :: string where
  "vmSSHPublicKeyName = ''id_rsa.pub''"

text \<open>\<open>data, _, _ := NestedStringMap(secret.Object, "data")\<close> and \<open>data[key]\<close>.\<close>

definition secretData :: "kobj \<Rightarrow> (string \<times> string) list" where
  "secretData secret = nestedOr [] (NestedStringMap (k_body secret) [''data''])"

definition dataAt :: "(string \<times> string) list \<Rightarrow> string \<Rightarrow> string" where
  "dataAt data key = (case map_of data key of None \<Rightarrow> [] | Some x \<Rightarrow> x)"

definition keyPairFromSecret :: "kobj \<Rightarrow> KeyPair result" where
  "keyPairFromSecret secret =
     (let data = secretData secret; at = k_namespace secret @ ''/'' @ k_name secret in
      case StdEncoding_DecodeString (dataAt data vmSSHPrivateKeyName) of
        Inl e \<Rightarrow> Inl (Wrapped (''failed to decode '' @ vmSSHPrivateKeyName @ '' in Secret '' @ at @ '': '') e [])
      | Inr privateKey \<Rightarrow>
          (case StdEncoding_DecodeString (dataAt data vmSSHPublicKeyName) of
             Inl e \<Rightarrow> Inl (Wrapped (''failed to decode '' @ vmSSHPublicKeyName @ '' in Secret '' @ at @ '': '') e [])
           | Inr publicKey \<Rightarrow>
               if TrimSpace privateKey = [] \<or> TrimSpace publicKey = []
               then Inl (Plain (''SSH key Secret '' @ at @ '' is missing required key data''))
               else Inr \<lparr>PrivateKey = privateKey, PublicKey = TrimSpace publicKey\<rparr>))"

definition newKiteVirtualMachineSSHKeySecret :: "KiteVirtualMachine \<Rightarrow> KeyPair \<Rightarrow> kobj" where
  "newKiteVirtualMachineSSHKeySecret vm keyPair =
     newObject ''Secret'' (kv_namespace vm) (sshKeySecretName (kv_name vm))
       [(kiteManagedByLabel, kiteControllerLabel),
        (machine_kiteSecretTypeLabel, kiteVMSSHKeySecretType),
        (kiteVMNameLabel, kv_name vm),
        (kiteVMNamespaceLabel, kv_namespace vm)]
       [(''type'', GStr ''Opaque''),
        (''data'', GMap
          [(vmSSHPrivateKeyName, GStr (StdEncoding_EncodeToString (PrivateKey keyPair))),
           (vmSSHPublicKeyName, GStr (StdEncoding_EncodeToString (PublicKey keyPair)))])]"

text \<open>
  The two halves of \<open>ensureKiteVirtualMachineSSHKeySecret\<close>: what happens after the read found no
  Secret is a definition of its own, so that the state it starts from may differ from the state
  that was read.
\<close>

definition createSSHKeySecret :: "'s env \<Rightarrow> KiteVirtualMachine \<Rightarrow> ('s, KeyPair result) state" where
  "createSSHKeySecret E vm = do {
     generated \<leftarrow> GenerateRSA E 2048;
     case generated of
       Inl e \<Rightarrow> fail (Wrapped (''failed to generate SSH key pair for '' @ kv_namespace vm @ ''/'' @ kv_name vm @ '': '') e [])
     | Inr keyPair \<Rightarrow> do {
         r \<leftarrow> env_create E secretGVR (kv_namespace vm) (newKiteVirtualMachineSSHKeySecret vm keyPair);
         case r of
           Inl e \<Rightarrow>
             if \<not> apiIsAlreadyExists e
             then fail (Wrapped (''failed to create SSH key Secret '' @ kv_namespace vm @ ''/'' @
                     sshKeySecretName (kv_name vm) @ '': '') e [])
             else ok keyPair
         | Inr _ \<Rightarrow> ok keyPair
       }
   }"

definition ensureKiteVirtualMachineSSHKeySecret :: "'s env \<Rightarrow> KiteVirtualMachine \<Rightarrow> ('s, KeyPair result) state" where
  "ensureKiteVirtualMachineSSHKeySecret E vm = do {
     r \<leftarrow> env_get E secretGVR (kv_namespace vm) (sshKeySecretName (kv_name vm));
     case r of
       Inr current \<Rightarrow> State_Monad.return (keyPairFromSecret current)
     | Inl e \<Rightarrow>
         if \<not> apiIsNotFound e
         then fail (Wrapped (''failed to read SSH key Secret '' @ kv_namespace vm @ ''/'' @
                 sshKeySecretName (kv_name vm) @ '': '') e [])
         else createSSHKeySecret E vm
   }"

section \<open>Spec and runtime configuration\<close>

definition join :: "string \<Rightarrow> string list \<Rightarrow> string" where
  "join sep parts = (case parts of [] \<Rightarrow> [] | p # ps \<Rightarrow> p @ concat (map (\<lambda>q. sep @ q) ps))"

definition missingSpecFields :: "KiteVirtualMachine \<Rightarrow> string list" where
  "missingSpecFields vm =
     (if kv_name vm = [] then [''metadata.name''] else []) @
     (if kv_namespace vm = [] then [''metadata.namespace''] else []) @
     (if vs_cpu (kv_spec vm) \<le> 0 then [''spec.cpu''] else []) @
     (if TrimSpace (vs_memory (kv_spec vm)) = [] then [''spec.memory''] else []) @
     (if TrimSpace (vs_image (kv_spec vm)) = [] then [''spec.image''] else []) @
     (if TrimSpace (vs_disk (kv_spec vm)) = [] then [''spec.disk''] else []) @
     (if TrimSpace (vs_sshID (kv_spec vm)) = [] then [''spec.sshId''] else [])"

definition validateKiteVirtualMachineSpec :: "KiteVirtualMachine \<Rightarrow> goerr option" where
  "validateKiteVirtualMachineSpec vm =
     (let missing = missingSpecFields vm;
          powerState = TrimSpace (vs_powerState (kv_spec vm)) in
      if powerState \<noteq> [] \<and> powerState \<noteq> ''On'' \<and> powerState \<noteq> ''Off''
      then Some (Plain ''spec.powerState must be On or Off'')
      else if missing \<noteq> [] then Some (Plain (''missing required fields: '' @ join '', '' missing))
      else None)"

definition trimDots :: "string \<Rightarrow> string" where
  "trimDots s = rev (dropWhile (\<lambda>c. c = CHR ''.'') (rev (dropWhile (\<lambda>c. c = CHR ''.'') s)))"

definition kiteVirtualMachineDomain :: "'s env \<Rightarrow> KiteVirtualMachine \<Rightarrow> ('s, string result) state" where
  "kiteVirtualMachineDomain E vm =
     (let domPrefix = TrimSpace (vs_domainPrefix (kv_spec vm)) in
      if domPrefix = [] then ok [] else do {
        r \<leftarrow> env_get E configMapGVR ''kite'' ''kite-runtime-config'';
        case r of
          Inl e \<Rightarrow> if apiIsNotFound e then ok [] else fail (Wrapped ''failed to read global Kite config: '' e [])
        | Inr config \<Rightarrow>
            let baseDomain = trimDots (TrimSpace (nestedOr [] (NestedString (k_body config) [''data'', ''baseDomain'']))) in
            if baseDomain = [] then ok [] else ok (trimDots domPrefix @ ''.'' @ baseDomain)
      })"

definition kiteVirtualMachineStorageClassName :: "'s env \<Rightarrow> ('s, string result) state" where
  "kiteVirtualMachineStorageClassName E = do {
     r \<leftarrow> env_get E configMapGVR ''kite'' ''kite-runtime-config'';
     case r of
       Inl e \<Rightarrow> if apiIsNotFound e then ok ''kite-vm-storage'' else fail (Wrapped ''failed to read global Kite config: '' e [])
     | Inr config \<Rightarrow>
         let storageClassName = TrimSpace (nestedOr [] (NestedString (k_body config) [''data'', ''vmStorageClassName''])) in
         if storageClassName = [] then ok ''kite-vm-storage'' else ok storageClassName
   }"

definition vmShouldRun :: "KiteVirtualMachine \<Rightarrow> bool" where
  "vmShouldRun vm \<longleftrightarrow> TrimSpace (vs_powerState (kv_spec vm)) = ''On''"

definition kubeVirtRunStrategyForKiteVM :: "KiteVirtualMachine \<Rightarrow> string" where
  "kubeVirtRunStrategyForKiteVM vm = (if vmShouldRun vm then ''Always'' else ''Halted'')"

definition currentPowerStateFromVM :: "KiteVirtualMachine \<Rightarrow> string" where
  "currentPowerStateFromVM vm = (if vmShouldRun vm then ''On'' else ''Off'')"

definition guestLoginPasswordHash :: "'s env \<Rightarrow> KiteVirtualMachine \<Rightarrow> ('s, string result) state" where
  "guestLoginPasswordHash E vm =
     (let secretName = SecretName (kv_name vm); at = kv_namespace vm @ ''/'' @ secretName in do {
        r \<leftarrow> env_get E secretGVR (kv_namespace vm) secretName;
        case r of
          Inl e \<Rightarrow> fail (Wrapped (''failed to read guest login Secret '' @ at @ '': '') e [])
        | Inr secret \<Rightarrow>
            let encodedHash = TrimSpace (dataAt (secretData secret) PasswordHashKey) in
            if encodedHash = []
            then fail (Plain (''guest login Secret '' @ at @ '' is missing '' @ PasswordHashKey))
            else case StdEncoding_DecodeString encodedHash of
              Inl e \<Rightarrow> fail (Wrapped (''failed to decode '' @ PasswordHashKey @ '' in guest login Secret '' @ at @ '': '') e [])
            | Inr hash \<Rightarrow>
                if TrimSpace hash = []
                then fail (Plain (''guest login Secret '' @ at @ '' has an empty '' @ PasswordHashKey))
                else ok (TrimSpace hash)
      })"

section \<open>The TLS Secret of the ingress\<close>

definition GlobalTLSSecretName :: string where
  "GlobalTLSSecretName = ''global-tls-secret''"

definition GlobalTLSSecretNS :: string where
  "GlobalTLSSecretNS = ''kite''"

definition TLSCertificateKey :: string where
  "TLSCertificateKey = ''tls.crt''"

definition TLSPrivateKeyDataKey :: string where
  "TLSPrivateKeyDataKey = ''tls.key''"

definition newKiteVirtualMachineIngressTLSSecret :: "string \<Rightarrow> (string \<times> string) list \<Rightarrow> kobj" where
  "newKiteVirtualMachineIngressTLSSecret namespace data =
     newObject ''Secret'' namespace GlobalTLSSecretName
       [(''hy3ons.github.io/managed-by'', ''kite-controller''),
        (machine_kiteSecretTypeLabel, kitePlatformTLSSecretType)]
       [(''type'', GStr ''kubernetes.io/tls''),
        (''data'', GMap
          [(TLSCertificateKey, GStr (dataAt data TLSCertificateKey)),
           (TLSPrivateKeyDataKey, GStr (dataAt data TLSPrivateKeyDataKey))])]"

definition writeIngressTLSSecret :: "'s env \<Rightarrow> string \<Rightarrow> kobj \<Rightarrow> ('s, string result) state" where
  "writeIngressTLSSecret E namespace desired =
     (let at = namespace @ ''/'' @ GlobalTLSSecretName in do {
        c \<leftarrow> env_get E secretGVR namespace GlobalTLSSecretName;
        case c of
          Inl e \<Rightarrow>
            if apiIsNotFound e then do {
              w \<leftarrow> env_create E secretGVR namespace desired;
              case w of
                Inl ce \<Rightarrow> fail (Wrapped (''failed to create VM namespace TLS Secret '' @ at @ '': '') ce [])
              | Inr _ \<Rightarrow> ok GlobalTLSSecretName
            } else fail (Wrapped (''failed to read VM namespace TLS Secret '' @ at @ '': '') e [])
        | Inr current \<Rightarrow>
            if labelOf current machine_kiteSecretTypeLabel \<noteq> kitePlatformTLSSecretType
            then fail (Plain (''refusing to overwrite unmanaged TLS Secret '' @ at))
            else do {
              w \<leftarrow> env_update E secretGVR namespace (desired\<lparr>k_resourceVersion := k_resourceVersion current\<rparr>);
              case w of
                Inl ue \<Rightarrow> fail (Wrapped (''failed to update VM namespace TLS Secret '' @ at @ '': '') ue [])
              | Inr _ \<Rightarrow> ok GlobalTLSSecretName
            }
      })"

definition ensureKiteVirtualMachineIngressTLSSecret :: "'s env \<Rightarrow> string \<Rightarrow> ('s, string result) state" where
  "ensureKiteVirtualMachineIngressTLSSecret E namespace =
     (let at = GlobalTLSSecretNS @ ''/'' @ GlobalTLSSecretName in do {
        g \<leftarrow> env_get E secretGVR GlobalTLSSecretNS GlobalTLSSecretName;
        case g of
          Inl e \<Rightarrow> if apiIsNotFound e then ok [] else fail (Wrapped (''failed to read platform TLS Secret '' @ at @ '': '') e [])
        | Inr global \<Rightarrow>
            let data = secretData global in
            if TrimSpace (dataAt data TLSCertificateKey) = [] \<or> TrimSpace (dataAt data TLSPrivateKeyDataKey) = []
            then fail (Plain (''platform TLS Secret '' @ at @ '' is missing TLS data''))
            else writeIngressTLSSecret E namespace (newKiteVirtualMachineIngressTLSSecret namespace data)
      })"

section \<open>Rendered objects\<close>

definition DataVolumeData_Render :: "converters \<Rightarrow> string \<Rightarrow> string \<Rightarrow> string \<Rightarrow> string \<Rightarrow> string \<Rightarrow> kobj result" where
  "DataVolumeData_Render C vmName namespace vmImage storage storageClassName =
     Render C ''data-volume.yaml''
       [(''VmName'', vmName), (''Namespace'', namespace), (''VmImage'', vmImage),
        (''Storage'', storage), (''StorageClassName'', storageClassName)]"

definition Ubuntu2204CloudInit_Render :: "converters \<Rightarrow> string \<Rightarrow> string \<Rightarrow> string \<Rightarrow> string \<Rightarrow> string \<Rightarrow> kobj result" where
  "Ubuntu2204CloudInit_Render C vmName namespace loginId sshPublicKey guestPasswordHash =
     Render C ''ubuntu-22.04-init.yaml''
       [(''VmName'', vmName), (''Namespace'', namespace), (''Id'', loginId),
        (''SSHPublicKey'', sshPublicKey), (''GuestPasswordHash'', guestPasswordHash)]"

definition KubevirtMachineData_Render :: "converters \<Rightarrow> string \<Rightarrow> string \<Rightarrow> string \<Rightarrow> string \<Rightarrow> string \<Rightarrow> kobj result" where
  "KubevirtMachineData_Render C vmName namespace memory cpu runStrategy =
     Render C ''kubevirt-machine.yaml''
       [(''VmName'', vmName), (''Namespace'', namespace), (''Memory'', memory), (''CPU'', cpu),
        (''RunStrategy'', runStrategy)]"

definition ServiceData_RenderAll :: "converters \<Rightarrow> string \<Rightarrow> string \<Rightarrow> kobj list result" where
  "ServiceData_RenderAll C vmName namespace =
     cv_render C ''vm-service.yaml'' [(''VmName'', vmName), (''Namespace'', namespace)]"

definition IngressData_Render :: "converters \<Rightarrow> string \<Rightarrow> string \<Rightarrow> string \<Rightarrow> string \<Rightarrow> kobj result" where
  "IngressData_Render C vmName namespace domainName tlsSecretName =
     Render C ''ingress.yaml''
       [(''VmName'', vmName), (''Namespace'', namespace), (''DomainName'', domainName),
        (''TLSSecretName'', tlsSecretName)]"

text \<open>\<open>x, err := r; if err != nil { return nil, fmt.Errorf(text + "%w", err) }\<close> for a pure call.\<close>

definition tryRender :: "string \<Rightarrow> 'a result \<Rightarrow> ('a \<Rightarrow> 'b result) \<Rightarrow> 'b result" where
  "tryRender txt r k = (case r of Inl e \<Rightarrow> Inl (Wrapped txt e []) | Inr x \<Rightarrow> k x)"

definition kiteVirtualMachineDesiredObjects ::
  "converters \<Rightarrow> KiteVirtualMachine \<Rightarrow> string \<Rightarrow> string \<Rightarrow> string \<Rightarrow> string \<Rightarrow> string \<Rightarrow> kobj list result" where
  "kiteVirtualMachineDesiredObjects C vm domain publicKey guestPasswordHash storageClassName tlsSecretName =
     tryRender ''failed to render DataVolume: ''
       (DataVolumeData_Render C (kv_name vm) (kv_namespace vm) (vs_image (kv_spec vm)) (vs_disk (kv_spec vm)) storageClassName)
       (\<lambda>dataVolume.
     tryRender ''failed to render cloud-init Secret: ''
       (Ubuntu2204CloudInit_Render C (kv_name vm) (kv_namespace vm) (vs_sshID (kv_spec vm)) publicKey guestPasswordHash)
       (\<lambda>cloudInit.
     tryRender ''failed to render KubeVirt VirtualMachine: ''
       (KubevirtMachineData_Render C (kv_name vm) (kv_namespace vm) (vs_memory (kv_spec vm)) (Itoa (vs_cpu (kv_spec vm)))
          (kubeVirtRunStrategyForKiteVM vm))
       (\<lambda>kubeVirtVM.
     tryRender ''failed to render VM Services: '' (ServiceData_RenderAll C (kv_name vm) (kv_namespace vm))
       (\<lambda>serviceObjects.
     let objects = [dataVolume, cloudInit, kubeVirtVM] @ serviceObjects in
     if domain \<noteq> [] then
       tryRender ''failed to render Ingress: '' (IngressData_Render C (kv_name vm) (kv_namespace vm) domain tlsSecretName)
         (\<lambda>ingressObject. Inr (objects @ [ingressObject]))
     else Inr objects))))"

definition kiteVirtualMachineObjectGVR :: "kobj \<Rightarrow> gvr result" where
  "kiteVirtualMachineObjectGVR obj =
     (if k_kind obj = ''DataVolume'' then Inr dataVolumeGVR
      else if k_kind obj = ''Secret'' then Inr secretGVR
      else if k_kind obj = ''VirtualMachine'' then Inr kubeVirtVirtualMachineGVR
      else if k_kind obj = ''Service'' then Inr serviceGVR
      else if k_kind obj = ''Ingress'' then Inr ingressGVR
      else Inl (Plain (''unsupported KiteVirtualMachine resource kind '' @ quoted (k_kind obj))))"

definition missingKiteVirtualMachineDependencyMessage :: "string \<Rightarrow> string" where
  "missingKiteVirtualMachineDependencyMessage kind =
     (if kind = ''DataVolume'' then ''install CDI before creating KiteVirtualMachine disks''
      else if kind = ''VirtualMachine'' then ''install KubeVirt before creating KiteVirtualMachine resources''
      else if kind = ''Ingress'' then ''install networking.k8s.io Ingress support before enabling VM domains''
      else ''install the required Kubernetes API before reconciling this resource'')"

definition applyKiteVirtualMachineObject :: "'s env \<Rightarrow> kobj \<Rightarrow> ('s, unit result) state" where
  "applyKiteVirtualMachineObject E obj =
     (case kiteVirtualMachineObjectGVR obj of
        Inl e \<Rightarrow> fail e
      | Inr g \<Rightarrow> do {
          r \<leftarrow> env_apply E g (k_namespace obj) obj;
          case r of
            Inl e \<Rightarrow>
              if apiIsNotFound e
              then fail (Plain (k_kind obj @ '' resource API is not installed in this cluster; '' @
                      missingKiteVirtualMachineDependencyMessage (k_kind obj)))
              else fail (Wrapped (''failed to apply '' @ k_kind obj @ '' '' @ k_namespace obj @ ''/'' @ k_name obj @ '': '') e [])
          | Inr _ \<Rightarrow> ok ()
        })"

section \<open>Key pairs are stored and read back\<close>

text \<open>A usable pair: a private key that is not blank and a trimmed public key that is not empty.\<close>

definition usableKeyPair :: "KeyPair \<Rightarrow> bool" where
  "usableKeyPair kp \<longleftrightarrow> TrimSpace (PrivateKey kp) \<noteq> [] \<and> PublicKey kp \<noteq> [] \<and> TrimSpace (PublicKey kp) = PublicKey kp"

text \<open>The PEM and \<open>authorized_keys\<close> encoders do not produce blank texts.\<close>

definition keyTextsNotBlank :: "'s env \<Rightarrow> bool" where
  "keyTextsNotBlank E \<longleftrightarrow>
     (\<forall>k p. env_pemPrivateKey E k = Some p \<longrightarrow> TrimSpace p \<noteq> []) \<and>
     (\<forall>k p. env_sshAuthorizedKey E k = Inr p \<longrightarrow> TrimSpace p \<noteq> [])"

lemma secretData_cong: "objField a ''data'' = objField b ''data'' \<Longrightarrow> secretData a = secretData b"
  by (simp add: secretData_def NestedStringMap_def NestedMap_def objField_def)

lemma secretData_newObject:
  "map_of body ''data'' = Some (GMap m) \<Longrightarrow> asStringMap m = Some x \<Longrightarrow> secretData (newObject kind ns n ls body) = x"
  by (simp add: secretData_def NestedStringMap_def NestedMap_def newObject_def nestedOr_def)

lemma sshKeySecret_data:
  "secretData (newKiteVirtualMachineSSHKeySecret vm kp) =
     [(vmSSHPrivateKeyName, StdEncoding_EncodeToString (PrivateKey kp)),
      (vmSSHPublicKeyName, StdEncoding_EncodeToString (PublicKey kp))]"
  unfolding newKiteVirtualMachineSSHKeySecret_def by (rule secretData_newObject, simp) simp

lemma keyPair_roundtrip:
  assumes "usableKeyPair kp" "secretData secret = secretData (newKiteVirtualMachineSSHKeySecret vm kp)"
  shows "keyPairFromSecret secret = Inr kp"
  using assms(1) unfolding keyPairFromSecret_def Let_def assms(2) sshKeySecret_data
  by (simp add: dataAt_def vmSSHPrivateKeyName_def vmSSHPublicKeyName_def usableKeyPair_def)

lemma created_data:
  "created secretGVR ns obj v v' stored \<Longrightarrow> objField obj ''stringData'' = None \<Longrightarrow> secretData stored = secretData obj"
  by (intro secretData_cong) (simp add: created_def sameBody_def exactGVR_def)

lemma replaced_data:
  "replaced secretGVR ns obj v v' stored \<Longrightarrow> objField obj ''stringData'' = None \<Longrightarrow> secretData stored = secretData obj"
  unfolding replaced_def by (elim exE conjE, intro secretData_cong) (simp add: sameBody_def exactGVR_def)

lemma newSSHKeySecret_sel [simp]:
  "k_name (newKiteVirtualMachineSSHKeySecret vm kp) = sshKeySecretName (kv_name vm)"
  "k_namespace (newKiteVirtualMachineSSHKeySecret vm kp) = kv_namespace vm"
  "objField (newKiteVirtualMachineSSHKeySecret vm kp) ''stringData'' = None"
  by (simp_all add: newKiteVirtualMachineSSHKeySecret_def)

lemma newTLSSecret_sel [simp]:
  "k_name (newKiteVirtualMachineIngressTLSSecret ns data) = GlobalTLSSecretName"
  "objField (newKiteVirtualMachineIngressTLSSecret ns data) ''stringData'' = None"
  by (simp_all add: newKiteVirtualMachineIngressTLSSecret_def)

text \<open>The key under which the SSH key Secret of a VM is stored.\<close>

definition sshKey :: "KiteVirtualMachine \<Rightarrow> kkey" where
  "sshKey vm = (secretGVR, kv_namespace vm, sshKeySecretName (kv_name vm))"

definition tlsKey :: "string \<Rightarrow> kkey" where
  "tlsKey ns = (secretGVR, ns, GlobalTLSSecretName)"

context kube_api begin

lemma GenerateRSA_keeps: "keeps view (GenerateRSA E bits)"
  unfolding GenerateRSA_def by (auto split: option.splits sum.splits)

lemma GenerateRSA_usable:
  assumes "keyTextsNotBlank E" "run_state (GenerateRSA E bits) s = (Inr kp, s')"
  shows "usableKeyPair kp"
  using assms
  by (auto simp: GenerateRSA_def tryE_def keyTextsNotBlank_def usableKeyPair_def ok_def fail_def
      split: prod.splits sum.splits option.splits)

text \<open>After a successful \<open>ensure\<close>, the Secret in the cluster holds the returned pair.\<close>

lemma wp_ensureSSHKey:
  assumes texts: "keyTextsNotBlank E"
  shows "wp (ensureKiteVirtualMachineSSHKeySecret E vm) (\<lambda>r s'. \<forall>kp. r = Inr kp \<longrightarrow>
     (\<exists>secret. view s' (sshKey vm) = Some secret \<and> keyPairFromSecret secret = Inr kp)) s"
    (is "wp _ ?Q s")
  unfolding ensureKiteVirtualMachineSSHKeySecret_def wp_bind
proof (rule wp_get, unfold sum.case)
  fix s1 e assume v1: "view s1 = view s"
    and e: "apiIsNotFound e \<longrightarrow> view s (secretGVR, kv_namespace vm, sshKeySecretName (kv_name vm)) = None"
  have create: "wp (env_create E secretGVR (kv_namespace vm) (newKiteVirtualMachineSSHKeySecret vm kp))
      (\<lambda>r. wp (case r of Inl e \<Rightarrow> if \<not> apiIsAlreadyExists e
             then fail (Wrapped (''failed to create SSH key Secret '' @ kv_namespace vm @ ''/'' @
                     sshKeySecretName (kv_name vm) @ '': '') e []) else ok kp | Inr _ \<Rightarrow> ok kp) ?Q) s2"
    if v2: "view s2 = view s" and new: "apiIsNotFound e" and kp: "usableKeyPair kp" for s2 kp
  proof (rule wpI)
    fix r s3 assume run: "run_state (env_create E secretGVR (kv_namespace vm) (newKiteVirtualMachineSSHKeySecret vm kp)) s2 = (r, s3)"
    have none: "view s2 (sshKey vm) = None" using e new v2 by (simp add: sshKey_def)
    have stored: "\<exists>secret. view s3 (sshKey vm) = Some secret \<and> keyPairFromSecret secret = Inr kp"
      if "created secretGVR (kv_namespace vm) (newKiteVirtualMachineSSHKeySecret vm kp) (view s2) (view s3) x" for x
      using that keyPair_roundtrip[OF kp created_data[OF that]] by (simp add: created_def sshKey_def)
    show "wp (case r of Inl e \<Rightarrow> if \<not> apiIsAlreadyExists e
             then fail (Wrapped (''failed to create SSH key Secret '' @ kv_namespace vm @ ''/'' @
                     sshKeySecretName (kv_name vm) @ '': '') e []) else ok kp | Inr _ \<Rightarrow> ok kp) ?Q s3"
    proof (cases r)
      case (Inl e2)
      then have "\<not> apiIsAlreadyExists e2" 
        using create_exists run none unfolding sshKey_def by (metis newSSHKeySecret_sel(1))
      with Inl show ?thesis by (simp add: wp_simps)
    next
      case (Inr x)
      with create_law[OF run] have "created secretGVR (kv_namespace vm) (newKiteVirtualMachineSSHKeySecret vm kp) (view s2) (view s3) x"
        by (simp add: writeOutcome_def)
      from stored[OF this] Inr show ?thesis by (simp add: wp_ok)
    qed
  qed
  have "wp (createSSHKeySecret E vm) ?Q s1" if "apiIsNotFound e"
    unfolding createSSHKeySecret_def wp_bind
  proof (rule keeps_wp[OF GenerateRSA_keeps])
    fix r s2 assume "view s2 = view s1" and run: "run_state (GenerateRSA E 2048) s1 = (r, s2)"
    then have v2: "view s2 = view s" using v1 by simp
    show "wp (case r of Inl e \<Rightarrow> fail (Wrapped (''failed to generate SSH key pair for '' @ kv_namespace vm @ ''/'' @ kv_name vm @ '': '') e [])
       | Inr keyPair \<Rightarrow> do {
         r \<leftarrow> env_create E secretGVR (kv_namespace vm) (newKiteVirtualMachineSSHKeySecret vm keyPair);
         case r of Inl e \<Rightarrow> if \<not> apiIsAlreadyExists e
             then fail (Wrapped (''failed to create SSH key Secret '' @ kv_namespace vm @ ''/'' @
                     sshKeySecretName (kv_name vm) @ '': '') e []) else ok keyPair
         | Inr _ \<Rightarrow> ok keyPair }) ?Q s2"
      using create[OF v2 that GenerateRSA_usable[OF texts]] run by (cases r) (simp_all add: wp_fail wp_bind)
  qed
  then show "wp (if \<not> apiIsNotFound e then fail (Wrapped (''failed to read SSH key Secret '' @ kv_namespace vm @ ''/'' @
                 sshKeySecretName (kv_name vm) @ '': '') e []) else createSSHKeySecret E vm) ?Q s1"
    by (simp add: wp_fail)
qed (simp add: wp_return sshKey_def)

section \<open>The TLS Secret is a copy and never overwrites another one\<close>

text \<open>What the write of the copy leads to: nothing, or the copy in place of a managed Secret or of none.\<close>

lemma wp_writeTLS:
  assumes desired: "desired = newKiteVirtualMachineIngressTLSSecret ns data"
    and refused: "\<And>s' e. view s' = view s \<Longrightarrow> Q (Inl e) s'"
    and stored: "\<And>s' r secret. view s' = (view s)(tlsKey ns \<mapsto> secret) \<Longrightarrow>
       secretData secret = secretData desired \<Longrightarrow>
       \<forall>cur. view s (tlsKey ns) = Some cur \<longrightarrow> labelOf cur machine_kiteSecretTypeLabel = kitePlatformTLSSecretType \<Longrightarrow> Q r s'"
    and gone: "\<And>s' cur r. view s' = (view s)(tlsKey ns := None) \<Longrightarrow> view s (tlsKey ns) = Some cur \<Longrightarrow>
       k_deletionTimestamp cur \<noteq> None \<Longrightarrow> labelOf cur machine_kiteSecretTypeLabel = kitePlatformTLSSecretType \<Longrightarrow> Q r s'"
  shows "wp (writeIngressTLSSecret E ns desired) Q s"
  unfolding writeIngressTLSSecret_def Let_def wp_bind
proof (rule wp_get, unfold sum.case)
  have name: "k_name desired = GlobalTLSSecretName" "objField desired ''stringData'' = None" by (simp_all add: desired)
  fix s1 cur assume v1: "view s1 = view s" and cur: "view s (secretGVR, ns, GlobalTLSSecretName) = Some cur"
  let ?new = "desired\<lparr>k_resourceVersion := k_resourceVersion cur\<rparr>"
  have upd: "Q r s2" if managed: "labelOf cur machine_kiteSecretTypeLabel = kitePlatformTLSSecretType"
    and rep: "replaced secretGVR ns ?new (view s1) (view s2) x" for r s2 x
  proof -
    have "secretData x = secretData desired"
      using replaced_data[OF rep] name(2) secretData_cong[of ?new desired] by (simp add: objField_def)
    moreover have "(view s2 = (view s)(tlsKey ns := None) \<and> k_deletionTimestamp cur \<noteq> None) \<or> view s2 = (view s)(tlsKey ns \<mapsto> x)"
      using rep cur name(1) unfolding replaced_def v1 tlsKey_def by (auto split: if_splits)
    ultimately show ?thesis
      using stored[of s2 x r] gone[of s2 cur r] managed cur by (auto simp: tlsKey_def)
  qed
  show "wp (if labelOf cur machine_kiteSecretTypeLabel \<noteq> kitePlatformTLSSecretType
            then fail (Plain (''refusing to overwrite unmanaged TLS Secret '' @ ns @ ''/'' @ GlobalTLSSecretName))
            else do {
              w \<leftarrow> env_update E secretGVR ns ?new;
              case w of
                Inl ue \<Rightarrow> fail (Wrapped (''failed to update VM namespace TLS Secret '' @ (ns @ ''/'' @ GlobalTLSSecretName) @ '': '') ue [])
              | Inr _ \<Rightarrow> ok GlobalTLSSecretName }) Q s1"
  proof (cases "labelOf cur machine_kiteSecretTypeLabel = kitePlatformTLSSecretType")
    case True
    have "wp (env_update E secretGVR ns ?new) (\<lambda>w. wp (case w of
                Inl ue \<Rightarrow> fail (Wrapped (''failed to update VM namespace TLS Secret '' @ (ns @ ''/'' @ GlobalTLSSecretName) @ '': '') ue [])
              | Inr _ \<Rightarrow> ok GlobalTLSSecretName) Q) s1"
      by (rule wp_update) (use v1 upd[OF True] in \<open>simp_all add: wp_simps refused\<close>)
    with True show ?thesis by (simp only: not_True_eq_False if_False wp_bind simp_thms)
  next
    case False
    then show ?thesis by (simp add: wp_fail refused v1)
  qed
next
  fix s1 e assume v1: "view s1 = view s"
    and none: "apiIsNotFound e \<longrightarrow> view s (secretGVR, ns, GlobalTLSSecretName) = None"
  have "Q r s2" if c: "created secretGVR ns desired (view s1) (view s2) x" for r s2 x
    using c created_data[OF c] v1 by (intro stored[of s2 x]) (auto simp: created_def tlsKey_def desired)
  then have "wp (env_create E secretGVR ns desired) (\<lambda>w. wp (case w of
                Inl ce \<Rightarrow> fail (Wrapped (''failed to create VM namespace TLS Secret '' @ (ns @ ''/'' @ GlobalTLSSecretName) @ '': '') ce [])
              | Inr _ \<Rightarrow> ok GlobalTLSSecretName) Q) s1"
    by (intro wp_create) (auto simp: wp_simps v1 intro: refused)
  then show "wp (if apiIsNotFound e then do {
              w \<leftarrow> env_create E secretGVR ns desired;
              case w of
                Inl ce \<Rightarrow> fail (Wrapped (''failed to create VM namespace TLS Secret '' @ (ns @ ''/'' @ GlobalTLSSecretName) @ '': '') ce [])
              | Inr _ \<Rightarrow> ok GlobalTLSSecretName
            } else fail (Wrapped (''failed to read VM namespace TLS Secret '' @ (ns @ ''/'' @ GlobalTLSSecretName) @ '': '') e [])) Q s1"
    using v1 by (cases "apiIsNotFound e") (simp_all only: if_True if_False wp_bind wp_fail refused)
qed

lemma wp_ensureTLS:
  assumes same: "\<And>s' r. view s' = view s \<Longrightarrow> (\<forall>name. r = Inr name \<longrightarrow> name = []) \<Longrightarrow> Q r s'"
    and stored: "\<And>s' r global secret. view s (tlsKey GlobalTLSSecretNS) = Some global \<Longrightarrow>
       view s' = (view s)(tlsKey ns \<mapsto> secret) \<Longrightarrow>
       secretData secret = secretData (newKiteVirtualMachineIngressTLSSecret ns (secretData global)) \<Longrightarrow>
       \<forall>cur. view s (tlsKey ns) = Some cur \<longrightarrow> labelOf cur machine_kiteSecretTypeLabel = kitePlatformTLSSecretType \<Longrightarrow> Q r s'"
    and gone: "\<And>s' cur r. view s' = (view s)(tlsKey ns := None) \<Longrightarrow> view s (tlsKey ns) = Some cur \<Longrightarrow>
       k_deletionTimestamp cur \<noteq> None \<Longrightarrow> labelOf cur machine_kiteSecretTypeLabel = kitePlatformTLSSecretType \<Longrightarrow> Q r s'"
  shows "wp (ensureKiteVirtualMachineIngressTLSSecret E ns) Q s"
  unfolding ensureKiteVirtualMachineIngressTLSSecret_def Let_def wp_bind
proof (rule wp_get, unfold sum.case)
  fix s1 global assume v1: "view s1 = view s" and "view s (secretGVR, GlobalTLSSecretNS, GlobalTLSSecretName) = Some global"
  then have g: "view s (tlsKey GlobalTLSSecretNS) = Some global" by (simp add: tlsKey_def)
  have "wp (writeIngressTLSSecret E ns (newKiteVirtualMachineIngressTLSSecret ns (secretData global))) Q s1"
    by (rule wp_writeTLS[OF refl]) (use v1 stored[OF g] gone same in auto)
  then show "wp (if TrimSpace (dataAt (secretData global) TLSCertificateKey) = [] \<or>
        TrimSpace (dataAt (secretData global) TLSPrivateKeyDataKey) = []
      then fail (Plain (''platform TLS Secret '' @ (GlobalTLSSecretNS @ ''/'' @ GlobalTLSSecretName) @ '' is missing TLS data''))
      else writeIngressTLSSecret E ns (newKiteVirtualMachineIngressTLSSecret ns (secretData global))) Q s1"
    by (simp add: wp_fail same v1)
qed (auto simp: wp_simps intro: same)

lemma frames_ensureSSHKey: "sshKey vm \<in> K \<Longrightarrow> frames view K (ensureKiteVirtualMachineSSHKeySecret E vm)"
  unfolding ensureKiteVirtualMachineSSHKeySecret_def createSSHKeySecret_def
  by (intro frames_intros frames_calls keeps_frames[OF GenerateRSA_keeps] frames_create) (simp add: sshKey_def)

lemma frames_ensureTLS: "tlsKey ns \<in> K \<Longrightarrow> frames view K (ensureKiteVirtualMachineIngressTLSSecret E ns)"
  unfolding ensureKiteVirtualMachineIngressTLSSecret_def writeIngressTLSSecret_def Let_def
  by (intro frames_intros frames_calls frames_create frames_update) (simp_all add: tlsKey_def)

lemma frames_applyObject:
  "(\<And>g. kiteVirtualMachineObjectGVR obj = Inr g \<Longrightarrow> (g, k_namespace obj, k_name obj) \<in> K) \<Longrightarrow>
   frames view K (applyKiteVirtualMachineObject E obj)"
  unfolding applyKiteVirtualMachineObject_def by (intro frames_intros frames_apply)

lemma reads_keep:
  "keeps view (kiteVirtualMachineDomain E vm)" "keeps view (kiteVirtualMachineStorageClassName E)"
  "keeps view (guestLoginPasswordHash E vm)"
  unfolding kiteVirtualMachineDomain_def kiteVirtualMachineStorageClassName_def guestLoginPasswordHash_def Let_def
  by (intro keeps_bind keeps_if keeps_ok keeps_fail keeps_case_sum get_keeps)+

end

section \<open>Properties\<close>

text \<open>After a successful \<open>ensureKiteVirtualMachineSSHKeySecret\<close> the SSH key Secret of the VM is in the
  cluster and decodes to exactly the pair that was returned, whether it was found or generated.\<close>

theorem sshKey_stored:
  assumes "kube_api E view" "keyTextsNotBlank E"
    "run_state (ensureKiteVirtualMachineSSHKeySecret E vm) s = (Inr kp, s')"
  shows "\<exists>secret. view s' (secretGVR, kv_namespace vm, sshKeySecretName (kv_name vm)) = Some secret \<and>
     keyPairFromSecret secret = Inr kp"
  using wpD[OF kube_api.wp_ensureSSHKey[OF assms(1,2)] assms(3)] by (simp add: sshKey_def)

definition demoStatus :: KiteVirtualMachineStatus where
  "demoStatus = \<lparr>st_phase = [], st_currentPowerState = [], st_observedGeneration = 0, st_domain = [], st_nodeName = [],
     st_sshKeySecretName = [], st_cloudInitSecretName = [], st_serviceName = [], st_dataVolumeName = [],
     st_dataVolumePhase = [], st_dataVolumeProgress = [], st_dataVolumeMessage = []\<rparr>"

definition demoMachine :: KiteVirtualMachine where
  "demoMachine = \<lparr>kv_name = ''web'', kv_namespace = ''ku-alice'', kv_finalizers = [],
     kv_spec = \<lparr>vs_cpu = 2, vs_memory = ''4Gi'', vs_image = ''ubuntu-22.04'', vs_disk = ''20Gi'', vs_powerState = ''On'',
       vs_domainPrefix = [], vs_sshID = ''alice1'', vs_sshPasswordHash = [], vs_delete = False\<rparr>,
     kv_status = demoStatus\<rparr>"

lemma mem_keyTexts: "keyTextsNotBlank mem_env"
  by (simp add: keyTextsNotBlank_def TrimSpace_not_blank solidByte_def byteOf_def)

theorem sshKey_stored_witness:
  "\<exists>secret kp. keyPairFromSecret secret = Inr kp \<and>
     mem_view (snd (run_state (ensureKiteVirtualMachineSSHKeySecret mem_env demoMachine) (mem_init [] [])))
       (secretGVR, ''ku-alice'', ''web-ssh-key'') = Some secret"
proof -
  have "\<not> isl (fst (run_state (ensureKiteVirtualMachineSSHKeySecret mem_env demoMachine) (mem_init [] [])))" by code_simp
  from run_Inr[OF this] obtain kp s' where
    run: "run_state (ensureKiteVirtualMachineSSHKeySecret mem_env demoMachine) (mem_init [] []) = (Inr kp, s')" by blast
  from sshKey_stored[OF mem_kube_api mem_keyTexts run] run show ?thesis
    by (auto simp: demoMachine_def sshKeySecretName_def)
qed

text \<open>The TLS Secret of a VM namespace is a copy of the platform's: when the function returns a Secret
  name, the Secret of the namespace carries the certificate and key of \<open>kite/global-tls-secret\<close>.\<close>

theorem ingressTLS_copy:
  assumes "kube_api E view" "run_state (ensureKiteVirtualMachineIngressTLSSecret E ns) s = (Inr name, s')" "name \<noteq> []"
    and alive: "\<And>cur. view s (tlsKey ns) = Some cur \<Longrightarrow> k_deletionTimestamp cur = None"
  shows "\<exists>global secret. view s (tlsKey GlobalTLSSecretNS) = Some global \<and> view s' (tlsKey ns) = Some secret \<and>
     dataAt (secretData secret) TLSCertificateKey = dataAt (secretData global) TLSCertificateKey \<and>
     dataAt (secretData secret) TLSPrivateKeyDataKey = dataAt (secretData global) TLSPrivateKeyDataKey"
proof -
  have data: "secretData (newKiteVirtualMachineIngressTLSSecret ns d) =
     [(TLSCertificateKey, dataAt d TLSCertificateKey), (TLSPrivateKeyDataKey, dataAt d TLSPrivateKeyDataKey)]" for d
    unfolding newKiteVirtualMachineIngressTLSSecret_def by (rule secretData_newObject, simp) simp
  have "wp (ensureKiteVirtualMachineIngressTLSSecret E ns) (\<lambda>r s'. r = Inr name \<longrightarrow>
     (\<exists>global secret. view s (tlsKey GlobalTLSSecretNS) = Some global \<and> view s' (tlsKey ns) = Some secret \<and>
        secretData secret = secretData (newKiteVirtualMachineIngressTLSSecret ns (secretData global)))) s"
    by (rule kube_api.wp_ensureTLS[OF assms(1)]) (use assms(3) alive in auto)
  from wpD[OF this assms(2)] show ?thesis
    by (auto simp: data dataAt_def TLSCertificateKey_def TLSPrivateKeyDataKey_def)
qed

definition tlsSecretObject :: "string \<Rightarrow> (string \<times> string) list \<Rightarrow> string \<Rightarrow> kobj" where
  "tlsSecretObject ns labels crt = newObject ''Secret'' ns GlobalTLSSecretName labels
     [(''data'', GMap [(TLSCertificateKey, GStr crt), (TLSPrivateKeyDataKey, GStr ''a2V5'')])]"

definition demoTLSWorld :: mem where
  "demoTLSWorld = mem_init [(tlsKey ''kite'', tlsSecretObject ''kite'' [] ''Y3J0'')] []"

theorem ingressTLS_copy_witness:
  "\<exists>secret. mem_view (snd (run_state (ensureKiteVirtualMachineIngressTLSSecret mem_env ''ku-alice'') demoTLSWorld)) (tlsKey ''ku-alice'') =
      Some secret \<and> dataAt (secretData secret) TLSCertificateKey = ''Y3J0''"
proof -
  have "\<not> isl (fst (run_state (ensureKiteVirtualMachineIngressTLSSecret mem_env ''ku-alice'') demoTLSWorld))" by code_simp
  from run_Inr[OF this] obtain name s' where
    run: "run_state (ensureKiteVirtualMachineIngressTLSSecret mem_env ''ku-alice'') demoTLSWorld = (Inr name, s')" by blast
  have "fst (run_state (ensureKiteVirtualMachineIngressTLSSecret mem_env ''ku-alice'') demoTLSWorld) = Inr GlobalTLSSecretName"
    by code_simp
  then have "name \<noteq> []" using run by (simp add: GlobalTLSSecretName_def)
  moreover have "Option.is_none (mem_view demoTLSWorld (tlsKey ''ku-alice''))" by code_simp
  moreover have "map_option (\<lambda>g. dataAt (secretData g) TLSCertificateKey) (mem_view demoTLSWorld (tlsKey GlobalTLSSecretNS)) =
    Some ''Y3J0''" by code_simp
  ultimately show ?thesis
    using ingressTLS_copy[OF mem_kube_api run] run by (auto simp: Option.is_none_def)
qed

text \<open>A Secret of that name without the platform TLS label is never overwritten: the function returns an
  error, or no name when the platform has no certificate, and the cluster is unchanged.\<close>

theorem ingressTLS_unmanaged:
  assumes "kube_api E view" "view s (tlsKey ns) = Some cur"
    "labelOf cur machine_kiteSecretTypeLabel \<noteq> kitePlatformTLSSecretType"
    "run_state (ensureKiteVirtualMachineIngressTLSSecret E ns) s = (r, s')"
  shows "view s' = view s \<and> (\<forall>name. r = Inr name \<longrightarrow> name = [])"
proof -
  have "wp (ensureKiteVirtualMachineIngressTLSSecret E ns) (\<lambda>r s'. view s' = view s \<and> (\<forall>name. r = Inr name \<longrightarrow> name = [])) s"
    by (rule kube_api.wp_ensureTLS[OF assms(1)]) (use assms(2,3) in auto)
  from wpD[OF this assms(4)] show ?thesis .
qed

definition unmanagedTLSWorld :: mem where
  "unmanagedTLSWorld = mem_init [(tlsKey ''kite'', tlsSecretObject ''kite'' [] ''Y3J0''),
     (tlsKey ''ku-alice'', tlsSecretObject ''ku-alice'' [] ''bWluZQ=='')] []"

theorem ingressTLS_unmanaged_witness:
  "mem_view (snd (run_state (ensureKiteVirtualMachineIngressTLSSecret mem_env ''ku-alice'') unmanagedTLSWorld)) = mem_view unmanagedTLSWorld"
proof -
  obtain r s' where run: "run_state (ensureKiteVirtualMachineIngressTLSSecret mem_env ''ku-alice'') unmanagedTLSWorld = (r, s')"
    by fastforce
  have "map_option (\<lambda>c. labelOf c machine_kiteSecretTypeLabel) (mem_view unmanagedTLSWorld (tlsKey ''ku-alice'')) = Some []"
    by code_simp
  then obtain cur where cur: "mem_view unmanagedTLSWorld (tlsKey ''ku-alice'') = Some cur" "labelOf cur machine_kiteSecretTypeLabel = []"
    by blast
  then have "labelOf cur machine_kiteSecretTypeLabel \<noteq> kitePlatformTLSSecretType" by (simp add: kitePlatformTLSSecretType_def)
  from ingressTLS_unmanaged[OF mem_kube_api, OF cur(1) this run] run show ?thesis by simp
qed

end
