(* ===== verification/Runtime_Config.thy ===== *)
theory Runtime_Config
  imports Machine_Resources
begin

text \<open>
  The runtime configuration of \<open>kite-api\<close>: \<open>internal/config/config.go\<close> and
  \<open>internal/config/runtime_secret.go\<close>.  \<open>Bootstrap\<close> creates or repairs the ConfigMap of public
  settings and the Secret with the JWT key and the password salt, and moves the two from an old
  ConfigMap into the Secret.
\<close>

section \<open>Names and defaults\<close>

definition KiteNamespace :: string where "KiteNamespace = ''kite''"
definition RuntimeConfigName :: string where "RuntimeConfigName = ''kite-runtime-config''"
definition RuntimeSecretName :: string where "RuntimeSecretName = ''kite-runtime-secret''"
definition DefaultAccessTokenTTLMinutes :: int where "DefaultAccessTokenTTLMinutes = 60"
definition JWTSecretKey :: string where "JWTSecretKey = ''jwtSecret''"
definition PasswordSaltKey :: string where "PasswordSaltKey = ''passwordSalt''"
definition AccessTokenTTLMinutesKey :: string where "AccessTokenTTLMinutesKey = ''accessTokenTTLMinutes''"
definition VMStorageClassNameKey :: string where "VMStorageClassNameKey = ''vmStorageClassName''"
definition GoldenImageNamespaceKey :: string where "GoldenImageNamespaceKey = ''goldenImageNamespace''"
definition DefaultVMImageKey :: string where "DefaultVMImageKey = ''defaultVmImage''"
definition ForceHTTPSConfigKey :: string where "ForceHTTPSConfigKey = ''forceHttps''"
definition AdminContactKey :: string where "AdminContactKey = ''adminContact''"
definition SSHGatewayExternalEnabledKey :: string where "SSHGatewayExternalEnabledKey = ''sshGatewayExternalEnabled''"
definition SSHGatewayExternalPortKey :: string where "SSHGatewayExternalPortKey = ''sshGatewayExternalPort''"
definition SSHGatewayPublicPortKey :: string where "SSHGatewayPublicPortKey = ''sshGatewayPublicPort''"
definition DefaultVMStorageClassName :: string where "DefaultVMStorageClassName = ''kite-vm-storage''"
definition DefaultGoldenImageNamespace :: string where "DefaultGoldenImageNamespace = ''kite''"
definition DefaultVMImage :: string where "DefaultVMImage = ''ubuntu-22.04''"

record Config =
  cfg_JWTSecret :: string
  cfg_PasswordSalt :: string
  cfg_AccessTokenTTL :: int

definition FormatBool :: "bool \<Rightarrow> string" where
  "FormatBool b = (if b then ''true'' else ''false'')"

definition stringMapToAny :: "(string \<times> string) list \<Rightarrow> gomap" where
  "stringMapToAny values = map (\<lambda>(key, value). (key, GStr value)) values"

text \<open>\<open>data, _, _ := unstructured.NestedStringMap(obj.Object, field)\<close>: \<open>None\<close> is the nil map.\<close>

definition stringMapAt :: "kobj \<Rightarrow> string \<Rightarrow> (string \<times> string) list option" where
  "stringMapAt obj field = (case NestedStringMap (k_body obj) [field] of Inr (Some m) \<Rightarrow> Some m | _ \<Rightarrow> None)"

definition stringMapOr :: "kobj \<Rightarrow> string \<Rightarrow> (string \<times> string) list" where
  "stringMapOr obj field = (case stringMapAt obj field of None \<Rightarrow> [] | Some m \<Rightarrow> m)"

definition setStringMap :: "kobj \<Rightarrow> string \<Rightarrow> (string \<times> string) list \<Rightarrow> kobj" where
  "setStringMap obj field data = obj\<lparr>k_body := AList.update field (GMap (stringMapToAny data)) (k_body obj)\<rparr>"

definition removeField :: "kobj \<Rightarrow> string \<Rightarrow> kobj" where
  "removeField obj field = obj\<lparr>k_body := RemoveNestedField (k_body obj) [field]\<rparr>"

definition defaultRuntimeData :: "(string \<times> string) list" where
  "defaultRuntimeData =
     [(AccessTokenTTLMinutesKey, Itoa DefaultAccessTokenTTLMinutes),
      (VMStorageClassNameKey, DefaultVMStorageClassName),
      (GoldenImageNamespaceKey, DefaultGoldenImageNamespace),
      (DefaultVMImageKey, DefaultVMImage),
      (ForceHTTPSConfigKey, FormatBool False),
      (AdminContactKey, []),
      (SSHGatewayExternalEnabledKey, FormatBool False),
      (SSHGatewayExternalPortKey, []),
      (SSHGatewayPublicPortKey, [])]"

definition newRuntimeConfigMap :: kobj where
  "newRuntimeConfigMap =
     newObject ''ConfigMap'' KiteNamespace RuntimeConfigName [] [(''data'', GMap (stringMapToAny defaultRuntimeData))]"

text \<open>Filling the keys a map does not have (\<open>missing\<close>); the order of Go's map iteration does not
  matter because every default has its own key.\<close>

fun fillMissing :: "(string \<times> string) list \<Rightarrow> (string \<times> string) list \<Rightarrow> (string \<times> string) list \<times> bool" where
  "fillMissing data [] = (data, False)"
| "fillMissing data ((key, value) # defaults) =
     (if map_of data key = None then (fst (fillMissing (AList.update key value data) defaults), True)
      else fillMissing data defaults)"

definition normalizedRuntimeData :: "kobj \<Rightarrow> (string \<times> string) list \<times> bool" where
  "normalizedRuntimeData obj = fillMissing (stringMapOr obj ''data'') defaultRuntimeData"

section \<open>Secrets\<close>

definition GenerateSecret :: "'s env \<Rightarrow> string \<Rightarrow> ('s, string) state" where
  "GenerateSecret E pre = do {
     r \<leftarrow> env_randBytes E 32;
     now \<leftarrow> env_now E;
     State_Monad.return (case r of
       Inl _ \<Rightarrow> pre @ ''-'' @ Itoa now
     | Inr bytes \<Rightarrow> pre @ ''-'' @ Itoa now @ ''-'' @ base64Encode urlAlphabet False bytes)
   }"

definition defaultRuntimeSecretData :: "'s env \<Rightarrow> (string \<times> string) list \<Rightarrow> ('s, (string \<times> string) list) state" where
  "defaultRuntimeSecretData E values = do {
     jwt \<leftarrow> GenerateSecret E ''jwt'';
     salt \<leftarrow> GenerateSecret E ''salt'';
     State_Monad.return
       [(JWTSecretKey, if dataAt values JWTSecretKey \<noteq> [] then dataAt values JWTSecretKey else jwt),
        (PasswordSaltKey, if dataAt values PasswordSaltKey \<noteq> [] then dataAt values PasswordSaltKey else salt)]
   }"

definition newRuntimeSecret :: "'s env \<Rightarrow> (string \<times> string) list \<Rightarrow> ('s, kobj) state" where
  "newRuntimeSecret E values = do {
     data \<leftarrow> defaultRuntimeSecretData E values;
     State_Monad.return (newObject ''Secret'' KiteNamespace RuntimeSecretName []
       [(''type'', GStr ''Opaque''), (''stringData'', GMap (stringMapToAny data))])
   }"

definition decodeEntry :: "string \<times> string \<Rightarrow> (string \<times> string) list" where
  "decodeEntry kv = (case StdEncoding_DecodeString (snd kv) of Inl _ \<Rightarrow> [] | Inr x \<Rightarrow> [(fst kv, x)])"

definition runtimeSecretStringData :: "kobj \<Rightarrow> (string \<times> string) list" where
  "runtimeSecretStringData obj =
     (let stringData = stringMapOr obj ''stringData'' in
      if stringData \<noteq> [] then stringData
      else concat (map decodeEntry (stringMapOr obj ''data'')))"

text \<open>Here a key with an empty value counts as missing.\<close>

fun fillBlank :: "(string \<times> string) list \<Rightarrow> (string \<times> string) list \<Rightarrow> (string \<times> string) list \<times> bool" where
  "fillBlank data [] = (data, False)"
| "fillBlank data ((key, value) # defaults) =
     (if dataAt data key = [] then (fst (fillBlank (AList.update key value data) defaults), True)
      else fillBlank data defaults)"

definition normalizedRuntimeSecretData :: "'s env \<Rightarrow> kobj \<Rightarrow> (string \<times> string) list \<Rightarrow> ('s, (string \<times> string) list \<times> bool) state" where
  "normalizedRuntimeSecretData E obj legacyValues = do {
     defaults \<leftarrow> defaultRuntimeSecretData E legacyValues;
     State_Monad.return (fillBlank (runtimeSecretStringData obj) defaults)
   }"

definition legacySecretData :: "kobj \<Rightarrow> (string \<times> string) list" where
  "legacySecretData obj =
     (let data = stringMapOr obj ''data'' in
      [(JWTSecretKey, dataAt data JWTSecretKey), (PasswordSaltKey, dataAt data PasswordSaltKey)])"

section \<open>Bootstrap\<close>

definition ensureKiteNamespace :: "'s env \<Rightarrow> ('s, unit result) state" where
  "ensureKiteNamespace E = do {
     r \<leftarrow> env_create E namespaceGVR [] (newObject ''Namespace'' [] KiteNamespace [] []);
     case r of
       Inl e \<Rightarrow> if apiIsAlreadyExists e then ok () else fail (Wrapped ''failed to ensure kite namespace: '' e [])
     | Inr _ \<Rightarrow> ok ()
   }"

definition ensureRuntimeConfigMap :: "'s env \<Rightarrow> ('s, (kobj \<times> (string \<times> string) list) result) state" where
  "ensureRuntimeConfigMap E = do {
     r \<leftarrow> env_get E configMapGVR KiteNamespace RuntimeConfigName;
     case r of
       Inl e \<Rightarrow>
         if apiIsNotFound e then do {
           c \<leftarrow> env_create E configMapGVR KiteNamespace newRuntimeConfigMap;
           case c of
             Inl ce \<Rightarrow> fail (Wrapped ''failed to create runtime config: '' ce [])
           | Inr x \<Rightarrow> ok (x, [])
         } else fail (Wrapped ''failed to read runtime config: '' e [])
     | Inr configMap \<Rightarrow>
         let legacySecrets = legacySecretData configMap;
             (data, changed) = normalizedRuntimeData configMap in
         if changed then do {
           u \<leftarrow> env_update E configMapGVR KiteNamespace (setStringMap configMap ''data'' data);
           case u of
             Inl ue \<Rightarrow> fail (Wrapped ''failed to update runtime config defaults: '' ue [])
           | Inr updated \<Rightarrow> ok (updated, legacySecrets)
         } else ok (configMap, legacySecrets)
   }"

definition clearLegacyRuntimeConfigSecrets :: "'s env \<Rightarrow> kobj \<Rightarrow> ('s, kobj result) state" where
  "clearLegacyRuntimeConfigSecrets E configMap =
     (let data = stringMapOr configMap ''data'';
          changed = (map_of data JWTSecretKey \<noteq> None \<or> map_of data PasswordSaltKey \<noteq> None);
          cleared = AList.delete PasswordSaltKey (AList.delete JWTSecretKey data) in
      if \<not> changed then ok configMap
      else do {
        u \<leftarrow> env_update E configMapGVR KiteNamespace (setStringMap configMap ''data'' cleared);
        case u of
          Inl e \<Rightarrow> fail (Wrapped ''failed to remove legacy runtime config secrets: '' e [])
        | Inr updated \<Rightarrow> ok updated
      })"

definition ensureRuntimeSecret :: "'s env \<Rightarrow> (string \<times> string) list \<Rightarrow> ('s, kobj result) state" where
  "ensureRuntimeSecret E legacySecrets = do {
     r \<leftarrow> env_get E secretGVR KiteNamespace RuntimeSecretName;
     case r of
       Inl e \<Rightarrow>
         if apiIsNotFound e then do {
           obj \<leftarrow> newRuntimeSecret E legacySecrets;
           c \<leftarrow> env_create E secretGVR KiteNamespace obj;
           case c of
             Inl ce \<Rightarrow> fail (Wrapped ''failed to create runtime secret: '' ce [])
           | Inr x \<Rightarrow> ok x
         } else fail (Wrapped ''failed to read runtime secret: '' e [])
     | Inr runtimeSecret \<Rightarrow> do {
         (data, changed) \<leftarrow> normalizedRuntimeSecretData E runtimeSecret legacySecrets;
         if changed then do {
           u \<leftarrow> env_update E secretGVR KiteNamespace (removeField (setStringMap runtimeSecret ''stringData'' data) ''data'');
           case u of
             Inl ue \<Rightarrow> fail (Wrapped ''failed to update runtime secret defaults: '' ue [])
           | Inr updated \<Rightarrow> ok updated
         } else ok runtimeSecret
       }
   }"

text \<open>\<open>time.Duration(minutes) * time.Minute\<close> is 64-bit arithmetic and wraps around.\<close>

definition wrapInt64 :: "int \<Rightarrow> int" where
  "wrapInt64 i = (i + 2 ^ 63) mod 2 ^ 64 - 2 ^ 63"

definition minutesDuration :: "int \<Rightarrow> int" where
  "minutesDuration m = wrapInt64 (m * 60000000000)"

definition configFromResources :: "kobj \<Rightarrow> kobj \<Rightarrow> Config result" where
  "configFromResources configMap runtimeSecret =
     (let data = stringMapOr configMap ''data'';
          secretData = runtimeSecretStringData runtimeSecret;
          jwtSecret = dataAt secretData JWTSecretKey;
          passwordSalt = dataAt secretData PasswordSaltKey;
          value = dataAt data AccessTokenTTLMinutesKey;
          config = (\<lambda>ttlMinutes. \<lparr>cfg_JWTSecret = jwtSecret, cfg_PasswordSalt = passwordSalt,
            cfg_AccessTokenTTL = minutesDuration ttlMinutes\<rparr>) in
      if jwtSecret = [] \<or> passwordSalt = [] then Inl (Plain ''runtime config is missing required fields'')
      else if value = [] then Inr (config DefaultAccessTokenTTLMinutes)
      else case Atoi value of
        Inl _ \<Rightarrow> Inl (Plain ''accessTokenTTLMinutes must be a positive integer'')
      | Inr parsed \<Rightarrow>
          if parsed < 1 then Inl (Plain ''accessTokenTTLMinutes must be a positive integer'')
          else Inr (config parsed))"

definition Bootstrap :: "'s env \<Rightarrow> ('s, Config result) state" where
  "Bootstrap E =
     tryE (ensureKiteNamespace E) (\<lambda>_.
     tryE (ensureRuntimeConfigMap E) (\<lambda>(configMap, legacySecrets).
     tryE (ensureRuntimeSecret E legacySecrets) (\<lambda>runtimeSecret.
     tryE (clearLegacyRuntimeConfigSecrets E configMap) (\<lambda>configMap.
     State_Monad.return (configFromResources configMap runtimeSecret)))))"

definition Load :: "'s env \<Rightarrow> ('s, Config result) state" where
  "Load E = do {
     r \<leftarrow> env_get E configMapGVR KiteNamespace RuntimeConfigName;
     case r of
       Inl e \<Rightarrow> fail (Wrapped ''failed to read runtime config: '' e [])
     | Inr configMap \<Rightarrow> do {
         q \<leftarrow> env_get E secretGVR KiteNamespace RuntimeSecretName;
         case q of
           Inl e \<Rightarrow> fail (Wrapped ''failed to read runtime secret: '' e [])
         | Inr runtimeSecret \<Rightarrow> State_Monad.return (configFromResources configMap runtimeSecret)
       }
   }"

section \<open>Reading back what was written\<close>

lemma asStringMap_any [simp]: "asStringMap (stringMapToAny data) = Some data"
  by (induction data) (auto simp: stringMapToAny_def)

lemma stringMapOr_field: "objField obj field = Some (GMap (stringMapToAny data)) \<Longrightarrow> stringMapOr obj field = data"
  by (simp add: stringMapOr_def stringMapAt_def NestedStringMap_def NestedMap_def objField_def)

lemma stringMapOr_absent: "objField obj field = None \<Longrightarrow> stringMapOr obj field = []"
  by (simp add: stringMapOr_def stringMapAt_def NestedStringMap_def NestedMap_def objField_def)

lemma objField_setStringMap [simp]:
  "objField (setStringMap obj f data) g = (if g = f then Some (GMap (stringMapToAny data)) else objField obj g)"
  by (simp add: setStringMap_def objField_def)

lemma objField_removeField [simp]: "objField (removeField obj f) g = (if g = f then None else objField obj g)"
  by (simp add: removeField_def objField_def delete_conv')

lemma meta_setStringMap [simp]:
  "k_name (setStringMap obj f data) = k_name obj" "k_name (removeField obj f) = k_name obj"
  by (simp_all add: setStringMap_def removeField_def)

lemma dataAt_simps [simp]:
  "dataAt [] key = []"
  "dataAt ((key, value) # data) key = value"
  "key \<noteq> key' \<Longrightarrow> dataAt ((key', value) # data) key = dataAt data key"
  "dataAt (AList.update key value data) key' = (if key' = key then value else dataAt data key')"
  by (simp_all add: dataAt_def)

text \<open>
  What the API documents for a Secret: the strings of \<open>stringData\<close> end up base64-encoded in
  \<open>data\<close>, and \<open>stringData\<close> is not shown again; the in-memory client of the tests keeps it as it is.
\<close>

fun encodeEntry :: "string \<times> gov \<Rightarrow> string \<times> gov" where
  "encodeEntry (key, GStr x) = (key, GStr (StdEncoding_EncodeToString x))"
| "encodeEntry kv = kv"

definition stringsStored :: "kobj \<Rightarrow> kobj \<Rightarrow> bool" where
  "stringsStored obj stored \<longleftrightarrow>
     (\<forall>m. objField obj ''stringData'' = Some (GMap m) \<and> objField obj ''data'' = None \<longrightarrow>
        objField stored ''stringData'' = Some (GMap m) \<or>
        objField stored ''stringData'' = None \<and> objField stored ''data'' = Some (GMap (map encodeEntry m)))"

lemma encode_any: "map encodeEntry (stringMapToAny data) = stringMapToAny (map (\<lambda>(k, x). (k, StdEncoding_EncodeToString x)) data)"
  by (induction data) (auto simp: stringMapToAny_def)

lemma stringsStored_read:
  assumes "stringsStored obj stored" "objField obj ''stringData'' = Some (GMap (stringMapToAny data))" "objField obj ''data'' = None"
    and "data \<noteq> []"
  shows "runtimeSecretStringData stored = data"
proof -
  have dec: "concat (map decodeEntry (map (\<lambda>(k, x). (k, StdEncoding_EncodeToString x)) data)) = data"
    by (induction data) (auto simp: decodeEntry_def)
  consider "objField stored ''stringData'' = Some (GMap (stringMapToAny data))"
    | "objField stored ''stringData'' = None" "objField stored ''data'' = Some (GMap (stringMapToAny (map (\<lambda>(k, x). (k, StdEncoding_EncodeToString x)) data)))"
    using assms(1)[unfolded stringsStored_def, rule_format, OF conjI[OF assms(2,3)]] encode_any[of data] by metis
  then show ?thesis
    using assms(4) dec by cases (simp_all add: runtimeSecretStringData_def stringMapOr_field stringMapOr_absent)
qed

locale secret_api = kube_api E view for E :: "'s env" and view :: "'s \<Rightarrow> kview" +
  assumes create_strings: "run_state (env_create E secretGVR ns obj) s = (Inr stored, s') \<Longrightarrow> stringsStored obj stored"
    and update_strings: "run_state (env_update E secretGVR ns obj) s = (Inr stored, s') \<Longrightarrow> stringsStored obj stored"
begin

text \<open>The reply to a successful write is the object as it is now stored, unless the write released
  an object that was being deleted.\<close>

lemma wp_create_secret:
  assumes "\<And>e s'. Q (Inl e) s'"
    and "\<And>s' stored. created secretGVR ns obj (view s) (view s') stored \<Longrightarrow> stringsStored obj stored \<Longrightarrow> Q (Inr stored) s'"
  shows "wp (env_create E secretGVR ns obj) Q s"
proof (rule wpI)
  fix r s' assume run: "run_state (env_create E secretGVR ns obj) s = (r, s')"
  show "Q r s'"
    using create_law[OF run] run create_strings[of ns obj s _ s'] assms by (cases r) (auto simp: writeOutcome_def)
qed

lemma wp_update_secret:
  assumes "\<And>e s'. Q (Inl e) s'"
    and "\<And>s' stored. replaced secretGVR ns obj (view s) (view s') stored \<Longrightarrow> stringsStored obj stored \<Longrightarrow> Q (Inr stored) s'"
  shows "wp (env_update E secretGVR ns obj) Q s"
proof (rule wpI)
  fix r s' assume run: "run_state (env_update E secretGVR ns obj) s = (r, s')"
  show "Q r s'"
    using update_law[OF run] run update_strings[of ns obj s _ s'] assms by (cases r) (auto simp: writeOutcome_def)
qed

end

text \<open>An object that a step returned is the one the cluster shows, or it is gone.\<close>

definition shownAt :: "kkey \<Rightarrow> kobj \<Rightarrow> kview \<Rightarrow> bool" where
  "shownAt k obj v \<longleftrightarrow> v k = Some obj \<or> v k = None"

definition configKey :: kkey where "configKey = (configMapGVR, KiteNamespace, RuntimeConfigName)"
definition secretKey :: kkey where "secretKey = (secretGVR, KiteNamespace, RuntimeSecretName)"

definition configDataIn :: "kview \<Rightarrow> (string \<times> string) list" where
  "configDataIn v = (case v configKey of None \<Rightarrow> [] | Some c \<Rightarrow> stringMapOr c ''data'')"

definition secretDataIn :: "kview \<Rightarrow> (string \<times> string) list" where
  "secretDataIn v = (case v secretKey of None \<Rightarrow> [] | Some x \<Rightarrow> runtimeSecretStringData x)"

text \<open>The stored secret wins, then the value of an old ConfigMap; only without either is one made up.\<close>

definition pickedFor :: "string \<Rightarrow> (string \<times> string) list \<Rightarrow> (string \<times> string) list \<Rightarrow> string \<Rightarrow> bool" where
  "pickedFor key secret legacy value \<longleftrightarrow>
     value \<noteq> [] \<and>
     (if dataAt secret key \<noteq> [] then value = dataAt secret key
      else dataAt legacy key \<noteq> [] \<longrightarrow> value = dataAt legacy key)"

lemma config_keys [simp]: "configKey \<noteq> secretKey" "secretKey \<noteq> configKey" "JWTSecretKey \<noteq> PasswordSaltKey" "PasswordSaltKey \<noteq> JWTSecretKey"
  by (simp_all add: configKey_def secretKey_def JWTSecretKey_def PasswordSaltKey_def)

lemma created_shown: "created g ns obj v v' stored \<Longrightarrow> k = (g, ns, k_name obj) \<Longrightarrow> shownAt k stored v'"
  by (simp add: created_def shownAt_def)

lemma replaced_shown: "replaced g ns obj v v' stored \<Longrightarrow> k = (g, ns, k_name obj) \<Longrightarrow> shownAt k stored v'"
  by (auto simp: replaced_def shownAt_def split: if_splits)

lemma write_frame:
  "created g ns obj v v' stored \<Longrightarrow> k \<noteq> (g, ns, k_name obj) \<Longrightarrow> v' k = v k"
  "replaced g ns obj v v' stored \<Longrightarrow> k \<noteq> (g, ns, k_name obj) \<Longrightarrow> v' k = v k"
  by (auto simp: created_def replaced_def split: if_splits)

lemma write_name:
  "created g ns obj v v' stored \<Longrightarrow> k_name stored = k_name obj"
  "replaced g ns obj v v' stored \<Longrightarrow> k_name stored = k_name obj"
  by (auto simp: created_def replaced_def sameMeta_def)

lemma legacySecretData_at [simp]:
  "dataAt (legacySecretData c) JWTSecretKey = dataAt (stringMapOr c ''data'') JWTSecretKey"
  "dataAt (legacySecretData c) PasswordSaltKey = dataAt (stringMapOr c ''data'') PasswordSaltKey"
  by (simp_all add: legacySecretData_def Let_def)

text \<open>The secrets that \<open>defaultRuntimeSecretData\<close> proposes.\<close>

definition proposed :: "(string \<times> string) list \<Rightarrow> (string \<times> string) list \<Rightarrow> bool" where
  "proposed legacy data \<longleftrightarrow>
     (\<exists>jwt salt. data = [(JWTSecretKey, jwt), (PasswordSaltKey, salt)] \<and>
        pickedFor JWTSecretKey [] legacy jwt \<and> pickedFor PasswordSaltKey [] legacy salt)"

lemma fillBlank_picked:
  assumes "proposed legacy defaults" "fillBlank data defaults = (data', changed)"
  shows "pickedFor JWTSecretKey data legacy (dataAt data' JWTSecretKey)"
    and "pickedFor PasswordSaltKey data legacy (dataAt data' PasswordSaltKey)"
    and "\<not> changed \<Longrightarrow> data' = data" and "data' \<noteq> []"
proof -
  show "pickedFor JWTSecretKey data legacy (dataAt data' JWTSecretKey)"
    and "pickedFor PasswordSaltKey data legacy (dataAt data' PasswordSaltKey)"
    and "\<not> changed \<Longrightarrow> data' = data"
    using assms by (auto simp: proposed_def pickedFor_def split: if_splits)
  then show "data' \<noteq> []" by (auto simp: pickedFor_def)
qed

text \<open>What \<open>ensureRuntimeSecret\<close> achieves when it returns an object.\<close>

definition secretEnsured :: "(string \<times> string) list \<Rightarrow> kview \<Rightarrow> kview \<Rightarrow> kobj \<Rightarrow> bool" where
  "secretEnsured legacy v v' x \<longleftrightarrow>
     (\<forall>k. k \<noteq> secretKey \<longrightarrow> v' k = v k) \<and> shownAt secretKey x v' \<and>
     pickedFor JWTSecretKey (secretDataIn v) legacy (dataAt (runtimeSecretStringData x) JWTSecretKey) \<and>
     pickedFor PasswordSaltKey (secretDataIn v) legacy (dataAt (runtimeSecretStringData x) PasswordSaltKey)"

definition runtimeSecretObject :: "(string \<times> string) list \<Rightarrow> kobj" where
  "runtimeSecretObject data = newObject ''Secret'' KiteNamespace RuntimeSecretName []
     [(''type'', GStr ''Opaque''), (''stringData'', GMap (stringMapToAny data))]"

lemma secret_created:
  assumes none: "v secretKey = None" and data: "proposed legacy data"
    and cr: "created secretGVR KiteNamespace (runtimeSecretObject data) v v' stored"
    and st: "stringsStored (runtimeSecretObject data) stored"
  shows "secretEnsured legacy v v' stored"
proof -
  have "data \<noteq> []" using data by (auto simp: proposed_def)
  from stringsStored_read[OF st _ _ this] have d: "runtimeSecretStringData stored = data" by (simp add: runtimeSecretObject_def)
  have name: "secretKey = (secretGVR, KiteNamespace, k_name (runtimeSecretObject data))"
    by (simp add: secretKey_def runtimeSecretObject_def)
  show ?thesis
    using data none created_shown[OF cr name] write_frame(1)[OF cr] name
    by (auto simp: secretEnsured_def d secretDataIn_def proposed_def pickedFor_def)
qed

lemma secret_repaired:
  assumes cur: "v secretKey = Some cur" "k_name cur = RuntimeSecretName" and defaults: "proposed legacy defaults"
    and fill: "fillBlank (runtimeSecretStringData cur) defaults = (data, changed)"
    and rep: "replaced secretGVR KiteNamespace (removeField (setStringMap cur ''stringData'' data) ''data'') v v' stored"
    and st: "stringsStored (removeField (setStringMap cur ''stringData'' data) ''data'') stored"
  shows "secretEnsured legacy v v' stored"
proof -
  have name: "secretKey = (secretGVR, KiteNamespace, k_name (removeField (setStringMap cur ''stringData'' data) ''data''))"
    using cur by (simp add: secretKey_def)
  have d: "runtimeSecretStringData stored = data"
    using stringsStored_read[OF st _ _ fillBlank_picked(4)[OF defaults fill]] by simp
  show ?thesis
    using fillBlank_picked(1,2)[OF defaults fill] replaced_shown[OF rep name] write_frame(2)[OF rep] name
    by (simp add: secretEnsured_def d secretDataIn_def cur)
qed

lemma secret_kept:
  assumes "v secretKey = Some cur" "proposed legacy defaults" "fillBlank (runtimeSecretStringData cur) defaults = (data, False)"
  shows "secretEnsured legacy v v cur"
  using fillBlank_picked[OF assms(2,3)] assms(1) by (simp add: secretEnsured_def shownAt_def secretDataIn_def)

lemma wp_bind_ext: "wp (State_Monad.bind m k) Q = wp m (\<lambda>x. wp (k x) Q)"
  by (rule ext) (rule wp_bind)

context kube_api
begin

lemma wp_updateConfigMap:
  assumes "k_name obj = RuntimeConfigName"
  shows "wp (env_update E configMapGVR KiteNamespace obj) (\<lambda>u s'. case u of Inl e \<Rightarrow> True | Inr x \<Rightarrow>
      view s' secretKey = view s secretKey \<and> shownAt configKey x (view s') \<and> objField x ''data'' = objField obj ''data'') s"
proof (rule wp_update; unfold sum.case)
  fix s' stored assume rep: "replaced configMapGVR KiteNamespace obj (view s) (view s') stored"
  have name: "configKey = (configMapGVR, KiteNamespace, k_name obj)" using assms by (simp add: configKey_def)
  have "sameBody configMapGVR obj stored" using rep unfolding replaced_def by blast
  then have "objField stored ''data'' = objField obj ''data''" by (simp add: sameBody_def exactGVR_def)
  with replaced_shown[OF rep name] write_frame(2)[OF rep] name
  show "view s' secretKey = view s secretKey \<and> shownAt configKey stored (view s') \<and> objField stored ''data'' = objField obj ''data''"
    by simp
qed simp_all

end

context secret_api
begin

lemma wp_GenerateSecret:
  assumes "\<And>x s'. view s' = view s \<Longrightarrow> x \<noteq> [] \<Longrightarrow> Q x s'"
  shows "wp (GenerateSecret E (c # pre)) Q s"
  unfolding GenerateSecret_def wp_bind
  by (rule keeps_wp[OF randBytes_keeps], rule keeps_wp[OF now_keeps])
     (auto simp: wp_simps intro!: assms split: sum.splits)

lemma wp_defaultRuntimeSecretData:
  assumes "\<And>data s'. view s' = view s \<Longrightarrow> proposed legacy data \<Longrightarrow> Q data s'"
  shows "wp (defaultRuntimeSecretData E legacy) Q s"
  unfolding defaultRuntimeSecretData_def wp_bind
  by (rule wp_GenerateSecret, rule wp_GenerateSecret)
     (auto simp: wp_simps proposed_def pickedFor_def intro!: assms)

lemma wp_ensureRuntimeSecret:
  "wp (ensureRuntimeSecret E legacy) (\<lambda>r s'. case r of Inl e \<Rightarrow> True | Inr x \<Rightarrow> secretEnsured legacy (view s) (view s') x) s"
    (is "wp _ ?Q s")
  unfolding ensureRuntimeSecret_def wp_bind
proof (rule wp_get; unfold sum.case)
  fix s1 cur assume s1: "view s1 = view s" and at: "view s (secretGVR, KiteNamespace, RuntimeSecretName) = Some cur"
  have cur: "view s secretKey = Some cur" "k_name cur = RuntimeSecretName"
    using at view_key[OF at] by (simp_all add: secretKey_def)
  have repair: "wp (env_update E secretGVR KiteNamespace (removeField (setStringMap cur ''stringData'' data) ''data''))
      (\<lambda>u. wp (case u of Inl ue \<Rightarrow> fail (Wrapped ''failed to update runtime secret defaults: '' ue []) | Inr updated \<Rightarrow> ok updated) ?Q) s2"
    if "view s2 = view s" "proposed legacy defaults" "fillBlank (runtimeSecretStringData cur) defaults = (data, changed)" for s2 data defaults changed
    by (rule wp_update_secret) (use that secret_repaired[of "view s" cur] cur in \<open>auto simp: wp_simps\<close>)
  show "wp (normalizedRuntimeSecretData E cur legacy \<bind> (\<lambda>(data, changed).
         if changed then env_update E secretGVR KiteNamespace (removeField (setStringMap cur ''stringData'' data) ''data'') \<bind>
             (\<lambda>u. case u of Inl ue \<Rightarrow> fail (Wrapped ''failed to update runtime secret defaults: '' ue []) | Inr updated \<Rightarrow> ok updated)
         else ok cur)) ?Q s1"
    unfolding normalizedRuntimeSecretData_def wp_bind_ext
    by (rule wp_defaultRuntimeSecretData)
       (use s1 cur repair secret_kept in \<open>auto simp: wp_simps split: prod.splits\<close>)
next
  fix s1 e assume s1: "view s1 = view s" and e: "apiIsNotFound e \<longrightarrow> view s (secretGVR, KiteNamespace, RuntimeSecretName) = None"
  have "wp (newRuntimeSecret E legacy) (\<lambda>obj. wp (env_create E secretGVR KiteNamespace obj)
      (\<lambda>c. wp (case c of Inl ce \<Rightarrow> fail (Wrapped ''failed to create runtime secret: '' ce []) | Inr x \<Rightarrow> ok x) ?Q)) s1"
    if "view s secretKey = None"
    unfolding newRuntimeSecret_def wp_bind runtimeSecretObject_def[symmetric]
    by (rule wp_defaultRuntimeSecretData, unfold wp_return, rule wp_create_secret)
       (use s1 that secret_created in \<open>auto simp: wp_simps\<close>)
  with e show "wp (if apiIsNotFound e
       then newRuntimeSecret E legacy \<bind> (\<lambda>obj. env_create E secretGVR KiteNamespace obj \<bind>
         (\<lambda>c. case c of Inl ce \<Rightarrow> fail (Wrapped ''failed to create runtime secret: '' ce []) | Inr x \<Rightarrow> ok x))
       else fail (Wrapped ''failed to read runtime secret: '' e [])) ?Q s1"
    by (cases "apiIsNotFound e") (simp_all only: wp_bind_ext if_True if_False wp_fail sum.case secretKey_def)
qed

lemma wp_ensureRuntimeConfigMap:
  "wp (ensureRuntimeConfigMap E) (\<lambda>r s'. case r of Inl e \<Rightarrow> True | Inr (cm, legacy) \<Rightarrow>
      view s' secretKey = view s secretKey \<and> shownAt configKey cm (view s') \<and> k_name cm = RuntimeConfigName \<and>
      (\<forall>key \<in> {JWTSecretKey, PasswordSaltKey}. dataAt legacy key = dataAt (configDataIn (view s)) key)) s"
    (is "wp _ ?Q s")
  unfolding ensureRuntimeConfigMap_def wp_bind
proof (rule wp_get; unfold sum.case)
  fix s1 cur assume s1: "view s1 = view s" and at: "view s (configMapGVR, KiteNamespace, RuntimeConfigName) = Some cur"
  have cur: "view s configKey = Some cur" "k_name cur = RuntimeConfigName"
    using at view_key[OF at] by (simp_all add: configKey_def)
  obtain data changed where norm: "normalizedRuntimeData cur = (data, changed)" by fastforce
  have name: "configKey = (configMapGVR, KiteNamespace, k_name (setStringMap cur ''data'' data))"
    using cur by (simp add: configKey_def)
  have "wp (env_update E configMapGVR KiteNamespace (setStringMap cur ''data'' data))
      (\<lambda>u. wp (case u of Inl ue \<Rightarrow> fail (Wrapped ''failed to update runtime config defaults: '' ue [])
        | Inr updated \<Rightarrow> ok (updated, legacySecretData cur)) ?Q) s1"
    by (rule wp_update)
       (use s1 cur name replaced_shown[where k = configKey] write_frame(2) in \<open>auto simp: wp_simps configDataIn_def dest: write_name\<close>)
  with s1 cur show "wp (let legacySecrets = legacySecretData cur; (data, changed) = normalizedRuntimeData cur
       in if changed then env_update E configMapGVR KiteNamespace (setStringMap cur ''data'' data) \<bind>
            (\<lambda>u. case u of Inl ue \<Rightarrow> fail (Wrapped ''failed to update runtime config defaults: '' ue [])
              | Inr updated \<Rightarrow> ok (updated, legacySecrets))
          else ok (cur, legacySecrets)) ?Q s1"
    by (cases changed) (simp_all add: Let_def norm wp_bind_ext wp_ok shownAt_def configDataIn_def del: sum.case_distrib)
next
  fix s1 e assume s1: "view s1 = view s" and e: "apiIsNotFound e \<longrightarrow> view s (configMapGVR, KiteNamespace, RuntimeConfigName) = None"
  have name: "configKey = (configMapGVR, KiteNamespace, k_name newRuntimeConfigMap)"
    by (simp add: configKey_def newRuntimeConfigMap_def)
  have "wp (env_create E configMapGVR KiteNamespace newRuntimeConfigMap)
      (\<lambda>c. wp (case c of Inl ce \<Rightarrow> fail (Wrapped ''failed to create runtime config: '' ce []) | Inr x \<Rightarrow> ok (x, [])) ?Q) s1"
    if "view s configKey = None"
    by (rule wp_create)
       (use s1 that name created_shown[where k = configKey] write_frame(1) in \<open>auto simp: wp_simps configDataIn_def newRuntimeConfigMap_def dest: write_name\<close>)
  with e show "wp (if apiIsNotFound e
       then env_create E configMapGVR KiteNamespace newRuntimeConfigMap \<bind>
         (\<lambda>c. case c of Inl ce \<Rightarrow> fail (Wrapped ''failed to create runtime config: '' ce []) | Inr x \<Rightarrow> ok (x, []))
       else fail (Wrapped ''failed to read runtime config: '' e [])) ?Q s1"
    by (cases "apiIsNotFound e") (simp_all only: wp_bind_ext if_True if_False wp_fail sum.case configKey_def)
qed

lemma wp_clearLegacy:
  assumes "shownAt configKey cm (view s)" "k_name cm = RuntimeConfigName"
  shows "wp (clearLegacyRuntimeConfigSecrets E cm) (\<lambda>r s'. case r of Inl e \<Rightarrow> True | Inr cm' \<Rightarrow>
      view s' secretKey = view s secretKey \<and> shownAt configKey cm' (view s') \<and>
      map_of (stringMapOr cm' ''data'') JWTSecretKey = None \<and> map_of (stringMapOr cm' ''data'') PasswordSaltKey = None) s"
    (is "wp _ ?Q s")
proof (cases "map_of (stringMapOr cm ''data'') JWTSecretKey \<noteq> None \<or> map_of (stringMapOr cm ''data'') PasswordSaltKey \<noteq> None")
  case True
  let ?cleared = "AList.delete PasswordSaltKey (AList.delete JWTSecretKey (stringMapOr cm ''data''))"
  let ?obj = "setStringMap cm ''data'' ?cleared"
  have gone: "map_of ?cleared JWTSecretKey = None" "map_of ?cleared PasswordSaltKey = None" by (simp_all add: delete_conv')
  have "wp (env_update E configMapGVR KiteNamespace ?obj)
      (\<lambda>u. wp (case u of Inl e \<Rightarrow> fail (Wrapped ''failed to remove legacy runtime config secrets: '' e []) | Inr updated \<Rightarrow> ok updated) ?Q) s"
    by (rule wp_mono[OF wp_updateConfigMap])
       (use assms(2) gone in \<open>simp_all add: wp_simps stringMapOr_field split: sum.splits\<close>)
  then show ?thesis
    unfolding clearLegacyRuntimeConfigSecrets_def Let_def by (simp only: True not_True_eq_False if_False wp_bind_ext)
next
  case False
  with assms(1) show ?thesis by (simp add: clearLegacyRuntimeConfigSecrets_def Let_def wp_ok)
qed

end

text \<open>The bootstrap as a whole: which values it returns and what a reader of the cluster finds afterwards.\<close>

definition bootstrapped :: "kview \<Rightarrow> kview \<Rightarrow> Config \<Rightarrow> bool" where
  "bootstrapped v v' cfg \<longleftrightarrow>
     pickedFor JWTSecretKey (secretDataIn v) (configDataIn v) (cfg_JWTSecret cfg) \<and>
     pickedFor PasswordSaltKey (secretDataIn v) (configDataIn v) (cfg_PasswordSalt cfg) \<and>
     (\<forall>cm x. v' configKey = Some cm \<and> v' secretKey = Some x \<longrightarrow> configFromResources cm x = Inr cfg) \<and>
     (\<forall>cm. v' configKey = Some cm \<longrightarrow>
        map_of (stringMapOr cm ''data'') JWTSecretKey = None \<and> map_of (stringMapOr cm ''data'') PasswordSaltKey = None)"

lemma configFromResources_secrets:
  "configFromResources cm x = Inr cfg \<Longrightarrow>
     cfg_JWTSecret cfg = dataAt (runtimeSecretStringData x) JWTSecretKey \<and>
     cfg_PasswordSalt cfg = dataAt (runtimeSecretStringData x) PasswordSaltKey"
  by (auto simp: configFromResources_def Let_def split: if_splits sum.splits)

context secret_api
begin

lemma frames_ensureKiteNamespace: "frames view {(namespaceGVR, [], KiteNamespace)} (ensureKiteNamespace E)"
  unfolding ensureKiteNamespace_def by (intro frames_intros frames_create) simp

lemma wp_Bootstrap: "wp (Bootstrap E) (\<lambda>r s'. case r of Inl e \<Rightarrow> True | Inr cfg \<Rightarrow> bootstrapped (view s) (view s') cfg) s"
proof -
  define Q where "Q = (\<lambda>(r :: Config result) s'. case r of Inl e \<Rightarrow> True | Inr cfg \<Rightarrow> bootstrapped (view s) (view s') cfg)"
  have QI: "Q (Inl e) s'" for e s' by (simp add: Q_def)
  have data: "secretDataIn v' = secretDataIn v" "configDataIn v' = configDataIn v"
    if "v' secretKey = v secretKey" "v' configKey = v configKey" for v v'
    using that by (simp_all add: secretDataIn_def configDataIn_def)
  have picked: "pickedFor key (secretDataIn v) legacy x = pickedFor key (secretDataIn v) (configDataIn w) x"
    if "\<forall>key \<in> {JWTSecretKey, PasswordSaltKey}. dataAt legacy key = dataAt (configDataIn w) key" "key \<in> {JWTSecretKey, PasswordSaltKey}"
    for key v w legacy x using that by (auto simp: pickedFor_def)
  have final: "wp (State_Monad.return (configFromResources cm' x)) Q s4"
    if "secretEnsured legacy (view s2) (view s3) x" "view s4 secretKey = view s3 secretKey" "shownAt configKey cm' (view s4)"
      "map_of (stringMapOr cm' ''data'') JWTSecretKey = None \<and> map_of (stringMapOr cm' ''data'') PasswordSaltKey = None"
      "\<forall>key \<in> {JWTSecretKey, PasswordSaltKey}. dataAt legacy key = dataAt (configDataIn (view s)) key"
      "view s2 secretKey = view s secretKey" for cm' x legacy s2 s3 s4
  proof -
    have same: "secretDataIn (view s2) = secretDataIn (view s)" using that(6) by (simp add: secretDataIn_def)
    show ?thesis
      using that configFromResources_secrets[of cm' x] picked[OF that(5)]
      by (auto simp: wp_return Q_def bootstrapped_def secretEnsured_def shownAt_def same split: sum.splits)
  qed
  have clear: "wp (tryE (clearLegacyRuntimeConfigSecrets E cm) (\<lambda>cm'. State_Monad.return (configFromResources cm' x))) Q s3"
    if "secretEnsured legacy (view s2) (view s3) x" "shownAt configKey cm (view s2)" "k_name cm = RuntimeConfigName"
      "\<forall>key \<in> {JWTSecretKey, PasswordSaltKey}. dataAt legacy key = dataAt (configDataIn (view s)) key"
      "view s2 secretKey = view s secretKey" for cm x legacy s2 s3
  proof -
    have "shownAt configKey cm (view s3)" using that(1,2) unfolding secretEnsured_def shownAt_def by (metis config_keys(1))
    from wp_clearLegacy[OF this that(3)] show ?thesis
      unfolding wp_tryE by (rule wp_mono) (use final[OF that(1) _ _ _ that(4,5)] in \<open>simp add: QI split: sum.splits\<close>)
  qed
  have secret: "wp (tryE (ensureRuntimeSecret E legacy) (\<lambda>x.
      tryE (clearLegacyRuntimeConfigSecrets E cm) (\<lambda>cm'. State_Monad.return (configFromResources cm' x)))) Q s2"
    if "shownAt configKey cm (view s2)" "k_name cm = RuntimeConfigName"
      "\<forall>key \<in> {JWTSecretKey, PasswordSaltKey}. dataAt legacy key = dataAt (configDataIn (view s)) key"
      "view s2 secretKey = view s secretKey" for cm legacy s2
    unfolding wp_tryE[of "ensureRuntimeSecret E legacy"]
    by (rule wp_mono[OF wp_ensureRuntimeSecret]) (use clear[OF _ that] in \<open>simp add: QI split: sum.splits\<close>)
  have config: "wp (tryE (ensureRuntimeConfigMap E) (\<lambda>(cm, legacy). tryE (ensureRuntimeSecret E legacy) (\<lambda>x.
      tryE (clearLegacyRuntimeConfigSecrets E cm) (\<lambda>cm'. State_Monad.return (configFromResources cm' x))))) Q s1"
    if s1: "view s1 configKey = view s configKey" "view s1 secretKey = view s secretKey" for s1
    unfolding wp_tryE[of "ensureRuntimeConfigMap E"]
  proof (rule wp_mono[OF wp_ensureRuntimeConfigMap])
    fix r :: "(kobj \<times> (string \<times> string) list) result" and s2
    assume r: "case r of Inl e \<Rightarrow> True | Inr (cm, legacy) \<Rightarrow> view s2 secretKey = view s1 secretKey \<and> shownAt configKey cm (view s2) \<and>
        k_name cm = RuntimeConfigName \<and> (\<forall>key \<in> {JWTSecretKey, PasswordSaltKey}. dataAt legacy key = dataAt (configDataIn (view s1)) key)"
    have cd: "configDataIn (view s1) = configDataIn (view s)" using s1(1) by (simp add: configDataIn_def)
    from r s1(2) secret show "case r of Inl e \<Rightarrow> Q (Inl e) s2 | Inr cl \<Rightarrow> wp (case cl of (cm, legacy) \<Rightarrow> tryE (ensureRuntimeSecret E legacy) (\<lambda>x.
          tryE (clearLegacyRuntimeConfigSecrets E cm) (\<lambda>cm'. State_Monad.return (configFromResources cm' x)))) Q s2"
      unfolding cd by (simp add: QI split: sum.splits prod.splits)
  qed
  have "wp (ensureKiteNamespace E) (\<lambda>r s1. view s1 configKey = view s configKey \<and> view s1 secretKey = view s secretKey) s"
    by (rule wpI) (use framesD[OF frames_ensureKiteNamespace] in \<open>auto simp: configKey_def secretKey_def\<close>)
  then have "wp (Bootstrap E) Q s"
    unfolding Bootstrap_def wp_tryE[of "ensureKiteNamespace E"]
    by (rule wp_mono) (use config in \<open>simp add: QI split: sum.splits\<close>)
  then show ?thesis by (simp add: Q_def)
qed

end

section \<open>Properties\<close>

lemma Load_reads:
  assumes "kube_api E view" "run_state (Load E) s = (Inr cfg, s')"
  shows "\<exists>cm x. view s configKey = Some cm \<and> view s secretKey = Some x \<and> configFromResources cm x = Inr cfg"
proof -
  let ?Q = "\<lambda>r (s' :: 'a). \<forall>cfg. r = Inr cfg \<longrightarrow> (\<exists>cm x. view s configKey = Some cm \<and> view s secretKey = Some x \<and> configFromResources cm x = Inr cfg)"
  have "wp (env_get E secretGVR KiteNamespace RuntimeSecretName) (\<lambda>q. wp (case q of
          Inl e \<Rightarrow> fail (Wrapped ''failed to read runtime secret: '' e [])
        | Inr x \<Rightarrow> State_Monad.return (configFromResources cm x)) ?Q) s1"
    if "view s1 = view s" "view s configKey = Some cm" for s1 cm
    by (rule kube_api.wp_get[OF assms(1)]) (use that in \<open>auto simp: wp_simps secretKey_def\<close>)
  then have "wp (Load E) ?Q s"
    unfolding Load_def wp_bind
    by (intro kube_api.wp_get[OF assms(1)]) (simp_all add: wp_simps configKey_def wp_bind_ext)
  from wpD[OF this assms(2)] show ?thesis by blast
qed


lemma mem_secret_body:
  "run_state (env_create mem_env secretGVR ns obj) s = (r, s') \<Longrightarrow> r = Inr stored \<Longrightarrow> k_body stored = k_body obj"
  "run_state (env_update mem_env secretGVR ns obj) s = (r, s') \<Longrightarrow> r = Inr stored \<Longrightarrow> k_body stored = k_body obj"
  unfolding mem_env_sel mem_create_def mem_update_def
  by (erule mem_call_cases[where P = "\<lambda>r s'. r = Inr stored \<longrightarrow> k_body stored = k_body obj", rule_format];
      auto simp: mem_status_def statusGVR_def notFound_def Let_def split: option.splits if_splits)+

lemma mem_secret_api: "secret_api mem_env mem_view"
proof (intro secret_api.intro mem_kube_api secret_api_axioms.intro)
  show "stringsStored obj stored" if "run_state (env_create mem_env secretGVR ns obj) s = (Inr stored, s')" for ns obj s stored s'
    using mem_secret_body(1)[OF that refl] by (simp add: stringsStored_def objField_def)
  show "stringsStored obj stored" if "run_state (env_update mem_env secretGVR ns obj) s = (Inr stored, s')" for ns obj s stored s'
    using mem_secret_body(2)[OF that refl] by (simp add: stringsStored_def objField_def)
qed

interpretation mem_secrets: secret_api mem_env mem_view
  by (rule mem_secret_api)

definition legacyWorld :: mem where
  "legacyWorld = mem_init
     [(configKey, newObject ''ConfigMap'' KiteNamespace RuntimeConfigName []
        [(''data'', GMap [(JWTSecretKey, GStr ''old-key''), (PasswordSaltKey, GStr ''old-salt''), (AccessTokenTTLMinutesKey, GStr ''30'')])])] []"


text \<open>The lifetime the ConfigMap asks for, in minutes: \<open>None\<close> when it is not a number of 64 bits.\<close>

definition configuredMinutes :: "kobj \<Rightarrow> int option" where
  "configuredMinutes cm =
     (let value = dataAt (stringMapOr cm ''data'') AccessTokenTTLMinutesKey in
      if value = [] then Some 60 else case Atoi value of Inl _ \<Rightarrow> None | Inr minutes \<Rightarrow> Some minutes)"

text \<open>C35: the token lifetime of an accepted configuration is the configured number of minutes, 60 when none is
  given, which is at least one.  In nanoseconds it is exact and positive up to 153722867 minutes; every larger
  number of minutes gives another lifetime, because the 64-bit product wraps, and the next one a negative lifetime.\<close>

theorem token_ttl_bounds:
  assumes "configFromResources cm x = Inr cfg"
  shows "\<exists>m \<ge> 1. configuredMinutes cm = Some m \<and>
    (m \<le> 153722867 \<longrightarrow> cfg_AccessTokenTTL cfg = m * 60000000000 \<and> 0 < cfg_AccessTokenTTL cfg) \<and>
    (153722867 < m \<longrightarrow> cfg_AccessTokenTTL cfg \<noteq> m * 60000000000) \<and>
    (m = 153722868 \<longrightarrow> cfg_AccessTokenTTL cfg < 0)"
proof -
  have "\<exists>m \<ge> 1. configuredMinutes cm = Some m \<and> cfg_AccessTokenTTL cfg = minutesDuration m"
    using assms
    by (auto simp: configFromResources_def configuredMinutes_def Let_def DefaultAccessTokenTTLMinutes_def not_less
        split: if_splits sum.splits)
  then obtain m where m: "1 \<le> m" "configuredMinutes cm = Some m" "cfg_AccessTokenTTL cfg = wrapInt64 (m * 60000000000)"
    by (auto simp: minutesDuration_def)
  have "wrapInt64 (m * 60000000000) < 2 ^ 63"
    unfolding wrapInt64_def using pos_mod_bound[of "2 ^ 64" "m * 60000000000 + 2 ^ 63"] by simp
  then have "153722867 < m \<Longrightarrow> wrapInt64 (m * 60000000000) \<noteq> m * 60000000000" by simp
  moreover have "m \<le> 153722867 \<Longrightarrow> wrapInt64 (m * 60000000000) = m * 60000000000"
    using m(1) by (simp add: wrapInt64_def)
  moreover have "wrapInt64 (153722868 * 60000000000) < 0" by (simp add: wrapInt64_def)
  ultimately show ?thesis using m by auto
qed

theorem token_ttl_bounds_witness:
  "\<exists>cfg. configFromResources
      (newObject ''ConfigMap'' [] [] [] [(''data'', GMap [(AccessTokenTTLMinutesKey, GStr ''30'')])])
      (newObject ''Secret'' [] [] [] [(''stringData'', GMap [(JWTSecretKey, GStr ''k''), (PasswordSaltKey, GStr ''s'')])]) = Inr cfg \<and>
    0 < cfg_AccessTokenTTL cfg \<and> cfg_AccessTokenTTL cfg = 1800000000000"
proof -
  let ?cm = "newObject ''ConfigMap'' [] [] [] [(''data'', GMap [(AccessTokenTTLMinutesKey, GStr ''30'')])]"
  let ?r = "configFromResources ?cm
      (newObject ''Secret'' [] [] [] [(''stringData'', GMap [(JWTSecretKey, GStr ''k''), (PasswordSaltKey, GStr ''s'')])])"
  have "\<not> isl ?r" by code_simp
  then obtain cfg where cfg: "?r = Inr cfg" by (cases ?r) auto
  have "configuredMinutes ?cm = Some 30" by code_simp
  with token_ttl_bounds[OF cfg] cfg show ?thesis by auto
qed

end
