(* ===== verification/Go_JSON.thy ===== *)
theory Go_JSON
  imports Go_Encoding
begin

text \<open>
  The parts of \<open>encoding/json\<close> that the token service uses: the encoding of strings with HTML
  escaping, and the decoder (UTF-8 aware strings, the number grammar, nested values that are
  skipped, the nesting limit).  Strings are byte lists.  The parser is structurally recursive in a
  step count; every call consumes a byte, so the length of the input is enough.
\<close>

section \<open>UTF-8\<close>

text \<open>The size of the multi-byte encoding a byte list starts with, 0 when there is none
  (\<open>utf8.DecodeRune\<close> returning \<open>RuneError, 1\<close>).\<close>

definition contByte :: "nat \<Rightarrow> bool" where
  "contByte b \<longleftrightarrow> 128 \<le> b \<and> b \<le> 191"

fun runeSize :: "nat list \<Rightarrow> nat" where
  "runeSize (a # b # rest) =
     (if 194 \<le> a \<and> a \<le> 223 then (if contByte b then 2 else 0)
      else if 224 \<le> a \<and> a \<le> 239 then
        (if (if a = 224 then 160 else 128) \<le> b \<and> b \<le> (if a = 237 then 159 else 191) then
           (case rest of c # _ \<Rightarrow> if contByte c then 3 else 0 | [] \<Rightarrow> 0) else 0)
      else if 240 \<le> a \<and> a \<le> 244 then
        (if (if a = 240 then 144 else 128) \<le> b \<and> b \<le> (if a = 244 then 143 else 191) then
           (case rest of c # d # _ \<Rightarrow> if contByte c \<and> contByte d then 4 else 0 | _ \<Rightarrow> 0) else 0)
      else 0)"
| "runeSize _ = 0"

lemma runeSize_bounds: "runeSize bs = Suc n \<Longrightarrow> 1 \<le> n \<and> n \<le> 3 \<and> n < length bs"
  by (cases bs rule: runeSize.cases) (auto split: if_splits list.splits)

lemma runeSize_append: "runeSize bs = Suc n \<Longrightarrow> runeSize (bs @ rest) = Suc n"
  by (cases bs rule: runeSize.cases) (auto split: if_splits list.splits)

lemma runeSize_take: "runeSize bs = Suc n \<Longrightarrow> runeSize (take (Suc n) bs) = Suc n"
  by (cases bs rule: runeSize.cases) (auto split: if_splits list.splits)

fun validUTF8 :: "string \<Rightarrow> bool" where
  "validUTF8 [] = True"
| "validUTF8 (c # cs) =
     (if byteOf c < 128 then validUTF8 cs
      else case runeSize (map byteOf (c # cs)) of 0 \<Rightarrow> False | Suc n \<Rightarrow> validUTF8 (drop n cs))"

definition encodeRune :: "nat \<Rightarrow> string" where
  "encodeRune r =
     map byteChar
       (if r < 128 then [r]
        else if r < 2048 then [192 + r div 64, 128 + r mod 64]
        else if r < 65536 then [224 + r div 4096, 128 + r div 64 mod 64, 128 + r mod 64]
        else [240 + r div 262144, 128 + r div 4096 mod 64, 128 + r div 64 mod 64, 128 + r mod 64])"

definition replacementRune :: string where
  "replacementRune = encodeRune 0xFFFD"

text \<open>
  Case folding against an ASCII text without the letter k: ASCII letters, and U+017F for s
  (\<open>strings.EqualFold\<close>, and the key matching of the JSON decoder).
\<close>

fun foldName :: "string \<Rightarrow> string" where
  "foldName [] = []"
| "foldName (c # cs) =
     (case cs of
        d # ds \<Rightarrow> if c = CHR 0xC5 \<and> d = CHR 0xBF then CHR ''s'' # foldName ds
                 else (if isUpperByte c then byteChar (byteOf c + 32) else c) # foldName cs
      | [] \<Rightarrow> [if isUpperByte c then byteChar (byteOf c + 32) else c])"

definition EqualFold :: "string \<Rightarrow> string \<Rightarrow> bool" where
  "EqualFold s t \<longleftrightarrow> foldName s = foldName t"

section \<open>Encoding\<close>

definition lineSeparators :: "string list" where
  "lineSeparators = [encodeRune 0x2028, encodeRune 0x2029]"

definition escapeByte :: "char \<Rightarrow> string" where
  "escapeByte c =
     (if c = CHR 0x22 \<or> c = CHR 0x5C then [CHR 0x5C, c]
      else if c = CHR 0x08 then [CHR 0x5C, CHR ''b'']
      else if c = CHR 0x0C then [CHR 0x5C, CHR ''f'']
      else if c = CHR 0x0A then [CHR 0x5C, CHR ''n'']
      else if c = CHR 0x0D then [CHR 0x5C, CHR ''r'']
      else if c = CHR 0x09 then [CHR 0x5C, CHR ''t'']
      else if byteOf c < 32 \<or> c \<in> {CHR ''<'', CHR ''>'', CHR ''&''}
      then [CHR 0x5C, CHR ''u'', CHR ''0'', CHR ''0'', hexDigit (byteOf c div 16), hexDigit (byteOf c mod 16)]
      else [c])"

fun escapeString :: "string \<Rightarrow> string" where
  "escapeString [] = []"
| "escapeString (c # cs) =
     (if byteOf c < 128 then escapeByte c @ escapeString cs
      else case runeSize (map byteOf (c # cs)) of
        0 \<Rightarrow> CHR 0x5C # ''ufffd'' @ escapeString cs
      | Suc n \<Rightarrow>
          (if c # take n cs = encodeRune 0x2028 then CHR 0x5C # ''u2028''
           else if c # take n cs = encodeRune 0x2029 then CHR 0x5C # ''u2029''
           else c # take n cs) @ escapeString (drop n cs))"

definition marshalString :: "string \<Rightarrow> string" where
  "marshalString s = CHR 0x22 # escapeString s @ [CHR 0x22]"

section \<open>Decoding strings and numbers\<close>

definition hexValue :: "char \<Rightarrow> nat option" where
  "hexValue c =
     (if isDigitByte c then Some (byteOf c - 48)
      else if 97 \<le> byteOf c \<and> byteOf c \<le> 102 then Some (byteOf c - 87)
      else if 65 \<le> byteOf c \<and> byteOf c \<le> 70 then Some (byteOf c - 55)
      else None)"

fun getu4 :: "string \<Rightarrow> nat option" where
  "getu4 (a # b # c # d # _) =
     (case (hexValue a, hexValue b, hexValue c, hexValue d) of
        (Some w, Some x, Some y, Some z) \<Rightarrow> Some (((w * 16 + x) * 16 + y) * 16 + z)
      | _ \<Rightarrow> None)"
| "getu4 _ = None"

definition simpleEscape :: "char \<Rightarrow> char option" where
  "simpleEscape e =
     (if e = CHR 0x22 \<or> e = CHR 0x5C \<or> e = CHR ''/'' then Some e
      else if e = CHR ''b'' then Some CHR 0x08
      else if e = CHR ''f'' then Some CHR 0x0C
      else if e = CHR ''n'' then Some CHR 0x0A
      else if e = CHR ''r'' then Some CHR 0x0D
      else if e = CHR ''t'' then Some CHR 0x09
      else None)"

definition prepend :: "string \<Rightarrow> (string \<times> string) option \<Rightarrow> (string \<times> string) option" where
  "prepend p r = map_option (\<lambda>(s, rest). (p @ s, rest)) r"

text \<open>The low half of a surrogate pair that follows a high half, \<open>utf16.DecodeRune\<close>.\<close>

definition lowSurrogate :: "nat \<Rightarrow> string \<Rightarrow> nat option" where
  "lowSurrogate high s =
     (case s of
        b # u # more \<Rightarrow>
          if b = CHR 0x5C \<and> u = CHR ''u'' then
            (case getu4 more of
               Some low \<Rightarrow>
                 if 0xD800 \<le> high \<and> high < 0xDC00 \<and> 0xDC00 \<le> low \<and> low < 0xE000
                 then Some ((high - 0xD800) * 1024 + (low - 0xDC00) + 0x10000) else None
             | None \<Rightarrow> None)
          else None
      | _ \<Rightarrow> None)"

text \<open>What follows an opening quote: the decoded string and the input after the closing quote.\<close>

function unquote :: "string \<Rightarrow> (string \<times> string) option" where
  "unquote [] = None"
| "unquote (c # cs) =
     (if c = CHR 0x22 then Some ([], cs)
      else if byteOf c < 32 then None
      else if c = CHR 0x5C then
        (case cs of
           [] \<Rightarrow> None
         | e # es \<Rightarrow>
             if e = CHR ''u'' then
               (case getu4 es of
                  None \<Rightarrow> None
                | Some r \<Rightarrow>
                    if 0xD800 \<le> r \<and> r < 0xE000 then
                      (case lowSurrogate r (drop 4 es) of
                         Some full \<Rightarrow> prepend (encodeRune full) (unquote (drop 10 es))
                       | None \<Rightarrow> prepend replacementRune (unquote (drop 4 es)))
                    else prepend (encodeRune r) (unquote (drop 4 es)))
             else (case simpleEscape e of None \<Rightarrow> None | Some b \<Rightarrow> prepend [b] (unquote es)))
      else if byteOf c < 128 then prepend [c] (unquote cs)
      else case runeSize (map byteOf (c # cs)) of
        0 \<Rightarrow> prepend replacementRune (unquote cs)
      | Suc n \<Rightarrow> prepend (c # take n cs) (unquote (drop n cs)))"
  by pat_completeness auto
termination
  by (relation "measure length") auto

declare unquote.simps(2) [simp del]

lemma hexValue_hexDigit [simp]: "n < 16 \<Longrightarrow> hexValue (hexDigit n) = Some n"
  by (auto simp: hexValue_def hexDigit_def isDigitByte_def)

lemma unquote_simple:
  "simpleEscape e = Some b \<Longrightarrow> e \<noteq> CHR ''u'' \<Longrightarrow> unquote (CHR 0x5C # e # rest) = prepend [b] (unquote rest)"
  by (simp add: unquote.simps(2)[of "CHR 0x5C"] byteOf_def)

lemma unquote_hex:
  assumes "getu4 (a # b # c # d # rest) = Some r" "\<not> (0xD800 \<le> r \<and> r < 0xE000)"
  shows "unquote (CHR 0x5C # CHR ''u'' # a # b # c # d # rest) = prepend (encodeRune r) (unquote rest)"
proof -
  have d: "drop 4 (a # b # c # d # rest) = rest" by simp
  have r: "(0xD800 \<le> r \<and> r < 0xE000) = False" using assms(2) by blast
  have c: "(CHR 0x5C = CHR 0x22) = False" "(byteOf CHR 0x5C < 32) = False" by (simp_all add: byteOf_def)
  show ?thesis
    unfolding unquote.simps(2)[of "CHR 0x5C"] list.case assms(1) option.case r c d by simp
qed

lemma unquote_plain:
  assumes "c \<noteq> CHR 0x22" "c \<noteq> CHR 0x5C" "\<not> byteOf c < 32" "byteOf c < 128"
  shows "unquote (c # rest) = prepend [c] (unquote rest)"
  using assms by (simp add: unquote.simps(2))

lemma hexValue_zero: "hexValue CHR ''0'' = Some 0"
  by (simp add: hexValue_def isDigitByte_def byteOf_def)

lemma escapeByte_cases:
  "(\<exists>e. escapeByte c = [CHR 0x5C, e] \<and> simpleEscape e = Some c \<and> e \<noteq> CHR ''u'') \<or>
   escapeByte c = [CHR 0x5C, CHR ''u'', CHR ''0'', CHR ''0'', hexDigit (byteOf c div 16), hexDigit (byteOf c mod 16)] \<or>
   escapeByte c = [c] \<and> c \<noteq> CHR 0x22 \<and> c \<noteq> CHR 0x5C \<and> \<not> byteOf c < 32"
  by (simp add: escapeByte_def simpleEscape_def)

lemma unquote_escapeByte:
  assumes "byteOf c < 128"
  shows "unquote (escapeByte c @ rest) = prepend [c] (unquote rest)"
proof -
  let ?n = "byteOf c"
  consider e where "escapeByte c = [CHR 0x5C, e]" "simpleEscape e = Some c" "e \<noteq> CHR ''u''"
    | "escapeByte c = [CHR 0x5C, CHR ''u'', CHR ''0'', CHR ''0'', hexDigit (?n div 16), hexDigit (?n mod 16)]"
    | "escapeByte c = [c]" "c \<noteq> CHR 0x22" "c \<noteq> CHR 0x5C" "\<not> ?n < 32"
    using escapeByte_cases[of c] by blast
  then show ?thesis
  proof cases
    case 1
    then show ?thesis by (simp add: unquote_simple)
  next
    case 2
    have "getu4 (CHR ''0'' # CHR ''0'' # hexDigit (?n div 16) # hexDigit (?n mod 16) # rest) = Some ?n"
      using assms by (simp add: hexValue_zero)
    from unquote_hex[OF this] 2 assms show ?thesis by (simp add: encodeRune_def)
  next
    case 3
    with assms show ?thesis by (simp add: unquote_plain)
  qed
qed

lemma unquote_separator:
  "unquote ((CHR 0x5C # ''u2028'') @ rest) = prepend (encodeRune 0x2028) (unquote rest)"
  "unquote ((CHR 0x5C # ''u2029'') @ rest) = prepend (encodeRune 0x2029) (unquote rest)"
proof -
  have "getu4 (''2028'' @ rest) = Some 0x2028" "getu4 (''2029'' @ rest) = Some 0x2029"
    by (simp_all add: hexValue_def isDigitByte_def byteOf_def)
  then show "unquote ((CHR 0x5C # ''u2028'') @ rest) = prepend (encodeRune 0x2028) (unquote rest)"
    and "unquote ((CHR 0x5C # ''u2029'') @ rest) = prepend (encodeRune 0x2029) (unquote rest)"
    by (simp_all add: unquote_hex)
qed

text \<open>A string that is valid UTF-8 comes back from its encoding.\<close>

lemma unquote_escapeString:
  assumes "validUTF8 s"
  shows "unquote (escapeString s @ CHR 0x22 # rest) = Some (s, rest)"
  using assms
proof (induction s rule: escapeString.induct)
  case 1
  then show ?case by (simp add: unquote.simps)
next
  case (2 c cs)
  show ?case
  proof (cases "byteOf c < 128")
    case True
    with 2 show ?thesis by (simp add: unquote_escapeByte prepend_def)
  next
    case False
    with "2.prems" obtain n where n: "runeSize (map byteOf (c # cs)) = Suc n" "validUTF8 (drop n cs)"
      by (auto split: nat.splits)
    note IH = "2.IH"(3)[OF False n]
    let ?r = "c # take n cs" let ?more = "escapeString (drop n cs) @ CHR 0x22 # rest"
    have len: "n < length (c # cs)" using runeSize_bounds[OF n(1)] by simp
    have plain: "unquote (?r @ ?more) = prepend ?r (unquote ?more)"
    proof -
      have size: "runeSize (map byteOf (?r @ ?more)) = Suc n"
        using runeSize_append[OF runeSize_take[OF n(1)], of "map byteOf ?more"] by (simp add: take_map)
      have "c \<noteq> CHR 0x22" "c \<noteq> CHR 0x5C" "\<not> byteOf c < 32" using False by (auto simp: byteOf_def)
      with False size len show ?thesis by (simp add: unquote.simps)
    qed
    have "unquote ((if ?r = encodeRune 0x2028 then CHR 0x5C # ''u2028'' else if ?r = encodeRune 0x2029 then CHR 0x5C # ''u2029'' else ?r) @ ?more) =
        prepend ?r (unquote ?more)"
      using plain unquote_separator[of ?more] by (auto simp del: append_Cons)
    with IH False n len show ?thesis by (simp add: prepend_def)
  qed
qed

section \<open>Values\<close>

datatype json =
    JNull
  | JBool bool
  | JNum string
  | JStr string
  | JArr "json list"
  | JObj "(string \<times> json) list"

definition skipSpace :: "string \<Rightarrow> string" where
  "skipSpace s = dropWhile (\<lambda>c. c \<in> {CHR 0x20, CHR 0x09, CHR 0x0D, CHR 0x0A}) s"

definition takeDigits :: "string \<Rightarrow> string \<times> string" where
  "takeDigits s = (takeWhile isDigitByte s, dropWhile isDigitByte s)"

text \<open>The number grammar: sign, integer part without leading zeros, fraction, exponent.\<close>

definition lexInteger :: "string \<Rightarrow> (string \<times> string) option" where
  "lexInteger s =
     (case s of
        [] \<Rightarrow> None
      | c # cs \<Rightarrow>
          if c = CHR ''0'' then Some ([c], cs)
          else if isDigitByte c then Some (takeDigits s) else None)"

definition lexFraction :: "string \<Rightarrow> (string \<times> string) option" where
  "lexFraction s =
     (case s of
        c # cs \<Rightarrow>
          if c = CHR ''.'' then
            (case takeDigits cs of (ds, rest) \<Rightarrow> if ds = [] then None else Some (c # ds, rest))
          else Some ([], s)
      | [] \<Rightarrow> Some ([], s))"

definition lexExponent :: "string \<Rightarrow> (string \<times> string) option" where
  "lexExponent s =
     (case s of
        e # cs \<Rightarrow>
          if e = CHR ''e'' \<or> e = CHR ''E'' then
            (let (sgn, ds0) = (case cs of x # xs \<Rightarrow> if x = CHR ''+'' \<or> x = CHR ''-'' then ([x], xs) else ([], cs) | [] \<Rightarrow> ([], cs))
             in case takeDigits ds0 of (ds, rest) \<Rightarrow> if ds = [] then None else Some (e # sgn @ ds, rest))
          else Some ([], s)
      | [] \<Rightarrow> Some ([], s))"

definition lexNumber :: "string \<Rightarrow> (string \<times> string) option" where
  "lexNumber s =
     (let (sgn, s0) = (case s of x # xs \<Rightarrow> if x = CHR ''-'' then ([x], xs) else ([], s) | [] \<Rightarrow> ([], s)) in
      case lexInteger s0 of None \<Rightarrow> None | Some (i, s1) \<Rightarrow>
      case lexFraction s1 of None \<Rightarrow> None | Some (f, s2) \<Rightarrow>
      case lexExponent s2 of None \<Rightarrow> None | Some (e, s3) \<Rightarrow> Some (sgn @ i @ f @ e, s3))"

definition maxNestingDepth :: nat where
  "maxNestingDepth = 10000"

text \<open>
  The parser.  The first argument bounds the number of steps, the second is the nesting depth.
  \<open>parseMembers\<close> and \<open>parseElements\<close> start before a member or an element.
\<close>

fun parseValue :: "nat \<Rightarrow> nat \<Rightarrow> string \<Rightarrow> (json \<times> string) option"
  and parseMembers :: "nat \<Rightarrow> nat \<Rightarrow> string \<Rightarrow> ((string \<times> json) list \<times> string) option"
  and parseElements :: "nat \<Rightarrow> nat \<Rightarrow> string \<Rightarrow> (json list \<times> string) option" where
  "parseValue 0 depth s = None"
| "parseValue (Suc n) depth s =
     (case skipSpace s of
        [] \<Rightarrow> None
      | c # cs \<Rightarrow>
          if c = CHR 0x22 then map_option (\<lambda>(str, rest). (JStr str, rest)) (unquote cs)
          else if c = CHR ''{'' then
            (if maxNestingDepth \<le> depth then None
             else case skipSpace cs of
               [] \<Rightarrow> None
             | d # ds \<Rightarrow> if d = CHR ''}'' then Some (JObj [], ds)
                 else map_option (\<lambda>(ms, rest). (JObj ms, rest)) (parseMembers n (Suc depth) (d # ds)))
          else if c = CHR ''['' then
            (if maxNestingDepth \<le> depth then None
             else case skipSpace cs of
               [] \<Rightarrow> None
             | d # ds \<Rightarrow> if d = CHR '']'' then Some (JArr [], ds)
                 else map_option (\<lambda>(xs, rest). (JArr xs, rest)) (parseElements n (Suc depth) (d # ds)))
          else if HasPrefix (c # cs) ''true'' then Some (JBool True, drop 4 (c # cs))
          else if HasPrefix (c # cs) ''false'' then Some (JBool False, drop 5 (c # cs))
          else if HasPrefix (c # cs) ''null'' then Some (JNull, drop 4 (c # cs))
          else map_option (\<lambda>(lit, rest). (JNum lit, rest)) (lexNumber (c # cs)))"
| "parseMembers 0 depth s = None"
| "parseMembers (Suc n) depth s =
     (case skipSpace s of
        [] \<Rightarrow> None
      | q # qs \<Rightarrow>
          if q \<noteq> CHR 0x22 then None else
          case unquote qs of None \<Rightarrow> None | Some (key, s1) \<Rightarrow>
          case skipSpace s1 of [] \<Rightarrow> None | col # s2 \<Rightarrow>
          if col \<noteq> CHR '':'' then None else
          case parseValue n depth s2 of None \<Rightarrow> None | Some (v, s3) \<Rightarrow>
          case skipSpace s3 of [] \<Rightarrow> None | e # s4 \<Rightarrow>
          if e = CHR ''}'' then Some ([(key, v)], s4)
          else if e = CHR '','' then map_option (\<lambda>(ms, rest). ((key, v) # ms, rest)) (parseMembers n depth s4)
          else None)"
| "parseElements 0 depth s = None"
| "parseElements (Suc n) depth s =
     (case parseValue n depth s of None \<Rightarrow> None | Some (v, s1) \<Rightarrow>
      case skipSpace s1 of [] \<Rightarrow> None | e # s2 \<Rightarrow>
      if e = CHR '']'' then Some ([v], s2)
      else if e = CHR '','' then map_option (\<lambda>(xs, rest). (v # xs, rest)) (parseElements n depth s2)
      else None)"

definition parseJSON :: "string \<Rightarrow> json option" where
  "parseJSON s =
     (case parseValue (Suc (length s)) 0 s of
        Some (v, rest) \<Rightarrow> if skipSpace rest = [] then Some v else None
      | None \<Rightarrow> None)"

lemma skipSpace_Cons [simp]:
  "c \<notin> {CHR 0x20, CHR 0x09, CHR 0x0D, CHR 0x0A} \<Longrightarrow> skipSpace (c # cs) = c # cs"
  "skipSpace [] = []"
  by (simp_all add: skipSpace_def)

lemma takeDigits_append:
  assumes "list_all isDigitByte ds" "rest = [] \<or> \<not> isDigitByte (hd rest)"
  shows "takeDigits (ds @ rest) = (ds, rest)"
  using assms by (induction ds) (auto simp: takeDigits_def takeWhile_eq_Nil_iff dropWhile_eq_self_iff)

lemma byteChar_zero: "byteChar 48 = CHR ''0''"
proof -
  have "byteOf CHR ''0'' = 48" by (simp add: byteOf_def)
  with byteChar_byteOf[of "CHR ''0''"] show ?thesis by simp
qed

lemma natDigits_no_zero: "0 < n \<Longrightarrow> hd (natDigits n) \<noteq> CHR ''0''"
proof (induction n rule: natDigits.induct)
  case (1 n)
  show ?case
  proof (cases "n < 10")
    case True
    have "byteChar (48 + n) = byteChar 48 \<Longrightarrow> 48 + n = 48"
      using True byteOf_byteChar[of "48 + n"] byteOf_byteChar[of 48] by simp
    then show ?thesis using True "1.prems" by (subst natDigits.simps) (auto simp: byteChar_zero)
  next
    case False
    then have "0 < n div 10" by simp
    from "1.IH"[OF False this] natDigits_hd[of "n div 10"] False show ?thesis
      by (subst natDigits.simps) auto
  qed
qed

text \<open>An integer literal, followed by a byte that cannot continue it.\<close>

lemma lexNumber_Itoa:
  assumes "e = CHR '','' \<or> e = CHR ''}''"
  shows "lexNumber (Itoa i @ e # rest) = Some (Itoa i, e # rest)"
proof -
  have e: "\<not> isDigitByte e" "e \<noteq> CHR ''.''" "e \<noteq> CHR ''e''" "e \<noteq> CHR ''E''"
    using assms by (auto simp: isDigitByte_def byteOf_def)
  have int: "lexInteger (natDigits n @ e # rest) = Some (natDigits n, e # rest)" for n
  proof (cases "n = 0")
    case True
    then show ?thesis by (simp add: lexInteger_def natDigits.simps byteChar_zero)
  next
    case False
    obtain c cs where d: "natDigits n = c # cs" "isDigitByte c" using natDigits_hd by blast
    with natDigits_no_zero[of n] False have "c \<noteq> CHR ''0''" by simp
    moreover have "takeDigits (natDigits n @ e # rest) = (natDigits n, e # rest)"
      by (rule takeDigits_append[OF natDigits_all]) (simp add: e)
    ultimately show ?thesis using d by (simp add: lexInteger_def)
  qed
  have tail: "lexFraction (e # rest) = Some ([], e # rest)" "lexExponent (e # rest) = Some ([], e # rest)"
    using e by (simp_all add: lexFraction_def lexExponent_def)
  obtain c cs where d: "natDigits (nat i) = c # cs" "isDigitByte c" using natDigits_hd by blast
  then have "c \<noteq> CHR ''-''" by auto
  then show ?thesis
    using int[of "nat i"] int[of "nat (- i)"] tail d(1) by (auto simp: lexNumber_def Itoa_def)
qed

end
