(* ===== verification/Platform.thy ===== *)
theory Platform
  imports Runtime_Config Go_JSON Go_Time
begin

text \<open>
  Platform-wide settings: \<open>internal/platform\<close>.  The service reads and writes the runtime ConfigMap,
  the runtime Secret, the wildcard TLS Secret (with the migration of an older one) and the status
  ConfigMap of the SSH gateway.
\<close>

section \<open>The SSH gateway\<close>

definition SSHGatewayStatusConfigName :: string where "SSHGatewayStatusConfigName = ''kite-gateway-status''"
definition SSHGatewayPhaseDisabled :: string where "SSHGatewayPhaseDisabled = ''Disabled''"
definition SSHGatewayPhaseReconciling :: string where "SSHGatewayPhaseReconciling = ''Reconciling''"
definition SSHGatewayPhaseReady :: string where "SSHGatewayPhaseReady = ''Ready''"
definition SSHGatewayPhaseBlocked :: string where "SSHGatewayPhaseBlocked = ''Blocked''"
definition SSHGatewayPhaseFailed :: string where "SSHGatewayPhaseFailed = ''Failed''"
definition SSHGatewayReasonExternalDisabled :: string where "SSHGatewayReasonExternalDisabled = ''ExternalDisabled''"

record SSHGatewayDesired =
  gd_ExternalEnabled :: bool
  gd_ExternalPort :: string
  gd_PublicPort :: string

record SSHGatewayStatus =
  gs_Phase :: string
  gs_Reason :: string
  gs_Message :: string
  gs_ObservedExternalPort :: string
  gs_ObservedServiceName :: string
  gs_LastTransitionTime :: string

record SSHGatewayAdminSettings =
  ga_ExternalEnabled :: bool
  ga_ExternalPort :: string
  ga_PublicPort :: string
  ga_Status :: SSHGatewayStatus

record SSHGatewayPublicSettings =
  gp_ExternalEnabled :: bool
  gp_ExternalPort :: string
  gp_PublicPort :: string
  gp_Phase :: string
  gp_Reason :: string
  gp_Message :: string

definition gatewayNotEnabledYet :: string where
  "gatewayNotEnabledYet =
     runes [236, 153, 184, 235, 182, 128] @ '' VM SSH gateway'' @ runes [234, 176, 128] @ '' '' @ runes [236, 149,
     132, 236, 167, 129] @ '' '' @ runes [237, 153, 156, 236, 132, 177, 237, 153, 148, 235, 144, 152, 236, 167, 128]
     @ '' '' @ runes [236, 149, 138, 236, 149, 152, 236, 138, 181, 235, 139, 136, 235, 139, 164] @ ''.''"

definition gatewayReadyText :: string where
  "gatewayReadyText =
     ''VM SSH gateway'' @ runes [234, 176, 128] @ '' '' @ runes [236, 164, 128, 235, 185, 132, 235, 144, 152, 236,
     151, 136, 236, 138, 181, 235, 139, 136, 235, 139, 164] @ ''.''"

definition gatewayReconcilingText :: string where
  "gatewayReconcilingText =
     ''VM SSH gateway'' @ runes [235, 165, 188] @ '' '' @ runes [236, 164, 128, 235, 185, 132] @ '' '' @ runes [236,
     164, 145, 236, 158, 133, 235, 139, 136, 235, 139, 164] @ ''. '' @ runes [236, 158, 160, 236, 139, 156] @ '' '' @
     runes [237, 155, 132] @ '' '' @ runes [235, 139, 164, 236, 139, 156] @ '' '' @ runes [236, 139, 156, 235, 143,
     132, 237, 149, 152, 236, 132, 184, 236, 154, 148] @ ''.''"

definition gatewayBlockedText :: string where
  "gatewayBlockedText =
     ''VM SSH gateway '' @ runes [236, 132, 164, 236, 160, 149, 236, 157, 180] @ '' '' @ runes [236, 149, 132, 236,
     167, 129] @ '' '' @ runes [236, 153, 132, 235, 163, 140, 235, 144, 152, 236, 167, 128] @ '' '' @ runes [236,
     149, 138, 236, 149, 152, 236, 138, 181, 235, 139, 136, 235, 139, 164] @ ''. '' @ runes [236, 154, 180, 236, 152,
     129, 236, 158, 144, 236, 151, 144, 234, 178, 140] @ '' '' @ runes [235, 172, 184, 236, 157, 152, 237, 149, 152,
     236, 132, 184, 236, 154, 148] @ ''.''"

definition gatewayFailedText :: string where
  "gatewayFailedText =
     ''VM SSH gateway '' @ runes [236, 160, 129, 236, 154, 169] @ '' '' @ runes [236, 164, 145] @ '' '' @ runes [235,
     172, 184, 236, 160, 156, 234, 176, 128] @ '' '' @ runes [235, 176, 156, 236, 131, 157, 237, 150, 136, 236, 138,
     181, 235, 139, 136, 235, 139, 164] @ ''. '' @ runes [236, 154, 180, 236, 152, 129, 236, 158, 144, 236, 151, 144,
     234, 178, 140] @ '' '' @ runes [235, 172, 184, 236, 157, 152, 237, 149, 152, 236, 132, 184, 236, 154, 148] @
     ''.''"

definition gatewayDisabledText :: string where
  "gatewayDisabledText =
     runes [236, 154, 180, 236, 152, 129, 236, 158, 144, 234, 176, 128] @ '' '' @ runes [236, 153, 184, 235, 182,
     128] @ '' VM SSH gateway'' @ runes [235, 165, 188] @ '' '' @ runes [236, 149, 132, 236, 167, 129] @ '' '' @
     runes [237, 153, 156, 236, 132, 177, 237, 153, 148, 237, 149, 152, 236, 167, 128] @ '' '' @ runes [236, 149,
     138, 236, 149, 152, 236, 138, 181, 235, 139, 136, 235, 139, 164] @ ''.''"

definition gatewayUnknownText :: string where
  "gatewayUnknownText =
     ''VM SSH gateway '' @ runes [236, 131, 129, 237, 131, 156, 235, 165, 188] @ '' '' @ runes [237, 153, 149, 236,
     157, 184, 237, 149, 160] @ '' '' @ runes [236, 136, 152] @ '' '' @ runes [236, 151, 134, 236, 138, 181, 235,
     139, 136, 235, 139, 164] @ ''. '' @ runes [236, 154, 180, 236, 152, 129, 236, 158, 144, 236, 151, 144, 234, 178,
     140] @ '' '' @ runes [235, 172, 184, 236, 157, 152, 237, 149, 152, 236, 132, 184, 236, 154, 148] @ ''.''"

definition publicSSHGatewayMessage :: "SSHGatewayStatus \<Rightarrow> string" where
  "publicSSHGatewayMessage status =
     (if gs_Phase status = SSHGatewayPhaseReady then gatewayReadyText
      else if gs_Phase status = SSHGatewayPhaseReconciling then gatewayReconcilingText
      else if gs_Phase status = SSHGatewayPhaseBlocked then gatewayBlockedText
      else if gs_Phase status = SSHGatewayPhaseFailed then gatewayFailedText
      else if gs_Phase status = SSHGatewayPhaseDisabled then gatewayDisabledText
      else if gs_Message status \<noteq> [] then gs_Message status
      else gatewayUnknownText)"

definition displayPort :: "SSHGatewayDesired \<Rightarrow> string" where
  "displayPort d = (if gd_PublicPort d \<noteq> [] then gd_PublicPort d else gd_ExternalPort d)"

definition SSHGatewayDesiredFromConfigData :: "(string \<times> string) list \<Rightarrow> SSHGatewayDesired" where
  "SSHGatewayDesiredFromConfigData data =
     \<lparr>gd_ExternalEnabled = EqualFold (dataAt data SSHGatewayExternalEnabledKey) ''true'',
      gd_ExternalPort = TrimSpace (dataAt data SSHGatewayExternalPortKey),
      gd_PublicPort = TrimSpace (dataAt data SSHGatewayPublicPortKey)\<rparr>"

definition Desired_Public :: "SSHGatewayDesired \<Rightarrow> SSHGatewayStatus \<Rightarrow> SSHGatewayPublicSettings" where
  "Desired_Public d status =
     \<lparr>gp_ExternalEnabled = gd_ExternalEnabled d, gp_ExternalPort = gd_ExternalPort d, gp_PublicPort = displayPort d,
      gp_Phase = gs_Phase status, gp_Reason = gs_Reason status, gp_Message = publicSSHGatewayMessage status\<rparr>"

definition Desired_Admin :: "SSHGatewayDesired \<Rightarrow> SSHGatewayStatus \<Rightarrow> SSHGatewayAdminSettings" where
  "Desired_Admin d status =
     \<lparr>ga_ExternalEnabled = gd_ExternalEnabled d, ga_ExternalPort = gd_ExternalPort d, ga_PublicPort = displayPort d,
      ga_Status = status\<rparr>"

definition SSHGatewayStatusFromData :: "(string \<times> string) list \<Rightarrow> SSHGatewayStatus" where
  "SSHGatewayStatusFromData data =
     (let phase = dataAt data ''phase''; reason = dataAt data ''reason'' in
      \<lparr>gs_Phase = (if phase = [] then SSHGatewayPhaseDisabled else phase),
       gs_Reason = (if reason = [] then SSHGatewayReasonExternalDisabled else reason),
       gs_Message = dataAt data ''message'',
       gs_ObservedExternalPort = dataAt data ''observedExternalPort'',
       gs_ObservedServiceName = dataAt data ''observedServiceName'',
       gs_LastTransitionTime = dataAt data ''lastTransitionTime''\<rparr>)"

definition SSHGatewayStatusData :: "SSHGatewayStatus \<Rightarrow> (string \<times> string) list" where
  "SSHGatewayStatusData status =
     [(''phase'', gs_Phase status), (''reason'', gs_Reason status), (''message'', gs_Message status),
      (''observedExternalPort'', gs_ObservedExternalPort status),
      (''observedServiceName'', gs_ObservedServiceName status),
      (''lastTransitionTime'', gs_LastTransitionTime status)]"

definition validTCPPort :: "string \<Rightarrow> bool" where
  "validTCPPort value = (case Atoi value of Inl _ \<Rightarrow> False | Inr port \<Rightarrow> 1 \<le> port \<and> port \<le> 65535)"

definition NormalizeSSHGatewayDesired :: "SSHGatewayDesired \<Rightarrow> SSHGatewayDesired result" where
  "NormalizeSSHGatewayDesired desired0 =
     (let desired = desired0\<lparr>gd_ExternalPort := TrimSpace (gd_ExternalPort desired0),
            gd_PublicPort := TrimSpace (gd_PublicPort desired0)\<rparr> in
      if gd_ExternalEnabled desired \<and> \<not> validTCPPort (gd_ExternalPort desired)
      then Inl (Plain ''sshGatewayExternalPort must be a TCP port between 1 and 65535'')
      else
        let filled = (if gd_ExternalEnabled desired \<and> gd_PublicPort desired = []
              then desired\<lparr>gd_PublicPort := gd_ExternalPort desired\<rparr> else desired) in
        if gd_PublicPort filled \<noteq> [] \<and> \<not> validTCPPort (gd_PublicPort filled)
        then Inl (Plain ''sshGatewayPublicPort must be a TCP port between 1 and 65535'')
        else Inr filled)"

definition GetSSHGatewayStatus :: "'s env \<Rightarrow> ('s, SSHGatewayStatus result) state" where
  "GetSSHGatewayStatus E = do {
     r \<leftarrow> env_get E configMapGVR KiteNamespace SSHGatewayStatusConfigName;
     case r of
       Inl e \<Rightarrow>
         if apiIsNotFound e then ok
           \<lparr>gs_Phase = SSHGatewayPhaseDisabled, gs_Reason = SSHGatewayReasonExternalDisabled, gs_Message = gatewayNotEnabledYet,
            gs_ObservedExternalPort = [], gs_ObservedServiceName = [], gs_LastTransitionTime = []\<rparr>
         else fail e
     | Inr statusMap \<Rightarrow> ok (SSHGatewayStatusFromData (stringMapOr statusMap ''data''))
   }"

definition gatewayStatusObject :: "SSHGatewayStatus \<Rightarrow> kobj" where
  "gatewayStatusObject status =
     newObject ''ConfigMap'' KiteNamespace SSHGatewayStatusConfigName []
       [(''data'', GMap (stringMapToAny (SSHGatewayStatusData status)))]"

definition WriteSSHGatewayStatus :: "'s env \<Rightarrow> SSHGatewayStatus \<Rightarrow> ('s, unit result) state" where
  "WriteSSHGatewayStatus E status0 = do {
     status \<leftarrow> (if gs_LastTransitionTime status0 = [] then do {
         now \<leftarrow> env_now E;
         State_Monad.return (status0\<lparr>gs_LastTransitionTime := formatRFC3339 now\<rparr>)
       } else State_Monad.return status0);
     c \<leftarrow> env_get E configMapGVR KiteNamespace SSHGatewayStatusConfigName;
     case c of
       Inr current \<Rightarrow> do {
         u \<leftarrow> env_update E configMapGVR KiteNamespace
           ((gatewayStatusObject status)\<lparr>k_resourceVersion := k_resourceVersion current\<rparr>);
         case u of Inl e \<Rightarrow> fail e | Inr _ \<Rightarrow> ok ()
       }
     | Inl e \<Rightarrow>
         if \<not> apiIsNotFound e then fail e else do {
           w \<leftarrow> env_create E configMapGVR KiteNamespace (gatewayStatusObject status);
           case w of Inl e \<Rightarrow> fail e | Inr _ \<Rightarrow> ok ()
         }
   }"

section \<open>TLS\<close>

definition LegacyGlobalTLSSecretNS :: string where "LegacyGlobalTLSSecretNS = ''kube-system''"

definition newGlobalTLSSecretFromEncodedData :: "(string \<times> string) list \<Rightarrow> kobj" where
  "newGlobalTLSSecretFromEncodedData data =
     newObject ''Secret'' GlobalTLSSecretNS GlobalTLSSecretName []
       [(''type'', GStr ''kubernetes.io/tls''),
        (''data'', GMap [(TLSCertificateKey, GStr (dataAt data TLSCertificateKey)),
                         (TLSPrivateKeyDataKey, GStr (dataAt data TLSPrivateKeyDataKey))])]"

definition newGlobalTLSSecret :: "string \<Rightarrow> string \<Rightarrow> kobj" where
  "newGlobalTLSSecret cert privateKey =
     newGlobalTLSSecretFromEncodedData
       [(TLSCertificateKey, StdEncoding_EncodeToString cert), (TLSPrivateKeyDataKey, StdEncoding_EncodeToString privateKey)]"

definition hasTLSData :: "kobj \<Rightarrow> bool" where
  "hasTLSData secret \<longleftrightarrow>
     dataAt (stringMapOr secret ''data'') TLSCertificateKey \<noteq> [] \<and> dataAt (stringMapOr secret ''data'') TLSPrivateKeyDataKey \<noteq> []"

definition migrateLegacyTLSCertificate :: "'s env \<Rightarrow> ('s, bool result) state" where
  "migrateLegacyTLSCertificate E = do {
     r \<leftarrow> env_get E secretGVR LegacyGlobalTLSSecretNS GlobalTLSSecretName;
     case r of
       Inl e \<Rightarrow> if apiIsNotFound e then ok False else fail e
     | Inr legacy \<Rightarrow>
         if \<not> hasTLSData legacy then ok False else do {
           c \<leftarrow> env_create E secretGVR GlobalTLSSecretNS (newGlobalTLSSecretFromEncodedData (stringMapOr legacy ''data''));
           case c of
             Inl e \<Rightarrow> if apiIsAlreadyExists e then ok True else fail e
           | Inr _ \<Rightarrow> ok True
         }
   }"

definition HasTLSCertificate :: "'s env \<Rightarrow> ('s, bool result) state" where
  "HasTLSCertificate E = do {
     r \<leftarrow> env_get E secretGVR GlobalTLSSecretNS GlobalTLSSecretName;
     case r of
       Inl e \<Rightarrow> if apiIsNotFound e then migrateLegacyTLSCertificate E else fail e
     | Inr secret \<Rightarrow> ok (hasTLSData secret)
   }"

section \<open>Settings\<close>

record Settings =
  st_BaseDomain :: string
  st_ForceHTTPS :: bool
  st_AdminContact :: string
  st_HasJWTSecret :: bool
  st_HasPasswordSalt :: bool
  st_HasTLSCertificate :: bool
  st_SSHGateway :: SSHGatewayAdminSettings

record PublicSettings =
  ps_BaseDomain :: string
  ps_ForceHTTPS :: bool
  ps_AdminContact :: string
  ps_HasTLSCertificate :: bool
  ps_SSHGateway :: SSHGatewayPublicSettings

definition BaseDomainConfigKey :: string where "BaseDomainConfigKey = ''baseDomain''"

definition runtimeConfigData :: "'s env \<Rightarrow> ('s, (string \<times> string) list result) state" where
  "runtimeConfigData E = do {
     r \<leftarrow> env_get E configMapGVR KiteNamespace RuntimeConfigName;
     case r of
       Inl e \<Rightarrow> if apiIsNotFound e then fail (Plain ''runtime config was not found'') else fail e
     | Inr configMap \<Rightarrow>
         (case stringMapAt configMap ''data'' of
            None \<Rightarrow> fail (Plain ''runtime config data is empty'')
          | Some data \<Rightarrow> ok data)
   }"

definition decodedSecretStringData :: "kobj \<Rightarrow> (string \<times> string) list" where
  "decodedSecretStringData secret =
     (let stringData = stringMapOr secret ''stringData'' in
      if stringData \<noteq> [] then stringData
      else concat (map decodeEntry (stringMapOr secret ''data'')))"

definition runtimeSecretData :: "'s env \<Rightarrow> ('s, (string \<times> string) list result) state" where
  "runtimeSecretData E = do {
     r \<leftarrow> env_get E secretGVR KiteNamespace RuntimeSecretName;
     case r of
       Inl e \<Rightarrow> if apiIsNotFound e then ok [] else fail e
     | Inr secret \<Rightarrow> ok (decodedSecretStringData secret)
   }"

definition Platform_Get :: "'s env \<Rightarrow> ('s, Settings result) state" where
  "Platform_Get E =
     tryE (runtimeConfigData E) (\<lambda>data.
     tryE (HasTLSCertificate E) (\<lambda>hasTLS.
     tryE (GetSSHGatewayStatus E) (\<lambda>status.
     tryE (runtimeSecretData E) (\<lambda>secretData.
     ok \<lparr>st_BaseDomain = dataAt data BaseDomainConfigKey,
         st_ForceHTTPS = EqualFold (dataAt data ForceHTTPSConfigKey) ''true'',
         st_AdminContact = dataAt data AdminContactKey,
         st_HasJWTSecret = (dataAt secretData JWTSecretKey \<noteq> []),
         st_HasPasswordSalt = (dataAt secretData PasswordSaltKey \<noteq> []),
         st_HasTLSCertificate = hasTLS,
         st_SSHGateway = Desired_Admin (SSHGatewayDesiredFromConfigData data) status\<rparr>))))"

definition GetPublic :: "'s env \<Rightarrow> ('s, PublicSettings result) state" where
  "GetPublic E =
     tryE (runtimeConfigData E) (\<lambda>data.
     tryE (HasTLSCertificate E) (\<lambda>hasTLS.
     tryE (GetSSHGatewayStatus E) (\<lambda>status.
     ok \<lparr>ps_BaseDomain = dataAt data BaseDomainConfigKey,
         ps_ForceHTTPS = EqualFold (dataAt data ForceHTTPSConfigKey) ''true'',
         ps_AdminContact = dataAt data AdminContactKey,
         ps_HasTLSCertificate = hasTLS,
         ps_SSHGateway = Desired_Public (SSHGatewayDesiredFromConfigData data) status\<rparr>)))"

definition GetBaseDomain :: "'s env \<Rightarrow> ('s, string result) state" where
  "GetBaseDomain E = tryE (runtimeConfigData E) (\<lambda>data. ok (dataAt data BaseDomainConfigKey))"

text \<open>Reading the ConfigMap, changing its data, and writing it back.\<close>

definition changeConfigData :: "'s env \<Rightarrow> ((string \<times> string) list \<Rightarrow> (string \<times> string) list) \<Rightarrow> ('s, Settings result) state" where
  "changeConfigData E change =
     tryE (env_get E configMapGVR KiteNamespace RuntimeConfigName) (\<lambda>current.
     tryE (env_update E configMapGVR KiteNamespace
       (setStringMap current ''data'' (change (stringMapOr current ''data'')))) (\<lambda>_.
     Platform_Get E))"

definition updateRuntimeConfigValue :: "'s env \<Rightarrow> string \<Rightarrow> string \<Rightarrow> ('s, Settings result) state" where
  "updateRuntimeConfigValue E key value = changeConfigData E (AList.update key value)"

definition UpdateBaseDomain :: "'s env \<Rightarrow> string \<Rightarrow> ('s, Settings result) state" where
  "UpdateBaseDomain E baseDomain0 =
     (let baseDomain = trimDots (TrimSpace baseDomain0) in
      if baseDomain = [] then fail (Plain ''baseDomain is required'')
      else updateRuntimeConfigValue E BaseDomainConfigKey baseDomain)"

definition UpdateForceHTTPS :: "'s env \<Rightarrow> bool \<Rightarrow> ('s, Settings result) state" where
  "UpdateForceHTTPS E forceHTTPS =
     tryE (if forceHTTPS then
         tryE (HasTLSCertificate E) (\<lambda>hasTLS.
           if \<not> hasTLS then fail (Plain ''TLS certificate must be uploaded before forceHttps can be enabled'') else ok ())
       else ok ()) (\<lambda>_.
     updateRuntimeConfigValue E ForceHTTPSConfigKey (FormatBool forceHTTPS))"

definition UpdateAdminContact :: "'s env \<Rightarrow> string \<Rightarrow> ('s, Settings result) state" where
  "UpdateAdminContact E adminContact = updateRuntimeConfigValue E AdminContactKey (TrimSpace adminContact)"

definition UpdateSSHGateway :: "'s env \<Rightarrow> SSHGatewayDesired \<Rightarrow> ('s, Settings result) state" where
  "UpdateSSHGateway E desired =
     tryE (State_Monad.return (NormalizeSSHGatewayDesired desired)) (\<lambda>normalized.
     changeConfigData E (\<lambda>data.
       AList.update SSHGatewayPublicPortKey (gd_PublicPort normalized)
         (AList.update SSHGatewayExternalPortKey (gd_ExternalPort normalized)
           (AList.update SSHGatewayExternalEnabledKey (FormatBool (gd_ExternalEnabled normalized)) data))))"

definition UpdateTLSCertificate :: "'s env \<Rightarrow> string \<Rightarrow> string \<Rightarrow> ('s, Settings result) state" where
  "UpdateTLSCertificate E tlsCert0 tlsKey0 =
     (let cert = TrimSpace tlsCert0; privateKey = TrimSpace tlsKey0;
          secret = newGlobalTLSSecret cert privateKey in
      if cert = [] \<or> privateKey = [] then fail (Plain ''tlsCert and tlsKey are required'')
      else do {
        r \<leftarrow> env_get E secretGVR GlobalTLSSecretNS GlobalTLSSecretName;
        case r of
          Inl e \<Rightarrow>
            if apiIsNotFound e then tryE (env_create E secretGVR GlobalTLSSecretNS secret) (\<lambda>_. Platform_Get E)
            else fail e
        | Inr current \<Rightarrow>
            tryE (env_update E secretGVR GlobalTLSSecretNS (secret\<lparr>k_resourceVersion := k_resourceVersion current\<rparr>))
              (\<lambda>_. Platform_Get E)
      })"

definition RotateRuntimeSecrets :: "'s env \<Rightarrow> bool \<Rightarrow> bool \<Rightarrow> ('s, Settings result) state" where
  "RotateRuntimeSecrets E rotateJWTSecret rotatePasswordSalt =
     (if \<not> rotateJWTSecret \<and> \<not> rotatePasswordSalt then fail (Plain ''at least one runtime secret must be selected'')
      else
        tryE (env_get E secretGVR KiteNamespace RuntimeSecretName) (\<lambda>current. do {
          (let stringData = stringMapOr current ''stringData'';
               data0 = (if stringData = [] then decodedSecretStringData current else stringData) in do {
          data1 \<leftarrow> (if rotateJWTSecret then do {
              jwt \<leftarrow> GenerateSecret E ''jwt''; State_Monad.return (AList.update JWTSecretKey jwt data0)
            } else State_Monad.return data0);
          data2 \<leftarrow> (if rotatePasswordSalt then do {
              salt \<leftarrow> GenerateSecret E ''salt''; State_Monad.return (AList.update PasswordSaltKey salt data1)
            } else State_Monad.return data1);
          tryE (env_update E secretGVR KiteNamespace
            (removeField (setStringMap current ''stringData'' data2) ''data'')) (\<lambda>_. Platform_Get E)
          })
        }))"

section \<open>Properties\<close>

definition globalTLSKey :: kkey where
  "globalTLSKey = (secretGVR, GlobalTLSSecretNS, GlobalTLSSecretName)"

lemma not_valid_empty: "\<not> validTCPPort []"
  by (simp add: validTCPPort_def Atoi_def)

lemma NormalizeSSHGatewayDesired_spec:
  assumes "NormalizeSSHGatewayDesired d = Inr n"
  shows "gd_ExternalEnabled n = gd_ExternalEnabled d" "gd_ExternalPort n = TrimSpace (gd_ExternalPort d)"
    and "TrimSpace (gd_PublicPort n) = gd_PublicPort n"
    and "gd_ExternalEnabled n \<Longrightarrow> validTCPPort (gd_ExternalPort n) \<and> gd_PublicPort n \<noteq> []"
    and "gd_PublicPort n \<noteq> [] \<Longrightarrow> validTCPPort (gd_PublicPort n)"
  using assms by (auto simp: NormalizeSSHGatewayDesired_def Let_def not_valid_empty split: if_splits)

lemma EqualFold_FormatBool: "EqualFold (FormatBool b) ''true'' = b"
  by (simp add: EqualFold_def FormatBool_def isUpperByte_def byteOf_def)

lemma gateway_roundtrip:
  assumes "NormalizeSSHGatewayDesired d = Inr n"
  shows "SSHGatewayDesiredFromConfigData
      (AList.update SSHGatewayPublicPortKey (gd_PublicPort n)
        (AList.update SSHGatewayExternalPortKey (gd_ExternalPort n)
          (AList.update SSHGatewayExternalEnabledKey (FormatBool (gd_ExternalEnabled n)) data))) = n"
  using NormalizeSSHGatewayDesired_spec(2,3)[OF assms]
  by (cases n) (simp add: SSHGatewayDesiredFromConfigData_def EqualFold_FormatBool SSHGatewayPublicPortKey_def
      SSHGatewayExternalPortKey_def SSHGatewayExternalEnabledKey_def)

context kube_api
begin

lemma keeps_GetSSHGatewayStatus: "keeps view (GetSSHGatewayStatus E)"
  and keeps_runtimeConfigData: "keeps view (runtimeConfigData E)"
  and keeps_runtimeSecretData: "keeps view (runtimeSecretData E)"
  unfolding GetSSHGatewayStatus_def runtimeConfigData_def runtimeSecretData_def
  by (intro keeps_intros get_keeps)+

lemma frames_HasTLSCertificate: "frames view {globalTLSKey} (HasTLSCertificate E)"
  unfolding HasTLSCertificate_def migrateLegacyTLSCertificate_def
  by (intro frames_intros frames_create keeps_frames[OF get_keeps])
     (simp add: globalTLSKey_def newGlobalTLSSecretFromEncodedData_def)

lemma frames_Platform_Get: "frames view {globalTLSKey} (Platform_Get E)"
  unfolding Platform_Get_def
  by (intro frames_intros frames_HasTLSCertificate keeps_frames[OF keeps_GetSSHGatewayStatus]
      keeps_frames[OF keeps_runtimeConfigData] keeps_frames[OF keeps_runtimeSecretData])

text \<open>A change of the configuration that went through is what the ConfigMap now holds.\<close>

lemma wp_changeConfigData:
  "wp (changeConfigData E change) (\<lambda>r s'. case r of Inl e \<Rightarrow> True | Inr _ \<Rightarrow>
      (\<exists>cur. view s configKey = Some cur \<and>
        (\<forall>cm. view s' configKey = Some cm \<longrightarrow> stringMapOr cm ''data'' = change (stringMapOr cur ''data'')))) s"
proof -
  define Q where "Q = (\<lambda>(r :: Settings result) s'. case r of Inl e \<Rightarrow> True | Inr _ \<Rightarrow>
      (\<exists>cur. view s configKey = Some cur \<and>
        (\<forall>cm. view s' configKey = Some cm \<longrightarrow> stringMapOr cm ''data'' = change (stringMapOr cur ''data''))))"
  have key: "configKey \<noteq> globalTLSKey" by (simp add: configKey_def globalTLSKey_def)
  have get: "wp (Platform_Get E) Q s2"
    if cur: "view s configKey = Some cur" and upd: "shownAt configKey x (view s2)" "objField x ''data'' = Some (GMap (stringMapToAny (change (stringMapOr cur ''data''))))"
    for s2 cur x
  proof (rule wpI)
    fix r s' assume "run_state (Platform_Get E) s2 = (r, s')"
    from framesD[OF frames_Platform_Get this] key have "view s' configKey = view s2 configKey" by simp
    with cur upd stringMapOr_field[OF upd(2)] show "Q r s'" by (auto simp: Q_def shownAt_def split: sum.splits)
  qed
  have QI: "Q (Inl e) s'" for e s' by (simp add: Q_def)
  have update: "wp (env_update E configMapGVR KiteNamespace (setStringMap cur ''data'' (change (stringMapOr cur ''data''))))
      (\<lambda>r s2. case r of Inl e \<Rightarrow> Q (Inl e) s2 | Inr x \<Rightarrow> wp (Platform_Get E) Q s2) s1"
    if "view s configKey = Some cur" "view s1 = view s" "k_name cur = RuntimeConfigName" for cur s1
    by (rule wp_mono[OF wp_updateConfigMap]) (use that in \<open>auto simp: QI intro: get[OF that(1)] split: sum.splits\<close>)
  have "wp (changeConfigData E change) Q s"
    unfolding changeConfigData_def wp_tryE
    by (rule wp_get) (use update view_key[of s configMapGVR KiteNamespace RuntimeConfigName] in \<open>simp_all add: QI configKey_def\<close>)
  then show ?thesis by (simp add: Q_def)
qed

end

text \<open>What an administrator sets for the SSH gateway is what the controller reads: after a successful update the
  ConfigMap decodes to the normalised request; with external access on, both ports are there and
  between 1 and 65535.\<close>

theorem UpdateSSHGateway_stored:
  assumes api: "kube_api E view" and run: "run_state (UpdateSSHGateway E desired) s = (Inr settings, s')"
    and cm: "view s' configKey = Some cm"
  shows "\<exists>n. NormalizeSSHGatewayDesired desired = Inr n \<and>
    SSHGatewayDesiredFromConfigData (stringMapOr cm ''data'') = n \<and>
    (gd_ExternalEnabled n \<longrightarrow> validTCPPort (gd_ExternalPort n) \<and> validTCPPort (gd_PublicPort n))"
proof -
  obtain n where n: "NormalizeSSHGatewayDesired desired = Inr n"
    using run by (cases "NormalizeSSHGatewayDesired desired") (auto simp: UpdateSSHGateway_def tryE_def fail_def)
  let ?change = "\<lambda>data. AList.update SSHGatewayPublicPortKey (gd_PublicPort n)
         (AList.update SSHGatewayExternalPortKey (gd_ExternalPort n)
           (AList.update SSHGatewayExternalEnabledKey (FormatBool (gd_ExternalEnabled n)) data))"
  have "run_state (changeConfigData E ?change) s = (Inr settings, s')"
    using run by (simp add: UpdateSSHGateway_def n tryE_def)
  from wpD[OF kube_api.wp_changeConfigData[OF api] this] cm
  obtain cur where "stringMapOr cm ''data'' = ?change (stringMapOr cur ''data'')" by auto
  with gateway_roundtrip[OF n] NormalizeSSHGatewayDesired_spec(4,5)[OF n] n show ?thesis by simp
qed

definition settingsWorld :: mem where
  "settingsWorld = mem_init
     [(configKey, newRuntimeConfigMap),
      ((configMapGVR, KiteNamespace, SSHGatewayStatusConfigName),
        newObject ''ConfigMap'' KiteNamespace SSHGatewayStatusConfigName [] [(''data'', GMap [(''phase'', GStr ''Ready'')])])] []"

theorem UpdateSSHGateway_stored_witness:
  "\<exists>cm n. mem_view (snd (run_state (UpdateSSHGateway mem_env \<lparr>gd_ExternalEnabled = True, gd_ExternalPort = '' 2222 '', gd_PublicPort = []\<rparr>) settingsWorld)) configKey = Some cm \<and>
     SSHGatewayDesiredFromConfigData (stringMapOr cm ''data'') = n \<and> gd_ExternalEnabled n \<and> validTCPPort (gd_PublicPort n)"
proof -
  let ?m = "UpdateSSHGateway mem_env \<lparr>gd_ExternalEnabled = True, gd_ExternalPort = '' 2222 '', gd_PublicPort = []\<rparr>"
  have "\<not> isl (fst (run_state ?m settingsWorld))" by code_simp
  from run_Inr[OF this] obtain r s' where run: "run_state ?m settingsWorld = (Inr r, s')" by blast
  have "\<not> Option.is_none (mem_view (snd (run_state ?m settingsWorld)) configKey)" by code_simp
  then obtain cm where cm: "mem_view s' configKey = Some cm" by (auto simp: run Option.is_none_def)
  from UpdateSSHGateway_stored[OF mem_kube_api run cm] obtain n where
      n: "NormalizeSSHGatewayDesired \<lparr>gd_ExternalEnabled = True, gd_ExternalPort = '' 2222 '', gd_PublicPort = []\<rparr> = Inr n"
    and d: "SSHGatewayDesiredFromConfigData (stringMapOr cm ''data'') = n"
    and p: "gd_ExternalEnabled n \<longrightarrow> validTCPPort (gd_ExternalPort n) \<and> validTCPPort (gd_PublicPort n)" by blast
  from NormalizeSSHGatewayDesired_spec(1)[OF n] d p cm run show ?thesis by auto
qed

end
