(* ===== verification/Token.thy ===== *)
theory Token
  imports Go_JSON Auth
begin

text \<open>
  Access tokens: \<open>internal/auth/jwt.go\<close>.  A token is the base64url encoding of a fixed header and
  of the JSON text of the claims, signed with HMAC-SHA-256.  Instants and durations are in
  nanoseconds; the claims hold seconds.
\<close>

section \<open>The token service\<close>

record TokenService =
  ts_secret :: string
  ts_ttl :: int

record Claims =
  cl_Subject :: string
  cl_AccessLevel :: int
  cl_IssuedAt :: int
  cl_ExpiresAt :: int

definition NewTokenService :: "string \<Rightarrow> int \<Rightarrow> TokenService result" where
  "NewTokenService secret ttl =
     (if secret = [] then Inl (Plain ''jwt secret is required'')
      else Inr \<lparr>ts_secret = secret, ts_ttl = ttl\<rparr>)"

definition unixSeconds :: "int \<Rightarrow> int" where
  "unixSeconds t = t div 1000000000"

text \<open>\<open>json.Marshal\<close> of the header map (keys sorted) and of the claims struct.\<close>

definition jsonKey :: "string \<Rightarrow> string" where
  "jsonKey k = CHR 0x22 # k @ [CHR 0x22, CHR '':'']"

definition marshalHeader :: string where
  "marshalHeader = ''{'' @ jsonKey ''alg'' @ marshalString ''HS256'' @ '','' @ jsonKey ''typ'' @ marshalString ''JWT'' @ ''}''"

definition marshalClaims :: "Claims \<Rightarrow> string" where
  "marshalClaims c =
     ''{'' @ jsonKey ''sub'' @ marshalString (cl_Subject c) @ '','' @ jsonKey ''access_level'' @ Itoa (cl_AccessLevel c) @
     '','' @ jsonKey ''iat'' @ Itoa (cl_IssuedAt c) @ '','' @ jsonKey ''exp'' @ Itoa (cl_ExpiresAt c) @ ''}''"

text \<open>
  \<open>json.Unmarshal\<close> into the claims struct: keys match without regard to case,
  unknown keys are skipped, \<open>null\<close> leaves a field alone, a value of the wrong type is an error.
\<close>

definition decodeInt :: "json \<Rightarrow> (int \<Rightarrow> Claims) \<Rightarrow> Claims \<Rightarrow> Claims option" where
  "decodeInt v put c =
     (case v of
        JNull \<Rightarrow> Some c
      | JNum lit \<Rightarrow> (case Atoi lit of Inl _ \<Rightarrow> None | Inr i \<Rightarrow> Some (put i))
      | _ \<Rightarrow> None)"

definition decodeField :: "Claims \<Rightarrow> string \<Rightarrow> json \<Rightarrow> Claims option" where
  "decodeField c key v =
     (if foldName key = ''sub'' then
        (case v of JNull \<Rightarrow> Some c | JStr s \<Rightarrow> Some (c\<lparr>cl_Subject := s\<rparr>) | _ \<Rightarrow> None)
      else if foldName key = ''access_level'' then decodeInt v (\<lambda>i. c\<lparr>cl_AccessLevel := i\<rparr>) c
      else if foldName key = ''iat'' then decodeInt v (\<lambda>i. c\<lparr>cl_IssuedAt := i\<rparr>) c
      else if foldName key = ''exp'' then decodeInt v (\<lambda>i. c\<lparr>cl_ExpiresAt := i\<rparr>) c
      else Some c)"

fun decodeFields :: "(string \<times> json) list \<Rightarrow> Claims \<Rightarrow> Claims option" where
  "decodeFields [] c = Some c"
| "decodeFields ((key, v) # ms) c = Option.bind (decodeField c key v) (decodeFields ms)"

definition noClaims :: Claims where
  "noClaims = \<lparr>cl_Subject = [], cl_AccessLevel = 0, cl_IssuedAt = 0, cl_ExpiresAt = 0\<rparr>"

definition unmarshalClaims :: "string \<Rightarrow> Claims result" where
  "unmarshalClaims payload =
     (case parseJSON payload of
        None \<Rightarrow> Inl (Plain ''invalid JSON'')
      | Some JNull \<Rightarrow> Inr noClaims
      | Some (JObj ms) \<Rightarrow>
          (case decodeFields ms noClaims of None \<Rightarrow> Inl (Plain ''json: cannot unmarshal'') | Some c \<Rightarrow> Inr c)
      | Some _ \<Rightarrow> Inl (Plain ''json: cannot unmarshal''))"

definition encodeJSON :: "string \<Rightarrow> string" where
  "encodeJSON data = base64Encode urlAlphabet False data"

definition sign :: "TokenService \<Rightarrow> string \<Rightarrow> string" where
  "sign s signingInput = base64Encode urlAlphabet False (hmacSHA256 (ts_secret s) signingInput)"

definition accessTokenFor :: "TokenService \<Rightarrow> Claims \<Rightarrow> string" where
  "accessTokenFor s claims =
     (let signingInput = encodeJSON marshalHeader @ ''.'' @ encodeJSON (marshalClaims claims)
      in signingInput @ ''.'' @ sign s signingInput)"

definition IssueAccessTokenWithLifetime :: "'s env \<Rightarrow> TokenService \<Rightarrow> string \<Rightarrow> int \<Rightarrow> int \<Rightarrow> ('s, (string \<times> int) result) state" where
  "IssueAccessTokenWithLifetime E s subject accessLevel lifetime0 =
     (if lifetime0 \<le> 0 \<or> ts_ttl s \<le> 0 then fail (Plain ''token lifetime must be positive'')
      else
        let lifetime = (if lifetime0 > ts_ttl s then ts_ttl s else lifetime0) in do {
          now \<leftarrow> env_now E;
          (let expiresAt = now + lifetime;
               claims = \<lparr>cl_Subject = subject, cl_AccessLevel = accessLevel,
                 cl_IssuedAt = unixSeconds now, cl_ExpiresAt = unixSeconds expiresAt\<rparr> in
           ok (accessTokenFor s claims, expiresAt))
        })"

definition IssueAccessToken :: "'s env \<Rightarrow> TokenService \<Rightarrow> string \<Rightarrow> int \<Rightarrow> ('s, (string \<times> int) result) state" where
  "IssueAccessToken E s subject accessLevel = IssueAccessTokenWithLifetime E s subject accessLevel (ts_ttl s)"

fun splitDots :: "string \<Rightarrow> string list" where
  "splitDots [] = [[]]"
| "splitDots (c # cs) =
     (if c = CHR ''.'' then [] # splitDots cs
      else case splitDots cs of [] \<Rightarrow> [[c]] | p # ps \<Rightarrow> (c # p) # ps)"

definition verifyParts :: "'s env \<Rightarrow> TokenService \<Rightarrow> string \<Rightarrow> string \<Rightarrow> string \<Rightarrow> ('s, Claims result) state" where
  "verifyParts E s hdr body signature =
     (if \<not> constantTimeEqual signature (sign s (hdr @ ''.'' @ body)) then fail (Plain ''invalid token signature'')
      else case base64Decode urlAlphabet False body of
        Inl e \<Rightarrow> fail (Wrapped ''invalid token payload: '' e [])
      | Inr payload \<Rightarrow>
          (case unmarshalClaims payload of
             Inl e \<Rightarrow> fail (Wrapped ''invalid token claims: '' e [])
           | Inr claims \<Rightarrow> do {
               now \<leftarrow> env_now E;
               if cl_ExpiresAt claims \<le> unixSeconds now then fail (Plain ''token expired'') else ok claims
             }))"

definition VerifyAccessToken :: "'s env \<Rightarrow> TokenService \<Rightarrow> string \<Rightarrow> ('s, Claims result) state" where
  "VerifyAccessToken E s token0 =
     (let token = TrimSpace (TrimPrefix token0 ''Bearer '') in
      case splitDots token of
        [hdr, body, signature] \<Rightarrow> verifyParts E s hdr body signature
      | _ \<Rightarrow> fail (Plain ''invalid token format''))"

definition ValidateCredentials :: "string \<Rightarrow> string \<Rightarrow> string \<Rightarrow> string \<Rightarrow> bool" where
  "ValidateCredentials username0 password adminUsername adminPassword =
     (let username = TrimSpace username0 in
      if adminUsername = [] \<or> adminPassword = [] then False
      else constantTimeEqual username adminUsername \<and> constantTimeEqual password adminPassword)"

section \<open>Decoding what was encoded\<close>

definition plainName :: "string \<Rightarrow> bool" where
  "plainName key \<longleftrightarrow> escapeString key = key \<and> validUTF8 key"

lemma plain_names [simp]: "plainName ''sub''" "plainName ''access_level''" "plainName ''iat''" "plainName ''exp''"
  by (simp_all add: plainName_def escapeByte_def byteOf_def)

lemma parse_string:
  "validUTF8 s \<Longrightarrow> parseValue (Suc n) d (marshalString s @ rest) = Some (JStr s, rest)"
  by (simp add: marshalString_def unquote_escapeString)

lemma parse_int:
  assumes "e = CHR '','' \<or> e = CHR ''}''"
  shows "parseValue (Suc n) d (Itoa i @ e # rest) = Some (JNum (Itoa i), e # rest)"
proof -
  have "\<exists>c cs. Itoa i = c # cs \<and> (isDigitByte c \<or> c = CHR ''-'')"
    using natDigits_hd[of "nat i"] natDigits_hd[of "nat (- i)"] by (auto simp: Itoa_def)
  then obtain c cs where c: "Itoa i = c # cs" "isDigitByte c \<or> c = CHR ''-''" by blast
  have byte: "isDigitByte c \<Longrightarrow> 48 \<le> byteOf c \<and> byteOf c \<le> 57" by (simp add: isDigitByte_def)
  have neq: "c \<noteq> x" if "x \<in> {CHR 0x20, CHR 0x09, CHR 0x0D, CHR 0x0A, CHR 0x22, CHR ''{'', CHR ''['', CHR ''t'', CHR ''f'', CHR ''n''}" for x
    using c(2) byte that by (auto simp: byteOf_def)
  have "skipSpace (Itoa i @ e # rest) = Itoa i @ e # rest" using neq by (simp add: c)
  moreover have "\<not> HasPrefix (c # zs) ''true''" "\<not> HasPrefix (c # zs) ''false''" "\<not> HasPrefix (c # zs) ''null''" for zs
    using neq by (auto simp: HasPrefix_def)
  ultimately show ?thesis
    using lexNumber_Itoa[OF assms, of i rest] neq by (simp add: c)
qed

lemma parse_member:
  assumes "plainName key" "parseValue n d (txt @ e # rest) = Some (v, e # rest)"
  shows "e = CHR ''}'' \<Longrightarrow> parseMembers (Suc n) d (jsonKey key @ txt @ e # rest) = Some ([(key, v)], rest)"
    and "e = CHR '','' \<Longrightarrow> parseMembers (Suc n) d (jsonKey key @ txt @ e # rest) =
      map_option (\<lambda>(ms, rest). ((key, v) # ms, rest)) (parseMembers n d rest)"
  using assms(2) unquote_escapeString[of key "CHR '':'' # txt @ e # rest"] assms(1)
  by (simp_all add: jsonKey_def plainName_def)

lemma parse_int_member:
  assumes "plainName key"
  shows "parseMembers (Suc (Suc n)) d (jsonKey key @ Itoa i @ CHR ''}'' # rest) = Some ([(key, JNum (Itoa i))], rest)"
    and "parseMembers (Suc (Suc n)) d (jsonKey key @ Itoa i @ CHR '','' # rest) =
      map_option (\<lambda>(ms, rest). ((key, JNum (Itoa i)) # ms, rest)) (parseMembers (Suc n) d rest)"
  by (rule parse_member(1)[OF assms parse_int] parse_member(2)[OF assms parse_int]; simp)+

lemma parse_string_member:
  assumes "plainName key" "validUTF8 s"
  shows "parseMembers (Suc (Suc n)) d (jsonKey key @ marshalString s @ CHR '','' # rest) =
      map_option (\<lambda>(ms, rest). ((key, JStr s) # ms, rest)) (parseMembers (Suc n) d rest)"
  by (rule parse_member(2)[OF assms(1) parse_string[OF assms(2)]]) simp

lemma parse_claims:
  assumes "validUTF8 (cl_Subject c)"
  shows "parseJSON (marshalClaims c) =
    Some (JObj [(''sub'', JStr (cl_Subject c)), (''access_level'', JNum (Itoa (cl_AccessLevel c))),
      (''iat'', JNum (Itoa (cl_IssuedAt c))), (''exp'', JNum (Itoa (cl_ExpiresAt c)))])"
proof -
  let ?s = "marshalClaims c"
  define ms where "ms = jsonKey ''sub'' @ marshalString (cl_Subject c) @ CHR '','' # jsonKey ''access_level'' @ Itoa (cl_AccessLevel c) @
     CHR '','' # jsonKey ''iat'' @ Itoa (cl_IssuedAt c) @ CHR '','' # jsonKey ''exp'' @ Itoa (cl_ExpiresAt c) @ CHR ''}'' # []"
  have s: "?s = CHR ''{'' # ms" by (simp add: marshalClaims_def ms_def)
  have "5 \<le> length ms" by (simp add: ms_def jsonKey_def)
  then obtain n where "length ms = 5 + n" by (metis le_Suc_ex)
  then have n: "length ms = Suc (Suc (Suc (Suc (Suc n))))" by simp
  have "parseMembers (Suc (length ms)) 1 ms = Some ([(''sub'', JStr (cl_Subject c)), (''access_level'', JNum (Itoa (cl_AccessLevel c))),
      (''iat'', JNum (Itoa (cl_IssuedAt c))), (''exp'', JNum (Itoa (cl_ExpiresAt c)))], [])"
    unfolding n unfolding ms_def using assms by (simp only: parse_string_member parse_int_member plain_names) simp
  moreover obtain r where r: "ms = CHR 0x22 # r" by (simp add: ms_def jsonKey_def)
  ultimately have "parseValue (Suc (length ?s)) 0 ?s = Some (JObj [(''sub'', JStr (cl_Subject c)), (''access_level'', JNum (Itoa (cl_AccessLevel c))),
      (''iat'', JNum (Itoa (cl_IssuedAt c))), (''exp'', JNum (Itoa (cl_ExpiresAt c)))], [])"
    unfolding s by (simp add: maxNestingDepth_def)
  then show ?thesis by (simp add: parseJSON_def)
qed

lemma unmarshal_marshal:
  assumes "validUTF8 (cl_Subject c)" "inInt64 (cl_AccessLevel c)" "inInt64 (cl_IssuedAt c)" "inInt64 (cl_ExpiresAt c)"
  shows "unmarshalClaims (marshalClaims c) = Inr c"
  using assms by (simp add: unmarshalClaims_def parse_claims decodeField_def decodeInt_def Atoi_Itoa isUpperByte_def byteOf_def)

section \<open>The token format\<close>

lemma splitDots_plain: "CHR ''.'' \<notin> set s \<Longrightarrow> splitDots s = [s]"
  by (induction s) auto

lemma splitDots_append: "CHR ''.'' \<notin> set s \<Longrightarrow> splitDots (s @ CHR ''.'' # t) = s # splitDots t"
  by (induction s) auto

lemma splitDots_join:
  assumes "splitDots t = [a, b, c]"
  shows "t = a @ ''.'' @ b @ ''.'' @ c"
proof -
  have "t = concat (map (\<lambda>p. p @ ''.'') (butlast (splitDots t))) @ last (splitDots t) \<and> splitDots t \<noteq> []" for t
    by (induction t) (auto split: list.splits if_splits)
  from this[of t] assms show ?thesis by simp
qed

lemma base64url_chars:
  assumes "c \<in> set (base64Encode urlAlphabet False s)"
  shows "c \<in> set urlAlphabet"
proof -
  obtain i where "i \<in> set (sextets (map byteOf s))" and c: "c = urlAlphabet ! i"
    using assms by (auto simp: base64Encode_def base64Pad_def)
  with sextets_less[of "map byteOf s"] have "i < length urlAlphabet" using good_url by (auto simp: goodAlphabet_def)
  then show ?thesis by (simp add: c)
qed

lemma urlAlphabet_solid: "c \<in> set urlAlphabet \<Longrightarrow> solidByte c \<and> c \<noteq> CHR ''.''"
  by (auto simp: urlAlphabet_def solidByte_def byteOf_def)

lemma base64url_no_dot: "CHR ''.'' \<notin> set (base64Encode urlAlphabet False s)"
  using base64url_chars urlAlphabet_solid by blast

lemma accessToken_split:
  "splitDots (accessTokenFor svc c) =
     [encodeJSON marshalHeader, encodeJSON (marshalClaims c), sign svc (encodeJSON marshalHeader @ ''.'' @ encodeJSON (marshalClaims c))]"
  by (simp add: accessTokenFor_def Let_def encodeJSON_def sign_def splitDots_append splitDots_plain base64url_no_dot)

lemma base64url_nonempty:
  assumes "s \<noteq> []"
  shows "base64Encode urlAlphabet False s \<noteq> []"
proof
  assume "base64Encode urlAlphabet False s = []"
  with base64_url[of s] assms show False by (simp add: base64Decode_def)
qed

lemma hmac_nonempty: "hmacSHA256 key msg \<noteq> []"
proof -
  have "length (hmacSHA256 key msg) = 32" by (simp add: hmacSHA256_def Sum256_length Let_def)
  then show ?thesis by auto
qed

text \<open>Removing the \<open>Bearer\<close> prefix and trimming gives the token back.\<close>

lemma bearer_trim: "TrimSpace (TrimPrefix (''Bearer '' @ accessTokenFor svc c) ''Bearer '') = accessTokenFor svc c"
proof -
  let ?t = "accessTokenFor svc c"
  define sig where "sig = sign svc (encodeJSON marshalHeader @ ''.'' @ encodeJSON (marshalClaims c))"
  have t: "?t = encodeJSON marshalHeader @ ''.'' @ encodeJSON (marshalClaims c) @ ''.'' @ sig"
    by (simp add: accessTokenFor_def sig_def)
  have h: "encodeJSON marshalHeader \<noteq> []" and sg: "sig \<noteq> []"
    by (simp_all add: encodeJSON_def sig_def sign_def marshalHeader_def base64url_nonempty hmac_nonempty)
  have "solidByte (hd ?t)"
    using urlAlphabet_solid[OF base64url_chars, of "hd (encodeJSON marshalHeader)" marshalHeader] h
    by (simp add: t encodeJSON_def)
  moreover have "solidByte (last ?t)"
    using urlAlphabet_solid[OF base64url_chars, of "last sig" "hmacSHA256 (ts_secret svc) (encodeJSON marshalHeader @ ''.'' @ encodeJSON (marshalClaims c))"] sg
    by (simp add: t sig_def sign_def)
  ultimately have "TrimSpace ?t = ?t" using h by (intro TrimSpace_solid) (auto simp: t)
  then show ?thesis by (simp add: TrimPrefix_def)
qed

section \<open>What a token is worth\<close>

text \<open>The clock shows an instant that an \<open>int64\<close> of nanoseconds since 1970 can tell.\<close>

definition clockInRange :: "'s env \<Rightarrow> 's \<Rightarrow> bool" where
  "clockInRange E s \<longleftrightarrow> 0 \<le> fst (run_state (env_now E) s) \<and> fst (run_state (env_now E) s) < 2 ^ 63"

lemma seconds_in_range: "0 \<le> t \<Longrightarrow> t < 2 ^ 64 \<Longrightarrow> inInt64 (unixSeconds t)"
  by (auto simp: inInt64_def unixSeconds_def)

lemma Verify_issued:
  assumes "unmarshalClaims (marshalClaims c) = Inr c"
  shows "VerifyAccessToken E svc (''Bearer '' @ accessTokenFor svc c) =
    do { now \<leftarrow> env_now E; if cl_ExpiresAt c \<le> unixSeconds now then fail (Plain ''token expired'') else ok c }"
proof -
  have "verifyParts E svc (encodeJSON marshalHeader) (encodeJSON (marshalClaims c)) (sign svc (encodeJSON marshalHeader @ ''.'' @ encodeJSON (marshalClaims c))) =
      do { now \<leftarrow> env_now E; if cl_ExpiresAt c \<le> unixSeconds now then fail (Plain ''token expired'') else ok c }"
    using assms by (simp add: verifyParts_def constantTimeEqual_def encodeJSON_def)
  then show ?thesis
    unfolding VerifyAccessToken_def Let_def bearer_trim accessToken_split by simp
qed

definition demoService :: TokenService where
  "demoService = \<lparr>ts_secret = ''jwt-1'', ts_ttl = 3600 * 1000000000\<rparr>"

definition demoClaims :: Claims where
  "demoClaims = \<lparr>cl_Subject = ''alice'', cl_AccessLevel = 1, cl_IssuedAt = 0, cl_ExpiresAt = 3600\<rparr>"

lemma demoClaims_unmarshal: "unmarshalClaims (marshalClaims demoClaims) = Inr demoClaims"
  by (rule unmarshal_marshal) (simp_all add: demoClaims_def byteOf_def inInt64_def)

text \<open>C16: a token issued for a subject verifies, behind the \<open>Bearer\<close> prefix the cookie stores it with, to
  exactly the claims it was issued for, up to the second of its expiry and not from then on; the
  expiry is the requested lifetime from now, cut to the configured one.\<close>

theorem token_roundtrip:
  assumes clock: "clockInRange E s" and ttl: "ts_ttl svc < 2 ^ 63"
    and subject: "validUTF8 subject" and level: "inInt64 level"
    and issue: "run_state (IssueAccessTokenWithLifetime E svc subject level lifetime) s = (Inr (tok, expiresAt), s1)"
  shows "\<exists>now. run_state (env_now E) s = (now, s1) \<and> expiresAt = now + min lifetime (ts_ttl svc) \<and> now < expiresAt \<and>
    (\<forall>s2 t s3. run_state (env_now E) s2 = (t, s3) \<longrightarrow>
      run_state (VerifyAccessToken E svc (''Bearer '' @ tok)) s2 =
        (if unixSeconds t < unixSeconds expiresAt
         then Inr \<lparr>cl_Subject = subject, cl_AccessLevel = level, cl_IssuedAt = unixSeconds now, cl_ExpiresAt = unixSeconds expiresAt\<rparr>
         else Inl (Plain ''token expired''), s3))"
proof -
  obtain now s0 where now: "run_state (env_now E) s = (now, s0)" by fastforce
  have pos: "0 < lifetime" "0 < ts_ttl svc"
    using issue by (auto simp: IssueAccessTokenWithLifetime_def fail_def not_le[symmetric] split: if_splits)
  let ?c = "\<lparr>cl_Subject = subject, cl_AccessLevel = level, cl_IssuedAt = unixSeconds now, cl_ExpiresAt = unixSeconds expiresAt\<rparr>"
  have e: "expiresAt = now + min lifetime (ts_ttl svc)" and s1: "s0 = s1" and tok: "tok = accessTokenFor svc ?c"
    using issue now pos by (auto simp: IssueAccessTokenWithLifetime_def ok_def Let_def min_def split: if_splits)
  have range: "0 \<le> now" "now < 2 ^ 63" using clock now unfolding clockInRange_def by (metis fst_conv)+
  have "unmarshalClaims (marshalClaims ?c) = Inr ?c"
    by (rule unmarshal_marshal) (use range e pos ttl subject level in \<open>auto intro!: seconds_in_range\<close>)
  note Verify_issued[OF this, of E svc, folded tok]
  then have "run_state (VerifyAccessToken E svc (''Bearer '' @ tok)) s2 =
      (if unixSeconds t < unixSeconds expiresAt then Inr ?c else Inl (Plain ''token expired''), s3)"
    if "run_state (env_now E) s2 = (t, s3)" for s2 t s3
    using that by (simp add: ok_def fail_def)
  with now e s1 pos show ?thesis by (intro exI[of _ now]) simp
qed

theorem token_roundtrip_witness:
  "\<exists>tok expiresAt s1. run_state (IssueAccessTokenWithLifetime mem_env demoService ''alice'' 1 (7200 * 1000000000)) (mem_init [] []) =
      (Inr (tok, expiresAt), s1) \<and> expiresAt = 3600 * 1000000000 \<and>
    fst (run_state (VerifyAccessToken mem_env demoService (''Bearer '' @ tok)) (mem_init [] [])) = Inr demoClaims"
proof -
  let ?m = "IssueAccessTokenWithLifetime mem_env demoService ''alice'' 1 (7200 * 1000000000)" let ?s = "mem_init [] []"
  have run: "run_state ?m ?s = (Inr (accessTokenFor demoService demoClaims, 3600 * 1000000000), ?s)"
    by (simp add: IssueAccessTokenWithLifetime_def demoService_def demoClaims_def mem_init_def ok_def unixSeconds_def)
  have now: "run_state (env_now mem_env) ?s = (0, ?s)" by (simp add: mem_init_def)
  have pre: "clockInRange mem_env ?s" "ts_ttl demoService < 2 ^ 63" "validUTF8 ''alice''" "inInt64 1"
    by (simp_all add: clockInRange_def mem_init_def demoService_def byteOf_def inInt64_def)
  from token_roundtrip[OF pre run] now
  have "fst (run_state (VerifyAccessToken mem_env demoService (''Bearer '' @ accessTokenFor demoService demoClaims)) ?s) = Inr demoClaims"
    by (auto simp: unixSeconds_def demoClaims_def)
  with run show ?thesis by blast
qed

text \<open>C15: only what the secret signed is accepted: claims come out of a token exactly when its third part is the
  HMAC of the first two under the secret of the service, its payload decodes to those claims, and their expiry is in the future.\<close>

theorem token_sound:
  assumes verify: "run_state (VerifyAccessToken E svc token) s = (Inr claims, s')"
  shows "\<exists>hdr body now payload.
    TrimSpace (TrimPrefix token ''Bearer '') = hdr @ ''.'' @ body @ ''.'' @ sign svc (hdr @ ''.'' @ body) \<and>
    base64Decode urlAlphabet False body = Inr payload \<and> unmarshalClaims payload = Inr claims \<and>
    run_state (env_now E) s = (now, s') \<and> unixSeconds now < cl_ExpiresAt claims"
proof -
  obtain hdr body sg where parts: "splitDots (TrimSpace (TrimPrefix token ''Bearer '')) = [hdr, body, sg]"
    and run: "run_state (verifyParts E svc hdr body sg) s = (Inr claims, s')"
    using verify by (auto simp: VerifyAccessToken_def fail_def Let_def split: list.splits)
  obtain now s0 where now: "run_state (env_now E) s = (now, s0)" by fastforce
  from run now obtain payload where
      sg: "sg = sign svc (hdr @ ''.'' @ body)" and p: "base64Decode urlAlphabet False body = Inr payload" "unmarshalClaims payload = Inr claims"
    and t: "s0 = s'" "unixSeconds now < cl_ExpiresAt claims"
    by (auto simp: verifyParts_def constantTimeEqual_def fail_def ok_def split: if_splits sum.splits)
  from splitDots_join[OF parts] sg p t now show ?thesis by blast
qed

theorem token_sound_witness:
  "\<exists>hdr body. accessTokenFor demoService demoClaims = hdr @ ''.'' @ body @ ''.'' @ sign demoService (hdr @ ''.'' @ body) \<and>
    fst (run_state (VerifyAccessToken mem_env demoService (''Bearer '' @ accessTokenFor demoService demoClaims)) (mem_init [] [])) = Inr demoClaims"
proof -
  let ?t = "''Bearer '' @ accessTokenFor demoService demoClaims" let ?s = "mem_init [] []"
  have run: "run_state (VerifyAccessToken mem_env demoService ?t) ?s = (Inr demoClaims, ?s)"
    unfolding Verify_issued[OF demoClaims_unmarshal] by (simp add: mem_init_def ok_def unixSeconds_def demoClaims_def)
  from token_sound[OF run] run show ?thesis unfolding bearer_trim by auto
qed

end
