(* ===== verification/Console_Ticket.thy ===== *)
theory Console_Ticket
  imports Token Go_Time
begin

text \<open>
  The tickets that open a VM console: \<open>cmd/kite-api/apis/console_ticket.go\<close>.  A ticket is a JSON text with the
  user, the VM and an expiry, encoded in base64url and signed with the JWT secret.
\<close>

section \<open>\<open>time.Time\<close> in JSON\<close>

text \<open>The fraction of a second as \<open>RFC3339Nano\<close> writes it: nine digits without the trailing zeros, nothing when all are zero.\<close>

fun digitsFrom :: "nat \<Rightarrow> int \<Rightarrow> string" where
  "digitsFrom 0 n = []"
| "digitsFrom (Suc k) n = digitsFrom k (n div 10) @ [byteChar (48 + nat (n mod 10))]"

definition trimZeros :: "string \<Rightarrow> string" where
  "trimZeros s = rev (dropWhile (\<lambda>c. c = CHR ''0'') (rev s))"

definition fractionText :: "int \<Rightarrow> string" where
  "fractionText nsec = (if nsec = 0 then [] else CHR ''.'' # trimZeros (digitsFrom 9 nsec))"

definition formatRFC3339Nano :: "int \<Rightarrow> string" where
  "formatRFC3339Nano t = dateTimeText t @ fractionText (t mod nsPerSec) @ ''Z''"

definition yearOf :: "int \<Rightarrow> int" where
  "yearOf t = fst (civilDate (t div nsPerSec div 86400))"

definition marshalTime :: "int \<Rightarrow> string result" where
  "marshalTime t =
     (if 0 \<le> yearOf t \<and> yearOf t < 10000 then Inr (CHR 0x22 # formatRFC3339Nano t @ [CHR 0x22])
      else Inl (Plain ''Time.MarshalJSON: year outside of range [0,9999]''))"

text \<open>The zero \<open>time.Time\<close>, the first of January of the year 1.\<close>

definition zeroTime :: int where "zeroTime = - 62135596800 * nsPerSec"

text \<open>\<open>UnmarshalJSON\<close> reads the raw text of the value.\<close>

definition unmarshalTime :: "int \<Rightarrow> string \<Rightarrow> int option" where
  "unmarshalTime t raw =
     (if raw = ''null'' then Some t
      else if length raw < 2 \<or> hd raw \<noteq> CHR 0x22 \<or> last raw \<noteq> CHR 0x22 then None
      else parseRFC3339 (butlast (tl raw)))"

section \<open>Tickets\<close>

record ConsoleTicket =
  ct_Subject :: string
  ct_Namespace :: string
  ct_VMName :: string
  ct_Purpose :: string
  ct_ExpiresAt :: int

definition consoleTicketPurpose :: string where "consoleTicketPurpose = ''vm-console''"

record ConsoleTicketService =
  cs_ttl :: int
  cs_secret :: string

definition NewConsoleTicketService :: "int \<Rightarrow> string \<Rightarrow> ConsoleTicketService" where
  "NewConsoleTicketService ttl secret = \<lparr>cs_ttl = ttl, cs_secret = secret\<rparr>"

text \<open>\<open>json.Marshal\<close> and \<open>json.Unmarshal\<close> of the ticket.\<close>

definition marshalTicket :: "ConsoleTicket \<Rightarrow> string result" where
  "marshalTicket ticket =
     (case marshalTime (ct_ExpiresAt ticket) of
        Inl e \<Rightarrow> Inl (Wrapped ''json: error calling MarshalJSON for type time.Time: '' e [])
      | Inr expiresAt \<Rightarrow>
          Inr (''{'' @ jsonKey ''sub'' @ marshalString (ct_Subject ticket) @ '','' @
            jsonKey ''namespace'' @ marshalString (ct_Namespace ticket) @ '','' @
            jsonKey ''vmName'' @ marshalString (ct_VMName ticket) @ '','' @
            jsonKey ''purpose'' @ marshalString (ct_Purpose ticket) @ '','' @
            jsonKey ''expiresAt'' @ expiresAt @ ''}''))"

text \<open>The raw texts of the members of an object that parses; they start before the first member.\<close>

fun memberTexts :: "nat \<Rightarrow> string \<Rightarrow> string list" where
  "memberTexts 0 s = []"
| "memberTexts (Suc n) s =
     (case skipSpace s of
        [] \<Rightarrow> []
      | q # qs \<Rightarrow>
          case unquote qs of None \<Rightarrow> [] | Some (key, s1) \<Rightarrow>
          case skipSpace s1 of [] \<Rightarrow> [] | col # s2 \<Rightarrow>
          case parseValue n 1 s2 of None \<Rightarrow> [] | Some (v, s3) \<Rightarrow>
          take (length (skipSpace s2) - length s3) (skipSpace s2) #
          (case skipSpace s3 of [] \<Rightarrow> [] | e # s4 \<Rightarrow> if e = CHR '','' then memberTexts n s4 else []))"

definition objectTexts :: "string \<Rightarrow> string list" where
  "objectTexts s = memberTexts (length s) (skipSpace (tl (skipSpace s)))"

definition decodeText :: "json \<Rightarrow> (string \<Rightarrow> ConsoleTicket) \<Rightarrow> ConsoleTicket \<Rightarrow> ConsoleTicket option" where
  "decodeText v put t = (case v of JNull \<Rightarrow> Some t | JStr s \<Rightarrow> Some (put s) | _ \<Rightarrow> None)"

definition ticketField :: "ConsoleTicket \<Rightarrow> string \<Rightarrow> json \<Rightarrow> string \<Rightarrow> ConsoleTicket option" where
  "ticketField t key v raw =
     (if foldName key = ''sub'' then decodeText v (\<lambda>s. t\<lparr>ct_Subject := s\<rparr>) t
      else if foldName key = ''namespace'' then decodeText v (\<lambda>s. t\<lparr>ct_Namespace := s\<rparr>) t
      else if foldName key = foldName ''vmName'' then decodeText v (\<lambda>s. t\<lparr>ct_VMName := s\<rparr>) t
      else if foldName key = ''purpose'' then decodeText v (\<lambda>s. t\<lparr>ct_Purpose := s\<rparr>) t
      else if foldName key = foldName ''expiresAt'' then map_option (\<lambda>e. t\<lparr>ct_ExpiresAt := e\<rparr>) (unmarshalTime (ct_ExpiresAt t) raw)
      else Some t)"

fun ticketFields :: "((string \<times> json) \<times> string) list \<Rightarrow> ConsoleTicket \<Rightarrow> ConsoleTicket option" where
  "ticketFields [] t = Some t"
| "ticketFields (((key, v), raw) # ms) t = Option.bind (ticketField t key v raw) (ticketFields ms)"

definition noTicket :: ConsoleTicket where
  "noTicket = \<lparr>ct_Subject = [], ct_Namespace = [], ct_VMName = [], ct_Purpose = [], ct_ExpiresAt = zeroTime\<rparr>"

definition unmarshalTicket :: "string \<Rightarrow> ConsoleTicket result" where
  "unmarshalTicket payload =
     (case parseJSON payload of
        None \<Rightarrow> Inl (Plain ''invalid JSON'')
      | Some JNull \<Rightarrow> Inr noTicket
      | Some (JObj ms) \<Rightarrow>
          (case ticketFields (zip ms (objectTexts payload)) noTicket of None \<Rightarrow> Inl (Plain ''json: cannot unmarshal'') | Some t \<Rightarrow> Inr t)
      | Some _ \<Rightarrow> Inl (Plain ''json: cannot unmarshal''))"

definition ticket_sign :: "ConsoleTicketService \<Rightarrow> string \<Rightarrow> string" where
  "ticket_sign s payload = base64Encode urlAlphabet False (hmacSHA256 (cs_secret s) payload)"

definition ticket_Issue :: "ConsoleTicketService \<Rightarrow> string \<Rightarrow> string \<Rightarrow> string \<Rightarrow> int \<Rightarrow> (string \<times> ConsoleTicket) result" where
  "ticket_Issue s subject namespace vmName now =
     (if cs_secret s = [] then Inl (Plain ''console ticket secret is not configured'')
      else
        let ticket = \<lparr>ct_Subject = subject, ct_Namespace = namespace, ct_VMName = vmName, ct_Purpose = consoleTicketPurpose,
              ct_ExpiresAt = now + cs_ttl s\<rparr> in
        case marshalTicket ticket of
          Inl e \<Rightarrow> Inl (Wrapped ''marshal console ticket: '' e [])
        | Inr payload \<Rightarrow>
            let encodedPayload = base64Encode urlAlphabet False payload in
            Inr (encodedPayload @ ''.'' @ ticket_sign s encodedPayload, ticket))"

definition checkTicket :: "ConsoleTicket \<Rightarrow> string \<Rightarrow> string \<Rightarrow> int \<Rightarrow> ConsoleTicket result" where
  "checkTicket ticket namespace vmName now =
     (if ct_Purpose ticket \<noteq> consoleTicketPurpose then Inl (Plain ''console ticket purpose is invalid'')
      else if \<not> now < ct_ExpiresAt ticket then Inl (Plain ''console ticket expired'')
      else if namespace \<noteq> [] \<and> ct_Namespace ticket \<noteq> namespace then Inl (Plain ''console ticket target mismatch'')
      else if ct_VMName ticket \<noteq> vmName then Inl (Plain ''console ticket target mismatch'')
      else Inr ticket)"

definition ticket_Consume :: "ConsoleTicketService \<Rightarrow> string \<Rightarrow> string \<Rightarrow> string \<Rightarrow> int \<Rightarrow> ConsoleTicket result" where
  "ticket_Consume s token namespace vmName now =
     (if cs_secret s = [] then Inl (Plain ''console ticket secret is not configured'')
      else case splitDots token of
        [body, signature] \<Rightarrow>
          if \<not> constantTimeEqual signature (ticket_sign s body) then Inl (Plain ''console ticket signature is invalid'')
          else (case base64Decode urlAlphabet False body of
             Inl e \<Rightarrow> Inl (Wrapped ''decode console ticket: '' e [])
           | Inr payload \<Rightarrow>
               (case unmarshalTicket payload of
                  Inl e \<Rightarrow> Inl (Wrapped ''parse console ticket: '' e [])
                | Inr ticket \<Rightarrow> checkTicket ticket namespace vmName now))
      | _ \<Rightarrow> Inl (Plain ''console ticket format is invalid''))"

section \<open>The fraction round trip\<close>

definition digitsValue :: "string \<Rightarrow> int" where
  "digitsValue ds = foldl (\<lambda>acc d. 10 * acc + digitVal d) 0 ds"

lemma digitsValue_snoc: "digitsValue (ds @ [d]) = 10 * digitsValue ds + digitVal d"
  by (simp add: digitsValue_def)

lemma trimZeros_split: "\<exists>k. s = trimZeros s @ replicate k (CHR ''0'')"
proof (induction s rule: rev_induct)
  case (snoc c s)
  then obtain k where k: "s = trimZeros s @ replicate k (CHR ''0'')" by blast
  show ?case
  proof (cases "c = CHR ''0''")
    case True
    then have "trimZeros (s @ [c]) = trimZeros s" by (simp add: trimZeros_def)
    moreover have "s @ [c] = trimZeros s @ replicate (Suc k) (CHR ''0'')"
      using True by (subst k) (simp add: replicate_append_same)
    ultimately show ?thesis by metis
  next
    case False
    then have "s @ [c] = trimZeros (s @ [c]) @ replicate 0 (CHR ''0'')" by (simp add: trimZeros_def)
    then show ?thesis by blast
  qed
qed (simp add: trimZeros_def)

lemma digitsValue_zeros: "digitsValue (ds @ replicate k (CHR ''0'')) = digitsValue ds * 10 ^ k"
proof (induction k)
  case (Suc k)
  have "ds @ replicate (Suc k) (CHR ''0'') = (ds @ replicate k (CHR ''0'')) @ [CHR ''0'']"
    by (simp add: replicate_append_same)
  then show ?case using Suc by (simp only: digitsValue_snoc) (simp add: digitVal_def byteOf_def)
qed simp

lemma digitsValue_digitsFrom: "0 \<le> n \<Longrightarrow> n < 10 ^ k \<Longrightarrow> digitsValue (digitsFrom k n) = n"
proof (induction k arbitrary: n)
  case (Suc k)
  have "digitVal (byteChar (48 + nat (n mod 10))) = n mod 10" using digitVal_digit[of "nat (n mod 10)"] by simp
  moreover have "digitsValue (digitsFrom k (n div 10)) = n div 10"
    using Suc.prems by (intro Suc.IH) (simp_all add: pos_imp_zdiv_nonneg_iff div_less_iff_less_mult)
  ultimately show ?case by (simp add: digitsValue_snoc)
qed (simp add: digitsValue_def)

lemma digitsFrom_digits: "list_all isDigitByte (digitsFrom k n)" and digitsFrom_length: "length (digitsFrom k n) = k"
proof -
  have "isDigitByte (byteChar (48 + nat (m mod 10)))" for m :: int
  proof -
    have "nat (m mod 10) < 10" using pos_mod_bound[of 10 m] by simp
    then show ?thesis by (simp add: isDigitByte_def)
  qed
  then show "list_all isDigitByte (digitsFrom k n)" by (induction k arbitrary: n) simp_all
  show "length (digitsFrom k n) = k" by (induction k arbitrary: n) simp_all
qed

lemma takeWhile_all: "list_all P xs \<Longrightarrow> \<not> P c \<Longrightarrow> takeWhile P (xs @ c # ys) = xs"
  by (induction xs) auto

lemma fraction_text:
  assumes "0 \<le> n" "n < 10 ^ 9"
  shows "fraction (fractionText n @ ''Z'') = (n, ''Z'')"
proof (cases "n = 0")
  case False
  obtain k where k: "digitsFrom 9 n = trimZeros (digitsFrom 9 n) @ replicate k (CHR ''0'')" using trimZeros_split by blast
  let ?ds = "trimZeros (digitsFrom 9 n)"
  have len: "length ?ds + k = 9" using arg_cong[OF k, of length] by (simp add: digitsFrom_length)
  have digits: "list_all isDigitByte ?ds" using digitsFrom_digits[of 9 n] by (subst (asm) k) simp
  have val: "digitsValue ?ds * 10 ^ k = n"
    using digitsValue_zeros[of ?ds k] digitsValue_digitsFrom[OF assms] k by simp
  with False have "?ds \<noteq> []" by (auto simp: digitsValue_def)
  moreover have "\<not> isDigitByte (CHR ''Z'')" by (simp add: isDigitByte_def byteOf_def)
  then have "takeWhile isDigitByte (?ds @ ''Z'') = ?ds" using takeWhile_all[OF digits, of "CHR ''Z''" "[]"] by simp
  moreover have "9 - length ?ds = k" "take 9 ?ds = ?ds" using len by simp_all
  ultimately show ?thesis using False val by (simp add: fraction_def fractionText_def Let_def digitsValue_def)
qed (simp add: fractionText_def fraction_Z)

lemma parse_formatNano:
  assumes "0 \<le> yearOf t" "yearOf t < 10000"
  shows "parseRFC3339 (formatRFC3339Nano t) = Some t"
  using parse_dateTime[of t, OF assms[unfolded yearOf_def] fraction_text, of "t mod nsPerSec"]
  by (simp add: formatRFC3339Nano_def nsPerSec_def)

section \<open>The JSON round trip\<close>

definition timeChar :: "char \<Rightarrow> bool" where
  "timeChar c \<longleftrightarrow> isDigitByte c \<or> c \<in> set ''-:TZ.''"

lemma timeChar_plain: "timeChar c \<Longrightarrow> escapeByte c = [c] \<and> byteOf c < 128"
proof -
  assume "timeChar c"
  then consider (digit) "48 \<le> byteOf c" "byteOf c \<le> 57" | (other) "c \<in> set ''-:TZ.''"
    unfolding timeChar_def isDigitByte_def by blast
  then show ?thesis
  proof cases
    case digit
    then have "c \<notin> {CHR 0x22, CHR 0x5C, CHR 0x08, CHR 0x0C, CHR 0x0A, CHR 0x0D, CHR 0x09, CHR ''<'', CHR ''>'', CHR ''&''}"
      by (auto simp: byteOf_def)
    with digit show ?thesis by (simp add: escapeByte_def)
  next
    case other
    have "\<forall>c \<in> set ''-:TZ.''. escapeByte c = [c] \<and> byteOf c < 128" by code_simp
    with other show ?thesis by blast
  qed
qed

lemma plain_timeText: "list_all timeChar s \<Longrightarrow> plainName s"
  unfolding plainName_def by (induction s) (simp_all add: timeChar_plain)

lemma timeChar_pad2: "0 \<le> n \<Longrightarrow> n < 100 \<Longrightarrow> list_all timeChar (pad2 n)"
proof -
  assume "0 \<le> n" "n < 100"
  then have "nat n div 10 \<le> 9" "nat n mod 10 \<le> 9" by linarith+
  then show ?thesis by (simp add: pad2_def timeChar_def isDigitByte_def)
qed

lemma timeChar_digits: "list_all isDigitByte s \<Longrightarrow> list_all timeChar s"
  by (simp add: timeChar_def list_all_iff)

lemma timeChar_fraction: "list_all timeChar (fractionText n)"
proof -
  obtain k where "digitsFrom 9 n = trimZeros (digitsFrom 9 n) @ replicate k (CHR ''0'')" using trimZeros_split by blast
  then have "list_all isDigitByte (trimZeros (digitsFrom 9 n))" using digitsFrom_digits[of 9 n] by (metis list_all_append)
  then show ?thesis by (simp add: fractionText_def timeChar_digits) (simp add: timeChar_def)
qed

lemma timeChar_parts:
  assumes "0 \<le> year" "year < 10000" "1 \<le> month" "month \<le> 12" "1 \<le> day" "day \<le> daysIn month year"
    "0 \<le> h" "h \<le> 23" "0 \<le> m" "m \<le> 59" "0 \<le> s" "s \<le> 59"
  shows "list_all timeChar (pad4 year @ ''-'' @ pad2 month @ ''-'' @ pad2 day @ ''T'' @ pad2 h @ '':'' @ pad2 m @ '':'' @ pad2 s)"
proof -
  have "day < 100" using assms(6) by (auto simp: daysIn_def split: if_splits)
  moreover have "list_all timeChar (pad4 year)" using assms by (simp add: pad4_def timeChar_pad2)
  moreover have "timeChar (CHR ''-'')" "timeChar (CHR '':'')" "timeChar (CHR ''T'')" by (simp_all add: timeChar_def)
  ultimately show ?thesis using assms by (simp add: timeChar_pad2)
qed

lemma timeChar_dateTime:
  assumes "0 \<le> yearOf t" "yearOf t < 10000"
  shows "list_all timeChar (dateTimeText t)"
proof -
  obtain year month day where c: "civilDate (t div nsPerSec div 86400) = (year, month, day)" by (cases "civilDate (t div nsPerSec div 86400)") auto
  have y: "0 \<le> year" "year < 10000" using assms by (simp_all add: yearOf_def c)
  show ?thesis
    unfolding dateTimeText_def Let_def c prod.case
    by (rule timeChar_parts[OF y civilDate_spec(2-5)[OF c] clockParts])
qed

lemma marshalTime_string: "marshalTime t = Inr x \<Longrightarrow> x = marshalString (formatRFC3339Nano t) \<and> validUTF8 (formatRFC3339Nano t) \<and> parseRFC3339 (formatRFC3339Nano t) = Some t"
proof -
  assume x: "marshalTime t = Inr x"
  then have year: "0 \<le> yearOf t" "yearOf t < 10000" by (auto simp: marshalTime_def split: if_splits)
  have "list_all timeChar (formatRFC3339Nano t)"
    using timeChar_dateTime[OF year] timeChar_fraction by (simp add: formatRFC3339Nano_def) (simp add: timeChar_def)
  then have "plainName (formatRFC3339Nano t)" by (rule plain_timeText)
  with x year show ?thesis by (simp add: marshalTime_def plainName_def marshalString_def parse_formatNano)
qed

lemma plain_ticketNames [simp]: "plainName ''namespace''" "plainName ''vmName''" "plainName ''purpose''" "plainName ''expiresAt''"
  by (simp_all add: plainName_def escapeByte_def byteOf_def)

lemma parse_last_string:
  assumes "plainName key" "validUTF8 s"
  shows "parseMembers (Suc (Suc n)) d (jsonKey key @ marshalString s @ CHR ''}'' # rest) = Some ([(key, JStr s)], rest)"
  by (rule parse_member(1)[OF assms(1) parse_string[OF assms(2)]]) simp

text \<open>The raw text of a string member is its encoding.\<close>

lemma memberTexts_string:
  assumes "plainName key" "validUTF8 s"
  shows "memberTexts (Suc (Suc n)) (jsonKey key @ marshalString s @ CHR '','' # rest) = marshalString s # memberTexts (Suc n) rest"
    and "memberTexts (Suc (Suc n)) (jsonKey key @ marshalString s @ CHR ''}'' # rest) = [marshalString s]"
proof -
  have start: "skipSpace (marshalString s @ zs) = marshalString s @ zs" for zs by (simp add: marshalString_def)
  have key: "unquote (key @ CHR 0x22 # CHR '':'' # zs) = Some (key, CHR '':'' # zs)" for zs
    using unquote_escapeString[of key "CHR '':'' # zs"] assms(1) by (simp add: plainName_def)
  note parse = parse_string[OF assms(2), of n "Suc 0"]
  show "memberTexts (Suc (Suc n)) (jsonKey key @ marshalString s @ CHR '','' # rest) = marshalString s # memberTexts (Suc n) rest"
    and "memberTexts (Suc (Suc n)) (jsonKey key @ marshalString s @ CHR ''}'' # rest) = [marshalString s]"
    by (simp_all only: memberTexts.simps(2)[of "Suc n"]) (simp_all add: jsonKey_def key start parse del: parseValue.simps memberTexts.simps)
qed

lemma unmarshal_marshalTicket:
  assumes valid: "validUTF8 (ct_Subject t)" "validUTF8 (ct_Namespace t)" "validUTF8 (ct_VMName t)" "validUTF8 (ct_Purpose t)"
    and payload: "marshalTicket t = Inr payload"
  shows "unmarshalTicket payload = Inr t"
proof -
  obtain x where x: "marshalTime (ct_ExpiresAt t) = Inr x" using payload by (auto simp: marshalTicket_def split: sum.splits)
  let ?e = "formatRFC3339Nano (ct_ExpiresAt t)"
  have e: "x = marshalString ?e" "validUTF8 ?e" "parseRFC3339 ?e = Some (ct_ExpiresAt t)" using marshalTime_string[OF x] by simp_all
  define ms where "ms = jsonKey ''sub'' @ marshalString (ct_Subject t) @ CHR '','' # jsonKey ''namespace'' @ marshalString (ct_Namespace t) @
     CHR '','' # jsonKey ''vmName'' @ marshalString (ct_VMName t) @ CHR '','' # jsonKey ''purpose'' @ marshalString (ct_Purpose t) @
     CHR '','' # jsonKey ''expiresAt'' @ marshalString ?e @ CHR ''}'' # []"
  have s: "payload = CHR ''{'' # ms" using payload by (simp add: marshalTicket_def x e(1) ms_def)
  have "6 \<le> length ms" by (simp add: ms_def jsonKey_def)
  then obtain n where "length ms = 6 + n" by (metis le_Suc_ex)
  then have n: "length ms = Suc (Suc (Suc (Suc (Suc (Suc n)))))" by simp
  let ?members = "[(''sub'', JStr (ct_Subject t)), (''namespace'', JStr (ct_Namespace t)), (''vmName'', JStr (ct_VMName t)),
      (''purpose'', JStr (ct_Purpose t)), (''expiresAt'', JStr ?e)]"
  let ?texts = "[marshalString (ct_Subject t), marshalString (ct_Namespace t), marshalString (ct_VMName t),
      marshalString (ct_Purpose t), marshalString ?e]"
  have m: "parseMembers (Suc (length ms)) 1 ms = Some (?members, [])"
    unfolding n unfolding ms_def using valid e(2)
    by (simp only: parse_string_member parse_last_string plain_names plain_ticketNames) simp
  have texts: "memberTexts (Suc (length ms)) ms = ?texts"
    unfolding n unfolding ms_def using valid e(2)
    by (simp only: memberTexts_string plain_names plain_ticketNames)
  obtain r where r: "ms = CHR 0x22 # r" by (simp add: ms_def jsonKey_def)
  have "parseValue (Suc (length payload)) 0 payload = Some (JObj ?members, [])"
    using m unfolding s r by (simp add: maxNestingDepth_def)
  then have "parseJSON payload = Some (JObj ?members)" by (simp add: parseJSON_def)
  moreover have "objectTexts payload = ?texts"
    using texts unfolding objectTexts_def s r by (simp del: memberTexts.simps)
  moreover have raw: "unmarshalTime y (marshalString ?e) = Some (ct_ExpiresAt t)" for y
    using e(1) x e(3) by (auto simp: unmarshalTime_def marshalTime_def marshalString_def split: if_splits)
  ultimately show ?thesis
    by (simp add: unmarshalTicket_def ticketField_def decodeText_def noTicket_def raw isUpperByte_def byteOf_def)
qed

section \<open>What a ticket is worth\<close>


lemma ticket_Issue_fields:
  "ticket_Issue svc subject namespace vmName now = Inr (token, ticket) \<Longrightarrow>
     ct_Subject ticket = subject \<and> ct_Namespace ticket = namespace \<and> ct_VMName ticket = vmName \<and> ct_ExpiresAt ticket = now + cs_ttl svc"
  by (auto simp: ticket_Issue_def Let_def split: if_splits sum.splits)

lemma console_ticket_accepted:
  assumes valid: "validUTF8 subject" "validUTF8 namespace" "validUTF8 vmName"
    and issue: "ticket_Issue svc subject namespace vmName now = Inr (token, ticket)"
  shows "ticket_Consume svc token ns name t = Inr ticket' \<longleftrightarrow>
    ticket' = ticket \<and> t < now + cs_ttl svc \<and> name = vmName \<and> (ns = [] \<or> ns = namespace)"
proof -
  let ?t = "\<lparr>ct_Subject = subject, ct_Namespace = namespace, ct_VMName = vmName, ct_Purpose = consoleTicketPurpose,
      ct_ExpiresAt = now + cs_ttl svc\<rparr>"
  obtain payload where p: "marshalTicket ?t = Inr payload" and secret: "cs_secret svc \<noteq> []" and ticket: "ticket = ?t"
    and token: "token = base64Encode urlAlphabet False payload @ ''.'' @ ticket_sign svc (base64Encode urlAlphabet False payload)"
    using issue by (auto simp: ticket_Issue_def Let_def split: if_splits sum.splits)
  have "validUTF8 consoleTicketPurpose" by (simp add: consoleTicketPurpose_def byteOf_def)
  then have "unmarshalTicket payload = Inr ?t" using valid by (intro unmarshal_marshalTicket[OF _ _ _ _ p]) simp_all
  moreover have "splitDots token = [base64Encode urlAlphabet False payload, ticket_sign svc (base64Encode urlAlphabet False payload)]"
    by (simp add: token splitDots_append splitDots_plain base64url_no_dot ticket_sign_def)
  ultimately have "ticket_Consume svc token ns name t = checkTicket ?t ns name t"
    using secret base64_url[of payload] by (simp add: ticket_Consume_def constantTimeEqual_def)
  then show ?thesis unfolding ticket by (auto simp: checkTicket_def)
qed


definition demoTickets :: ConsoleTicketService where
  "demoTickets = NewConsoleTicketService (30 * 1000000000) ''jwt-1''"


end
