(* ===== verification/Account_Service.thy ===== *)
theory Account_Service
  imports Store Auth
begin

text \<open>
  \<open>internal/account/service.go\<close>: KiteUser accounts.  Sign-up with unique user names and e-mail
  addresses, the first user becoming administrator; authentication with migration of legacy
  password hashes; administrative update; and deletion together with the virtual machines of the
  user's namespace.

  Go names that the packages \<open>vm\<close> and \<open>account\<close> share (\<open>invalid\<close>, \<open>recordFromObject\<close>, ...) carry the
  prefix \<open>account_\<close> here.
\<close>

section \<open>Types and errors\<close>

definition account_invalid :: "string \<Rightarrow> goerr" where
  "account_invalid message = ReqErr PkgAccount ''invalid'' message"

definition account_conflict :: "string \<Rightarrow> goerr" where
  "account_conflict message = ReqErr PkgAccount ''conflict'' message"

definition account_RequestErrorKind :: "goerr \<Rightarrow> string option" where
  "account_RequestErrorKind e =
     (case e of ReqErr p kind _ \<Rightarrow> if p = PkgAccount then Some kind else None | _ \<Rightarrow> None)"

definition defaultProfileImage :: string where
  "defaultProfileImage = []"

definition AccessLevelReadOnly :: int where "AccessLevelReadOnly = 0"

definition AccessLevelUser :: int where "AccessLevelUser = 1"

definition AccessLevelManager :: int where "AccessLevelManager = 2"

definition AccessLevelAdmin :: int where "AccessLevelAdmin = 3"

lemmas access_level_defs =
  AccessLevelReadOnly_def AccessLevelUser_def AccessLevelManager_def AccessLevelAdmin_def

record PublicUser =
  pu_name :: string
  pu_username :: string
  pu_email :: string
  pu_namespace :: string
  pu_profileImage :: string
  pu_accessLevel :: int

record SignUpRequest =
  su_name :: string
  su_username :: string
  su_email :: string
  su_password :: string
  su_namespace :: string

record account_UpdateRequest =
  au_email :: "string option"
  au_password :: "string option"
  au_namespace :: "string option"
  au_profileImage :: "string option"
  au_accessLevel :: "int option"

section \<open>Conversions\<close>

definition specFromObject :: "kobj \<Rightarrow> gomap result" where
  "specFromObject obj =
     (case asMap (objField obj ''spec'') of
        None \<Rightarrow> Inl (account_invalid ''invalid kite user spec'')
      | Some spec \<Rightarrow> Inr spec)"

definition emailLookupKey :: "'s env \<Rightarrow> string \<Rightarrow> string" where
  "emailLookupKey E email = ToLower E (TrimSpace email)"

definition publicUserFromSpec :: "string \<Rightarrow> gomap \<Rightarrow> PublicUser" where
  "publicUserFromSpec name spec =
     \<lparr>pu_name = name, pu_username = stringValue spec ''username'', pu_email = stringValue spec ''email'',
      pu_namespace = stringValue spec ''namespace'', pu_profileImage = defaultProfileImage,
      pu_accessLevel = intValue spec ''access_level''\<rparr>"

definition publicUserFromObject :: "kobj \<Rightarrow> PublicUser result" where
  "publicUserFromObject obj =
     (case specFromObject obj of Inl e \<Rightarrow> Inl e | Inr spec \<Rightarrow> Inr (publicUserFromSpec (k_name obj) spec))"

definition account_recordFromObject :: "kobj \<Rightarrow> KiteUserRecord result" where
  "account_recordFromObject obj =
     (case specFromObject obj of
        Inl e \<Rightarrow> Inl e
      | Inr spec \<Rightarrow> Inr
          \<lparr>ur_name = k_name obj,
           ur_spec =
             \<lparr>us_username = stringValue spec ''username'', us_email = stringValue spec ''email'',
              us_password = stringValue spec ''password'', us_namespace = stringValue spec ''namespace'',
              us_profileImage = defaultProfileImage,
              us_accessLevel = intValue spec ''access_level''\<rparr>\<rparr>)"

definition kiteUserName :: "'s env \<Rightarrow> string \<Rightarrow> ('s, string) state" where
  "kiteUserName E requestedName =
     (if requestedName \<noteq> [] then State_Monad.return requestedName
      else do { u \<leftarrow> env_uuid E; State_Monad.return (''ku-'' @ u) })"

definition kiteUserNamespace :: "string \<Rightarrow> string \<Rightarrow> string" where
  "kiteUserNamespace userName requestedNamespace =
     (if requestedNamespace \<noteq> [] then requestedNamespace else ''kite-user-'' @ userName)"

section \<open>Lookups\<close>

text \<open>The loops of \<open>FindByUsername\<close> and \<open>FindByEmail\<close>: malformed objects are skipped.\<close>

definition userMatches :: "(gomap \<Rightarrow> bool) \<Rightarrow> kobj \<Rightarrow> bool" where
  "userMatches p item = (case specFromObject item of Inl _ \<Rightarrow> False | Inr spec \<Rightarrow> p spec)"

definition FindByUsername :: "'s env \<Rightarrow> string \<Rightarrow> ('s, kobj option result) state" where
  "FindByUsername E username0 =
     (let username = TrimSpace username0 in
      tryE (UserStore_List E) (\<lambda>items.
        ok (List.find (userMatches (\<lambda>spec. stringValue spec ''username'' = username)) items)))"

definition FindByEmail :: "'s env \<Rightarrow> string \<Rightarrow> ('s, kobj option result) state" where
  "FindByEmail E email0 =
     (let email = emailLookupKey E email0 in
      tryE (UserStore_List E) (\<lambda>items.
        ok (List.find (userMatches (\<lambda>spec. emailLookupKey E (stringValue spec ''email'') = email)) items)))"

definition accessLevelForNewUser :: "'s env \<Rightarrow> ('s, int result) state" where
  "accessLevelForNewUser E =
     tryE (UserStore_List E) (\<lambda>items. ok (if length items = 0 then AccessLevelAdmin else AccessLevelReadOnly))"

section \<open>Sign-up\<close>

definition newSignUpRecord :: "'s env \<Rightarrow> string \<Rightarrow> SignUpRequest \<Rightarrow> ('s, KiteUserRecord result) state" where
  "newSignUpRecord E passwordSalt req =
     (let name0 = TrimSpace (su_name req); username = TrimSpace (su_username req);
          email = TrimSpace (su_email req); namespace0 = TrimSpace (su_namespace req) in
      if username = [] \<or> email = [] \<or> su_password req = [] then
        fail (account_invalid ''username, email, and password are required'')
      else if passwordSalt = [] then fail (account_invalid ''password salt is not configured'')
      else
      tryE (FindByUsername E username) (\<lambda>byName.
      if byName \<noteq> None then fail (account_conflict ''username already exists'') else
      tryE (FindByEmail E email) (\<lambda>byEmail.
      if byEmail \<noteq> None then fail (account_conflict ''email already exists'') else
      tryE (accessLevelForNewUser E) (\<lambda>accessLevel. do {
        name \<leftarrow> kiteUserName E name0;
        tryE (HashPassword E (su_password req) passwordSalt) (\<lambda>passwordHash.
        ok \<lparr>ur_name = name,
             ur_spec =
               \<lparr>us_username = username, us_email = email, us_password = passwordHash,
                us_namespace = kiteUserNamespace name namespace0,
                us_profileImage = defaultProfileImage, us_accessLevel = accessLevel\<rparr>\<rparr>)
      }))))"

definition SignUp :: "'s env \<Rightarrow> string \<Rightarrow> SignUpRequest \<Rightarrow> ('s, PublicUser result) state" where
  "SignUp E passwordSalt req =
     tryE (newSignUpRecord E passwordSalt req) (\<lambda>rec. do {
       createdR \<leftarrow> UserStore_Create E rec;
       case createdR of
         Inl e \<Rightarrow> if apiIsAlreadyExists e then fail (account_conflict ''kite user already exists'') else fail e
       | Inr x \<Rightarrow> State_Monad.return (publicUserFromObject x)
     })"

section \<open>Reading\<close>

fun publicUsers :: "kobj list \<Rightarrow> PublicUser list result" where
  "publicUsers [] = Inr []"
| "publicUsers (item # items) =
     (case publicUserFromObject item of
        Inl e \<Rightarrow> Inl e
      | Inr user \<Rightarrow> (case publicUsers items of Inl e \<Rightarrow> Inl e | Inr users \<Rightarrow> Inr (user # users)))"

definition Account_List :: "'s env \<Rightarrow> ('s, PublicUser list result) state" where
  "Account_List E = tryE (UserStore_List E) (\<lambda>items. State_Monad.return (publicUsers items))"

definition Account_Get :: "'s env \<Rightarrow> string \<Rightarrow> ('s, PublicUser result) state" where
  "Account_Get E name = tryE (UserStore_Get E name) (\<lambda>user. State_Monad.return (publicUserFromObject user))"

section \<open>Authentication\<close>

definition rehashUserPassword :: "'s env \<Rightarrow> string \<Rightarrow> kobj \<Rightarrow> string \<Rightarrow> ('s, unit result) state" where
  "rehashUserPassword E passwordSalt user password =
     tryE (State_Monad.return (account_recordFromObject user)) (\<lambda>rec.
     tryE (HashPassword E password passwordSalt) (\<lambda>passwordHash.
     tryE (UserStore_Update E (rec\<lparr>ur_spec := (ur_spec rec)\<lparr>us_password := passwordHash\<rparr>\<rparr>)) (\<lambda>_. ok ())))"

text \<open>The pair of a user and \<open>true\<close> is \<open>Some user\<close>; \<open>false\<close> without an error is \<open>None\<close>.\<close>

definition Authenticate :: "'s env \<Rightarrow> string \<Rightarrow> string \<Rightarrow> string \<Rightarrow> ('s, PublicUser option result) state" where
  "Authenticate E passwordSalt email password =
     (if passwordSalt = [] then fail (account_invalid ''password salt is not configured'') else
      tryE (FindByEmail E email) (\<lambda>found.
      case found of None \<Rightarrow> ok None | Some user \<Rightarrow>
      tryE (State_Monad.return (specFromObject user)) (\<lambda>spec.
      let storedPassword = stringValue spec ''password'' in
      if \<not> VerifyPassword E password passwordSalt storedPassword then ok None
      else
      tryE (if PasswordNeedsRehash storedPassword then rehashUserPassword E passwordSalt user password
            else ok ()) (\<lambda>_.
      ok (Some (publicUserFromSpec (k_name user) spec))))))"

section \<open>Update and delete\<close>

definition rejectDuplicateEmailUpdate :: "'s env \<Rightarrow> string \<Rightarrow> string option \<Rightarrow> ('s, unit result) state" where
  "rejectDuplicateEmailUpdate E currentName email =
     (case email of
        None \<Rightarrow> ok ()
      | Some em \<Rightarrow>
          if emailLookupKey E em = [] then ok ()
          else tryE (FindByEmail E em) (\<lambda>found.
            case found of
              None \<Rightarrow> ok ()
            | Some existingUser \<Rightarrow>
                if k_name existingUser \<noteq> currentName then fail (account_conflict ''email already exists'')
                else ok ()))"

definition account_applyUpdate :: "'s env \<Rightarrow> string \<Rightarrow> KiteUserRecord \<Rightarrow> account_UpdateRequest \<Rightarrow>
    ('s, KiteUserRecord result) state" where
  "account_applyUpdate E passwordSalt rec req =
     tryE (case au_email req of
        None \<Rightarrow> ok (ur_spec rec)
      | Some email \<Rightarrow>
          if TrimSpace email = [] then fail (account_invalid ''email cannot be empty'')
          else ok ((ur_spec rec)\<lparr>us_email := TrimSpace email\<rparr>)) (\<lambda>spec1.
     tryE (case au_password req of
        None \<Rightarrow> ok spec1
      | Some password \<Rightarrow>
          if password = [] then fail (account_invalid ''password cannot be empty'')
          else if passwordSalt = [] then fail (account_invalid ''password salt is not configured'')
          else tryE (HashPassword E password passwordSalt) (\<lambda>h. ok (spec1\<lparr>us_password := h\<rparr>))) (\<lambda>spec2.
     tryE (case au_namespace req of
        None \<Rightarrow> ok spec2
      | Some namespace \<Rightarrow>
          if TrimSpace namespace = [] then fail (account_invalid ''namespace cannot be empty'')
          else ok (spec2\<lparr>us_namespace := TrimSpace namespace\<rparr>)) (\<lambda>spec3.
     let spec4 = spec3\<lparr>us_profileImage := defaultProfileImage\<rparr> in
     tryE (case au_accessLevel req of
        None \<Rightarrow> ok spec4
      | Some level \<Rightarrow>
          if level < AccessLevelReadOnly \<or> level > AccessLevelAdmin then
            fail (account_invalid ''access_level must be between 0 and 3'')
          else ok (spec4\<lparr>us_accessLevel := level\<rparr>)) (\<lambda>spec5.
     ok (rec\<lparr>ur_spec := spec5\<rparr>)))))"

definition Account_Update :: "'s env \<Rightarrow> string \<Rightarrow> string \<Rightarrow> account_UpdateRequest \<Rightarrow> ('s, PublicUser result) state" where
  "Account_Update E passwordSalt name req =
     tryE (UserStore_Get E name) (\<lambda>current.
     tryE (State_Monad.return (account_recordFromObject current)) (\<lambda>rec0.
     tryE (rejectDuplicateEmailUpdate E (ur_name rec0) (au_email req)) (\<lambda>_.
     tryE (account_applyUpdate E passwordSalt rec0 req) (\<lambda>rec.
     tryE (UserStore_Update E rec) (\<lambda>updated.
     State_Monad.return (publicUserFromObject updated))))))"

text \<open>The loop skips VMs that are already gone.\<close>

definition deleteVMStep :: "'s env \<Rightarrow> string \<Rightarrow> kobj \<Rightarrow> ('s, unit result) state" where
  "deleteVMStep E namespace vm = do {
     r \<leftarrow> VirtualMachineStore_Delete E namespace (k_name vm);
     case r of
       Inl e \<Rightarrow> if apiIsNotFound e then ok () else fail e
     | Inr _ \<Rightarrow> ok ()
   }"

definition deleteVirtualMachinesInNamespace :: "'s env \<Rightarrow> string \<Rightarrow> ('s, unit result) state" where
  "deleteVirtualMachinesInNamespace E namespace = do {
     listR \<leftarrow> VirtualMachineStore_List E namespace;
     case listR of
       Inl e \<Rightarrow> if apiIsNotFound e then ok () else fail e
     | Inr items \<Rightarrow> forE items (deleteVMStep E namespace)
   }"

definition Account_Delete :: "'s env \<Rightarrow> string \<Rightarrow> ('s, unit result) state" where
  "Account_Delete E name =
     tryE (UserStore_Get E name) (\<lambda>user.
     tryE (State_Monad.return (specFromObject user)) (\<lambda>spec.
     let namespace = TrimSpace (stringValue spec ''namespace'') in
     tryE (if namespace \<noteq> [] then deleteVirtualMachinesInNamespace E namespace else ok ()) (\<lambda>_.
     UserStore_Delete E name)))"

section \<open>Unique user names and e-mail addresses\<close>

definition usernameOf :: "kobj \<Rightarrow> string" where
  "usernameOf obj = stringValue (specOf obj) ''username''"

definition emailKeyOf :: "'s env \<Rightarrow> kobj \<Rightarrow> string" where
  "emailKeyOf E obj = emailLookupKey E (stringValue (specOf obj) ''email'')"

interpretation usernameKey: unique_key kiteUserGVR usernameOf
  by unfold_locales (metis specOf_cong usernameOf_def)

interpretation emailKey: unique_key kiteUserGVR "emailKeyOf E" for E :: "'s env"
  by unfold_locales (metis specOf_cong emailKeyOf_def)

text \<open>
  The invariant of the account database: user names and e-mail keys are unique, and every access
  level is one of the four known ones.
\<close>

definition usersOK :: "'s env \<Rightarrow> kview \<Rightarrow> bool" where
  "usersOK E v \<longleftrightarrow>
     uniqueIn kiteUserGVR usernameOf v \<and> uniqueIn kiteUserGVR (emailKeyOf E) v \<and>
     (\<forall>ns n x. v (kiteUserGVR, ns, n) = Some x \<longrightarrow> intValue (specOf x) ''access_level'' \<in> {0..3})"

lemma usersOK_put:
  assumes "usersOK E v" "intValue (specOf x) ''access_level'' \<in> {0..3}"
    "usernameOf x = [] \<or> keyFree kiteUserGVR usernameOf ns n (usernameOf x) v"
    "emailKeyOf E x = [] \<or> keyFree kiteUserGVR (emailKeyOf E) ns n (emailKeyOf E x) v"
  shows "usersOK E (v((kiteUserGVR, ns, n) \<mapsto> x))"
  using assms usernameKey.unique_put[of v x ns n] emailKey.unique_put[of E v x ns n]
  unfolding usersOK_def by (auto split: if_splits)

lemma usersOK_drop: "usersOK E v \<Longrightarrow> usersOK E (v((kiteUserGVR, ns, n) := None))"
  using usernameKey.unique_drop[of v ns n] emailKey.unique_drop[of E v ns n]
  unfolding usersOK_def by (auto split: if_splits)

text \<open>A lookup over the complete list decides whether the key is free.\<close>

lemma userMatches_spec:
  "userMatches (\<lambda>spec. stringValue spec ''username'' = u) x \<Longrightarrow> usernameOf x = u"
  "userMatches (\<lambda>spec. emailLookupKey E (stringValue spec ''email'') = k) x \<Longrightarrow> emailKeyOf E x = k"
  by (auto simp: userMatches_def specFromObject_def usernameOf_def emailKeyOf_def specOf_def mapValue_def
      objField_def split: sum.splits option.splits)

lemma emailLookupKey_Nil [simp]: "emailLookupKey E [] = []"
  by (simp add: emailLookupKey_def ToLower_def)

lemma userMatches_nonempty:
  "u \<noteq> [] \<Longrightarrow> usernameOf x = u \<Longrightarrow> userMatches (\<lambda>spec. stringValue spec ''username'' = u) x"
  "k \<noteq> [] \<Longrightarrow> emailKeyOf E x = k \<Longrightarrow>
     userMatches (\<lambda>spec. emailLookupKey E (stringValue spec ''email'') = k) x"
  by (auto simp: userMatches_def specFromObject_def usernameOf_def emailKeyOf_def specOf_def mapValue_def
      objField_def stringValue_def split: sum.splits option.splits)

lemma emailLookupKey_trim [simp]: "emailLookupKey E (TrimSpace email) = emailLookupKey E email"
  by (simp add: emailLookupKey_def)

abbreviation userKeyFree :: "(kobj \<Rightarrow> string) \<Rightarrow> string \<Rightarrow> kview \<Rightarrow> bool" where
  "userKeyFree key k v \<equiv> \<forall>ns n. keyFree kiteUserGVR key ns n k v"

lemma find_cases:
  obtains (none) "List.find P xs = None" "\<And>x. x \<in> set xs \<Longrightarrow> \<not> P x"
    | (some) x where "List.find P xs = Some x" "x \<in> set xs" "P x"
  by (cases "List.find P xs") (auto simp: find_None_iff find_Some_iff)

context kube_api begin

lemma UserStore_List_keeps: "keeps view (UserStore_List E)"
  unfolding UserStore_List_def by auto

lemma wp_find_user:
  assumes "\<And>s' e. view s' = view s \<Longrightarrow> Q (Inl e) s'"
    and "\<And>s'. view s' = view s \<Longrightarrow> \<forall>ns n x. view s (kiteUserGVR, ns, n) = Some x \<longrightarrow> \<not> P x \<Longrightarrow> Q (Inr None) s'"
    and "\<And>s' ns n x. view s' = view s \<Longrightarrow> view s (kiteUserGVR, ns, n) = Some x \<Longrightarrow> P x \<Longrightarrow> Q (Inr (Some x)) s'"
  shows "wp (tryE (UserStore_List E) (\<lambda>items. ok (List.find P items))) Q s"
  unfolding wp_tryE UserStore_List_def
proof (rule wp_list, unfold sum.case wp_ok)
  fix s' items assume v: "view s' = view s" and "listed kiteUserGVR [] (view s) items"
  then have set: "set items = {obj. \<exists>ns' n. view s (kiteUserGVR, ns', n) = Some obj}"
    by (simp add: listed_def)
  show "Q (Inr (List.find P items)) s'"
  proof (cases rule: find_cases[of P items])
    case none
    then have "\<forall>ns n x. view s (kiteUserGVR, ns, n) = Some x \<longrightarrow> \<not> P x" using set by blast
    then show ?thesis using none(1) assms(2)[OF v] by simp
  next
    case (some x)
    then obtain ns n where "view s (kiteUserGVR, ns, n) = Some x" using set by auto
    then show ?thesis using some assms(3)[OF v] by simp
  qed
qed (rule assms(1))

lemma wp_FindByUsername:
  assumes "\<And>s' e. view s' = view s \<Longrightarrow> Q (Inl e) s'"
    and "\<And>s'. view s' = view s \<Longrightarrow> TrimSpace u \<noteq> [] \<longrightarrow> userKeyFree usernameOf (TrimSpace u) (view s) \<Longrightarrow> Q (Inr None) s'"
    and "\<And>s' ns n x. view s' = view s \<Longrightarrow> view s (kiteUserGVR, ns, n) = Some x \<Longrightarrow> usernameOf x = TrimSpace u \<Longrightarrow>
           Q (Inr (Some x)) s'"
  shows "wp (FindByUsername E u) Q s"
  unfolding FindByUsername_def Let_def
  by (rule wp_find_user)
     (auto intro!: assms dest: userMatches_spec keyFree_noMatch[where key = usernameOf, OF _ userMatches_nonempty(1)])

lemma wp_FindByEmail:
  assumes "\<And>s' e. view s' = view s \<Longrightarrow> Q (Inl e) s'"
    and "\<And>s'. view s' = view s \<Longrightarrow>
           emailLookupKey E m \<noteq> [] \<longrightarrow> userKeyFree (emailKeyOf E) (emailLookupKey E m) (view s) \<Longrightarrow> Q (Inr None) s'"
    and "\<And>s' ns n x. view s' = view s \<Longrightarrow> view s (kiteUserGVR, ns, n) = Some x \<Longrightarrow>
           emailKeyOf E x = emailLookupKey E m \<Longrightarrow> Q (Inr (Some x)) s'"
  shows "wp (FindByEmail E m) Q s"
  unfolding FindByEmail_def Let_def
  by (rule wp_find_user)
     (auto intro!: assms dest: userMatches_spec keyFree_noMatch[where key = "emailKeyOf E", OF _ userMatches_nonempty(2)])

end

section \<open>Sign-up\<close>

definition noUsers :: "kview \<Rightarrow> bool" where
  "noUsers v \<longleftrightarrow> (\<forall>ns n. v (kiteUserGVR, ns, n) = None)"

text \<open>What sign-up has established about the record it is going to create.\<close>

definition signUpReady :: "'s env \<Rightarrow> string \<Rightarrow> SignUpRequest \<Rightarrow> kview \<Rightarrow> KiteUserRecord \<Rightarrow> bool" where
  "signUpReady E salt req v rec \<longleftrightarrow>
     us_username (ur_spec rec) = TrimSpace (su_username req) \<and> us_username (ur_spec rec) \<noteq> [] \<and>
     us_email (ur_spec rec) = TrimSpace (su_email req) \<and> us_email (ur_spec rec) \<noteq> [] \<and>
     hashedBy E (su_password req) salt (us_password (ur_spec rec)) \<and>
     us_namespace (ur_spec rec) = kiteUserNamespace (ur_name rec) (TrimSpace (su_namespace req)) \<and>
     us_profileImage (ur_spec rec) = [] \<and>
     us_accessLevel (ur_spec rec) = (if noUsers v then AccessLevelAdmin else AccessLevelReadOnly) \<and>
     userKeyFree usernameOf (us_username (ur_spec rec)) v \<and>
     (emailLookupKey E (us_email (ur_spec rec)) = [] \<or>
      userKeyFree (emailKeyOf E) (emailLookupKey E (us_email (ur_spec rec))) v)"

lemma newKiteUserObject_sel [simp]:
  "k_name (newKiteUserObject rec) = ur_name rec"
  "k_labels (newKiteUserObject rec) = []"
  "k_finalizers (newKiteUserObject rec) = []"
  "usernameOf (newKiteUserObject rec) = us_username (ur_spec rec)"
  "emailKeyOf E (newKiteUserObject rec) = emailLookupKey E (us_email (ur_spec rec))"
  "intValue (specOf (newKiteUserObject rec)) ''access_level'' = us_accessLevel (ur_spec rec)"
  by (simp_all add: newKiteUserObject_def usernameOf_def emailKeyOf_def value_defs)

lemma account_recordFromObject_new:
  "us_profileImage (ur_spec rec) = [] \<Longrightarrow> account_recordFromObject (newKiteUserObject rec) = Inr rec"
  by (simp add: account_recordFromObject_def specFromObject_def newKiteUserObject_def value_defs
      defaultProfileImage_def)

lemma account_recordFromObject_cong:
  "k_name a = k_name b \<Longrightarrow> objField a ''spec'' = objField b ''spec'' \<Longrightarrow>
   account_recordFromObject a = account_recordFromObject b"
  unfolding account_recordFromObject_def specFromObject_def by (simp only:)

lemma user_created_spec:
  assumes "created kiteUserGVR ns (newKiteUserObject rec) v v' stored"
  shows "objField stored ''spec'' = objField (newKiteUserObject rec) ''spec''" "k_name stored = ur_name rec"
  using assms by (auto simp: created_def sameBody_def exactGVR_def sameMeta_def newKiteUserObject_def)

lemma usersOK_created:
  assumes "usersOK E v" "signUpReady E salt req v rec" "created kiteUserGVR [] (newKiteUserObject rec) v v' stored"
  shows "usersOK E v'"
proof -
  note spec = user_created_spec(1)[OF assms(3)]
  have keys: "usernameOf stored = us_username (ur_spec rec)"
    "emailKeyOf E stored = emailLookupKey E (us_email (ur_spec rec))"
    "intValue (specOf stored) ''access_level'' = us_accessLevel (ur_spec rec)"
    using usernameKey.key_cong[OF spec] emailKey.key_cong[OF spec, of E] specOf_cong[OF spec] by simp_all
  have "us_accessLevel (ur_spec rec) \<in> {0..3}"
    using assms(2) by (simp add: signUpReady_def access_level_defs)
  then show ?thesis
    using assms keys usersOK_put[OF assms(1), of stored "[]" "ur_name rec"]
    by (auto simp: created_def signUpReady_def)
qed

context kube_api begin

lemma wp_accessLevelForNewUser:
  assumes "\<And>s' e. view s' = view s \<Longrightarrow> Q (Inl e) s'"
    and "\<And>s'. view s' = view s \<Longrightarrow> Q (Inr (if noUsers (view s) then AccessLevelAdmin else AccessLevelReadOnly)) s'"
  shows "wp (accessLevelForNewUser E) Q s"
  unfolding accessLevelForNewUser_def wp_tryE UserStore_List_def
proof (rule wp_list, unfold sum.case wp_ok)
  fix s' items assume v: "view s' = view s" and l: "listed kiteUserGVR [] (view s) items"
  have "set items = {} \<longleftrightarrow> noUsers (view s)"
    using l by (auto simp: listed_def noUsers_def)
  then have "length items = 0 \<longleftrightarrow> noUsers (view s)" by simp
  then show "Q (Inr (if length items = 0 then AccessLevelAdmin else AccessLevelReadOnly)) s'"
    using assms(2)[OF v] by simp
qed (rule assms(1))

lemma wp_newSignUpRecord:
  assumes unchanged: "\<And>s' e. view s' = view s \<Longrightarrow> Q (Inl e) s'"
    and ready: "\<And>s' rec. view s' = view s \<Longrightarrow> signUpReady E salt req (view s) rec \<Longrightarrow> Q (Inr rec) s'"
  shows "wp (newSignUpRecord E salt req) Q s"
proof -
  let ?name = "TrimSpace (su_name req)" and ?user = "TrimSpace (su_username req)"
    and ?email = "TrimSpace (su_email req)" and ?ns = "TrimSpace (su_namespace req)"
  let ?rec = "\<lambda>name h. \<lparr>ur_name = name, ur_spec = \<lparr>us_username = ?user, us_email = ?email, us_password = h,
      us_namespace = kiteUserNamespace name ?ns, us_profileImage = defaultProfileImage,
      us_accessLevel = (if noUsers (view s) then AccessLevelAdmin else AccessLevelReadOnly)\<rparr>\<rparr>"
  have name: "keeps view (kiteUserName E n)" for n
    unfolding kiteUserName_def by auto
  have hash: "keeps view (HashPassword E pw salt)" for pw
    by (rule HashPassword_keeps) (rule bcryptGenerate_keeps)
  have last: "wp (State_Monad.bind (kiteUserName E ?name) (\<lambda>name.
        tryE (HashPassword E (su_password req) salt) (\<lambda>h. ok (?rec name h)))) Q s3"
    if "view s3 = view s" "?user \<noteq> []" "?email \<noteq> []"
      "?user \<noteq> [] \<longrightarrow> userKeyFree usernameOf ?user (view s)"
      "emailLookupKey E (su_email req) \<noteq> [] \<longrightarrow> userKeyFree (emailKeyOf E) (emailLookupKey E (su_email req)) (view s)" for s3
    unfolding wp_bind
  proof (rule keeps_wp[OF name], rule wp_try_keeps[OF hash])
    fix name s4 s5 h
    assume "view s4 = view s3" "view s5 = view s4" "run_state (HashPassword E (su_password req) salt) s4 = (Inr h, s5)"
    with that show "wp (ok (?rec name h)) Q s5"
      by (auto simp: wp_ok signUpReady_def defaultProfileImage_def intro!: ready)
  qed (use that unchanged in auto)
  show ?thesis
    unfolding newSignUpRecord_def Let_def wp_tryE
    using last
    by (auto simp: wp_fail unchanged wp_tryE
        intro!: wp_FindByUsername wp_FindByEmail wp_accessLevelForNewUser split: if_splits)
qed

lemma wp_SignUp:
  assumes unchanged: "\<And>s' e. view s' = view s \<Longrightarrow> Q (Inl e) s'"
    and done1: "\<And>s' rec stored. signUpReady E salt req (view s) rec \<Longrightarrow>
        created kiteUserGVR [] (newKiteUserObject rec) (view s) (view s') stored \<Longrightarrow>
        Q (publicUserFromObject stored) s' \<and> (\<forall>e. indefinite e \<longrightarrow> Q (Inl e) s')"
  shows "wp (SignUp E salt req) Q s"
  unfolding SignUp_def UserStore_Create_def wp_tryE
proof (rule wp_newSignUpRecord, unfold sum.case wp_bind)
  fix s1 rec assume v: "view s1 = view s" and ready: "signUpReady E salt req (view s) rec"
  show "wp (env_create E kiteUserGVR [] (newKiteUserObject rec)) (\<lambda>r. wp (case r of
      Inl e \<Rightarrow> if apiIsAlreadyExists e then fail (account_conflict ''kite user already exists'') else fail e
    | Inr x \<Rightarrow> State_Monad.return (publicUserFromObject x)) Q) s1"
    using done1[OF ready] unchanged
    by (intro wp_create) (auto simp: wp_simps v dest: indefinite_not_definite)
qed (use unchanged in auto)

end

section \<open>Writing users back\<close>

text \<open>
  \<open>UserStore.Update\<close> sends a freshly built object: the spec is replaced and the status stays, but
  labels and finalizers of the stored user are dropped.
\<close>

definition userUpdateEffect :: "KiteUserRecord \<Rightarrow> kview \<Rightarrow> kview \<Rightarrow> kobj \<Rightarrow> bool" where
  "userUpdateEffect rec v v' stored \<longleftrightarrow>
     (\<exists>cur. v (kiteUserGVR, [], ur_name rec) = Some cur \<and>
        objField stored ''spec'' = objField (newKiteUserObject rec) ''spec'' \<and>
        k_name stored = ur_name rec \<and> k_labels stored = [] \<and> k_finalizers stored = [] \<and>
        objField stored ''status'' = objField cur ''status'' \<and>
        v' = v((kiteUserGVR, [], ur_name rec) :=
               (if k_deletionTimestamp cur = None then Some stored else None)))"

lemma userUpdateEffect_keys:
  assumes "userUpdateEffect rec v v' stored"
  shows "usernameOf stored = us_username (ur_spec rec)"
    and "emailKeyOf E stored = emailLookupKey E (us_email (ur_spec rec))"
    and "intValue (specOf stored) ''access_level'' = us_accessLevel (ur_spec rec)"
proof -
  have spec: "objField stored ''spec'' = objField (newKiteUserObject rec) ''spec''"
    using assms by (auto simp: userUpdateEffect_def)
  show "usernameOf stored = us_username (ur_spec rec)" using usernameKey.key_cong[OF spec] by simp
  show "emailKeyOf E stored = emailLookupKey E (us_email (ur_spec rec))" using emailKey.key_cong[OF spec] by simp
  show "intValue (specOf stored) ''access_level'' = us_accessLevel (ur_spec rec)"
    using specOf_cong[OF spec] by simp
qed

lemma replaced_userUpdateEffect:
  assumes "replaced kiteUserGVR [] ((newKiteUserObject rec)\<lparr>k_resourceVersion := rv\<rparr>) v v' stored"
  shows "userUpdateEffect rec v v' stored"
proof -
  let ?obj = "(newKiteUserObject rec)\<lparr>k_resourceVersion := rv\<rparr>"
  obtain cur where cur: "v (kiteUserGVR, [], ur_name rec) = Some cur"
    and meta: "sameMeta ?obj stored" and body: "sameBody kiteUserGVR ?obj stored"
    and status: "objField stored ''status'' = objField cur ''status''"
    and v': "v' = v((kiteUserGVR, [], ur_name rec) := (if k_deletionTimestamp cur = None then Some stored else None))"
    using assms unfolding replaced_def statusGVR_def by (auto split: if_splits)
  have "objField stored ''spec'' = objField (newKiteUserObject rec) ''spec''"
    using body by (simp add: sameBody_def exactGVR_def objField_def)
  with cur meta status v' show ?thesis
    unfolding userUpdateEffect_def sameMeta_def by simp
qed

context kube_api begin

lemma wp_UserStore_Update:
  assumes "\<And>s' e. view s' = view s \<Longrightarrow> Q (Inl e) s'"
    and "\<And>s' stored. userUpdateEffect rec (view s) (view s') stored \<Longrightarrow> Q (Inr stored) s'"
    and "\<And>s' stored e. userUpdateEffect rec (view s) (view s') stored \<Longrightarrow> indefinite e \<Longrightarrow> Q (Inl e) s'"
  shows "wp (UserStore_Update E rec) Q s"
  unfolding UserStore_Update_def UserStore_Get_def
proof (rule wp_try_keeps[OF get_keeps])
  fix s1 cur assume v: "view s1 = view s"
  show "wp (env_update E kiteUserGVR []
      ((newKiteUserObject rec)\<lparr>k_resourceVersion := k_resourceVersion cur\<rparr>)) Q s1"
    by (rule wp_update) (auto simp: v intro: assms replaced_userUpdateEffect)
qed (rule assms(1))

end

section \<open>Update\<close>

text \<open>The specification of \<open>applyUpdate\<close> on the spec of a user record.\<close>

definition userSpecUpdated :: "'s env \<Rightarrow> string \<Rightarrow> account_UpdateRequest \<Rightarrow> KiteUserSpec \<Rightarrow> KiteUserSpec \<Rightarrow> bool" where
  "userSpecUpdated E salt req old new \<longleftrightarrow>
     us_username new = us_username old \<and> us_profileImage new = [] \<and>
     (case au_email req of None \<Rightarrow> us_email new = us_email old
      | Some m \<Rightarrow> us_email new = TrimSpace m \<and> TrimSpace m \<noteq> []) \<and>
     (case au_password req of None \<Rightarrow> us_password new = us_password old
      | Some p \<Rightarrow> p \<noteq> [] \<and> hashedBy E p salt (us_password new)) \<and>
     (case au_namespace req of None \<Rightarrow> us_namespace new = us_namespace old
      | Some n \<Rightarrow> us_namespace new = TrimSpace n \<and> TrimSpace n \<noteq> []) \<and>
     (case au_accessLevel req of None \<Rightarrow> us_accessLevel new = us_accessLevel old
      | Some l \<Rightarrow> us_accessLevel new = l \<and> l \<in> {0..3})"

context kube_api begin

lemma HashPassword_keeps_view: "keeps view (HashPassword E pw salt)"
  by (rule HashPassword_keeps) (rule bcryptGenerate_keeps)

lemma wp_account_applyUpdate:
  assumes unchanged: "\<And>s' e. view s' = view s \<Longrightarrow> Q (Inl e) s'"
    and upd: "\<And>s' spec. view s' = view s \<Longrightarrow> userSpecUpdated E salt req (ur_spec rec) spec \<Longrightarrow>
       Q (Inr (rec\<lparr>ur_spec := spec\<rparr>)) s'"
  shows "wp (account_applyUpdate E salt rec req) Q s"
  unfolding account_applyUpdate_def Let_def
proof (rule wp_try_spec[where P = "\<lambda>new. \<exists>e. new = (ur_spec rec)\<lparr>us_email := e\<rparr> \<and>
    (case au_email req of None \<Rightarrow> e = us_email (ur_spec rec) | Some m \<Rightarrow> e = TrimSpace m \<and> TrimSpace m \<noteq> [])"], goal_cases)
  case (3 s1 spec1)
  show ?case
  proof (rule wp_try_spec[where P = "\<lambda>new. \<exists>h. new = spec1\<lparr>us_password := h\<rparr> \<and>
      (case au_password req of None \<Rightarrow> h = us_password spec1 | Some p \<Rightarrow> p \<noteq> [] \<and> hashedBy E p salt h)"], goal_cases)
    case 1
    show ?case
      by (auto simp: wp_simps split: option.split intro!: keeps_wp[OF HashPassword_keeps_view] split: sum.split)
  next
    case (3 s2 spec2)
    with \<open>view s1 = view s\<close> \<open>\<exists>e. spec1 = _ e \<and> _ e\<close> show ?case
      by (auto simp: wp_simps unchanged userSpecUpdated_def defaultProfileImage_def access_level_defs
          intro!: upd split: option.split)
  qed (use 3 unchanged in auto)
qed (auto simp: wp_simps unchanged split: option.split)

end

lemma account_recordFromObject_sel:
  assumes "account_recordFromObject x = Inr rec"
  shows "ur_name rec = k_name x" "us_username (ur_spec rec) = usernameOf x"
    "emailLookupKey E (us_email (ur_spec rec)) = emailKeyOf E x"
    "us_accessLevel (ur_spec rec) = intValue (specOf x) ''access_level''"
    "us_password (ur_spec rec) = stringValue (specOf x) ''password''"
    "us_profileImage (ur_spec rec) = []"
  using assms
  by (auto simp: account_recordFromObject_def specFromObject_def usernameOf_def emailKeyOf_def specOf_def
      mapValue_def objField_def defaultProfileImage_def split: option.splits sum.splits)

text \<open>What \<open>Update\<close> knows when it writes: the record it read, the changes, a free e-mail key.\<close>

definition userUpdateReady :: "'s env \<Rightarrow> string \<Rightarrow> string \<Rightarrow> account_UpdateRequest \<Rightarrow> kview \<Rightarrow> kobj \<Rightarrow>
    KiteUserRecord \<Rightarrow> KiteUserRecord \<Rightarrow> bool" where
  "userUpdateReady E salt name req v cur old new \<longleftrightarrow>
     v (kiteUserGVR, [], name) = Some cur \<and> account_recordFromObject cur = Inr old \<and>
     ur_name new = name \<and> userSpecUpdated E salt req (ur_spec old) (ur_spec new) \<and>
     (\<forall>m. au_email req = Some m \<longrightarrow> emailLookupKey E m \<noteq> [] \<longrightarrow>
        (\<forall>ns n x. v (kiteUserGVR, ns, n) = Some x \<longrightarrow> emailKeyOf E x \<noteq> emailLookupKey E m) \<or>
        (\<exists>x. v (kiteUserGVR, [], name) = Some x \<and> emailKeyOf E x = emailLookupKey E m))"

context kube_api begin

lemma wp_rejectDuplicateEmailUpdate:
  assumes "\<And>s' e. view s' = view s \<Longrightarrow> Q (Inl e) s'"
    and "\<And>s'. view s' = view s \<Longrightarrow>
       \<forall>m. em = Some m \<longrightarrow> emailLookupKey E m \<noteq> [] \<longrightarrow>
         (\<forall>ns n x. view s (kiteUserGVR, ns, n) = Some x \<longrightarrow> emailKeyOf E x \<noteq> emailLookupKey E m) \<or>
         (\<exists>x. view s (kiteUserGVR, [], name) = Some x \<and> emailKeyOf E x = emailLookupKey E m) \<Longrightarrow> Q (Inr ()) s'"
  shows "wp (rejectDuplicateEmailUpdate E name em) Q s"
proof (cases "\<exists>m. em = Some m \<and> emailLookupKey E m \<noteq> []")
  case False
  then show ?thesis
    by (auto simp: rejectDuplicateEmailUpdate_def wp_ok intro!: assms(2) split: option.split)
next
  case True
  then obtain m where m: "em = Some m" "emailLookupKey E m \<noteq> []" by blast
  have self: "n = name \<Longrightarrow> ns = []" if "view s (kiteUserGVR, ns, n) = Some x" for ns n x
    using view_key[OF that] by (simp add: validKey_def)
  have "wp (tryE (FindByEmail E m) (\<lambda>found. case found of None \<Rightarrow> ok ()
      | Some u \<Rightarrow> if k_name u \<noteq> name then fail (account_conflict ''email already exists'') else ok ())) Q s"
    unfolding wp_tryE
  proof (rule wp_FindByEmail, unfold sum.case option.case wp_ok)
    fix s' assume "view s' = view s" "emailLookupKey E m \<noteq> [] \<longrightarrow> userKeyFree (emailKeyOf E) (emailLookupKey E m) (view s)"
    then have "\<forall>ns n x. view s (kiteUserGVR, ns, n) = Some x \<longrightarrow> emailKeyOf E x \<noteq> emailLookupKey E m"
      using m(2) unfolding keyFree_def by (metis not_Cons_self2)
    then show "Q (Inr ()) s'"
      by (intro assms(2)) (use \<open>view s' = view s\<close> m in auto)
  next
    fix s' ns n x
    assume v: "view s' = view s" and x: "view s (kiteUserGVR, ns, n) = Some x" "emailKeyOf E x = emailLookupKey E m"
    then show "wp (if k_name x \<noteq> name then fail (account_conflict ''email already exists'') else ok ()) Q s'"
      using self[OF x(1)] view_key[OF x(1)] m
      by (auto simp: wp_simps intro: assms(1) intro!: assms(2))
  qed (rule assms(1))
  then show ?thesis using m by (simp add: rejectDuplicateEmailUpdate_def)
qed

lemma wp_Account_Update:
  assumes unchanged: "\<And>s' e. view s' = view s \<Longrightarrow> Q (Inl e) s'"
    and effect: "\<And>s' cur old new stored. userUpdateReady E salt name req (view s) cur old new \<Longrightarrow>
       userUpdateEffect new (view s) (view s') stored \<Longrightarrow>
       Q (publicUserFromObject stored) s' \<and> (\<forall>e. indefinite e \<longrightarrow> Q (Inl e) s')"
  shows "wp (Account_Update E salt name req) Q s"
proof -
  have get: "keeps view (UserStore_Get E name)"
    unfolding UserStore_Get_def by auto
  have store: "wp (tryE (UserStore_Update E new) (\<lambda>updated. State_Monad.return (publicUserFromObject updated))) Q s'"
    if "view s' = view s" "userUpdateReady E salt name req (view s) cur old new" for s' cur old new
    unfolding wp_tryE
    by (rule wp_UserStore_Update) (use that(1) unchanged effect[OF that(2)] in \<open>auto simp: wp_simps\<close>)
  show ?thesis
    unfolding Account_Update_def
  proof (intro wp_try_keeps[OF get] wp_try_keeps[OF keeps_return], goal_cases)
    case (3 s1 cur s2 rec0)
    have cur: "view s (kiteUserGVR, [], name) = Some cur"
      by (rule get_found[OF 3(2)[unfolded UserStore_Get_def]])
    have rec: "account_recordFromObject cur = Inr rec0" and v: "view s2 = view s"
      using 3 by simp_all
    then have name: "ur_name rec0 = name"
      using view_key[OF cur] account_recordFromObject_sel(1)[OF rec] by simp
    let ?free = "\<forall>m. au_email req = Some m \<longrightarrow> emailLookupKey E m \<noteq> [] \<longrightarrow>
         (\<forall>ns n x. view s (kiteUserGVR, ns, n) = Some x \<longrightarrow> emailKeyOf E x \<noteq> emailLookupKey E m) \<or>
         (\<exists>x. view s (kiteUserGVR, [], name) = Some x \<and> emailKeyOf E x = emailLookupKey E m)"
    have check: "wp (rejectDuplicateEmailUpdate E (ur_name rec0) (au_email req))
        (\<lambda>r s'. view s' = view s2 \<and> (\<forall>x. r = Inr x \<longrightarrow> ?free)) s2"
      by (rule wp_rejectDuplicateEmailUpdate) (auto simp: v name)
    have upd: "wp (account_applyUpdate E salt rec0 req)
        (\<lambda>r s'. view s' = view s3 \<and> (\<forall>x. r = Inr x \<longrightarrow>
           (\<exists>spec. userSpecUpdated E salt req (ur_spec rec0) spec \<and> x = rec0\<lparr>ur_spec := spec\<rparr>))) s3" for s3
      by (rule wp_account_applyUpdate) auto
    show ?case
    proof (rule wp_try_spec[OF check], goal_cases)
      case (2 s3 x)
      show ?case
      proof (rule wp_try_spec[OF upd], goal_cases)
        case (2 s4 new)
        then have "userUpdateReady E salt name req (view s) cur rec0 new"
          using cur rec name \<open>?free\<close> by (auto simp: userUpdateReady_def)
        then show ?case by (rule store[rotated]) (use 2 \<open>view s3 = view s2\<close> v in simp)
      qed (use 2 v unchanged in auto)
    qed (use v unchanged in auto)
  qed (use unchanged in auto)
qed

end

lemma userUpdate_usersOK:
  assumes ok: "usersOK E v" and eff: "userUpdateEffect new v v' stored"
    and cur: "v (kiteUserGVR, [], ur_name new) = Some cur"
    and username: "us_username (ur_spec new) = usernameOf cur"
    and email: "emailLookupKey E (us_email (ur_spec new)) = emailKeyOf E cur \<or>
       (\<forall>ns n x. v (kiteUserGVR, ns, n) = Some x \<longrightarrow> emailKeyOf E x \<noteq> emailLookupKey E (us_email (ur_spec new))) \<or>
       emailLookupKey E (us_email (ur_spec new)) = []"
    and level: "us_accessLevel (ur_spec new) \<in> {0..3}"
  shows "usersOK E v'"
proof -
  let ?put = "v((kiteUserGVR, [], ur_name new) \<mapsto> stored)"
  note keys = userUpdateEffect_keys[OF eff]
  have v': "v' = ?put \<or> v' = v((kiteUserGVR, [], ur_name new) := None)"
    using eff by (auto simp: userUpdateEffect_def)
  have "uniqueIn kiteUserGVR usernameOf ?put"
    using ok cur username by (intro usernameKey.unique_replace) (auto simp: usersOK_def keys)
  moreover have "uniqueIn kiteUserGVR (emailKeyOf E) ?put"
    using email
  proof (elim disjE)
    assume "emailLookupKey E (us_email (ur_spec new)) = emailKeyOf E cur"
    then show ?thesis using ok cur by (intro emailKey.unique_replace) (auto simp: usersOK_def keys)
  next
    assume "\<forall>ns n x. v (kiteUserGVR, ns, n) = Some x \<longrightarrow> emailKeyOf E x \<noteq> emailLookupKey E (us_email (ur_spec new))"
    then show ?thesis using ok by (intro emailKey.unique_put) (auto simp: usersOK_def keys keyFree_def)
  next
    assume "emailLookupKey E (us_email (ur_spec new)) = []"
    then show ?thesis using ok by (intro emailKey.unique_put) (auto simp: usersOK_def keys)
  qed
  ultimately have "usersOK E ?put"
    using ok level by (auto simp: usersOK_def keys)
  then show ?thesis using v' usersOK_drop[OF ok] by auto
qed

lemma userUpdateReady_usersOK:
  assumes ok: "usersOK E v" and ready: "userUpdateReady E salt name req v cur old new"
    and eff: "userUpdateEffect new v v' stored"
  shows "usersOK E v'"
proof (rule userUpdate_usersOK[OF ok eff])
  have cur: "v (kiteUserGVR, [], name) = Some cur" and name: "ur_name new = name"
    and old: "account_recordFromObject cur = Inr old" and upd: "userSpecUpdated E salt req (ur_spec old) (ur_spec new)"
    using ready by (auto simp: userUpdateReady_def)
  note sel = account_recordFromObject_sel[OF old]
  show "v (kiteUserGVR, [], ur_name new) = Some cur" using cur name by simp
  show "us_username (ur_spec new) = usernameOf cur" using upd sel by (simp add: userSpecUpdated_def)
  have "intValue (specOf cur) ''access_level'' \<in> {0..3}"
    using ok cur unfolding usersOK_def by blast
  then show "us_accessLevel (ur_spec new) \<in> {0..3}"
    using upd sel(4) by (auto simp: userSpecUpdated_def split: option.splits)
  show "emailLookupKey E (us_email (ur_spec new)) = emailKeyOf E cur \<or>
       (\<forall>ns n x. v (kiteUserGVR, ns, n) = Some x \<longrightarrow> emailKeyOf E x \<noteq> emailLookupKey E (us_email (ur_spec new))) \<or>
       emailLookupKey E (us_email (ur_spec new)) = []"
  proof (cases "au_email req")
    case None
    then show ?thesis using upd sel(3)[of E] by (simp add: userSpecUpdated_def)
  next
    case (Some m)
    then have m: "us_email (ur_spec new) = TrimSpace m" using upd by (simp add: userSpecUpdated_def)
    show ?thesis
      using ready Some cur unfolding m emailLookupKey_trim userUpdateReady_def by fastforce
  qed
qed

section \<open>Authentication\<close>

text \<open>
  After a login with a legacy hash only the password of that user has changed, to a new hash of
  the same password.
\<close>

definition onlyRehashed :: "'s env \<Rightarrow> string \<Rightarrow> string \<Rightarrow> kobj \<Rightarrow> kview \<Rightarrow> kview \<Rightarrow> bool" where
  "onlyRehashed E salt pw user v v' \<longleftrightarrow>
     (\<exists>rec h stored. account_recordFromObject user = Inr rec \<and> hashedBy E pw salt h \<and>
        userUpdateEffect (rec\<lparr>ur_spec := (ur_spec rec)\<lparr>us_password := h\<rparr>\<rparr>) v v' stored)"

text \<open>The e-mail address and the password are those of a stored user.\<close>

definition credentialsOf :: "'s env \<Rightarrow> string \<Rightarrow> string \<Rightarrow> string \<Rightarrow> kview \<Rightarrow> kobj \<Rightarrow> bool" where
  "credentialsOf E salt email pw v user \<longleftrightarrow>
     (\<exists>n. v (kiteUserGVR, [], n) = Some user) \<and> emailKeyOf E user = emailLookupKey E email \<and>
     VerifyPassword E pw salt (stringValue (specOf user) ''password'')"

text \<open>The outcome of a login attempt; the rehash may be done although its reply was lost.\<close>

definition loginOutcome :: "'s env \<Rightarrow> string \<Rightarrow> string \<Rightarrow> string \<Rightarrow> kview \<Rightarrow> PublicUser option result \<Rightarrow> kview \<Rightarrow> bool" where
  "loginOutcome E salt email pw v r v' \<longleftrightarrow>
     (case r of
       Inl e \<Rightarrow> v' = v \<or> (\<exists>user. credentialsOf E salt email pw v user \<and>
         PasswordNeedsRehash (stringValue (specOf user) ''password'') \<and> onlyRehashed E salt pw user v v')
     | Inr None \<Rightarrow> v' = v
     | Inr (Some u) \<Rightarrow> \<exists>user. credentialsOf E salt email pw v user \<and> publicUserFromObject user = Inr u \<and>
         (if PasswordNeedsRehash (stringValue (specOf user) ''password'')
          then onlyRehashed E salt pw user v v' else v' = v))"

context kube_api begin

lemma wp_rehashUserPassword:
  assumes "\<And>s' e. view s' = view s \<Longrightarrow> Q (Inl e) s'"
    and "\<And>s'. onlyRehashed E salt pw user (view s) (view s') \<Longrightarrow> Q (Inr ()) s' \<and> (\<forall>e. Q (Inl e) s')"
  shows "wp (rehashUserPassword E salt user pw) Q s"
  unfolding rehashUserPassword_def
proof (intro wp_try_keeps[OF keeps_return] wp_try_keeps[OF HashPassword_keeps_view])
  fix s1 rec s2 h
  assume "view s1 = view s" "view s2 = view s1" "run_state (HashPassword E pw salt) s1 = (Inr h, s2)"
    "run_state (State_Monad.return (account_recordFromObject user)) s = (Inr rec, s1)"
  then have v: "view s2 = view s" and rec: "account_recordFromObject user = Inr rec" and h: "hashedBy E pw salt h"
    by auto
  let ?new = "rec\<lparr>ur_spec := (ur_spec rec)\<lparr>us_password := h\<rparr>\<rparr>"
  have done1: "Q (Inr ()) s' \<and> (\<forall>e. Q (Inl e) s')" if "userUpdateEffect ?new (view s) (view s') stored" for s' stored
    using that rec h by (intro assms(2)) (auto simp: onlyRehashed_def)
  show "wp (tryE (UserStore_Update E ?new) (\<lambda>_. ok ())) Q s2"
    unfolding wp_tryE
    by (rule wp_UserStore_Update) (auto simp: v wp_ok assms(1) dest: done1)
qed (metis assms(1))+

lemma wp_Authenticate:
  "wp (Authenticate E salt email pw) (\<lambda>r s'. loginOutcome E salt email pw (view s) r (view s')) s"
proof (cases "salt = []")
  case True
  then show ?thesis by (simp add: Authenticate_def wp_simps loginOutcome_def)
next
  case False
  have spec: "specFromObject user = Inr m \<Longrightarrow> specOf user = m" for user m
    by (auto simp: specFromObject_def specOf_def mapValue_def objField_def split: option.splits)
  show ?thesis
    unfolding Authenticate_def if_not_P[OF False] Let_def wp_tryE[of "FindByEmail E email"]
  proof (rule wp_FindByEmail, unfold sum.case option.case)
    fix s1 ns n user
    assume v: "view s1 = view s" and user: "view s (kiteUserGVR, ns, n) = Some user"
      and email: "emailKeyOf E user = emailLookupKey E email"
    have ns: "ns = []" using view_key[OF user] by (simp add: validKey_def)
    let ?Q = "\<lambda>r s'. loginOutcome E salt email pw (view s) r (view s')"
    let ?step = "\<lambda>spec. if PasswordNeedsRehash (stringValue spec ''password'')
        then rehashUserPassword E salt user pw else ok ()"
    show "wp (tryE (State_Monad.return (specFromObject user)) (\<lambda>spec.
        if \<not> VerifyPassword E pw salt (stringValue spec ''password'') then ok None
        else tryE (?step spec) (\<lambda>_. ok (Some (publicUserFromSpec (k_name user) spec))))) ?Q s1"
    proof (rule wp_try_keeps[OF keeps_return])
      fix s2 m assume "view s2 = view s1" "run_state (State_Monad.return (specFromObject user)) s1 = (Inr m, s2)"
      then have v2: "view s2 = view s" and m: "specFromObject user = Inr m" using v by auto
      have out: "loginOutcome E salt email pw (view s) (Inr (Some (publicUserFromSpec (k_name user) m))) v'"
        if "VerifyPassword E pw salt (stringValue m ''password'')"
          "if PasswordNeedsRehash (stringValue m ''password'') then onlyRehashed E salt pw user (view s) v' else v' = view s" for v'
        unfolding loginOutcome_def sum.case option.case
        using that user[unfolded ns] email m spec[OF m]
        by (intro exI[of _ user]) (auto simp: publicUserFromObject_def credentialsOf_def)
      have bad: "loginOutcome E salt email pw (view s) (Inl e) v'"
        if "VerifyPassword E pw salt (stringValue m ''password'')" "PasswordNeedsRehash (stringValue m ''password'')"
          "onlyRehashed E salt pw user (view s) v'" for v' e
        using that user[unfolded ns] email spec[OF m] by (auto simp: loginOutcome_def credentialsOf_def)
      have same: "loginOutcome E salt email pw (view s) (Inl e) (view s)"
        "loginOutcome E salt email pw (view s) (Inr None) (view s)" for e
        by (simp_all add: loginOutcome_def)
      show "wp (if \<not> VerifyPassword E pw salt (stringValue m ''password'') then ok None
          else tryE (?step m) (\<lambda>_. ok (Some (publicUserFromSpec (k_name user) m)))) ?Q s2"
        by (auto simp: wp_ok wp_tryE v2 same out bad intro!: wp_rehashUserPassword)
    qed (simp add: v loginOutcome_def)
  qed (simp_all add: wp_ok loginOutcome_def)
qed

end

section \<open>Delete\<close>

text \<open>
  \<open>vmsDeleting ns v v'\<close>: of the two views only VMs of namespace \<open>ns\<close> differ, and those are removed
  or marked for deletion.  \<open>goneAt\<close>: the VM is removed or marked.
\<close>

definition removing :: "kobj option \<Rightarrow> kobj option \<Rightarrow> bool" where
  "removing a b \<longleftrightarrow> b = a \<or> b = None \<or> (\<exists>x y. a = Some x \<and> b = Some y \<and> marked x y)"

definition vmsDeleting :: "string \<Rightarrow> kview \<Rightarrow> kview \<Rightarrow> bool" where
  "vmsDeleting ns v v' \<longleftrightarrow>
     (\<forall>k. v' k = v k \<or> fst k = kiteVirtualMachineGVR \<and> fst (snd k) = ns \<and> removing (v k) (v' k))"

definition goneAt :: "kview \<Rightarrow> string \<Rightarrow> string \<Rightarrow> bool" where
  "goneAt v ns n \<longleftrightarrow> (\<forall>x. v (kiteVirtualMachineGVR, ns, n) = Some x \<longrightarrow> k_deletionTimestamp x \<noteq> None)"

lemma removing_trans: "removing a b \<Longrightarrow> removing b c \<Longrightarrow> removing a c"
  by (auto simp: removing_def intro: marked_trans)

lemma removing_gone:
  "removing a b \<Longrightarrow> b = Some y \<Longrightarrow> (\<And>x. a = Some x \<Longrightarrow> k_deletionTimestamp x \<noteq> None) \<Longrightarrow> k_deletionTimestamp y \<noteq> None"
  by (auto simp: removing_def marked_def)

lemma vmsDeleting_refl [simp]: "vmsDeleting ns v v"
  by (simp add: vmsDeleting_def removing_def)

lemma vmsDeleting_at: "vmsDeleting ns v v' \<Longrightarrow> removing (v (kiteVirtualMachineGVR, ns, n)) (v' (kiteVirtualMachineGVR, ns, n))"
  unfolding vmsDeleting_def removing_def by metis

lemma vmsDeleting_trans: "vmsDeleting ns u v \<Longrightarrow> vmsDeleting ns v w \<Longrightarrow> vmsDeleting ns u w"
  unfolding vmsDeleting_def by (metis removing_trans)

lemma vmsDeleting_deleted:
  "deleted kiteVirtualMachineGVR ns n v v' \<Longrightarrow> vmsDeleting ns v v' \<and> goneAt v' ns n"
  by (auto simp: deleted_def vmsDeleting_def removing_def goneAt_def marked_def split: if_splits)

lemma goneAt_stable:
  assumes "goneAt v ns n" "vmsDeleting ns v v'"
  shows "goneAt v' ns n"
  using assms(1) removing_gone[OF vmsDeleting_at[OF assms(2), of n]] by (simp add: goneAt_def)

lemma goneAt_absent: "v (kiteVirtualMachineGVR, ns, n) = None \<Longrightarrow> goneAt v ns n"
  by (simp add: goneAt_def)

context kube_api begin

lemma wp_deleteVMStep:
  "wp (deleteVMStep E ns vm)
     (\<lambda>r s'. vmsDeleting ns (view s) (view s') \<and> (r = Inr () \<longrightarrow> goneAt (view s') ns (k_name vm))) s"
  unfolding deleteVMStep_def VirtualMachineStore_Delete_def wp_bind
  by (rule wp_delete) (auto simp: wp_simps goneAt_absent dest: vmsDeleting_deleted)

lemma wp_delete_vms:
  "wp (forE items (deleteVMStep E ns))
     (\<lambda>r s'. vmsDeleting ns (view s) (view s') \<and>
        (r = Inr () \<longrightarrow> (\<forall>x \<in> set items. goneAt (view s') ns (k_name x)))) s"
proof (induction items arbitrary: s)
  case Nil
  then show ?case by (simp add: wp_ok)
next
  case (Cons x items)
  have "wp (forE items (deleteVMStep E ns)) (\<lambda>r s'. vmsDeleting ns (view s) (view s') \<and>
      (r = Inr () \<longrightarrow> (\<forall>y \<in> set (x # items). goneAt (view s') ns (k_name y)))) s1"
    if "vmsDeleting ns (view s) (view s1)" "goneAt (view s1) ns (k_name x)" for s1
    by (rule wp_mono[OF Cons.IH]) (use that in \<open>auto intro: vmsDeleting_trans goneAt_stable\<close>)
  then show ?case
    unfolding forE.simps wp_tryE by (intro wp_mono[OF wp_deleteVMStep]) (auto split: sum.split)
qed

lemma wp_deleteVirtualMachinesInNamespace:
  assumes "ns \<noteq> []"
  shows "wp (deleteVirtualMachinesInNamespace E ns)
     (\<lambda>r s'. vmsDeleting ns (view s) (view s') \<and>
        (r = Inr () \<longrightarrow> (\<forall>n. goneAt (view s') ns n))) s"
  unfolding deleteVirtualMachinesInNamespace_def VirtualMachineStore_List_def wp_bind
proof (rule wp_list, unfold sum.case)
  fix s1 items assume v: "view s1 = view s" and l: "listed kiteVirtualMachineGVR ns (view s) items"
  have all: "goneAt w ns n" if "\<forall>x \<in> set items. goneAt w ns (k_name x)" "vmsDeleting ns (view s) w" for w n
  proof (cases "view s (kiteVirtualMachineGVR, ns, n)")
    case None
    then show ?thesis using that(2) goneAt_absent goneAt_stable by blast
  next
    case (Some x)
    then have "x \<in> set items" using l assms by (auto simp: listed_def)
    then show ?thesis using that(1) view_key[OF Some] by auto
  qed
  show "wp (forE items (deleteVMStep E ns))
     (\<lambda>r s'. vmsDeleting ns (view s) (view s') \<and>
        (r = Inr () \<longrightarrow> (\<forall>n. goneAt (view s') ns n))) s1"
    by (rule wp_mono[OF wp_delete_vms]) (auto simp: v intro: all)
qed (auto simp: wp_simps goneAt_def)

end

context kube_api begin

lemma wp_Account_Delete:
  assumes user: "view s (kiteUserGVR, [], name) = Some user"
    and ns: "namespace = TrimSpace (stringValue (specOf user) ''namespace'')" "namespace \<noteq> []"
  shows "wp (Account_Delete E name) (\<lambda>r s'.
     (\<forall>k. fst k \<noteq> kiteVirtualMachineGVR \<and> k \<noteq> (kiteUserGVR, [], name) \<longrightarrow> view s' k = view s k) \<and>
     (\<forall>n ns. ns \<noteq> namespace \<longrightarrow> view s' (kiteVirtualMachineGVR, ns, n) = view s (kiteVirtualMachineGVR, ns, n)) \<and>
     (r = Inr () \<or> view s' (kiteUserGVR, [], name) \<noteq> view s (kiteUserGVR, [], name) \<longrightarrow>
        (\<forall>n. goneAt (view s') namespace n))) s"
    (is "wp _ ?Q s")
proof -
  have spec: "specFromObject user = Inr m \<Longrightarrow> specOf user = m" for m
    by (auto simp: specFromObject_def specOf_def mapValue_def objField_def split: option.splits)
  have same: "view s' = view s \<Longrightarrow> ?Q (Inl e) s'" for s' e by simp
  have frame: "(\<forall>k. fst k \<noteq> kiteVirtualMachineGVR \<longrightarrow> v' k = v k) \<and>
      (\<forall>n ns. ns \<noteq> namespace \<longrightarrow> v' (kiteVirtualMachineGVR, ns, n) = v (kiteVirtualMachineGVR, ns, n))"
    if "vmsDeleting namespace v v'" for v v'
    using that unfolding vmsDeleting_def by (metis fst_conv snd_conv)
  have last: "wp (UserStore_Delete E name) ?Q s2"
    if d: "vmsDeleting namespace (view s) (view s2)" "\<forall>n. goneAt (view s2) namespace n" for s2
    unfolding UserStore_Delete_def
    by (rule wp_delete) (use frame[OF d(1)] d(2) in \<open>auto simp: deleted_def goneAt_def\<close>)
  have vms: "wp (tryE (deleteVirtualMachinesInNamespace E namespace) (\<lambda>_. UserStore_Delete E name)) ?Q s1"
    if v: "view s1 = view s" for s1
    unfolding wp_tryE
  proof (rule wp_mono[OF wp_deleteVirtualMachinesInNamespace[OF ns(2)]])
    fix r :: "unit result" and s2 assume "vmsDeleting namespace (view s1) (view s2) \<and> (r = Inr () \<longrightarrow> (\<forall>n. goneAt (view s2) namespace n))"
    then show "case r of Inl e \<Rightarrow> ?Q (Inl e) s2 | Inr _ \<Rightarrow> wp (UserStore_Delete E name) ?Q s2"
      using last[of s2] frame[of "view s" "view s2"] unfolding v by (cases r) auto
  qed
  show ?thesis
    unfolding Account_Delete_def Let_def UserStore_Get_def wp_tryE[of "env_get E kiteUserGVR [] name"]
  proof (rule wp_get, unfold sum.case)
    fix s1 x assume v: "view s1 = view s" and "view s (kiteUserGVR, [], name) = Some x"
    then have x: "x = user" using user by simp
    show "wp (tryE (State_Monad.return (specFromObject x)) (\<lambda>spec.
        tryE (if TrimSpace (stringValue spec ''namespace'') \<noteq> []
          then deleteVirtualMachinesInNamespace E (TrimSpace (stringValue spec ''namespace'')) else ok ())
        (\<lambda>_. UserStore_Delete E name))) ?Q s1"
      by (subst wp_tryE, subst wp_return)
         (use ns spec vms[OF v] same[OF v] in \<open>auto simp: x split: sum.split\<close>)
  qed (simp add: user)
qed

end

section \<open>Properties\<close>

text \<open>Sign-up and administrative update keep the account database consistent under any API
  faults: user names and e-mail addresses (case-insensitively) stay unique and every access level
  stays between 0 and 3.\<close>

theorem SignUp_keeps_usersOK:
  assumes "kube_api E view" "usersOK E (view s)"
  shows "usersOK E (view (snd (run_state (SignUp E salt req) s)))"
proof -
  have "wp (SignUp E salt req) (\<lambda>r s'. usersOK E (view s')) s"
    by (rule kube_api.wp_SignUp[OF assms(1)]) (auto simp: assms(2) intro: usersOK_created[OF assms(2)])
  then show ?thesis unfolding wp_snd .
qed

lemma usersOK_empty: "usersOK E (mem_view (mem_init [] f))"
  by (simp add: usersOK_def uniqueIn_def mem_view_def mem_init_def)

definition demoSignUp :: SignUpRequest where
  "demoSignUp = \<lparr>su_name = [], su_username = ''alice'', su_email = '' Alice@Example.com'',
     su_password = ''pw'', su_namespace = []\<rparr>"

theorem SignUp_keeps_usersOK_witness:
  "usersOK mem_env (mem_view (snd (run_state (SignUp mem_env ''salt'' demoSignUp)
     (mem_init [] [Served, Served, Served, ReplyLost]))))"
  by (rule SignUp_keeps_usersOK[OF mem_kube_api usersOK_empty])

text \<open>C23: a successful sign-up adds exactly one user.  It is an administrator when no user existed,
  read-only otherwise; its password is stored as a hash of the given one that verifies; and public
  sign-up without a namespace gets the namespace derived from its own name.\<close>

theorem SignUp_success:
  assumes "kube_api E view" "bcrypt_spec E" "run_state (SignUp E salt req) s = (Inr user, s')"
  shows "\<exists>rec x. view s (kiteUserGVR, [], ur_name rec) = None \<and>
     view s' = (view s)((kiteUserGVR, [], ur_name rec) \<mapsto> x) \<and>
     account_recordFromObject x = Inr rec \<and> publicUserFromObject x = Inr user \<and>
     us_username (ur_spec rec) = TrimSpace (su_username req) \<and>
     us_accessLevel (ur_spec rec) = (if noUsers (view s) then AccessLevelAdmin else AccessLevelReadOnly) \<and>
     VerifyPassword E (su_password req) salt (us_password (ur_spec rec)) \<and>
     us_namespace (ur_spec rec) = kiteUserNamespace (ur_name rec) (TrimSpace (su_namespace req))"
    (is "?P user s'")
proof -
  have "wp (SignUp E salt req) (\<lambda>r s'. \<forall>user. r = Inr user \<longrightarrow> ?P user s') s"
  proof (rule kube_api.wp_SignUp[OF assms(1)])
    fix s' rec stored
    assume ready: "signUpReady E salt req (view s) rec"
      and cr: "created kiteUserGVR [] (newKiteUserObject rec) (view s) (view s') stored"
    have dec: "account_recordFromObject stored = Inr rec"
      using account_recordFromObject_new[of rec] ready user_created_spec[OF cr]
        account_recordFromObject_cong[of stored "newKiteUserObject rec"]
      by (simp add: signUpReady_def)
    have "VerifyPassword E (su_password req) salt (us_password (ur_spec rec))"
      using hashedBy_verifies[OF assms(2)] ready by (auto simp: signUpReady_def)
    with ready cr dec have "?P user s'" if "publicUserFromObject stored = Inr user" for user
      by (intro exI[of _ rec] exI[of _ stored]) (simp add: that created_def signUpReady_def)
    then show "(\<forall>user. publicUserFromObject stored = Inr user \<longrightarrow> ?P user s') \<and>
        (\<forall>e. indefinite e \<longrightarrow> (\<forall>user. Inl e = Inr user \<longrightarrow> ?P user s'))"
      by blast
  qed simp
  from wpD[OF this assms(3)] show ?thesis by blast
qed

theorem SignUp_success_witness:
  "\<exists>user s' (rec :: KiteUserRecord). run_state (SignUp mem_env ''salt'' demoSignUp) (mem_init [] []) = (Inr user, s') \<and>
     us_accessLevel (ur_spec rec) = 3 \<and> us_username (ur_spec rec) = ''alice'' \<and>
     VerifyPassword mem_env ''pw'' ''salt'' (us_password (ur_spec rec))"
proof -
  have "\<not> isl (fst (run_state (SignUp mem_env ''salt'' demoSignUp) (mem_init [] [])))" by code_simp
  from run_Inr[OF this] obtain user s' where run: "run_state (SignUp mem_env ''salt'' demoSignUp) (mem_init [] []) = (Inr user, s')"
    by blast
  have none: "noUsers (mem_view (mem_init [] []))"
    by (simp add: noUsers_def mem_view_def mem_init_def)
  have trim: "TrimSpace ''alice'' = ''alice''" by code_simp
  have "\<exists>rec :: KiteUserRecord. us_accessLevel (ur_spec rec) = 3 \<and> us_username (ur_spec rec) = ''alice'' \<and>
      VerifyPassword mem_env ''pw'' ''salt'' (us_password (ur_spec rec))"
    using SignUp_success[OF mem_kube_api mem_bcrypt_spec, OF run]
    unfolding if_P[OF none] AccessLevelAdmin_def demoSignUp_def
    by (simp add: trim) blast
  with run show ?thesis by blast
qed

text \<open>An update of a user keeps user names and e-mail addresses unique and access levels in
  range, also when the new e-mail address is the user's own in another spelling.\<close>

theorem Account_Update_keeps_usersOK:
  assumes "kube_api E view" "usersOK E (view s)"
  shows "usersOK E (view (snd (run_state (Account_Update E salt name req) s)))"
proof -
  have "wp (Account_Update E salt name req) (\<lambda>r s'. usersOK E (view s')) s"
    by (rule kube_api.wp_Account_Update[OF assms(1)])
       (auto simp: assms(2) intro: userUpdateReady_usersOK[OF assms(2)])
  then show ?thesis unfolding wp_snd .
qed

theorem Account_Update_keeps_usersOK_witness:
  "usersOK mem_env (mem_view (snd (run_state (Account_Update mem_env ''salt'' ''ku-1''
     \<lparr>au_email = Some ''a@b'', au_password = None, au_namespace = None, au_profileImage = None, au_accessLevel = Some 7\<rparr>)
     (mem_init [] [Served]))))"
  by (rule Account_Update_keeps_usersOK[OF mem_kube_api usersOK_empty])

text \<open>C10: \<open>Authenticate\<close> accepts only a stored user whose e-mail address matches and whose password
  hash verifies; it changes nothing, except that the legacy hash of such a user is replaced by a fresh hash of
  the same password.  This also holds of an attempt that ends in an error.\<close>

theorem Authenticate_sound:
  assumes "kube_api E view" "run_state (Authenticate E salt email pw) s = (r, s')"
  shows "loginOutcome E salt email pw (view s) r (view s')"
  by (rule wpD[OF kube_api.wp_Authenticate[OF assms(1)] assms(2)])

definition demoUser :: kobj where
  "demoUser = newKiteUserObject \<lparr>ur_name = ''ku-1'', ur_spec = \<lparr>us_username = ''alice'', us_email = ''alice@example.com'',
     us_password = ''$2a$12$pw'', us_namespace = ''kite-user-ku-1'', us_profileImage = [], us_accessLevel = 3\<rparr>\<rparr>"

definition demoUsers :: mem where
  "demoUsers = mem_init [((kiteUserGVR, [], ''ku-1''), demoUser)] []"

theorem Authenticate_sound_witness:
  "\<exists>u s'. run_state (Authenticate mem_env ''salt'' ''ALICE@example.com '' ''pw'') demoUsers = (Inr (Some u), s') \<and>
     loginOutcome mem_env ''salt'' ''ALICE@example.com '' ''pw'' (mem_view demoUsers) (Inr (Some u)) (mem_view s')"
proof -
  let ?run = "run_state (Authenticate mem_env ''salt'' ''ALICE@example.com '' ''pw'') demoUsers"
  have "\<not> isl (fst ?run)" by code_simp
  from run_Inr[OF this] obtain x s' where run: "?run = (Inr x, s')" by blast
  have "\<not> Option.is_none (projr (fst ?run))" by code_simp
  then obtain u where "x = Some u" using run by (auto simp: Option.is_none_def)
  with run Authenticate_sound[OF mem_kube_api, OF run] show ?thesis by auto
qed

text \<open>C24: deleting a user first removes the virtual machines of its namespace: no delete of the
  user object happens before every one of them is gone or marked for deletion, and objects outside
  that namespace other than the user are untouched.\<close>

theorem Account_Delete_order:
  assumes "kube_api E view" "run_state (Account_Delete E name) s = (r, s')"
    "view s (kiteUserGVR, [], name) = Some user"
    "namespace = TrimSpace (stringValue (specOf user) ''namespace'')" "namespace \<noteq> []"
  shows "(\<forall>k. fst k \<noteq> kiteVirtualMachineGVR \<and> k \<noteq> (kiteUserGVR, [], name) \<longrightarrow> view s' k = view s k) \<and>
     (\<forall>n ns. ns \<noteq> namespace \<longrightarrow> view s' (kiteVirtualMachineGVR, ns, n) = view s (kiteVirtualMachineGVR, ns, n)) \<and>
     (r = Inr () \<or> view s' (kiteUserGVR, [], name) \<noteq> view s (kiteUserGVR, [], name) \<longrightarrow>
        (\<forall>n. goneAt (view s') namespace n))"
proof -
  let ?key = "(kiteUserGVR, [], name)"
  let ?Q = "\<lambda>r s'. (\<forall>k. fst k \<noteq> kiteVirtualMachineGVR \<and> k \<noteq> ?key \<longrightarrow> view s' k = view s k) \<and>
     (\<forall>n ns. ns \<noteq> namespace \<longrightarrow> view s' (kiteVirtualMachineGVR, ns, n) = view s (kiteVirtualMachineGVR, ns, n)) \<and>
     (r = Inr () \<or> view s' ?key \<noteq> view s ?key \<longrightarrow> (\<forall>n. goneAt (view s') namespace n))"
  have "wp (Account_Delete E name) ?Q s"
    by (rule kube_api.wp_Account_Delete[OF assms(1,3,4,5)])
  from wpD[OF this assms(2)] show ?thesis .
qed

definition demoTwoVMs :: mem where
  "demoTwoVMs = mem_init
     [((kiteUserGVR, [], ''ku-1''), demoUser),
      ((kiteVirtualMachineGVR, ''kite-user-ku-1'', ''a''), newObject ''KiteVirtualMachine'' ''kite-user-ku-1'' ''a'' [] []),
      ((kiteVirtualMachineGVR, ''other'', ''b''), newObject ''KiteVirtualMachine'' ''other'' ''b'' [] [])] []"

theorem Account_Delete_order_witness:
  "fst (run_state (Account_Delete mem_env ''ku-1'') demoTwoVMs) = Inr () \<and>
   goneAt (mem_view (snd (run_state (Account_Delete mem_env ''ku-1'') demoTwoVMs))) ''kite-user-ku-1'' ''a''"
proof -
  let ?run = "run_state (Account_Delete mem_env ''ku-1'') demoTwoVMs"
  have "\<not> isl (fst ?run)" by code_simp
  from run_Inr[OF this] obtain u s' where run: "?run = (Inr u, s')" by blast
  have user: "mem_view demoTwoVMs (kiteUserGVR, [], ''ku-1'') = Some demoUser"
    by (simp add: demoTwoVMs_def mem_view_def mem_init_def validKey_def demoUser_def newKiteUserObject_def newObject_def)
  have ns: "''kite-user-ku-1'' = TrimSpace (stringValue (specOf demoUser) ''namespace'')" by code_simp
  from Account_Delete_order[OF mem_kube_api, OF run user ns] run show ?thesis by simp
qed

text \<open>Whatever labels and finalizers a stored user carries, an update through \<open>UserStore.Update\<close>
  leaves it with none, because the written object is built from the record alone; only the status
  survives.\<close>

theorem UserStore_Update_drops_metadata:
  assumes "kube_api E view" "run_state (UserStore_Update E rec) s = (Inr x, s')"
    "view s' (kiteUserGVR, [], ur_name rec) = Some y"
  shows "k_labels y = [] \<and> k_finalizers y = [] \<and>
     (\<exists>cur. view s (kiteUserGVR, [], ur_name rec) = Some cur \<and> objField y ''status'' = objField cur ''status'')"
proof -
  have "wp (UserStore_Update E rec) (\<lambda>r s'. \<forall>x. r = Inr x \<longrightarrow> userUpdateEffect rec (view s) (view s') x) s"
    by (rule kube_api.wp_UserStore_Update[OF assms(1)]) auto
  from wpD[OF this assms(2)] have "userUpdateEffect rec (view s) (view s') x" by simp
  then show ?thesis
    using assms(3) by (auto simp: userUpdateEffect_def split: if_splits)
qed

definition labelledUser :: mem where
  "labelledUser = mem_init [((kiteUserGVR, [], ''ku-1''), demoUser\<lparr>k_labels := [(''team'', ''a'')], k_finalizers := [''x/y'']\<rparr>)] []"

definition demoUserRecord :: KiteUserRecord where
  "demoUserRecord = \<lparr>ur_name = ''ku-1'', ur_spec = \<lparr>us_username = ''alice'', us_email = ''alice@example.com'',
     us_password = ''$2a$12$pw'', us_namespace = ''kite-user-ku-1'', us_profileImage = [], us_accessLevel = 2\<rparr>\<rparr>"

theorem UserStore_Update_drops_metadata_witness:
  "\<exists>y. mem_view (snd (run_state (UserStore_Update mem_env demoUserRecord) labelledUser)) (kiteUserGVR, [], ''ku-1'') = Some y \<and>
     k_labels y = [] \<and> k_finalizers y = []"
proof -
  let ?run = "run_state (UserStore_Update mem_env demoUserRecord) labelledUser"
  have "\<not> isl (fst ?run)" by code_simp
  from run_Inr[OF this] obtain x s' where run: "?run = (Inr x, s')" by blast
  have "\<not> Option.is_none (mem_view (snd ?run) (kiteUserGVR, [], ur_name demoUserRecord))" by code_simp
  then obtain y where y: "mem_view s' (kiteUserGVR, [], ur_name demoUserRecord) = Some y"
    using run by (auto simp: Option.is_none_def)
  from UserStore_Update_drops_metadata[OF mem_kube_api, OF run y] run y show ?thesis
    by (auto simp: demoUserRecord_def)
qed

end
