(* ===== verification/Offer_Service.thy ===== *)
theory Offer_Service
  imports VM_Service Go_Time
begin

text \<open>
  \<open>internal/offer\<close> (\<open>service.go\<close>, \<open>record.go\<close>, \<open>convert.go\<close>) and the offer clean-up loop of the
  controller (\<open>vm-offer-cleanup.go\<close>).  An administrator stores a capacity offer in a user's
  namespace; the user claims it once, which turns it into a virtual machine; expired offers are
  removed.  Names that the packages \<open>vm\<close> and \<open>offer\<close> share carry the prefix \<open>offer_\<close> here.
\<close>

section \<open>Constants and types\<close>

definition defaultTTL :: int where
  "defaultTTL = 24 * 3600 * nsPerSec"

definition phaseAvailable :: string where
  "phaseAvailable = ''Available''"

definition phaseClaimed :: string where
  "phaseClaimed = ''Claimed''"

record offer_CreateRequest =
  oc_targetNamespace :: string
  oc_name :: string
  oc_cpu :: int
  oc_memory :: string
  oc_disk :: string
  oc_image :: string
  oc_expiresAt :: string
  oc_createdBy :: string

record ClaimRequest =
  cl_vmName :: string
  cl_domainPrefix :: string
  cl_sshID :: string
  cl_initialLoginPassword :: string
  cl_powerState :: string

record VirtualMachineOffer =
  vo_id :: string
  vo_name :: string
  vo_namespace :: string
  vo_cpu :: int
  vo_memory :: string
  vo_disk :: string
  vo_image :: string
  vo_expiresAt :: string
  vo_createdBy :: string
  vo_phase :: string
  vo_claimedBy :: string
  vo_message :: string

definition offer_invalid :: "string \<Rightarrow> goerr" where
  "offer_invalid message = ReqErr PkgOffer ErrorKindInvalid message"

definition offer_conflict :: "string \<Rightarrow> goerr" where
  "offer_conflict message = ReqErr PkgOffer ErrorKindConflict message"

definition offer_RequestErrorKind :: "goerr \<Rightarrow> string option" where
  "offer_RequestErrorKind e =
     (case e of ReqErr p kind _ \<Rightarrow> if p = PkgOffer then Some kind else None | _ \<Rightarrow> None)"

section \<open>Records from requests\<close>

definition offer_validateDisk :: "'s env \<Rightarrow> string \<Rightarrow> unit result" where
  "offer_validateDisk E disk =
     (case env_quantity E (TrimSpace disk) of
        Inl _ \<Rightarrow> Inl (offer_invalid ''disk must be a valid Kubernetes quantity'')
      | Inr quantity \<Rightarrow>
          if quantity < minimumDiskQuantity E then Inl (offer_invalid ''disk must be at least 20Gi'')
          else Inr ())"

definition normalizeExpiresAt :: "'s env \<Rightarrow> string \<Rightarrow> ('s, string result) state" where
  "normalizeExpiresAt E value =
     (if value = [] then do { now \<leftarrow> env_now E; ok (formatRFC3339 (now + defaultTTL)) }
      else case parseRFC3339 value of
        None \<Rightarrow> fail (offer_invalid ''expiresAt must be RFC3339'')
      | Some expiresAt \<Rightarrow> do {
          now \<leftarrow> env_now E;
          if \<not> now < expiresAt then fail (offer_invalid ''expiresAt must be in the future'')
          else ok (formatRFC3339 expiresAt)
        })"

definition trimOfferRequest :: "offer_CreateRequest \<Rightarrow> offer_CreateRequest" where
  "trimOfferRequest req = req\<lparr>
     oc_targetNamespace := TrimSpace (oc_targetNamespace req),
     oc_name := TrimSpace (oc_name req),
     oc_memory := TrimSpace (oc_memory req),
     oc_image := TrimSpace (oc_image req),
     oc_disk := TrimSpace (oc_disk req),
     oc_expiresAt := TrimSpace (oc_expiresAt req),
     oc_createdBy := TrimSpace (oc_createdBy req)\<rparr>"

text \<open>The checks of \<open>createRecord\<close> before the expiry, in source order.\<close>

definition checkOfferRequest :: "'s env \<Rightarrow> offer_CreateRequest \<Rightarrow> unit result" where
  "checkOfferRequest E req =
     (if oc_targetNamespace req = [] then Inl (offer_invalid ''target namespace is required'')
      else if oc_cpu req < 1 then Inl (offer_invalid ''cpu must be greater than zero'')
      else if oc_memory req = [] then Inl (offer_invalid ''memory is required'')
      else if oc_disk req = [] then Inl (offer_invalid ''disk is required'')
      else if oc_createdBy req = [] then Inl (offer_invalid ''createdBy is required'')
      else offer_validateDisk E (oc_disk req))"

definition offerRecord :: "offer_CreateRequest \<Rightarrow> string \<Rightarrow> string \<Rightarrow> KiteVirtualMachineOfferRecord" where
  "offerRecord req name expiresAt =
     \<lparr>or_name = name, or_namespace = oc_targetNamespace req,
      or_spec =
        \<lparr>os_cpu = oc_cpu req, os_memory = oc_memory req,
         os_image = (if oc_image req = [] then ''ubuntu-22.04'' else oc_image req),
         os_disk = oc_disk req, os_expiresAt = expiresAt, os_createdBy = oc_createdBy req\<rparr>\<rparr>"

definition offer_createRecord :: "'s env \<Rightarrow> offer_CreateRequest \<Rightarrow> ('s, KiteVirtualMachineOfferRecord result) state" where
  "offer_createRecord E req0 = do {
     let req = trimOfferRequest req0;
     name \<leftarrow> (if oc_name req = [] then do { u \<leftarrow> env_uuid E; State_Monad.return (''offer-'' @ u) }
              else State_Monad.return (oc_name req));
     tryE (State_Monad.return (checkOfferRequest E req)) (\<lambda>_.
     tryE (normalizeExpiresAt E (oc_expiresAt req)) (\<lambda>expiresAt.
     ok (offerRecord req name expiresAt)))
   }"

section \<open>Offers from objects\<close>

definition offerFromObject :: "kobj \<Rightarrow> VirtualMachineOffer" where
  "offerFromObject obj =
     (let spec = specOf obj; status = statusOf obj; phase = stringValue status ''phase'' in
      \<lparr>vo_id = k_uid obj, vo_name = k_name obj, vo_namespace = k_namespace obj,
       vo_cpu = intValue spec ''cpu'', vo_memory = stringValue spec ''memory'',
       vo_disk = stringValue spec ''disk'', vo_image = stringValue spec ''image'',
       vo_expiresAt = stringValue spec ''expiresAt'', vo_createdBy = stringValue spec ''createdBy'',
       vo_phase = (if phase = [] then phaseAvailable else phase),
       vo_claimedBy = stringValue status ''claimedBy'', vo_message = stringValue status ''message''\<rparr>)"

definition claimedStatus :: "int \<Rightarrow> string \<Rightarrow> gomap" where
  "claimedStatus observedGeneration username =
     [(''phase'', GStr phaseClaimed), (''claimedBy'', GStr username),
      (''message'', GStr ''offer claimed and VM creation started''),
      (''observedGeneration'', GInt observedGeneration)]"

definition offerExpired :: "string \<Rightarrow> int \<Rightarrow> bool" where
  "offerExpired expiresAt now =
     (case parseRFC3339 (TrimSpace expiresAt) of None \<Rightarrow> True | Some parsed \<Rightarrow> \<not> now < parsed)"

section \<open>Service operations\<close>

definition Offer_Create :: "'s env \<Rightarrow> offer_CreateRequest \<Rightarrow> ('s, VirtualMachineOffer result) state" where
  "Offer_Create E req =
     tryE (offer_createRecord E req) (\<lambda>rec.
     tryE (OfferStore_Create E rec) (\<lambda>created. ok (offerFromObject created)))"

definition openOffers :: "int \<Rightarrow> kobj list \<Rightarrow> VirtualMachineOffer list" where
  "openOffers now items =
     filter (\<lambda>offer. \<not> (vo_phase offer = phaseClaimed \<or> offerExpired (vo_expiresAt offer) now))
       (map offerFromObject items)"

definition Offer_List :: "'s env \<Rightarrow> string \<Rightarrow> ('s, VirtualMachineOffer list result) state" where
  "Offer_List E namespace =
     tryE (OfferStore_List E namespace) (\<lambda>items. do { now \<leftarrow> env_now E; ok (openOffers now items) })"

definition claimVMRequest :: "string \<Rightarrow> VirtualMachineOffer \<Rightarrow> ClaimRequest \<Rightarrow> CreateRequest" where
  "claimVMRequest namespace offer req =
     \<lparr>cr_name = cl_vmName req, cr_namespace = namespace, cr_cpu = vo_cpu offer,
      cr_memory = vo_memory offer, cr_image = vo_image offer, cr_disk = vo_disk offer,
      cr_domainPrefix = cl_domainPrefix req, cr_sshID = cl_sshID req,
      cr_sshPassword = cl_initialLoginPassword req, cr_powerState = cl_powerState req\<rparr>"

text \<open>The part of \<open>Claim\<close> after the status write: create the VM, then delete the offer.\<close>

definition fulfilClaim :: "'s env \<Rightarrow> string \<Rightarrow> string \<Rightarrow> string \<Rightarrow> CreateRequest \<Rightarrow> ('s, VirtualMachine result) state" where
  "fulfilClaim E passwordSalt namespace name vmReq =
     tryE (VM_Create E passwordSalt vmReq) (\<lambda>vm. do {
       r \<leftarrow> OfferStore_Delete E namespace name;
       case r of
         Inl e \<Rightarrow> if \<not> apiIsNotFound e then fail e else ok vm
       | Inr _ \<Rightarrow> ok vm
     })"

definition Claim :: "'s env \<Rightarrow> string \<Rightarrow> string \<Rightarrow> string \<Rightarrow> string \<Rightarrow> ClaimRequest \<Rightarrow> ('s, VirtualMachine result) state" where
  "Claim E passwordSalt namespace name username req =
     tryE (OfferStore_Get E namespace name) (\<lambda>current.
       let offer = offerFromObject current in
       if vo_phase offer = phaseClaimed then fail (offer_conflict ''offer is already claimed'') else do {
         now \<leftarrow> env_now E;
         if offerExpired (vo_expiresAt offer) now then fail (offer_invalid ''offer is expired'') else do {
           r \<leftarrow> OfferStore_UpdateStatus E current (claimedStatus (k_generation current) username);
           case r of
             Inl e \<Rightarrow> if apiIsConflict e then fail (offer_conflict ''offer was claimed by another request'')
                      else fail e
           | Inr _ \<Rightarrow> fulfilClaim E passwordSalt namespace name (claimVMRequest namespace offer req)
         }
       })"

definition Offer_Delete :: "'s env \<Rightarrow> string \<Rightarrow> string \<Rightarrow> ('s, unit result) state" where
  "Offer_Delete E namespace name = OfferStore_Delete E namespace name"

section \<open>The clean-up loop\<close>

definition kiteVirtualMachineOfferExpired :: "kobj \<Rightarrow> int \<Rightarrow> bool" where
  "kiteVirtualMachineOfferExpired offer now =
     (let expiresAtValue = nestedOr [] (NestedString (k_body offer) [''spec'', ''expiresAt'']) in
      case parseRFC3339 (TrimSpace expiresAtValue) of None \<Rightarrow> True | Some expiresAt \<Rightarrow> \<not> now < expiresAt)"

definition deleteExpiredStep :: "'s env \<Rightarrow> int \<Rightarrow> kobj \<Rightarrow> ('s, unit result) state" where
  "deleteExpiredStep E now offer =
     (if \<not> kiteVirtualMachineOfferExpired offer now then ok () else do {
        r \<leftarrow> env_delete E kiteVirtualMachineOfferGVR (k_namespace offer) (k_name offer);
        case r of
          Inl e \<Rightarrow> if \<not> apiIsNotFound e then fail e else ok ()
        | Inr _ \<Rightarrow> ok ()
      })"

definition DeleteExpiredKiteVirtualMachineOffers :: "'s env \<Rightarrow> int \<Rightarrow> ('s, unit result) state" where
  "DeleteExpiredKiteVirtualMachineOffers E now = do {
     r \<leftarrow> env_list E kiteVirtualMachineOfferGVR [];
     case r of
       Inl e \<Rightarrow> if apiIsNotFound e then ok () else fail e
     | Inr items \<Rightarrow> forE items (deleteExpiredStep E now)
   }"

text \<open>
  The loop of \<open>RunKiteVirtualMachineOfferCleanup\<close>: one pass at the start and one per tick until the
  stop channel closes.  \<open>ticks\<close> is the number of ticks before that; errors are only logged.
\<close>

primrec RunKiteVirtualMachineOfferCleanup :: "'s env \<Rightarrow> nat \<Rightarrow> ('s, unit) state" where
  "RunKiteVirtualMachineOfferCleanup E 0 = do {
     now \<leftarrow> env_now E;
     _ \<leftarrow> DeleteExpiredKiteVirtualMachineOffers E now;
     State_Monad.return ()
   }"
| "RunKiteVirtualMachineOfferCleanup E (Suc ticks) = do {
     _ \<leftarrow> RunKiteVirtualMachineOfferCleanup E ticks;
     now \<leftarrow> env_now E;
     _ \<leftarrow> DeleteExpiredKiteVirtualMachineOffers E now;
     State_Monad.return ()
   }"

section \<open>Expiry\<close>

text \<open>The clean-up loop and the service agree on which offers are expired.\<close>

lemma nestedString_spec:
  "nestedOr [] (NestedString (k_body obj) [''spec'', f]) = stringValue (specOf obj) f"
proof (cases "map_of (k_body obj) ''spec''")
  case (Some v)
  then show ?thesis
    by (cases v) (auto simp: NestedString_def nestedOr_def stringValue_def specOf_def mapValue_def
      split: option.splits gov.splits)
qed (simp add: NestedString_def nestedOr_def stringValue_def specOf_def mapValue_def)

lemma cleanup_expired_iff:
  "kiteVirtualMachineOfferExpired obj now = offerExpired (vo_expiresAt (offerFromObject obj)) now"
  unfolding kiteVirtualMachineOfferExpired_def nestedString_spec Let_def offerExpired_def
  by (simp add: offerFromObject_def Let_def)

text \<open>The last instant whose year has four digits, in seconds.\<close>

definition fourDigitYear :: "int \<Rightarrow> bool" where
  "fourDigitYear t \<longleftrightarrow>
     0 \<le> fst (civilDate (t div nsPerSec div 86400)) \<and> fst (civilDate (t div nsPerSec div 86400)) < 10000"

lemma pad2_solid: "0 \<le> n \<Longrightarrow> n < 100 \<Longrightarrow> solidByte (hd (pad2 n))"
  by (simp add: pad2_def solidByte_def)

lemma TrimSpace_format:
  assumes "fourDigitYear t"
  shows "TrimSpace (formatRFC3339 t) = formatRFC3339 t"
proof -
  obtain y m d where c: "civilDate (t div nsPerSec div 86400) = (y, m, d)"
    by (cases "civilDate (t div nsPerSec div 86400)") auto
  have y: "0 \<le> y" "y < 10000" using assms c by (auto simp: fourDigitYear_def)
  obtain r where f: "formatRFC3339 t = pad2 (y div 100) @ r @ ''Z''"
    using y by (simp add: formatRFC3339_def dateTimeText_def Let_def c pad4_def)
  have "hd (formatRFC3339 t) = hd (pad2 (y div 100))" "last (formatRFC3339 t) = CHR ''Z''" "formatRFC3339 t \<noteq> []"
    unfolding f by (simp_all add: pad2_def)
  moreover have "y div 100 < 100" using y by auto
  ultimately show ?thesis
    using y by (intro TrimSpace_solid) (auto simp: pad2_solid pos_imp_zdiv_nonneg_iff, simp add: solidByte_def byteOf_def)
qed

lemma offerExpired_format:
  "fourDigitYear t \<Longrightarrow> offerExpired (formatRFC3339 t) now \<longleftrightarrow> t div nsPerSec * nsPerSec \<le> now"
  unfolding offerExpired_def TrimSpace_format
  by (subst parse_format) (auto simp: fourDigitYear_def)

section \<open>Creating offers\<close>

definition validOfferRequest :: "'s env \<Rightarrow> offer_CreateRequest \<Rightarrow> bool" where
  "validOfferRequest E req \<longleftrightarrow>
     oc_targetNamespace req \<noteq> [] \<and> 1 \<le> oc_cpu req \<and> oc_memory req \<noteq> [] \<and> oc_disk req \<noteq> [] \<and>
     oc_createdBy req \<noteq> [] \<and> validDisk E (TrimSpace (oc_disk req))"

lemma offer_validateDisk_iff: "offer_validateDisk E d = Inr () \<longleftrightarrow> validDisk E (TrimSpace d)"
  by (auto simp: offer_validateDisk_def validDisk_def split: sum.splits)

lemma checkOfferRequest_iff: "checkOfferRequest E req = Inr () \<longleftrightarrow> validOfferRequest E req"
  by (auto simp: checkOfferRequest_def validOfferRequest_def offer_validateDisk_iff)

lemma checkOfferRequest_error:
  "checkOfferRequest E req = Inl e \<Longrightarrow> offer_RequestErrorKind e = Some ErrorKindInvalid"
  by (auto simp: checkOfferRequest_def offer_validateDisk_def offer_RequestErrorKind_def offer_invalid_def
      split: if_splits sum.splits)

text \<open>The instant an accepted request stands for: a day from now, or the one it names.\<close>

definition requestedExpiry :: "int \<Rightarrow> string \<Rightarrow> int option" where
  "requestedExpiry now value =
     (if value = [] then Some (now + defaultTTL)
      else case parseRFC3339 value of None \<Rightarrow> None | Some t \<Rightarrow> if now < t then Some t else None)"

lemma normalizeExpiresAt_Inr:
  assumes "run_state (normalizeExpiresAt E value) s = (Inr x, s')"
  shows "\<exists>now t s1. run_state (env_now E) s = (now, s1) \<and> requestedExpiry now value = Some t \<and> x = formatRFC3339 t"
  using assms
  by (auto simp: normalizeExpiresAt_def requestedExpiry_def ok_def fail_def split: if_splits option.splits prod.splits)

lemma normalizeExpiresAt_Inl:
  assumes "run_state (normalizeExpiresAt E value) s = (Inl e, s')"
  shows "offer_RequestErrorKind e = Some ErrorKindInvalid"
    and "parseRFC3339 value = None \<or> (\<exists>now s1. run_state (env_now E) s = (now, s1) \<and> requestedExpiry now value = None)"
  using assms
  by (auto simp: normalizeExpiresAt_def requestedExpiry_def ok_def fail_def offer_RequestErrorKind_def offer_invalid_def
      split: if_splits option.splits prod.splits)

text \<open>What a record of \<open>createRecord\<close> satisfies with respect to the clock reading \<open>now\<close>.\<close>

definition offerAccepted :: "'s env \<Rightarrow> offer_CreateRequest \<Rightarrow> int \<Rightarrow> int \<Rightarrow> KiteVirtualMachineOfferRecord \<Rightarrow> bool" where
  "offerAccepted E req now t rec \<longleftrightarrow>
     validOfferRequest E req \<and> requestedExpiry now (oc_expiresAt req) = Some t \<and>
     rec = offerRecord req (or_name rec) (formatRFC3339 t) \<and> or_name rec \<noteq> [] \<and>
     (oc_name req \<noteq> [] \<longrightarrow> or_name rec = oc_name req)"

lemma offer_createRecord_run:
  "run_state (offer_createRecord E req0) s =
     (let req = trimOfferRequest req0;
          (name, s1) = (if oc_name req = []
                        then (case run_state (env_uuid E) s of (u, s1) \<Rightarrow> (''offer-'' @ u, s1))
                        else (oc_name req, s))
      in case checkOfferRequest E req of
           Inl e \<Rightarrow> (Inl e, s1)
         | Inr _ \<Rightarrow>
             (case run_state (normalizeExpiresAt E (oc_expiresAt req)) s1 of
                (Inl e, s2) \<Rightarrow> (Inl e, s2)
              | (Inr x, s2) \<Rightarrow> (Inr (offerRecord req name x), s2)))"
  by (auto simp: offer_createRecord_def Let_def tryE_def ok_def fail_def split: prod.splits sum.splits)

lemma offer_createRecord_Inr:
  assumes "run_state (offer_createRecord E req0) s = (Inr rec, s')"
  shows "\<exists>now t. offerAccepted E (trimOfferRequest req0) now t rec"
proof -
  let ?req = "trimOfferRequest req0"
  obtain name s1 x s2 where name: "name \<noteq> []" "oc_name ?req \<noteq> [] \<longrightarrow> name = oc_name ?req"
    and check: "checkOfferRequest E ?req = Inr ()"
    and x: "run_state (normalizeExpiresAt E (oc_expiresAt ?req)) s1 = (Inr x, s2)"
    and rec: "rec = offerRecord ?req name x"
    using assms by (auto simp: offer_createRecord_run Let_def split: if_splits sum.splits prod.splits)
  obtain now t s3 where now: "requestedExpiry now (oc_expiresAt ?req) = Some t" and xt: "x = formatRFC3339 t"
    using normalizeExpiresAt_Inr[OF x] by blast
  have "or_name rec = name" by (simp add: rec offerRecord_def)
  then have "offerAccepted E ?req now t rec"
    using name check[unfolded checkOfferRequest_iff] now rec xt unfolding offerAccepted_def by metis
  then show ?thesis by blast
qed

lemma offer_createRecord_Inl:
  assumes "run_state (offer_createRecord E req0) s = (Inl e, s')"
  shows "offer_RequestErrorKind e = Some ErrorKindInvalid"
  using assms checkOfferRequest_error normalizeExpiresAt_Inl(1)
  by (auto simp: offer_createRecord_run Let_def split: if_splits sum.splits prod.splits)

section \<open>Claiming offers\<close>

definition offerKey :: "string \<Rightarrow> string \<Rightarrow> kkey" where
  "offerKey ns n = (kiteVirtualMachineOfferGVR, ns, n)"

text \<open>An offer that nobody can claim any more: gone or marked as claimed.\<close>

definition offerTaken :: "kview \<Rightarrow> string \<Rightarrow> string \<Rightarrow> bool" where
  "offerTaken v ns n \<longleftrightarrow>
     (case v (offerKey ns n) of None \<Rightarrow> True | Some x \<Rightarrow> vo_phase (offerFromObject x) = phaseClaimed)"

definition claimWritten :: "string \<Rightarrow> string \<Rightarrow> string \<Rightarrow> kobj \<Rightarrow> kview \<Rightarrow> kview \<Rightarrow> bool" where
  "claimWritten ns n username cur v v' \<longleftrightarrow>
     (\<exists>stored. v' = v(offerKey ns n \<mapsto> stored) \<and>
        objField stored ''status'' = Some (GMap (claimedStatus (k_generation cur) username)) \<and>
        objField stored ''spec'' = objField cur ''spec'' \<and> k_finalizers stored = k_finalizers cur)"

lemma claimedStatus_phase:
  assumes "objField x ''status'' = Some (GMap (claimedStatus g u))"
  shows "vo_phase (offerFromObject x) = phaseClaimed" "vo_claimedBy (offerFromObject x) = u"
  using assms
  by (simp_all add: offerFromObject_def Let_def statusOf_def mapValue_def objField_def claimedStatus_def
      stringValue_def phaseClaimed_def)

lemma claimWritten_taken: "claimWritten ns n u cur v v' \<Longrightarrow> offerTaken v' ns n"
  by (auto simp: claimWritten_def offerTaken_def claimedStatus_phase)

lemma vo_phase_cong:
  "objField a ''status'' = objField b ''status'' \<Longrightarrow> vo_phase (offerFromObject a) = vo_phase (offerFromObject b)"
  by (simp add: offerFromObject_def Let_def statusOf_def mapValue_def objField_def)

lemma taken_deleted:
  assumes "deleted kiteVirtualMachineOfferGVR ns n v v'" "offerTaken v ns n"
  shows "offerTaken v' ns n"
proof -
  obtain cur where cur: "v (offerKey ns n) = Some cur"
    and eff: "v' = v(offerKey ns n := None) \<or> (\<exists>stored. v' = v(offerKey ns n \<mapsto> stored) \<and> marked cur stored)"
    using assms(1) by (auto simp: deleted_def offerKey_def)
  have "marked cur stored \<Longrightarrow> vo_phase (offerFromObject stored) = vo_phase (offerFromObject cur)" for stored
    by (rule vo_phase_cong) (simp add: marked_def)
  with eff cur assms(2) show ?thesis by (auto simp: offerTaken_def)
qed

text \<open>Creating a VM writes VM objects and Secrets only.\<close>

definition vmWritesOnly :: "kview \<Rightarrow> kview \<Rightarrow> bool" where
  "vmWritesOnly v v' \<longleftrightarrow>
     (\<forall>g ns n. g \<noteq> kiteVirtualMachineGVR \<longrightarrow> g \<noteq> secretGVR \<longrightarrow> v' (g, ns, n) = v (g, ns, n))"

lemma vmWritesOnly_refl [simp]: "vmWritesOnly v v"
  by (simp add: vmWritesOnly_def)

lemma vmWritesOnly_taken: "vmWritesOnly v v' \<Longrightarrow> offerTaken v' ns n = offerTaken v ns n"
  by (simp add: vmWritesOnly_def offerTaken_def offerKey_def)

lemma vmWritesOnly_trans: "vmWritesOnly a b \<Longrightarrow> vmWritesOnly b c \<Longrightarrow> vmWritesOnly a c"
  by (simp add: vmWritesOnly_def)

lemma vmWritesOnly_created:
  "created g ns obj v v' stored \<Longrightarrow> g = kiteVirtualMachineGVR \<or> g = secretGVR \<Longrightarrow> vmWritesOnly v v'"
  by (auto simp: created_def vmWritesOnly_def)

lemma vmWritesOnly_deleted: "deleted kiteVirtualMachineGVR ns n v v' \<Longrightarrow> vmWritesOnly v v'"
  by (auto simp: deleted_def vmWritesOnly_def)

lemma vmWritesOnly_abandoned: "abandoned rec hash v v' e \<Longrightarrow> vmWritesOnly v v'"
  unfolding abandoned_def
  by (metis vmWritesOnly_refl vmWritesOnly_trans vmWritesOnly_created vmWritesOnly_deleted)

lemma vmWritesOnly_vmCreated: "vmCreated rec hash v v' \<Longrightarrow> vmWritesOnly v v'"
  by (auto simp: vmCreated_def vmWritesOnly_def)

context kube_api begin

lemma VM_Create_writesOnly:
  "wp (VM_Create E salt req) (\<lambda>r s'. vmWritesOnly (view s) (view s')) s"
proof (rule wp_VM_Create)
  fix s' rec hash assume v: "view s' = view s"
  show "wp (writeVM E rec hash) (\<lambda>r s'. vmWritesOnly (view s) (view s')) s'"
    by (rule wp_writeVM) (auto simp: v intro: vmWritesOnly_abandoned vmWritesOnly_vmCreated)
qed simp

lemma wp_VM_Create_result:
  assumes "\<And>s' e. vmWritesOnly (view s) (view s') \<Longrightarrow> Q (Inl e) s'"
    and "\<And>s' vm rec hash. vmWritesOnly (view s) (view s') \<Longrightarrow> createReady E salt req (view s) rec hash \<Longrightarrow>
           vmCreated rec hash (view s) (view s') \<Longrightarrow> Q (Inr vm) s'"
  shows "wp (VM_Create E salt req) Q s"
proof (rule wpI)
  fix r s' assume run: "run_state (VM_Create E salt req) s = (r, s')"
  show "Q r s'"
    using wpD[OF VM_Create_writesOnly run] wpD[OF VM_Create_outcome run] assms by (cases r) auto
qed

lemma wp_fulfilClaim:
  assumes present: "view s (offerKey ns n) \<noteq> None"
    and failed: "\<And>s' e v2. vmWritesOnly (view s) v2 \<Longrightarrow>
       view s' = v2 \<or> deleted kiteVirtualMachineOfferGVR ns n v2 (view s') \<Longrightarrow> Q (Inl e) s'"
    and success: "\<And>s' vm v2 rec hash. createReady E salt req (view s) rec hash \<Longrightarrow> vmCreated rec hash (view s) v2 \<Longrightarrow>
       deleted kiteVirtualMachineOfferGVR ns n v2 (view s') \<Longrightarrow> Q (Inr vm) s'"
  shows "wp (fulfilClaim E salt ns n req) Q s"
  unfolding fulfilClaim_def OfferStore_Delete_def wp_tryE
proof (rule wp_VM_Create_result, unfold sum.case wp_bind)
  fix s1 vm rec hash
  assume w: "vmWritesOnly (view s) (view s1)" and ready: "createReady E salt req (view s) rec hash"
    and created: "vmCreated rec hash (view s) (view s1)"
  have "view s1 (kiteVirtualMachineOfferGVR, ns, n) \<noteq> None"
    using present w by (simp add: vmWritesOnly_def offerKey_def)
  then show "wp (env_delete E kiteVirtualMachineOfferGVR ns n)
      (\<lambda>r. wp (case r of Inl e \<Rightarrow> if \<not> apiIsNotFound e then fail e else ok vm | Inr x \<Rightarrow> ok vm) Q) s1"
    by (intro wp_delete) (auto simp: wp_simps intro: failed[OF w] success[OF ready created])
qed (blast intro: failed)

end

definition claimSucceeded :: "'s env \<Rightarrow> string \<Rightarrow> string \<Rightarrow> string \<Rightarrow> string \<Rightarrow> ClaimRequest \<Rightarrow> kview \<Rightarrow> kview \<Rightarrow> bool" where
  "claimSucceeded E salt ns n username req v v' \<longleftrightarrow>
     (\<exists>cur now v1 v2 rec hash.
        v (offerKey ns n) = Some cur \<and> vo_phase (offerFromObject cur) \<noteq> phaseClaimed \<and>
        \<not> offerExpired (vo_expiresAt (offerFromObject cur)) now \<and>
        claimWritten ns n username cur v v1 \<and>
        createReady E salt (claimVMRequest ns (offerFromObject cur) req) v1 rec hash \<and>
        vmCreated rec hash v1 v2 \<and> deleted kiteVirtualMachineOfferGVR ns n v2 v')"

context kube_api begin

lemma statusReplaced_claim:
  assumes cur: "view s (offerKey ns n) = Some cur"
    and rep: "statusReplaced kiteVirtualMachineOfferGVR (k_namespace cur)
       (setField ''status'' (GMap (claimedStatus (k_generation cur) u)) cur) (view s) v' stored"
  shows "claimWritten ns n u cur (view s) v'"
proof -
  have key: "k_name cur = n" "k_namespace cur = ns"
    using view_key[OF cur[unfolded offerKey_def]] by auto
  show ?thesis
    using rep cur key
    by (auto simp: statusReplaced_def claimWritten_def offerKey_def sameMeta_def)
qed

lemma wp_Claim:
  assumes unchanged: "\<And>s' e. view s' = view s \<Longrightarrow> Q (Inl e) s'"
    and lost: "\<And>s' e cur. view s (offerKey ns n) = Some cur \<Longrightarrow> claimWritten ns n u cur (view s) (view s') \<Longrightarrow> Q (Inl e) s'"
    and taken: "\<And>s1 cur now. view s (offerKey ns n) = Some cur \<Longrightarrow>
       vo_phase (offerFromObject cur) \<noteq> phaseClaimed \<Longrightarrow>
       \<not> offerExpired (vo_expiresAt (offerFromObject cur)) now \<Longrightarrow> claimWritten ns n u cur (view s) (view s1) \<Longrightarrow>
       wp (fulfilClaim E salt ns n (claimVMRequest ns (offerFromObject cur) req)) Q s1"
  shows "wp (Claim E salt ns n u req) Q s"
  unfolding Claim_def OfferStore_Get_def Let_def wp_tryE
proof (rule wp_get, unfold sum.case)
  fix s1 cur assume v1: "view s1 = view s" and cur: "view s (kiteVirtualMachineOfferGVR, ns, n) = Some cur"
  let ?offer = "offerFromObject cur"
  let ?status = "claimedStatus (k_generation cur) u"
  let ?rest = "\<lambda>r. case r of
       Inl e \<Rightarrow> if apiIsConflict e then fail (offer_conflict ''offer was claimed by another request'') else fail e
     | Inr _ \<Rightarrow> fulfilClaim E salt ns n (claimVMRequest ns ?offer req)"
  have claiming: "wp (OfferStore_UpdateStatus E cur ?status) (\<lambda>r. wp (?rest r) Q) s2"
    if s2: "view s2 = view s" and free: "vo_phase ?offer \<noteq> phaseClaimed" "\<not> offerExpired (vo_expiresAt ?offer) now" for s2 now
  proof -
    have claim: "claimWritten ns n u cur (view s) (view s3)"
      if "statusReplaced kiteVirtualMachineOfferGVR (k_namespace cur) (setField ''status'' (GMap ?status) cur)
            (view s2) (view s3) stored" for s3 stored
      using statusReplaced_claim[of s2 ns n cur u] that cur by (simp add: s2 offerKey_def)
    show ?thesis
      unfolding OfferStore_UpdateStatus_def
      by (rule wp_updateStatus)
         (auto simp: wp_simps s2 intro: unchanged lost[OF _ claim] taken[OF _ free claim] cur[folded offerKey_def])
  qed
  show "wp (if vo_phase ?offer = phaseClaimed then fail (offer_conflict ''offer is already claimed'') else do {
         now \<leftarrow> env_now E;
         if offerExpired (vo_expiresAt ?offer) now then fail (offer_invalid ''offer is expired'') else do {
           r \<leftarrow> OfferStore_UpdateStatus E cur ?status; ?rest r } }) Q s1"
  proof (cases "vo_phase ?offer = phaseClaimed")
    case False
    have "wp (env_now E) (\<lambda>now. wp (if offerExpired (vo_expiresAt ?offer) now then fail (offer_invalid ''offer is expired'') else do {
           r \<leftarrow> OfferStore_UpdateStatus E cur ?status; ?rest r }) Q) s1"
      by (rule wp_keeps[OF now_keeps]) (simp add: v1 wp_bind wp_fail unchanged claiming False)
    with False show ?thesis by (simp add: wp_bind)
  qed (simp add: wp_fail unchanged v1)
qed (auto intro: unchanged)

lemma claimed_present: "claimWritten ns n u cur v v' \<Longrightarrow> v' (offerKey ns n) \<noteq> None"
  by (auto simp: claimWritten_def)

lemma Claim_outcome:
  "wp (Claim E salt ns n u req) (\<lambda>r s'. case r of
       Inl e \<Rightarrow> view s' = view s \<or> offerTaken (view s') ns n
     | Inr vm \<Rightarrow> claimSucceeded E salt ns n u req (view s) (view s') \<and> offerTaken (view s') ns n) s"
proof (rule wp_Claim)
  fix s1 cur now
  assume c: "view s (offerKey ns n) = Some cur" "vo_phase (offerFromObject cur) \<noteq> phaseClaimed"
    "\<not> offerExpired (vo_expiresAt (offerFromObject cur)) now" and w: "claimWritten ns n u cur (view s) (view s1)"
  note t = claimWritten_taken[OF w]
  have keep: "vmWritesOnly (view s1) v2 \<Longrightarrow> v' = v2 \<or> deleted kiteVirtualMachineOfferGVR ns n v2 v' \<Longrightarrow> offerTaken v' ns n" for v2 v'
    using t taken_deleted vmWritesOnly_taken by blast
  show "wp (fulfilClaim E salt ns n (claimVMRequest ns (offerFromObject cur) req)) (\<lambda>r s'. case r of
       Inl e \<Rightarrow> view s' = view s \<or> offerTaken (view s') ns n
     | Inr vm \<Rightarrow> claimSucceeded E salt ns n u req (view s) (view s') \<and> offerTaken (view s') ns n) s1"
  proof (rule wp_fulfilClaim[OF claimed_present[OF w]], unfold sum.case)
    fix s' vm v2 rec hash
    assume ready: "createReady E salt (claimVMRequest ns (offerFromObject cur) req) (view s1) rec hash"
      and vm: "vmCreated rec hash (view s1) v2" and del: "deleted kiteVirtualMachineOfferGVR ns n v2 (view s')"
    show "claimSucceeded E salt ns n u req (view s) (view s') \<and> offerTaken (view s') ns n"
      using c w ready vm del keep[OF vmWritesOnly_vmCreated[OF vm]] unfolding claimSucceeded_def by blast
  qed (blast intro: keep)
qed (auto dest: claimWritten_taken)

text \<open>A claim of a taken offer fails before it writes anything.\<close>

lemma Claim_taken:
  assumes "offerTaken (view s) ns n"
  shows "wp (Claim E salt ns n u req) (\<lambda>r s'. isl r \<and> view s' = view s) s"
  unfolding Claim_def OfferStore_Get_def Let_def wp_tryE
  by (rule wp_get) (use assms in \<open>auto simp: offerTaken_def offerKey_def wp_simps\<close>)

end

section \<open>Sweeping expired offers\<close>

text \<open>Nothing but expired offers changed, and those only by deletion.\<close>

definition sweptOnly :: "int \<Rightarrow> kview \<Rightarrow> kview \<Rightarrow> bool" where
  "sweptOnly now =
     deletesOnly (\<lambda>k x. fst k = kiteVirtualMachineOfferGVR \<and> kiteVirtualMachineOfferExpired x now)"

lemma sweptOnly_refl: "sweptOnly now v v"
  by (simp add: sweptOnly_def)

lemma sweptOnly_delete:
  assumes "sweptOnly now v v1" "v (kiteVirtualMachineOfferGVR, ns, n) = Some x"
    "kiteVirtualMachineOfferExpired x now" "deleted kiteVirtualMachineOfferGVR ns n v1 v2"
  shows "sweptOnly now v v2" "goneOrMarked x (v2 (kiteVirtualMachineOfferGVR, ns, n))"
  using deletesOnly_deleted[OF assms(1)[unfolded sweptOnly_def] assms(2) _ assms(4)] assms(3)
  by (simp_all add: sweptOnly_def)

context kube_api begin

lemma wp_sweep:
  assumes listed: "listed kiteVirtualMachineOfferGVR [] v items" and v: "view s = v"
  shows "wp (forE items (deleteExpiredStep E now)) (\<lambda>r s'. case r of
       Inl e \<Rightarrow> sweptOnly now v (view s')
     | Inr _ \<Rightarrow> sweptOnly now v (view s') \<and> (\<forall>x \<in> set items. kiteVirtualMachineOfferExpired x now \<longrightarrow>
         goneOrMarked x (view s' (kiteVirtualMachineOfferGVR, k_namespace x, k_name x)))) s"
proof (rule wp_forE_all)
  fix ys x zs s1
  assume items: "items = ys @ x # zs" and inv: "sweptOnly now v (view s1) \<and>
    (\<forall>x \<in> set ys. kiteVirtualMachineOfferExpired x now \<longrightarrow>
      goneOrMarked x (view s1 (kiteVirtualMachineOfferGVR, k_namespace x, k_name x)))"
  let ?I = "\<lambda>ys v'. sweptOnly now v v' \<and> (\<forall>x \<in> set ys. kiteVirtualMachineOfferExpired x now \<longrightarrow>
      goneOrMarked x (v' (kiteVirtualMachineOfferGVR, k_namespace x, k_name x)))"
  let ?Q = "\<lambda>r s'. case r of Inl e \<Rightarrow> sweptOnly now v (view s') | Inr _ \<Rightarrow> ?I (ys @ [x]) (view s')"
  have "x \<in> set items" using items by simp
  then obtain ns' n' where at: "v (kiteVirtualMachineOfferGVR, ns', n') = Some x"
    using listed by (auto simp: listed_def)
  then have x: "v (kiteVirtualMachineOfferGVR, k_namespace x, k_name x) = Some x"
    using view_key[of s] v by metis
  show "wp (deleteExpiredStep E now x) ?Q s1"
  proof (cases "kiteVirtualMachineOfferExpired x now")
    case True
    have swept: "sweptOnly now v v2" "?I (ys @ [x]) v2"
      if "deleted kiteVirtualMachineOfferGVR (k_namespace x) (k_name x) (view s1) v2" for v2
    proof -
      note del = sweptOnly_delete[OF conjunct1[OF inv] x True that]
      show "sweptOnly now v v2" by (rule del(1))
      show "?I (ys @ [x]) v2"
        using del inv goneOrMarked_stays[of _ "view s1", OF _ that] by auto
    qed
    have notfound: "?I (ys @ [x]) (view s1)"
      if "view s1 (kiteVirtualMachineOfferGVR, k_namespace x, k_name x) = None"
      using inv that by (auto simp: goneOrMarked_def)
    have "wp (env_delete E kiteVirtualMachineOfferGVR (k_namespace x) (k_name x))
      (\<lambda>r. wp (case r of Inl e \<Rightarrow> if \<not> apiIsNotFound e then fail e else ok () | Inr _ \<Rightarrow> ok ()) ?Q) s1"
      by (rule wp_delete) (use inv swept notfound in \<open>auto simp: wp_simps\<close>)
    then show ?thesis
      unfolding deleteExpiredStep_def using True by (simp only: not_True_eq_False if_False wp_bind)
  next
    case False
    with inv show ?thesis by (auto simp: deleteExpiredStep_def wp_simps)
  qed
qed (simp add: v sweptOnly_refl)

lemma wp_DeleteExpired:
  "wp (DeleteExpiredKiteVirtualMachineOffers E now) (\<lambda>r s'.
     sweptOnly now (view s) (view s') \<and>
     (r = Inr () \<longrightarrow> (\<forall>ns n x. view s (kiteVirtualMachineOfferGVR, ns, n) = Some x \<longrightarrow>
        kiteVirtualMachineOfferExpired x now \<longrightarrow> goneOrMarked x (view s' (kiteVirtualMachineOfferGVR, ns, n))))) s"
  unfolding DeleteExpiredKiteVirtualMachineOffers_def wp_bind
proof (rule wp_list, unfold sum.case)
  fix s1 items assume v: "view s1 = view s" and listed: "listed kiteVirtualMachineOfferGVR [] (view s) items"
  show "wp (forE items (deleteExpiredStep E now)) (\<lambda>r s'.
     sweptOnly now (view s) (view s') \<and>
     (r = Inr () \<longrightarrow> (\<forall>ns n x. view s (kiteVirtualMachineOfferGVR, ns, n) = Some x \<longrightarrow>
        kiteVirtualMachineOfferExpired x now \<longrightarrow> goneOrMarked x (view s' (kiteVirtualMachineOfferGVR, ns, n))))) s1"
  proof (rule wp_mono[OF wp_sweep[OF listed v]])
    fix r :: "unit result" and s' assume r: "case r of Inl e \<Rightarrow> sweptOnly now (view s) (view s')
      | Inr _ \<Rightarrow> sweptOnly now (view s) (view s') \<and> (\<forall>x \<in> set items. kiteVirtualMachineOfferExpired x now \<longrightarrow>
         goneOrMarked x (view s' (kiteVirtualMachineOfferGVR, k_namespace x, k_name x)))"
    have "x \<in> set items \<and> k_namespace x = ns \<and> k_name x = n"
      if "view s (kiteVirtualMachineOfferGVR, ns, n) = Some x" for ns n x
      using listed view_key[OF that] that by (auto simp: listed_def)
    with r show "sweptOnly now (view s) (view s') \<and>
     (r = Inr () \<longrightarrow> (\<forall>ns n x. view s (kiteVirtualMachineOfferGVR, ns, n) = Some x \<longrightarrow>
        kiteVirtualMachineOfferExpired x now \<longrightarrow> goneOrMarked x (view s' (kiteVirtualMachineOfferGVR, ns, n))))"
      by (cases r) auto
  qed
qed (auto simp: wp_simps sweptOnly_refl)

text \<open>A request that \<open>createRecord\<close> rejects stops \<open>Create\<close> before any write.\<close>

lemma VM_Create_rejected:
  assumes "\<not> validCreateRequest E (trimCreateRequest req)"
  shows "wp (VM_Create E salt req) (\<lambda>r s'. isl r \<and> view s' = view s) s"
proof -
  have "run_state (createRecord E req) s \<noteq> (Inr rec, s')" for rec s'
    using createRecord_decides[of E req s] assms by (auto split: sum.splits)
  then show ?thesis
    unfolding VM_Create_def by (auto simp: wp_fail intro!: wp_try_keeps[OF createRecord_keeps])
qed

lemma Claim_rejected:
  assumes cur: "view s (offerKey ns n) = Some cur"
    and bad: "\<not> validCreateRequest E (trimCreateRequest (claimVMRequest ns (offerFromObject cur) req))"
  shows "wp (Claim E salt ns n u req)
    (\<lambda>r s'. isl r \<and> (view s' = view s \<or> claimWritten ns n u cur (view s) (view s'))) s"
proof -
  show ?thesis
  proof (rule wp_Claim)
    fix s1 c now assume c: "view s (offerKey ns n) = Some c" and w: "claimWritten ns n u c (view s) (view s1)"
    then have "c = cur" using cur by simp
    with bad have "\<not> validCreateRequest E (trimCreateRequest (claimVMRequest ns (offerFromObject c) req))" by simp
    then show "wp (fulfilClaim E salt ns n (claimVMRequest ns (offerFromObject c) req))
       (\<lambda>r s'. isl r \<and> (view s' = view s \<or> claimWritten ns n u cur (view s) (view s'))) s1"
      unfolding fulfilClaim_def wp_tryE
      by (intro wp_mono[OF VM_Create_rejected]) (use w \<open>c = cur\<close> in \<open>auto split: sum.splits\<close>)
  qed (use cur in auto)
qed

text \<open>The status write of one claim makes the copy another claim has read useless.\<close>

lemma stale_claim:
  assumes cur: "view s (offerKey ns n) = Some cur" "k_resourceVersion cur \<noteq> []"
    "vo_phase (offerFromObject cur) \<noteq> phaseClaimed"
    and first: "run_state (OfferStore_UpdateStatus E cur (claimedStatus (k_generation cur) a)) s = (Inr x, s1)"
    and same: "view s2 = view s1"
  shows "wp (OfferStore_UpdateStatus E cur (claimedStatus (k_generation cur) b)) (\<lambda>r s3. isl r \<and> view s3 = view s1) s2"
proof -
  have key: "k_name cur = n" "k_namespace cur = ns"
    using view_key[OF cur(1)[unfolded offerKey_def]] by auto
  obtain stored where st: "view s1 = (view s)(offerKey ns n \<mapsto> stored)"
    "objField stored ''status'' = Some (GMap (claimedStatus (k_generation cur) a))"
    "stored \<noteq> cur \<longrightarrow> k_resourceVersion stored \<noteq> k_resourceVersion cur"
    using updateStatus_law[OF first[unfolded OfferStore_UpdateStatus_def]] cur(1) key
    by (auto simp: writeOutcome_def statusReplaced_def offerKey_def)
  have "stored \<noteq> cur"
    using claimedStatus_phase(1)[OF st(2)] cur(3) by auto
  then have stale: "k_resourceVersion stored \<noteq> k_resourceVersion cur" using st(3) by simp
  have "\<not> statusReplaced kiteVirtualMachineOfferGVR (k_namespace cur) (setField ''status'' z cur) (view s2) v' y" for z v' y
    using stale cur(2) st(1) same key by (auto simp: statusReplaced_def offerKey_def)
  then show ?thesis
    unfolding OfferStore_UpdateStatus_def by (intro wp_updateStatus) (auto simp: same)
qed

end

section \<open>Properties\<close>

text \<open>An offer record is made only from a complete request with a disk of at least 20Gi and an
  expiry in the future; it carries the request's capacity, and its stored expiry text reads back as
  the requested instant cut to whole seconds (for years up to 9999), so the offer is open exactly
  until then.  Every other request fails with a RequestError of kind invalid.\<close>

theorem offer_createRecord_roundtrip:
  "case fst (run_state (offer_createRecord E req) s) of
     Inr rec \<Rightarrow> \<exists>now t. offerAccepted E (trimOfferRequest req) now t rec \<and> now < t \<and>
       (\<forall>now'. fourDigitYear t \<longrightarrow>
          offerExpired (os_expiresAt (or_spec rec)) now' = (t div nsPerSec * nsPerSec \<le> now'))
   | Inl e \<Rightarrow> offer_RequestErrorKind e = Some ErrorKindInvalid"
proof -
  obtain r s' where run: "run_state (offer_createRecord E req) s = (r, s')" by fastforce
  show ?thesis
  proof (cases r)
    case (Inl e)
    then show ?thesis using run offer_createRecord_Inl by simp
  next
    case (Inr rec)
    then obtain now t where acc: "offerAccepted E (trimOfferRequest req) now t rec"
      using offer_createRecord_Inr[OF run[unfolded Inr]] by blast
    then have "os_expiresAt (or_spec rec) = formatRFC3339 t"
      unfolding offerAccepted_def by (metis offerRecord_def KiteVirtualMachineOfferRecord.select_convs(3)
          KiteVirtualMachineOfferSpec.select_convs(5))
    moreover have "now < t"
      using acc by (auto simp: offerAccepted_def requestedExpiry_def defaultTTL_def nsPerSec_def split: if_splits option.splits)
    ultimately show ?thesis
      using acc run Inr offerExpired_format by auto
  qed
qed

definition demoOfferRequest :: offer_CreateRequest where
  "demoOfferRequest = \<lparr>oc_targetNamespace = ''ku-ns'', oc_name = '' gift '', oc_cpu = 4, oc_memory = ''8Gi'',
     oc_disk = ''40Gi'', oc_image = [], oc_expiresAt = ''2030-01-01T09:30:00.5+09:00'', oc_createdBy = ''root''\<rparr>"

lemma demo_offer_record:
  "fst (run_state (offer_createRecord mem_env demoOfferRequest) (mem_init [] [])) =
     Inr \<lparr>or_name = ''gift'', or_namespace = ''ku-ns'',
       or_spec = \<lparr>os_cpu = 4, os_memory = ''8Gi'', os_image = ''ubuntu-22.04'', os_disk = ''40Gi'',
         os_expiresAt = ''2030-01-01T00:30:00Z'', os_createdBy = ''root''\<rparr>\<rparr>"
  by code_simp

theorem offer_createRecord_roundtrip_witness:
  "\<exists>rec now t. fst (run_state (offer_createRecord mem_env demoOfferRequest) (mem_init [] [])) = Inr rec \<and>
     os_expiresAt (or_spec rec) = ''2030-01-01T00:30:00Z'' \<and>
     offerAccepted mem_env (trimOfferRequest demoOfferRequest) now t rec \<and> now < t \<and>
     (\<forall>now'. fourDigitYear t \<longrightarrow>
        offerExpired (os_expiresAt (or_spec rec)) now' = (t div nsPerSec * nsPerSec \<le> now'))"
  using offer_createRecord_roundtrip[of mem_env demoOfferRequest "mem_init [] []"]
  unfolding demo_offer_record by auto

definition demoOffer :: kobj where
  "demoOffer = (newKiteVirtualMachineOfferObject
     \<lparr>or_name = ''gift'', or_namespace = ''ku-ns'',
      or_spec = \<lparr>os_cpu = 4, os_memory = ''8Gi'', os_image = ''ubuntu-22.04'', os_disk = ''40Gi'',
        os_expiresAt = ''2030-01-01T00:30:00Z'', os_createdBy = ''root''\<rparr>\<rparr>)\<lparr>k_resourceVersion := ''1''\<rparr>"

definition demoOfferWorld :: mem where
  "demoOfferWorld = mem_init [((kiteVirtualMachineOfferGVR, ''ku-ns'', ''gift''), demoOffer)] []"

definition demoClaim :: ClaimRequest where
  "demoClaim = \<lparr>cl_vmName = ''web'', cl_domainPrefix = ''blog'', cl_sshID = ''alice'',
     cl_initialLoginPassword = ''secret'', cl_powerState = ''On''\<rparr>"

text \<open>C25: a successful \<open>Claim\<close> found the offer unclaimed and unexpired, first recorded the claim in
  its status, created one VM with the capacity of the offer (and its login Secret), and then
  deleted the offer; nothing else changed.\<close>

theorem Claim_success:
  assumes "kube_api E view" "run_state (Claim E salt ns n username req) s = (Inr vm, s')"
  shows "claimSucceeded E salt ns n username req (view s) (view s')"
  using wpD[OF kube_api.Claim_outcome[OF assms(1)] assms(2)] by simp

lemma demo_claim_succeeds:
  "\<not> isl (fst (run_state (Claim mem_env ''salt'' ''ku-ns'' ''gift'' ''alice'' demoClaim) demoOfferWorld))"
  by code_simp

theorem Claim_success_witness:
  "claimSucceeded mem_env ''salt'' ''ku-ns'' ''gift'' ''alice'' demoClaim (mem_view demoOfferWorld)
     (mem_view (snd (run_state (Claim mem_env ''salt'' ''ku-ns'' ''gift'' ''alice'' demoClaim) demoOfferWorld)))"
proof -
  obtain vm s' where run: "run_state (Claim mem_env ''salt'' ''ku-ns'' ''gift'' ''alice'' demoClaim) demoOfferWorld = (Inr vm, s')"
    using run_Inr[OF demo_claim_succeeds] by blast
  from Claim_success[OF mem_kube_api run] run show ?thesis by simp
qed

text \<open>C12: an offer is claimed at most once: after a successful \<open>Claim\<close>, every later claim of the same
  offer fails and changes nothing.\<close>

theorem Claim_at_most_once:
  assumes "kube_api E view"
    "run_state (Claim E salt ns n u req) s = (Inr vm, s1)"
    "run_state (Claim E salt' ns n u' req') s1 = (r, s2)"
  shows "isl r \<and> view s2 = view s1"
proof -
  have "offerTaken (view s1) ns n"
    using wpD[OF kube_api.Claim_outcome[OF assms(1)] assms(2)] by simp
  from wpD[OF kube_api.Claim_taken[OF assms(1) this] assms(3)] show ?thesis .
qed

theorem Claim_at_most_once_witness:
  "isl (fst (run_state (Claim mem_env ''salt'' ''ku-ns'' ''gift'' ''bob'' demoClaim)
     (snd (run_state (Claim mem_env ''salt'' ''ku-ns'' ''gift'' ''alice'' demoClaim) demoOfferWorld))))"
proof -
  obtain vm s1 where run: "run_state (Claim mem_env ''salt'' ''ku-ns'' ''gift'' ''alice'' demoClaim) demoOfferWorld = (Inr vm, s1)"
    using run_Inr[OF demo_claim_succeeds] by blast
  obtain r s2 where run2: "run_state (Claim mem_env ''salt'' ''ku-ns'' ''gift'' ''bob'' demoClaim) s1 = (r, s2)"
    by (cases "run_state (Claim mem_env ''salt'' ''ku-ns'' ''gift'' ''bob'' demoClaim) s1")
  from Claim_at_most_once[OF mem_kube_api, OF run run2] run run2 show ?thesis by simp
qed

text \<open>C26: two claims that read the same offer race safely: once one of them has written its claim,
  the status write of the other one, still based on the copy read before, fails without effect.\<close>

theorem Claim_race:
  assumes "kube_api E view" "view s (offerKey ns n) = Some cur" "k_resourceVersion cur \<noteq> []"
    "vo_phase (offerFromObject cur) \<noteq> phaseClaimed"
    "run_state (OfferStore_UpdateStatus E cur (claimedStatus (k_generation cur) a)) s = (Inr x, s1)"
    "view s2 = view s1"
    "run_state (OfferStore_UpdateStatus E cur (claimedStatus (k_generation cur) b)) s2 = (r, s3)"
  shows "isl r \<and> view s3 = view s1"
  using wpD[OF kube_api.stale_claim[OF assms(1-6)] assms(7)] .

lemma demoOffer_view: "mem_view demoOfferWorld (offerKey ''ku-ns'' ''gift'') = Some demoOffer"
  by (simp add: demoOfferWorld_def offerKey_def mem_view_def validKey_def mem_init_def demoOffer_def
      newKiteVirtualMachineOfferObject_def newObject_def)

lemma demoOffer_open: "k_resourceVersion demoOffer \<noteq> []" "vo_phase (offerFromObject demoOffer) \<noteq> phaseClaimed"
  by code_simp+

theorem Claim_race_witness:
  "isl (fst (run_state (OfferStore_UpdateStatus mem_env demoOffer (claimedStatus 0 ''bob''))
     (snd (run_state (OfferStore_UpdateStatus mem_env demoOffer (claimedStatus 0 ''alice'')) demoOfferWorld))))"
proof -
  let ?upd = "\<lambda>u. OfferStore_UpdateStatus mem_env demoOffer (claimedStatus (k_generation demoOffer) u)"
  have gen: "k_generation demoOffer = 0" by code_simp
  have "\<not> isl (fst (run_state (?upd ''alice'') demoOfferWorld))" by code_simp
  from run_Inr[OF this] obtain x s1 where run: "run_state (?upd ''alice'') demoOfferWorld = (Inr x, s1)" by blast
  obtain r s3 where run2: "run_state (?upd ''bob'') s1 = (r, s3)" by (cases "run_state (?upd ''bob'') s1")
  from Claim_race[OF mem_kube_api, OF demoOffer_view demoOffer_open run refl run2] run run2
  show ?thesis by (simp add: gen)
qed

text \<open>A claim whose VM request the VM service rejects never creates a VM, but it may leave the
  offer marked as claimed: every outcome is an error with the cluster as before or with exactly the
  claim recorded.\<close>

theorem Claim_rejected_request:
  assumes "kube_api E view" "view s (offerKey ns n) = Some cur"
    "\<not> validCreateRequest E (trimCreateRequest (claimVMRequest ns (offerFromObject cur) req))"
    "run_state (Claim E salt ns n u req) s = (r, s')"
  shows "isl r \<and> (view s' = view s \<or> claimWritten ns n u cur (view s) (view s'))"
  using wpD[OF kube_api.Claim_rejected[OF assms(1-3)] assms(4)] .

definition badClaim :: ClaimRequest where
  "badClaim = demoClaim\<lparr>cl_domainPrefix := ''www''\<rparr>"

lemma badClaim_invalid:
  "\<not> validCreateRequest mem_env (trimCreateRequest (claimVMRequest ''ku-ns'' (offerFromObject demoOffer) badClaim))"
proof -
  have "isl (fst (run_state (createRecord mem_env (claimVMRequest ''ku-ns'' (offerFromObject demoOffer) badClaim)) (mem_init [] [])))"
    by code_simp
  then show ?thesis
    using createRecord_decides[of mem_env "claimVMRequest ''ku-ns'' (offerFromObject demoOffer) badClaim" "mem_init [] []"]
    by (auto split: sum.splits)
qed

text \<open>In the witness the offer is indeed left claimed although no VM exists.\<close>

theorem Claim_rejected_request_witness:
  "\<exists>s'. run_state (Claim mem_env ''salt'' ''ku-ns'' ''gift'' ''alice'' badClaim) demoOfferWorld =
        (Inl (invalid ''domainPrefix is reserved for Kite platform routes''), s') \<and>
     claimWritten ''ku-ns'' ''gift'' ''alice'' demoOffer (mem_view demoOfferWorld) (mem_view s') \<and>
     offerTaken (mem_view s') ''ku-ns'' ''gift''"
proof -
  let ?run = "run_state (Claim mem_env ''salt'' ''ku-ns'' ''gift'' ''alice'' badClaim) demoOfferWorld"
  have e: "fst ?run = Inl (invalid ''domainPrefix is reserved for Kite platform routes'')" by code_simp
  have "\<not> Option.is_none (mem_view (snd ?run) (offerKey ''ku-ns'' ''gift''))" by code_simp
  obtain r s' where run: "?run = (r, s')" by (cases ?run)
  have "map_option (\<lambda>x. vo_phase (offerFromObject x)) (mem_view (snd ?run) (offerKey ''ku-ns'' ''gift'')) = Some phaseClaimed"
    by code_simp
  then have "mem_view s' \<noteq> mem_view demoOfferWorld"
    using demoOffer_open(2) demoOffer_view run by auto
  with Claim_rejected_request[OF mem_kube_api, OF demoOffer_view badClaim_invalid run] e run show ?thesis
    by (auto dest: claimWritten_taken)
qed

text \<open>C27: the clean-up pass deletes expired offers and nothing else, faults included, and a pass that
  reports success has deleted every expired offer (or marked it for deletion, when finalizers hold
  it).\<close>

theorem DeleteExpired_exact:
  assumes "kube_api E view" "run_state (DeleteExpiredKiteVirtualMachineOffers E now) s = (r, s')"
  shows "sweptOnly now (view s) (view s') \<and>
     (r = Inr () \<longrightarrow> (\<forall>ns n x. view s (kiteVirtualMachineOfferGVR, ns, n) = Some x \<longrightarrow>
        kiteVirtualMachineOfferExpired x now \<longrightarrow> goneOrMarked x (view s' (kiteVirtualMachineOfferGVR, ns, n))))"
  using wpD[OF kube_api.wp_DeleteExpired[OF assms(1)] assms(2)] .

theorem DeleteExpired_exact_witness:
  "goneOrMarked demoOffer (mem_view (snd (run_state
     (DeleteExpiredKiteVirtualMachineOffers mem_env 1900000000000000000) demoOfferWorld)) (offerKey ''ku-ns'' ''gift''))"
proof -
  let ?run = "run_state (DeleteExpiredKiteVirtualMachineOffers mem_env 1900000000000000000) demoOfferWorld"
  have r: "\<not> isl (fst ?run)" by code_simp
  have exp: "kiteVirtualMachineOfferExpired demoOffer 1900000000000000000" by code_simp
  from run_Inr[OF r] obtain x s' where run: "?run = (Inr x, s')" by blast
  from DeleteExpired_exact[OF mem_kube_api run] demoOffer_view exp run show ?thesis
    by (auto simp: offerKey_def)
qed

end
