(* ===== verification/Api.thy ===== *)
theory Api
  imports Platform Token Console_Ticket Account_Service Offer_Service
begin

text \<open>
  The HTTP API: the handlers, the authentication middleware and the route tables of
  \<open>cmd/kite-api/apis\<close> (the WebSocket of the VM console is in \<open>Console\<close>).  A handler is a function from what gin hands it,
  the request (cookie, headers, route parameters) and the decoded body, to the reply; a body that
  \<open>ShouldBindJSON\<close> rejects is \<open>None\<close>.  The claims the middleware leaves in the gin context are an
  argument.  The reply carries the status code, the \<open>Set-Cookie\<close> headers and the JSON body as a value.
\<close>

section \<open>Requests and replies\<close>

record request =
  rq_cookie :: "string option"
  rq_tls :: bool
  rq_forwardedProto :: string
  rq_name :: string
  rq_namespace :: string

record setCookie =
  ck_Name :: string
  ck_Value :: string
  ck_Path :: string
  ck_MaxAge :: int
  ck_HttpOnly :: bool
  ck_Secure :: bool
  ck_SameSite :: string

datatype body =
    Msg string
  | VmBody VirtualMachine
  | VmMsgBody string VirtualMachine
  | VmsBody "VirtualMachine list"
  | UserBody PublicUser
  | UserMsgBody string PublicUser
  | UsersBody "PublicUser list"
  | MeBody PublicUser string
  | LoginBody int string PublicUser
  | OfferBody VirtualMachineOffer
  | OffersBody "VirtualMachineOffer list"
  | ConfigBody PublicSettings
  | SettingsBody Settings
  | SettingsMsgBody string Settings
  | ConsoleTicketBody string string

record reply =
  rp_status :: nat
  rp_cookies :: "setCookie list"
  rp_body :: body

definition json :: "nat \<Rightarrow> body \<Rightarrow> reply" where
  "json status b = \<lparr>rp_status = status, rp_cookies = [], rp_body = b\<rparr>"

definition message :: "nat \<Rightarrow> string \<Rightarrow> reply" where
  "message status txt = json status (Msg txt)"

text \<open>A step that either goes on with a value or has written the reply.\<close>

definition andThen :: "('s, reply + 'a) state \<Rightarrow> ('a \<Rightarrow> ('s, reply) state) \<Rightarrow> ('s, reply) state" where
  "andThen m k = do { r \<leftarrow> m; case r of Inl rep \<Rightarrow> State_Monad.return rep | Inr x \<Rightarrow> k x }"

definition goOn :: "('s, reply + 'a) state \<Rightarrow> ('a \<Rightarrow> ('s, reply + 'b) state) \<Rightarrow> ('s, reply + 'b) state" where
  "goOn m k = do { r \<leftarrow> m; case r of Inl rep \<Rightarrow> State_Monad.return (Inl rep) | Inr x \<Rightarrow> k x }"

text \<open>A service call, with the reply for its error.\<close>

definition calling :: "('s, 'a result) state \<Rightarrow> (goerr \<Rightarrow> reply) \<Rightarrow> ('s, reply + 'a) state" where
  "calling m onErr = do { r \<leftarrow> m; State_Monad.return (case r of Inl e \<Rightarrow> Inl (onErr e) | Inr x \<Rightarrow> Inr x) }"

definition binding :: "'b option \<Rightarrow> string \<Rightarrow> ('s, reply + 'b) state" where
  "binding b txt = State_Monad.return (case b of None \<Rightarrow> Inl (message 400 txt) | Some x \<Rightarrow> Inr x)"

record Dependencies =
  dp_Config :: Config
  dp_TokenService :: TokenService

abbreviation salt :: "Dependencies \<Rightarrow> string" where
  "salt deps \<equiv> cfg_PasswordSalt (dp_Config deps)"

section \<open>Errors\<close>

definition writeAccountError :: "goerr \<Rightarrow> string \<Rightarrow> reply" where
  "writeAccountError err fallbackMessage =
     (if apiIsNotFound err then message 404 ''kite user was not found''
      else case account_RequestErrorKind err of
        Some kind \<Rightarrow>
          if kind = ErrorKindInvalid then message 400 (errText err)
          else if kind = ErrorKindConflict then message 409 (errText err)
          else message 500 fallbackMessage
      | None \<Rightarrow> message 500 fallbackMessage)"

definition writeVMError :: "goerr \<Rightarrow> string \<Rightarrow> reply" where
  "writeVMError err fallbackMessage =
     (if apiIsNotFound err \<or> VM_IsNotFound err then message 404 ''virtual machine was not found''
      else if ConflictMessage err \<noteq> [] then message 409 (ConflictMessage err)
      else case RequestErrorKind err of
        Some kind \<Rightarrow>
          if kind = ErrorKindInvalid then message 400 (errText err) else message 500 fallbackMessage
      | None \<Rightarrow> message 500 fallbackMessage)"

definition writeOfferError :: "goerr \<Rightarrow> string \<Rightarrow> reply" where
  "writeOfferError err fallbackMessage =
     (if apiIsNotFound err \<or> VM_IsNotFound err then message 404 ''VM offer was not found''
      else case offer_RequestErrorKind err of
        Some kind \<Rightarrow>
          if kind = ErrorKindInvalid then message 400 (errText err)
          else if kind = ErrorKindConflict then message 409 (errText err)
          else message 500 fallbackMessage
      | None \<Rightarrow>
          if ConflictMessage err \<noteq> [] then message 409 (ConflictMessage err)
          else case RequestErrorKind err of
            Some kind \<Rightarrow>
              if kind = ErrorKindInvalid then message 400 (errText err) else message 500 fallbackMessage
          | None \<Rightarrow> message 500 fallbackMessage)"

section \<open>Cookies\<close>

definition accessTokenCookieName :: string where "accessTokenCookieName = ''accessToken''"
definition accessTokenCookieMaxAge :: int where "accessTokenCookieMaxAge = 3600 * 1000000000"

record accessTokenCookiePolicy =
  cp_secure :: bool
  cp_maxAge :: int

definition accessTokenCookieValue :: "request \<Rightarrow> string" where
  "accessTokenCookieValue rq = (case rq_cookie rq of None \<Rightarrow> [] | Some v \<Rightarrow> v)"

definition accessTokenCookie :: "accessTokenCookiePolicy \<Rightarrow> string \<Rightarrow> setCookie" where
  "accessTokenCookie p accessToken =
     \<lparr>ck_Name = accessTokenCookieName, ck_Value = ''Bearer '' @ accessToken, ck_Path = ''/'',
      ck_MaxAge = cp_maxAge p div 1000000000, ck_HttpOnly = True, ck_Secure = cp_secure p, ck_SameSite = ''Lax''\<rparr>"

definition clearAccessTokenCookie :: "accessTokenCookiePolicy \<Rightarrow> setCookie" where
  "clearAccessTokenCookie p =
     \<lparr>ck_Name = accessTokenCookieName, ck_Value = [], ck_Path = ''/'',
      ck_MaxAge = - 1, ck_HttpOnly = True, ck_Secure = cp_secure p, ck_SameSite = ''Lax''\<rparr>"

definition requestUsesSecureCookie :: "'s env \<Rightarrow> request \<Rightarrow> ('s, bool) state" where
  "requestUsesSecureCookie E rq =
     (if rq_tls rq then State_Monad.return True
      else if EqualFold (rq_forwardedProto rq) ''https'' then State_Monad.return True
      else do {
        r \<leftarrow> Platform_Get E;
        State_Monad.return (case r of Inl _ \<Rightarrow> False | Inr settings \<Rightarrow> st_ForceHTTPS settings)
      })"

definition accessTokenCookiePolicyForRequest :: "'s env \<Rightarrow> request \<Rightarrow> ('s, accessTokenCookiePolicy) state" where
  "accessTokenCookiePolicyForRequest E rq = do {
     secure \<leftarrow> requestUsesSecureCookie E rq;
     State_Monad.return \<lparr>cp_secure = secure, cp_maxAge = accessTokenCookieMaxAge\<rparr>
   }"

section \<open>The middleware\<close>

text \<open>The user the token names, as the cluster knows it now; \<open>missing\<close> is the reply when there is none.\<close>

definition subjectUser :: "'s env \<Rightarrow> Claims \<Rightarrow> reply \<Rightarrow> (goerr \<Rightarrow> reply) \<Rightarrow> ('s, reply + PublicUser) state" where
  "subjectUser E claims missing onErr =
     goOn (calling (FindByUsername E (cl_Subject claims)) (\<lambda>_. message 500 ''failed to read kite users'')) (\<lambda>found.
     case found of
       None \<Rightarrow> State_Monad.return (Inl missing)
     | Some userObject \<Rightarrow> calling (Account_Get E (k_name userObject)) onErr)"

definition refreshClaimsFromCurrentUser :: "'s env \<Rightarrow> Claims \<Rightarrow> ('s, reply + Claims) state" where
  "refreshClaimsFromCurrentUser E claims =
     goOn (subjectUser E claims (message 401 ''current user was not found'') (\<lambda>_. message 500 ''failed to read current user'')) (\<lambda>user.
     State_Monad.return (Inr (claims\<lparr>cl_AccessLevel := pu_accessLevel user\<rparr>)))"

definition RequireAccessLevel :: "'s env \<Rightarrow> Dependencies \<Rightarrow> request \<Rightarrow> int \<Rightarrow> (Claims option \<Rightarrow> ('s, reply) state) \<Rightarrow> ('s, reply) state" where
  "RequireAccessLevel E deps rq minimumAccessLevel handler =
     (if accessTokenCookieValue rq = [] then State_Monad.return (message 401 ''access token is required'')
      else do {
        v \<leftarrow> VerifyAccessToken E (dp_TokenService deps) (accessTokenCookieValue rq);
        case v of
          Inl _ \<Rightarrow> do {
            policy \<leftarrow> accessTokenCookiePolicyForRequest E rq;
            State_Monad.return ((message 401 ''invalid access token'')\<lparr>rp_cookies := [clearAccessTokenCookie policy]\<rparr>)
          }
        | Inr verified \<Rightarrow>
            andThen (refreshClaimsFromCurrentUser E verified) (\<lambda>claims.
              if cl_AccessLevel claims < minimumAccessLevel
              then State_Monad.return (message 403 ''manager access level is required'')
              else handler (Some claims))
      })"

definition currentUser :: "'s env \<Rightarrow> Claims option \<Rightarrow> ('s, reply + PublicUser) state" where
  "currentUser E ctx =
     (case ctx of
        None \<Rightarrow> State_Monad.return (Inl (message 401 ''access token is required''))
      | Some claims \<Rightarrow>
          subjectUser E claims (message 404 ''current user was not found'') (\<lambda>e. writeAccountError e ''failed to read current user''))"

section \<open>Login\<close>

record loginRequest =
  lr_Email :: string
  lr_Password :: string

definition loginHandler :: "'s env \<Rightarrow> Dependencies \<Rightarrow> request \<Rightarrow> loginRequest option \<Rightarrow> ('s, reply) state" where
  "loginHandler E deps rq b =
     (if salt deps = [] then State_Monad.return (message 500 ''password salt is not configured'')
      else
        andThen (binding b ''email and password are required'') (\<lambda>req.
        andThen (calling (Authenticate E (salt deps) (lr_Email req) (lr_Password req)) (\<lambda>_. message 500 ''failed to read kite users'')) (\<lambda>found.
        case found of
          None \<Rightarrow> State_Monad.return (message 401 ''invalid email or password'')
        | Some user \<Rightarrow> do {
            cookiePolicy \<leftarrow> accessTokenCookiePolicyForRequest E rq;
            (let lifetime = min (cp_maxAge cookiePolicy) (cfg_AccessTokenTTL (dp_Config deps)) in
             andThen (calling (IssueAccessTokenWithLifetime E (dp_TokenService deps) (pu_username user) (pu_accessLevel user) lifetime)
               (\<lambda>_. message 500 ''failed to issue access token'')) (\<lambda>(accessToken, expiresAt).
               State_Monad.return ((json 200 (LoginBody (lifetime div 1000000000) (formatRFC3339 expiresAt) user))
                 \<lparr>rp_cookies := [accessTokenCookie (cookiePolicy\<lparr>cp_maxAge := lifetime\<rparr>) accessToken]\<rparr>)))
          })))"

definition logoutHandler :: "'s env \<Rightarrow> request \<Rightarrow> ('s, reply) state" where
  "logoutHandler E rq = do {
     cookiePolicy \<leftarrow> accessTokenCookiePolicyForRequest E rq;
     State_Monad.return ((message 200 ''logged out'')\<lparr>rp_cookies := [clearAccessTokenCookie cookiePolicy]\<rparr>)
   }"

section \<open>Users\<close>

record kiteUserSignUpRequest =
  ks_Username :: string
  ks_Email :: string
  ks_Password :: string

record kiteUserUpdateRequest =
  kx_Email :: "string option"
  kx_Password :: "string option"
  kx_Namespace :: "string option"
  kx_ProfileImage :: "string option"
  kx_AccessLevel :: "int option"

definition userSignUpHandler :: "'s env \<Rightarrow> Dependencies \<Rightarrow> kiteUserSignUpRequest option \<Rightarrow> ('s, reply) state" where
  "userSignUpHandler E deps b =
     andThen (binding b ''invalid request body'') (\<lambda>req.
     andThen (calling (SignUp E (salt deps)
         \<lparr>su_name = [], su_username = ks_Username req, su_email = ks_Email req, su_password = ks_Password req, su_namespace = []\<rparr>)
       (\<lambda>e. writeAccountError e ''failed to create kite user'')) (\<lambda>user.
     State_Monad.return (json 201 (UserMsgBody ''kite user created successfully'' user))))"

definition userListHandler :: "'s env \<Rightarrow> ('s, reply) state" where
  "userListHandler E =
     andThen (calling (Account_List E) (\<lambda>_. message 500 ''failed to list kite users'')) (\<lambda>users.
     State_Monad.return (json 200 (UsersBody users)))"

definition canReadUser :: "Claims option \<Rightarrow> PublicUser \<Rightarrow> bool" where
  "canReadUser ctx user =
     (case ctx of None \<Rightarrow> False
      | Some claims \<Rightarrow> cl_AccessLevel claims \<ge> AccessLevelManager \<or> cl_Subject claims = pu_username user)"

definition userGetHandler :: "'s env \<Rightarrow> request \<Rightarrow> Claims option \<Rightarrow> ('s, reply) state" where
  "userGetHandler E rq ctx =
     andThen (calling (Account_Get E (rq_name rq)) (\<lambda>e. writeAccountError e ''failed to read kite user'')) (\<lambda>user.
     State_Monad.return (if \<not> canReadUser ctx user then message 403 ''cannot read another user'' else json 200 (UserBody user)))"

definition currentUserHandler :: "'s env \<Rightarrow> Claims option \<Rightarrow> ('s, reply) state" where
  "currentUserHandler E ctx =
     (case ctx of
        None \<Rightarrow> State_Monad.return (message 401 ''access token is required'')
      | Some claims \<Rightarrow>
          andThen (subjectUser E claims (message 404 ''current user was not found'') (\<lambda>e. writeAccountError e ''failed to read kite user'')) (\<lambda>user.
          State_Monad.return (json 200 (MeBody user (formatRFC3339 (cl_ExpiresAt claims * nsPerSec))))))"

definition userUpdateHandler :: "'s env \<Rightarrow> Dependencies \<Rightarrow> request \<Rightarrow> kiteUserUpdateRequest option \<Rightarrow> ('s, reply) state" where
  "userUpdateHandler E deps rq b =
     andThen (binding b ''invalid request body'') (\<lambda>req.
     andThen (calling (Account_Update E (salt deps) (rq_name rq)
         \<lparr>au_email = kx_Email req, au_password = kx_Password req, au_namespace = kx_Namespace req,
          au_profileImage = kx_ProfileImage req, au_accessLevel = kx_AccessLevel req\<rparr>)
       (\<lambda>e. writeAccountError e ''failed to update kite user'')) (\<lambda>user.
     State_Monad.return (json 200 (UserBody user))))"

definition userDeleteHandler :: "'s env \<Rightarrow> request \<Rightarrow> ('s, reply) state" where
  "userDeleteHandler E rq =
     andThen (calling (Account_Delete E (rq_name rq)) (\<lambda>e. writeAccountError e ''failed to delete kite user'')) (\<lambda>_.
     State_Monad.return (message 200 ''kite user deleted successfully''))"

datatype userRoute =
    GetUsers
  | GetUser
  | PostUsers "kiteUserSignUpRequest option"
  | PatchUser "kiteUserUpdateRequest option"
  | DeleteUser
  | GetMe
  | PostSignup "kiteUserSignUpRequest option"
  | PostUser "kiteUserSignUpRequest option"

definition RegisterUsers :: "'s env \<Rightarrow> Dependencies \<Rightarrow> request \<Rightarrow> userRoute \<Rightarrow> ('s, reply) state" where
  "RegisterUsers E deps rq route =
     (case route of
        GetUsers \<Rightarrow> RequireAccessLevel E deps rq AccessLevelManager (\<lambda>_. userListHandler E)
      | GetUser \<Rightarrow> RequireAccessLevel E deps rq AccessLevelReadOnly (userGetHandler E rq)
      | PostUsers b \<Rightarrow> RequireAccessLevel E deps rq AccessLevelAdmin (\<lambda>_. userSignUpHandler E deps b)
      | PatchUser b \<Rightarrow> RequireAccessLevel E deps rq AccessLevelAdmin (\<lambda>_. userUpdateHandler E deps rq b)
      | DeleteUser \<Rightarrow> RequireAccessLevel E deps rq AccessLevelAdmin (\<lambda>_. userDeleteHandler E rq)
      | GetMe \<Rightarrow> RequireAccessLevel E deps rq AccessLevelReadOnly (currentUserHandler E)
      | PostSignup b \<Rightarrow> userSignUpHandler E deps b
      | PostUser b \<Rightarrow> userSignUpHandler E deps b)"

section \<open>Virtual machines\<close>

record vmCreateRequest =
  vc_Name :: string
  vc_CPU :: int
  vc_Memory :: string
  vc_Image :: string
  vc_Disk :: gov
  vc_DomainPrefix :: string
  vc_SSHID :: string
  vc_SSHPassword :: string
  vc_PowerState :: string

record vmUpdateRequest =
  vu_CPU :: "int option"
  vu_Memory :: "string option"
  vu_Image :: "string option"
  vu_Disk :: gov
  vu_DomainPrefix :: "string option"
  vu_SSHID :: "string option"
  vu_SSHPassword :: "string option"
  vu_PowerState :: "string option"

record vmPowerRequest =
  vp_PowerState :: string

definition levelOneFixedCPU :: int where "levelOneFixedCPU = 2"
definition levelOneFixedMemory :: string where "levelOneFixedMemory = ''4Gi''"
definition levelOneFixedDisk :: string where "levelOneFixedDisk = ''25Gi''"
definition levelOneVMQuota :: nat where "levelOneVMQuota = 2"

definition applyAccessLevelCreateLimits :: "int \<Rightarrow> vmCreateRequest \<Rightarrow> vmCreateRequest" where
  "applyAccessLevelCreateLimits accessLevel req =
     (if accessLevel \<noteq> AccessLevelUser then req
      else req\<lparr>vc_CPU := levelOneFixedCPU, vc_Memory := levelOneFixedMemory, vc_Disk := GStr levelOneFixedDisk\<rparr>)"

definition applyAccessLevelUpdateLimits :: "int \<Rightarrow> vmUpdateRequest \<Rightarrow> vmUpdateRequest" where
  "applyAccessLevelUpdateLimits accessLevel req =
     (if accessLevel \<noteq> AccessLevelUser then req
      else req\<lparr>vu_CPU := (if vu_CPU req \<noteq> None then Some levelOneFixedCPU else None),
               vu_Memory := (if vu_Memory req \<noteq> None then Some levelOneFixedMemory else None),
               vu_Disk := (if vu_Disk req \<noteq> GNil then GStr levelOneFixedDisk else GNil)\<rparr>)"

definition canMutateOwnVM :: "int \<Rightarrow> bool" where
  "canMutateOwnVM accessLevel \<longleftrightarrow> accessLevel \<ge> AccessLevelUser"

definition activeVMCount :: "VirtualMachine list \<Rightarrow> nat" where
  "activeVMCount vms = length (filter (\<lambda>vm. \<not> vm_delete vm) vms)"

definition normalizeOptionalDisk :: "gov \<Rightarrow> string option" where
  "normalizeOptionalDisk value = (if value = GNil then None else Some (NormalizeDisk value))"

definition vmListHandler :: "'s env \<Rightarrow> Claims option \<Rightarrow> ('s, reply) state" where
  "vmListHandler E ctx =
     andThen (currentUser E ctx) (\<lambda>user.
     andThen (calling (VM_List E (pu_namespace user)) (\<lambda>e. writeVMError e ''failed to list virtual machines'')) (\<lambda>vms.
     State_Monad.return (json 200 (VmsBody vms))))"

definition checkQuota :: "'s env \<Rightarrow> PublicUser \<Rightarrow> ('s, reply + unit) state" where
  "checkQuota E user =
     (if pu_accessLevel user = AccessLevelUser then
        goOn (calling (VM_List E (pu_namespace user)) (\<lambda>e. writeVMError e ''failed to list virtual machines'')) (\<lambda>vms.
        State_Monad.return (if activeVMCount vms \<ge> levelOneVMQuota
          then Inl (message 403 ''Level 1 users can create up to 2 active virtual machines'') else Inr ()))
      else State_Monad.return (Inr ()))"

definition createVM :: "'s env \<Rightarrow> Dependencies \<Rightarrow> PublicUser \<Rightarrow> vmCreateRequest \<Rightarrow> ('s, reply) state" where
  "createVM E deps user req =
     andThen (calling (VM_Create E (salt deps)
         \<lparr>cr_name = vc_Name req, cr_namespace = pu_namespace user, cr_cpu = vc_CPU req, cr_memory = vc_Memory req,
          cr_image = vc_Image req, cr_disk = NormalizeDisk (vc_Disk req), cr_domainPrefix = vc_DomainPrefix req,
          cr_sshID = vc_SSHID req, cr_sshPassword = vc_SSHPassword req, cr_powerState = vc_PowerState req\<rparr>)
       (\<lambda>e. writeVMError e ''failed to create virtual machine'')) (\<lambda>vm.
     State_Monad.return (json 201 (VmBody vm)))"

definition vmCreateHandler :: "'s env \<Rightarrow> Dependencies \<Rightarrow> Claims option \<Rightarrow> vmCreateRequest option \<Rightarrow> ('s, reply) state" where
  "vmCreateHandler E deps ctx b =
     andThen (currentUser E ctx) (\<lambda>user.
     if \<not> canMutateOwnVM (pu_accessLevel user)
     then State_Monad.return (message 403 ''VM creation requires access level 1 or higher. Contact the administrator.'')
     else
       andThen (binding b ''invalid request body'') (\<lambda>req0.
       let req = applyAccessLevelCreateLimits (pu_accessLevel user) req0 in
       andThen (checkQuota E user) (\<lambda>_. createVM E deps user req)))"

definition vmGetHandler :: "'s env \<Rightarrow> request \<Rightarrow> Claims option \<Rightarrow> ('s, reply) state" where
  "vmGetHandler E rq ctx =
     andThen (currentUser E ctx) (\<lambda>user.
     andThen (calling (VM_Get E (pu_namespace user) (rq_name rq)) (\<lambda>e. writeVMError e ''failed to read virtual machine'')) (\<lambda>vm.
     State_Monad.return (json 200 (VmBody vm))))"

definition updateVM :: "'s env \<Rightarrow> Dependencies \<Rightarrow> string \<Rightarrow> string \<Rightarrow> UpdateRequest \<Rightarrow> string \<Rightarrow> ('s, reply) state" where
  "updateVM E deps namespace name req fallbackMessage =
     andThen (calling (VM_Update E (salt deps) namespace name req) (\<lambda>e. writeVMError e fallbackMessage)) (\<lambda>vm.
     State_Monad.return (json 200 (VmBody vm)))"

definition vmUpdateHandler :: "'s env \<Rightarrow> Dependencies \<Rightarrow> request \<Rightarrow> Claims option \<Rightarrow> vmUpdateRequest option \<Rightarrow> ('s, reply) state" where
  "vmUpdateHandler E deps rq ctx b =
     andThen (currentUser E ctx) (\<lambda>user.
     if \<not> canMutateOwnVM (pu_accessLevel user)
     then State_Monad.return (message 403 ''VM update requires access level 1 or higher'')
     else
       andThen (binding b ''invalid request body'') (\<lambda>req0.
       let req = applyAccessLevelUpdateLimits (pu_accessLevel user) req0 in
       updateVM E deps (pu_namespace user) (rq_name rq)
         \<lparr>up_cpu = vu_CPU req, up_memory = vu_Memory req, up_image = vu_Image req, up_disk = normalizeOptionalDisk (vu_Disk req),
          up_domainPrefix = vu_DomainPrefix req, up_sshID = vu_SSHID req, up_sshPassword = vu_SSHPassword req,
          up_powerState = vu_PowerState req, up_delete = None\<rparr> ''failed to update virtual machine''))"

definition deleteVM :: "'s env \<Rightarrow> Dependencies \<Rightarrow> string \<Rightarrow> string \<Rightarrow> ('s, reply) state" where
  "deleteVM E deps namespace name =
     andThen (calling (MarkDelete E (salt deps) namespace name) (\<lambda>e. writeVMError e ''failed to delete virtual machine'')) (\<lambda>vm.
     State_Monad.return (json 200 (VmMsgBody ''virtual machine delete requested'' vm)))"

definition vmDeleteHandler :: "'s env \<Rightarrow> Dependencies \<Rightarrow> request \<Rightarrow> Claims option \<Rightarrow> ('s, reply) state" where
  "vmDeleteHandler E deps rq ctx =
     andThen (currentUser E ctx) (\<lambda>user. deleteVM E deps (pu_namespace user) (rq_name rq))"

definition vmPowerHandler :: "'s env \<Rightarrow> Dependencies \<Rightarrow> string \<Rightarrow> request \<Rightarrow> Claims option \<Rightarrow> ('s, reply) state" where
  "vmPowerHandler E deps powerState rq ctx =
     andThen (currentUser E ctx) (\<lambda>user.
     updateVM E deps (pu_namespace user) (rq_name rq) (emptyUpdate\<lparr>up_powerState := Some powerState\<rparr>)
       ''failed to update virtual machine power state'')"

text \<open>
  The ticket service of \<open>withConsoleDefaults\<close>: tickets last 30 seconds and are signed with the JWT secret.  (Only tests
  inject another one.)
\<close>

definition consoleTickets :: "Dependencies \<Rightarrow> ConsoleTicketService" where
  "consoleTickets deps = NewConsoleTicketService (30 * nsPerSec) (cfg_JWTSecret (dp_Config deps))"

definition vmConsoleAllowed :: "string \<Rightarrow> bool \<Rightarrow> bool" where
  "vmConsoleAllowed phase deleting \<longleftrightarrow> phase = ''Running'' \<and> \<not> deleting"

definition issueConsoleTicket :: "'s env \<Rightarrow> Dependencies \<Rightarrow> PublicUser \<Rightarrow> VirtualMachine \<Rightarrow> ('s, reply) state" where
  "issueConsoleTicket E deps user vm = do {
     now \<leftarrow> env_now E;
     State_Monad.return
       (case ticket_Issue (consoleTickets deps) (pu_username user) (pu_namespace user) (vm_name vm) now of
          Inl _ \<Rightarrow> message 500 ''failed to issue console ticket''
        | Inr (token, ticket) \<Rightarrow> json 200 (ConsoleTicketBody token (formatRFC3339 (ct_ExpiresAt ticket))))
   }"

definition vmConsoleTicketHandler :: "'s env \<Rightarrow> Dependencies \<Rightarrow> request \<Rightarrow> Claims option \<Rightarrow> ('s, reply) state" where
  "vmConsoleTicketHandler E deps rq ctx =
     andThen (currentUser E ctx) (\<lambda>user.
     andThen (calling (VM_Get E (pu_namespace user) (rq_name rq)) (\<lambda>e. writeVMError e ''failed to read virtual machine'')) (\<lambda>vm.
     if \<not> vmConsoleAllowed (vm_phase vm) (vm_delete vm)
     then State_Monad.return (message 409 ''console is available only while the virtual machine is running'')
     else issueConsoleTicket E deps user vm))"

text \<open>
  The routes under \<open>/vms\<close> that need a token, of any access level.  The WebSocket route \<open>/vms/:name/console\<close> has
  a ticket instead; it is in the theory of the console.
\<close>

datatype vmRoute =
    GetVMs
  | PostVM "vmCreateRequest option"
  | GetVM
  | PatchVM "vmUpdateRequest option"
  | DeleteVM
  | StartVM
  | StopVM
  | PostConsoleTicket

definition RegisterVirtualMachines :: "'s env \<Rightarrow> Dependencies \<Rightarrow> request \<Rightarrow> vmRoute \<Rightarrow> ('s, reply) state" where
  "RegisterVirtualMachines E deps rq route =
     RequireAccessLevel E deps rq AccessLevelReadOnly (\<lambda>ctx.
       case route of
         GetVMs \<Rightarrow> vmListHandler E ctx
       | PostVM b \<Rightarrow> vmCreateHandler E deps ctx b
       | GetVM \<Rightarrow> vmGetHandler E rq ctx
       | PatchVM b \<Rightarrow> vmUpdateHandler E deps rq ctx b
       | DeleteVM \<Rightarrow> vmDeleteHandler E deps rq ctx
       | StartVM \<Rightarrow> vmPowerHandler E deps ''On'' rq ctx
       | StopVM \<Rightarrow> vmPowerHandler E deps ''Off'' rq ctx
       | PostConsoleTicket \<Rightarrow> vmConsoleTicketHandler E deps rq ctx)"

section \<open>Administration of users and VMs\<close>

definition resolveUserResourceName :: "'s env \<Rightarrow> string \<Rightarrow> ('s, reply + string) state" where
  "resolveUserResourceName E identifier = do {
     r \<leftarrow> Account_Get E identifier;
     case r of
       Inr _ \<Rightarrow> State_Monad.return (Inr identifier)
     | Inl _ \<Rightarrow>
         goOn (calling (FindByUsername E identifier) (\<lambda>_. message 500 ''failed to read kite users'')) (\<lambda>found.
         State_Monad.return (case found of
           None \<Rightarrow> Inl (message 404 ''kite user was not found'')
         | Some userObject \<Rightarrow> Inr (k_name userObject)))
   }"

definition canCurrentUserChangeAccessLevel :: "'s env \<Rightarrow> Claims option \<Rightarrow> string \<Rightarrow> int \<Rightarrow> ('s, reply + unit) state" where
  "canCurrentUserChangeAccessLevel E ctx identifier requestedLevel =
     (case ctx of
        None \<Rightarrow> State_Monad.return (Inl (message 401 ''access token is required''))
      | Some claims \<Rightarrow>
          if requestedLevel < AccessLevelReadOnly \<or> requestedLevel > AccessLevelAdmin
          then State_Monad.return (Inl (message 400 ''access level must be between 0 and 3''))
          else if cl_AccessLevel claims \<ge> AccessLevelAdmin then State_Monad.return (Inr ())
          else if requestedLevel > AccessLevelUser
          then State_Monad.return (Inl (message 403 ''Level 2 managers can only assign access levels 0 or 1''))
          else
            goOn (resolveUserResourceName E identifier) (\<lambda>userName.
            goOn (calling (Account_Get E userName) (\<lambda>e. writeAccountError e ''failed to read target user'')) (\<lambda>target.
            State_Monad.return (if pu_accessLevel target > AccessLevelUser
              then Inl (message 403 ''Level 2 managers can only change users currently at access level 0 or 1'')
              else Inr ()))))"

definition levelUpdate :: "int \<Rightarrow> account_UpdateRequest" where
  "levelUpdate level = \<lparr>au_email = None, au_password = None, au_namespace = None, au_profileImage = None, au_accessLevel = Some level\<rparr>"

definition adminUserAccessLevelHandler :: "'s env \<Rightarrow> Dependencies \<Rightarrow> request \<Rightarrow> Claims option \<Rightarrow> int option \<Rightarrow> ('s, reply) state" where
  "adminUserAccessLevelHandler E deps rq ctx b =
     andThen (binding b ''invalid request body'') (\<lambda>level.
     andThen (canCurrentUserChangeAccessLevel E ctx (rq_name rq) level) (\<lambda>_.
     andThen (resolveUserResourceName E (rq_name rq)) (\<lambda>userName.
     andThen (calling (Account_Update E (salt deps) userName (levelUpdate level))
       (\<lambda>e. writeAccountError e ''failed to update user access level'')) (\<lambda>user.
     State_Monad.return (json 200 (UserBody user))))))"

definition adminUserDeleteHandler :: "'s env \<Rightarrow> request \<Rightarrow> ('s, reply) state" where
  "adminUserDeleteHandler E rq =
     andThen (resolveUserResourceName E (rq_name rq)) (\<lambda>userName.
     andThen (calling (Account_Delete E userName) (\<lambda>e. writeAccountError e ''failed to delete kite user'')) (\<lambda>_.
     State_Monad.return (message 200 ''kite user deleted successfully'')))"

definition adminVMListHandler :: "'s env \<Rightarrow> ('s, reply) state" where
  "adminVMListHandler E =
     andThen (calling (VM_ListAll E) (\<lambda>e. writeVMError e ''failed to list virtual machines'')) (\<lambda>vms.
     State_Monad.return (json 200 (VmsBody vms)))"

definition adminVMPowerHandler :: "'s env \<Rightarrow> Dependencies \<Rightarrow> request \<Rightarrow> vmPowerRequest option \<Rightarrow> ('s, reply) state" where
  "adminVMPowerHandler E deps rq b =
     andThen (binding b ''invalid request body'') (\<lambda>req.
     updateVM E deps (rq_namespace rq) (rq_name rq) (emptyUpdate\<lparr>up_powerState := Some (vp_PowerState req)\<rparr>)
       ''failed to update virtual machine power state'')"

definition adminVMDeleteHandler :: "'s env \<Rightarrow> Dependencies \<Rightarrow> request \<Rightarrow> ('s, reply) state" where
  "adminVMDeleteHandler E deps rq = deleteVM E deps (rq_namespace rq) (rq_name rq)"

section \<open>Administration of the platform\<close>

definition configGetHandler :: "'s env \<Rightarrow> ('s, reply) state" where
  "configGetHandler E =
     andThen (calling (GetPublic E) (\<lambda>_. message 500 ''failed to read platform settings'')) (\<lambda>settings.
     State_Monad.return (json 200 (ConfigBody settings)))"

definition adminSettingsGetHandler :: "'s env \<Rightarrow> ('s, reply) state" where
  "adminSettingsGetHandler E =
     andThen (calling (Platform_Get E) (\<lambda>_. message 500 ''failed to read platform settings'')) (\<lambda>settings.
     State_Monad.return (json 200 (SettingsBody settings)))"

definition settingsChange :: "('s, Settings result) state \<Rightarrow> string \<Rightarrow> ('s, reply) state" where
  "settingsChange m txt =
     andThen (calling m (\<lambda>e. message 400 (errText e))) (\<lambda>settings.
     State_Monad.return (json 200 (SettingsMsgBody txt settings)))"

definition adminDomainUpdateHandler :: "'s env \<Rightarrow> string option \<Rightarrow> ('s, reply) state" where
  "adminDomainUpdateHandler E b =
     andThen (binding b ''invalid request body'') (\<lambda>baseDomain.
     settingsChange (UpdateBaseDomain E baseDomain) ''base domain updated'')"

definition adminContactUpdateHandler :: "'s env \<Rightarrow> string option \<Rightarrow> ('s, reply) state" where
  "adminContactUpdateHandler E b =
     andThen (binding b ''invalid request body'') (\<lambda>adminContact.
     settingsChange (UpdateAdminContact E adminContact) ''admin contact updated'')"

definition adminHTTPSUpdateHandler :: "'s env \<Rightarrow> bool option \<Rightarrow> ('s, reply) state" where
  "adminHTTPSUpdateHandler E b =
     andThen (binding b ''invalid request body'') (\<lambda>forceHTTPS.
     settingsChange (UpdateForceHTTPS E forceHTTPS) ''HTTPS enforcement updated'')"

definition adminSSHGatewayUpdateHandler :: "'s env \<Rightarrow> SSHGatewayDesired option \<Rightarrow> ('s, reply) state" where
  "adminSSHGatewayUpdateHandler E b =
     andThen (binding b ''invalid request body'') (\<lambda>desired.
     settingsChange (UpdateSSHGateway E desired) ''SSH gateway settings updated'')"

definition adminRuntimeSecretRotateHandler :: "'s env \<Rightarrow> (bool \<times> bool) option \<Rightarrow> ('s, reply) state" where
  "adminRuntimeSecretRotateHandler E b =
     andThen (binding b ''invalid request body'') (\<lambda>(rotateJWTSecret, rotatePasswordSalt).
     settingsChange (RotateRuntimeSecrets E rotateJWTSecret rotatePasswordSalt) ''runtime secrets rotated'')"

definition adminCertUpdateHandler :: "'s env \<Rightarrow> (string \<times> string) option \<Rightarrow> ('s, reply) state" where
  "adminCertUpdateHandler E b =
     andThen (binding b ''invalid request body'') (\<lambda>(cert, privateKey).
     settingsChange (UpdateTLSCertificate E cert privateKey) ''TLS certificate updated'')"

datatype adminRoute =
    AdminUsers
  | AdminUserLevel "int option"
  | AdminDeleteUser
  | AdminVMs
  | AdminVMPower "vmPowerRequest option"
  | AdminDeleteVM
  | AdminSettings
  | AdminDomain "string option"
  | AdminContact "string option"
  | AdminHTTPS "bool option"
  | AdminSSHGateway "SSHGatewayDesired option"
  | AdminRotate "(bool \<times> bool) option"
  | AdminCert "(string \<times> string) option"

definition RegisterAdmin :: "'s env \<Rightarrow> Dependencies \<Rightarrow> request \<Rightarrow> adminRoute \<Rightarrow> ('s, reply) state" where
  "RegisterAdmin E deps rq route =
     (case route of
        AdminUsers \<Rightarrow> RequireAccessLevel E deps rq AccessLevelManager (\<lambda>_. userListHandler E)
      | AdminUserLevel b \<Rightarrow> RequireAccessLevel E deps rq AccessLevelManager (\<lambda>ctx. adminUserAccessLevelHandler E deps rq ctx b)
      | AdminDeleteUser \<Rightarrow> RequireAccessLevel E deps rq AccessLevelAdmin (\<lambda>_. adminUserDeleteHandler E rq)
      | AdminVMs \<Rightarrow> RequireAccessLevel E deps rq AccessLevelAdmin (\<lambda>_. adminVMListHandler E)
      | AdminVMPower b \<Rightarrow> RequireAccessLevel E deps rq AccessLevelAdmin (\<lambda>_. adminVMPowerHandler E deps rq b)
      | AdminDeleteVM \<Rightarrow> RequireAccessLevel E deps rq AccessLevelAdmin (\<lambda>_. adminVMDeleteHandler E deps rq)
      | AdminSettings \<Rightarrow> RequireAccessLevel E deps rq AccessLevelAdmin (\<lambda>_. adminSettingsGetHandler E)
      | AdminDomain b \<Rightarrow> RequireAccessLevel E deps rq AccessLevelAdmin (\<lambda>_. adminDomainUpdateHandler E b)
      | AdminContact b \<Rightarrow> RequireAccessLevel E deps rq AccessLevelAdmin (\<lambda>_. adminContactUpdateHandler E b)
      | AdminHTTPS b \<Rightarrow> RequireAccessLevel E deps rq AccessLevelAdmin (\<lambda>_. adminHTTPSUpdateHandler E b)
      | AdminSSHGateway b \<Rightarrow> RequireAccessLevel E deps rq AccessLevelAdmin (\<lambda>_. adminSSHGatewayUpdateHandler E b)
      | AdminRotate b \<Rightarrow> RequireAccessLevel E deps rq AccessLevelAdmin (\<lambda>_. adminRuntimeSecretRotateHandler E b)
      | AdminCert b \<Rightarrow> RequireAccessLevel E deps rq AccessLevelAdmin (\<lambda>_. adminCertUpdateHandler E b))"

section \<open>Offers\<close>

record vmOfferCreateRequest =
  oq_TargetUser :: string
  oq_TargetNamespace :: string
  oq_CPU :: int
  oq_Memory :: string
  oq_Disk :: string
  oq_Image :: string
  oq_ExpiresAt :: string

definition vmOfferListHandler :: "'s env \<Rightarrow> Claims option \<Rightarrow> ('s, reply) state" where
  "vmOfferListHandler E ctx =
     andThen (currentUser E ctx) (\<lambda>user.
     andThen (calling (Offer_List E (pu_namespace user)) (\<lambda>e. writeOfferError e ''failed to list VM offers'')) (\<lambda>offers.
     State_Monad.return (json 200 (OffersBody offers))))"

definition vmOfferClaimHandler :: "'s env \<Rightarrow> Dependencies \<Rightarrow> request \<Rightarrow> Claims option \<Rightarrow> ClaimRequest option \<Rightarrow> ('s, reply) state" where
  "vmOfferClaimHandler E deps rq ctx b =
     andThen (currentUser E ctx) (\<lambda>user.
     andThen (binding b ''invalid request body'') (\<lambda>req.
     andThen (calling (Claim E (salt deps) (pu_namespace user) (rq_name rq) (pu_username user) req)
       (\<lambda>e. writeOfferError e ''failed to claim VM offer'')) (\<lambda>vm.
     State_Monad.return (json 201 (VmBody vm)))))"

definition targetOfferNamespace :: "'s env \<Rightarrow> vmOfferCreateRequest \<Rightarrow> ('s, reply + string) state" where
  "targetOfferNamespace E req =
     (if oq_TargetNamespace req \<noteq> [] then State_Monad.return (Inr (oq_TargetNamespace req))
      else if oq_TargetUser req = [] then State_Monad.return (Inl (message 400 ''targetUser or targetNamespace is required''))
      else
        goOn (resolveUserResourceName E (oq_TargetUser req)) (\<lambda>userName.
        goOn (calling (Account_Get E userName) (\<lambda>e. writeAccountError e ''failed to read target user'')) (\<lambda>user.
        State_Monad.return (Inr (pu_namespace user)))))"

definition vmOfferCreateHandler :: "'s env \<Rightarrow> Claims option \<Rightarrow> vmOfferCreateRequest option \<Rightarrow> ('s, reply) state" where
  "vmOfferCreateHandler E ctx b =
     andThen (binding b ''invalid request body'') (\<lambda>req.
     andThen (targetOfferNamespace E req) (\<lambda>targetNamespace.
     case ctx of
       None \<Rightarrow> State_Monad.return (message 401 ''access token is required'')
     | Some claims \<Rightarrow>
         andThen (calling (Offer_Create E
             \<lparr>oc_targetNamespace = targetNamespace, oc_name = [], oc_cpu = oq_CPU req, oc_memory = oq_Memory req,
              oc_disk = oq_Disk req, oc_image = oq_Image req, oc_expiresAt = oq_ExpiresAt req, oc_createdBy = cl_Subject claims\<rparr>)
           (\<lambda>e. writeOfferError e ''failed to create VM offer'')) (\<lambda>offer.
         State_Monad.return (json 201 (OfferBody offer)))))"

definition vmOfferDeleteHandler :: "'s env \<Rightarrow> request \<Rightarrow> ('s, reply) state" where
  "vmOfferDeleteHandler E rq =
     andThen (calling (Offer_Delete E (rq_namespace rq) (rq_name rq)) (\<lambda>e. writeOfferError e ''failed to delete VM offer'')) (\<lambda>_.
     State_Monad.return (message 200 ''VM offer deleted''))"

datatype offerRoute =
    GetOffers
  | ClaimOffer "ClaimRequest option"
  | PostOffer "vmOfferCreateRequest option"
  | DeleteOffer

definition RegisterVirtualMachineOffers :: "'s env \<Rightarrow> Dependencies \<Rightarrow> request \<Rightarrow> offerRoute \<Rightarrow> ('s, reply) state" where
  "RegisterVirtualMachineOffers E deps rq route =
     (case route of
        GetOffers \<Rightarrow> RequireAccessLevel E deps rq AccessLevelReadOnly (vmOfferListHandler E)
      | ClaimOffer b \<Rightarrow> RequireAccessLevel E deps rq AccessLevelReadOnly (\<lambda>ctx. vmOfferClaimHandler E deps rq ctx b)
      | PostOffer b \<Rightarrow> RequireAccessLevel E deps rq AccessLevelAdmin (\<lambda>ctx. vmOfferCreateHandler E ctx b)
      | DeleteOffer \<Rightarrow> RequireAccessLevel E deps rq AccessLevelAdmin (\<lambda>_. vmOfferDeleteHandler E rq))"

section \<open>The router\<close>

datatype v1Route =
    GetConfig
  | V1Me
  | V1Login "loginRequest option"
  | V1Logout
  | V1Signup "kiteUserSignUpRequest option"
  | V1VM vmRoute
  | V1Offer offerRoute
  | V1Admin adminRoute

definition RegisterV1 :: "'s env \<Rightarrow> Dependencies \<Rightarrow> request \<Rightarrow> v1Route \<Rightarrow> ('s, reply) state" where
  "RegisterV1 E deps rq route =
     (case route of
        GetConfig \<Rightarrow> configGetHandler E
      | V1Me \<Rightarrow> RequireAccessLevel E deps rq AccessLevelReadOnly (currentUserHandler E)
      | V1Login b \<Rightarrow> loginHandler E deps rq b
      | V1Logout \<Rightarrow> logoutHandler E rq
      | V1Signup b \<Rightarrow> userSignUpHandler E deps b
      | V1VM r \<Rightarrow> RegisterVirtualMachines E deps rq r
      | V1Offer r \<Rightarrow> RegisterVirtualMachineOffers E deps rq r
      | V1Admin r \<Rightarrow> RegisterAdmin E deps rq r)"

datatype apiRoute =
    PostLogin "loginRequest option"
  | PostLogout
  | Users userRoute
  | V1 v1Route

definition Register :: "'s env \<Rightarrow> Dependencies \<Rightarrow> request \<Rightarrow> apiRoute \<Rightarrow> ('s, reply) state" where
  "Register E deps rq route =
     (case route of
        PostLogin b \<Rightarrow> loginHandler E deps rq b
      | PostLogout \<Rightarrow> logoutHandler E rq
      | Users r \<Rightarrow> RegisterUsers E deps rq r
      | V1 r \<Rightarrow> RegisterV1 E deps rq r)"

end
