(* ===== verification/Api_Properties.thy ===== *)
theory Api_Properties
  imports Api
begin

text \<open>
  What the HTTP API guarantees as a whole.  The first part is a calculus for relations between the
  cluster before and after a computation; the locale \<open>api_services\<close> states what a handler needs of
  the services it calls, and proves once that every route keeps to such a relation.  The second part
  follows the middleware to the user a request acts for.
\<close>

section \<open>Relations between the states before and after\<close>

definition guarantees :: "('s \<Rightarrow> 'v) \<Rightarrow> ('v \<Rightarrow> 'v \<Rightarrow> bool) \<Rightarrow> ('s, 'a) state \<Rightarrow> bool" where
  "guarantees v R m \<longleftrightarrow> (\<forall>s. R (v s) (v (snd (run_state m s))))"

lemma guarantees_wp: "guarantees v R m \<longleftrightarrow> (\<forall>s. wp m (\<lambda>r s'. R (v s) (v s')) s)"
  unfolding guarantees_def wp_snd by simp

lemma guarantees_run: "guarantees v R m \<Longrightarrow> R (v s) (v (snd (run_state m s)))"
  by (simp add: guarantees_def)

locale guarantee =
  fixes R :: "'v \<Rightarrow> 'v \<Rightarrow> bool"
  assumes R_refl: "R v v" and R_trans: "R u v \<Longrightarrow> R v w \<Longrightarrow> R u w"
begin

lemma g_keeps: "keeps v m \<Longrightarrow> guarantees v R m"
  by (simp add: keeps_def guarantees_def R_refl)

lemma g_return: "guarantees v R (State_Monad.return x)"
  by (simp add: guarantees_def R_refl)

lemma g_bind: "guarantees v R m \<Longrightarrow> (\<And>x. guarantees v R (k x)) \<Longrightarrow> guarantees v R (State_Monad.bind m k)"
  by (simp add: guarantees_def split: prod.splits) (metis R_trans snd_conv)

lemma g_case_sum:
  "(\<And>e. guarantees v R (f e)) \<Longrightarrow> (\<And>x. guarantees v R (g x)) \<Longrightarrow> guarantees v R (case r of Inl e \<Rightarrow> f e | Inr x \<Rightarrow> g x)"
  by (cases r) auto

lemma g_case_option:
  "guarantees v R a \<Longrightarrow> (\<And>x. guarantees v R (g x)) \<Longrightarrow> guarantees v R (case r of None \<Rightarrow> a | Some x \<Rightarrow> g x)"
  by (cases r) auto

lemma g_tryE: "guarantees v R m \<Longrightarrow> (\<And>x. guarantees v R (k x)) \<Longrightarrow> guarantees v R (tryE m k)"
  unfolding tryE_def fail_def by (intro g_bind g_case_sum g_return)

lemma g_forE: "(\<And>x. guarantees v R (body x)) \<Longrightarrow> guarantees v R (forE xs body)"
  by (induction xs) (auto simp: ok_def intro!: g_return g_tryE)

lemma g_case_prod: "(\<And>a b. guarantees v R (f a b)) \<Longrightarrow> guarantees v R (case p of (a, b) \<Rightarrow> f a b)"
  by (cases p) simp

lemma g_if: "guarantees v R a \<Longrightarrow> guarantees v R b \<Longrightarrow> guarantees v R (if c then a else b)"
  by simp

lemma g_andThen: "guarantees v R m \<Longrightarrow> (\<And>x. guarantees v R (k x)) \<Longrightarrow> guarantees v R (andThen m k)"
  unfolding andThen_def by (intro g_bind g_case_sum g_return)

lemma g_goOn: "guarantees v R m \<Longrightarrow> (\<And>x. guarantees v R (k x)) \<Longrightarrow> guarantees v R (goOn m k)"
  unfolding goOn_def by (intro g_bind g_case_sum g_return)

lemma g_calling: "guarantees v R m \<Longrightarrow> guarantees v R (calling m f)"
  unfolding calling_def by (intro g_bind g_return)

lemma g_binding: "guarantees v R (binding b t)"
  unfolding binding_def by (rule g_return)

lemmas g_intros =
  g_andThen g_goOn g_calling g_binding g_return g_bind g_case_sum g_case_option g_case_prod g_if

end

section \<open>What reads and platform writes leave alone\<close>

definition platformKeys :: "kkey set" where
  "platformKeys = {globalTLSKey, configKey, secretKey}"

context kube_api
begin

lemma keeps_readers:
  "keeps view (FindByUsername E u)" "keeps view (Account_Get E n)" "keeps view (Account_List E)"
  "keeps view (VM_List E ns)" "keeps view (VM_ListAll E)" "keeps view (VM_Get E ns n)"
  "keeps view (Offer_List E ns)" "keeps view (issueConsoleTicket E deps user vm)"
  unfolding issueConsoleTicket_def FindByUsername_def Account_Get_def Account_List_def VM_List_def VM_ListAll_def VM_Get_def Offer_List_def
    UserStore_Get_def UserStore_List_def VirtualMachineStore_List_def VirtualMachineStore_ListAll_def
    VirtualMachineStore_Get_def OfferStore_List_def Let_def
  by (intro keeps_intros keeps_calls)+

lemma keeps_Verify: "keeps view (VerifyAccessToken E ts tok)"
proof -
  have "keeps view (verifyParts E ts h b sig)" for h b sig
    unfolding verifyParts_def by (intro keeps_intros keeps_calls)
  then show ?thesis
    unfolding VerifyAccessToken_def Let_def by (auto split: list.split intro: keeps_fail)
qed

lemma keeps_Issue: "keeps view (IssueAccessTokenWithLifetime E ts sub l life)"
  unfolding IssueAccessTokenWithLifetime_def Let_def by (intro keeps_intros keeps_calls)

lemma keeps_GenerateSecret: "keeps view (GenerateSecret E p)"
  unfolding GenerateSecret_def by (intro keeps_intros keeps_calls)

lemma frames_platform_get: "frames view platformKeys (Platform_Get E)"
  by (rule frames_subset[OF frames_Platform_Get]) (simp add: platformKeys_def)

lemma frames_GetPublic_tls: "frames view {globalTLSKey} (GetPublic E)"
  unfolding GetPublic_def
  by (intro frames_intros frames_HasTLSCertificate keeps_frames[OF keeps_GetSSHGatewayStatus]
      keeps_frames[OF keeps_runtimeConfigData])

lemma frames_GetPublic: "frames view platformKeys (GetPublic E)"
  by (rule frames_subset[OF frames_GetPublic_tls]) (simp add: platformKeys_def)

lemma frames_changeConfigData: "frames view platformKeys (changeConfigData E change)"
  unfolding changeConfigData_def
proof (rule frames_try_known[OF keeps_frames[OF get_keeps]])
  fix s s' x assume "run_state (env_get E configMapGVR KiteNamespace RuntimeConfigName) s = (Inr x, s')"
  then have "k_name x = RuntimeConfigName" using get_found view_key by blast
  then show "frames view platformKeys (tryE (env_update E configMapGVR KiteNamespace
      (setStringMap x ''data'' (change (stringMapOr x ''data'')))) (\<lambda>_. Platform_Get E))"
    by (intro frames_intros frames_update frames_platform_get)
       (simp add: platformKeys_def configKey_def setStringMap_def)
qed

lemma frames_UpdateTLSCertificate: "frames view platformKeys (UpdateTLSCertificate E c k)"
  unfolding UpdateTLSCertificate_def Let_def
  by (intro frames_intros frames_create frames_update keeps_frames[OF get_keeps] frames_platform_get)
     (simp_all add: platformKeys_def globalTLSKey_def newGlobalTLSSecret_def newGlobalTLSSecretFromEncodedData_def)

lemma frames_RotateRuntimeSecrets: "frames view platformKeys (RotateRuntimeSecrets E a b)"
  unfolding RotateRuntimeSecrets_def Let_def
proof (intro frames_if frames_fail frames_try_known[OF keeps_frames[OF get_keeps]])
  fix s s' x assume "run_state (env_get E secretGVR KiteNamespace RuntimeSecretName) s = (Inr x, s')"
  then have "k_name x = RuntimeSecretName" using get_found view_key by blast
  then show "frames view platformKeys (
      (if a then GenerateSecret E ''jwt'' \<bind> (\<lambda>jwt. State_Monad.return (AList.update JWTSecretKey jwt
          (if stringMapOr x ''stringData'' = [] then decodedSecretStringData x else stringMapOr x ''stringData'')))
        else State_Monad.return (if stringMapOr x ''stringData'' = [] then decodedSecretStringData x else stringMapOr x ''stringData'')) \<bind>
      (\<lambda>data1. (if b then GenerateSecret E ''salt'' \<bind> (\<lambda>salt. State_Monad.return (AList.update PasswordSaltKey salt data1))
        else State_Monad.return data1) \<bind>
      (\<lambda>data2. tryE (env_update E secretGVR KiteNamespace (removeField (setStringMap x ''stringData'' data2) ''data''))
        (\<lambda>_. Platform_Get E))))"
    by (intro frames_intros frames_update frames_platform_get keeps_frames[OF keeps_GenerateSecret])
       (simp add: platformKeys_def secretKey_def setStringMap_def removeField_def)
qed

lemma frames_settings_writes:
  "frames view platformKeys (UpdateBaseDomain E d)" "frames view platformKeys (UpdateAdminContact E d)"
  "frames view platformKeys (UpdateForceHTTPS E b)" "frames view platformKeys (UpdateSSHGateway E g)"
proof -
  have tls: "frames view platformKeys (HasTLSCertificate E)"
    by (rule frames_subset[OF frames_HasTLSCertificate]) (simp add: platformKeys_def)
  show "frames view platformKeys (UpdateBaseDomain E d)" "frames view platformKeys (UpdateAdminContact E d)"
    "frames view platformKeys (UpdateForceHTTPS E b)" "frames view platformKeys (UpdateSSHGateway E g)"
    unfolding UpdateBaseDomain_def UpdateAdminContact_def UpdateForceHTTPS_def UpdateSSHGateway_def
      updateRuntimeConfigValue_def Let_def
    by (intro frames_intros frames_changeConfigData tls)+
qed

lemmas frames_platform =
  frames_platform_get frames_GetPublic frames_settings_writes frames_UpdateTLSCertificate frames_RotateRuntimeSecrets

end

section \<open>Routes over services\<close>

text \<open>
  The contract between the handlers and the services, in two parts: every call of the VM, offer and
  settings services keeps to the relation \<open>R\<close>, as does any change of the platform's own settings
  objects; and, in the extension, so does every call of the account service.
\<close>

locale tenant_services = kube_api E view + guarantee R
  for E :: "'s env" and view :: "'s \<Rightarrow> kview" and R :: "kview \<Rightarrow> kview \<Rightarrow> bool" +
  assumes platform_step: "(\<And>k. k \<notin> platformKeys \<Longrightarrow> v' k = v k) \<Longrightarrow> R v v'"
    and VM_Create_step: "guarantees view R (VM_Create E st cr)"
    and VM_Update_step: "guarantees view R (VM_Update E st ns n up)"
    and Offer_Create_step: "guarantees view R (Offer_Create E oc)"
    and Claim_step: "guarantees view R (Claim E st ns n u cl)"
    and Offer_Delete_step: "guarantees view R (Offer_Delete E ns n)"
begin

lemma g_frames: "frames view platformKeys m \<Longrightarrow> guarantees view R m"
  unfolding guarantees_def frames_def by (blast intro: platform_step)

lemma MarkDelete_step: "guarantees view R (MarkDelete E st ns n)"
  unfolding MarkDelete_def by (rule VM_Update_step)

lemmas service_steps =
  VM_Create_step VM_Update_step MarkDelete_step Offer_Create_step Claim_step Offer_Delete_step
  keeps_readers[THEN g_keeps] keeps_Verify[THEN g_keeps] keeps_Issue[THEN g_keeps] frames_platform[THEN g_frames]

lemma step_cookiePolicy: "guarantees view R (accessTokenCookiePolicyForRequest E rq)"
  unfolding accessTokenCookiePolicyForRequest_def requestUsesSecureCookie_def by (intro g_intros service_steps)

lemma step_subjectUser: "guarantees view R (subjectUser E c missing f)"
  unfolding subjectUser_def by (intro g_intros service_steps)

lemma step_middleware:
  assumes "\<And>ctx. guarantees view R (h ctx)"
  shows "guarantees view R (RequireAccessLevel E deps rq l h)"
  unfolding RequireAccessLevel_def refreshClaimsFromCurrentUser_def
  by (intro g_intros service_steps step_subjectUser step_cookiePolicy assms)

lemma step_currentUser: "guarantees view R (currentUser E ctx)"
  unfolding currentUser_def by (intro g_intros step_subjectUser)

lemma step_resolve: "guarantees view R (resolveUserResourceName E i)"
  unfolding resolveUserResourceName_def by (intro g_intros service_steps)

lemma step_canChange: "guarantees view R (canCurrentUserChangeAccessLevel E ctx i l)"
  unfolding canCurrentUserChangeAccessLevel_def by (intro g_intros service_steps step_resolve)

lemmas handler_steps =
  g_intros service_steps step_middleware step_currentUser step_subjectUser step_resolve step_cookiePolicy step_canChange

lemma step_user_readers:
  "guarantees view R (userListHandler E)" "guarantees view R (userGetHandler E rq ctx)"
  "guarantees view R (currentUserHandler E ctx)"
  unfolding userListHandler_def userGetHandler_def currentUserHandler_def by (intro handler_steps)+

lemma step_vms: "guarantees view R (RegisterVirtualMachines E deps rq route)"
  unfolding RegisterVirtualMachines_def vmListHandler_def vmCreateHandler_def vmGetHandler_def vmUpdateHandler_def
    vmDeleteHandler_def vmPowerHandler_def vmConsoleTicketHandler_def checkQuota_def createVM_def updateVM_def deleteVM_def Let_def
  by (cases route; simp only: vmRoute.case) (intro handler_steps)+

lemma step_offers: "guarantees view R (RegisterVirtualMachineOffers E deps rq route)"
  unfolding RegisterVirtualMachineOffers_def vmOfferListHandler_def vmOfferClaimHandler_def vmOfferCreateHandler_def
    vmOfferDeleteHandler_def targetOfferNamespace_def
  by (cases route; simp only: offerRoute.case) (intro handler_steps)+

lemma step_admin_handlers:
  "guarantees view R (adminVMListHandler E)" "guarantees view R (adminVMPowerHandler E deps rq pb)"
  "guarantees view R (adminVMDeleteHandler E deps rq)" "guarantees view R (adminSettingsGetHandler E)"
  "guarantees view R (adminDomainUpdateHandler E db)" "guarantees view R (adminContactUpdateHandler E cb)"
  "guarantees view R (adminHTTPSUpdateHandler E hb)" "guarantees view R (adminSSHGatewayUpdateHandler E sb)"
  "guarantees view R (adminRuntimeSecretRotateHandler E rb)" "guarantees view R (adminCertUpdateHandler E tb)"
  "guarantees view R (configGetHandler E)" "guarantees view R (logoutHandler E rq)"
  unfolding adminVMListHandler_def adminVMPowerHandler_def adminVMDeleteHandler_def updateVM_def
    deleteVM_def adminSettingsGetHandler_def adminDomainUpdateHandler_def adminContactUpdateHandler_def
    adminHTTPSUpdateHandler_def adminSSHGatewayUpdateHandler_def adminRuntimeSecretRotateHandler_def
    adminCertUpdateHandler_def settingsChange_def configGetHandler_def logoutHandler_def
  by (intro handler_steps)+

end

locale api_services = tenant_services +
  assumes SignUp_step: "guarantees view R (SignUp E st su)"
    and Authenticate_step: "guarantees view R (Authenticate E st em pw)"
    and Account_Update_step: "guarantees view R (Account_Update E st n upd)"
    and Account_Delete_step: "guarantees view R (Account_Delete E n)"
begin

lemmas account_steps = handler_steps SignUp_step Authenticate_step Account_Update_step Account_Delete_step

lemma step_user_writers:
  "guarantees view R (userSignUpHandler E deps ub)" "guarantees view R (userUpdateHandler E deps rq xb)"
  "guarantees view R (userDeleteHandler E rq)" "guarantees view R (adminUserAccessLevelHandler E deps rq ctx lb)"
  "guarantees view R (adminUserDeleteHandler E rq)" "guarantees view R (loginHandler E deps rq b)"
  unfolding userSignUpHandler_def userUpdateHandler_def userDeleteHandler_def adminUserAccessLevelHandler_def
    adminUserDeleteHandler_def loginHandler_def Let_def
  by (intro account_steps)+

lemma step_users: "guarantees view R (RegisterUsers E deps rq route)"
  unfolding RegisterUsers_def
  by (cases route; simp only: userRoute.case) (intro step_middleware step_user_readers step_user_writers)+

lemma step_admin: "guarantees view R (RegisterAdmin E deps rq route)"
  unfolding RegisterAdmin_def
  by (cases route; simp only: adminRoute.case)
     (intro step_middleware step_user_readers step_user_writers step_admin_handlers)+

theorem Register_step: "guarantees view R (Register E deps rq route)"
proof -
  have "guarantees view R (RegisterV1 E deps rq r)" for r
    unfolding RegisterV1_def
    by (cases r; simp only: v1Route.case)
       (intro step_middleware step_user_readers step_user_writers step_admin_handlers step_vms step_offers step_admin)+
  then show ?thesis
    unfolding Register_def
    by (cases route; simp only: apiRoute.case) (intro step_user_writers step_admin_handlers step_users)+
qed

end

section \<open>The kinds of objects each service writes\<close>

abbreviation kindsIn :: "gvr set \<Rightarrow> kkey set" where
  "kindsIn G \<equiv> {k. fst k \<in> G}"

context kube_api
begin

lemma keeps_ensureUnique: "keeps view (ensureUniqueSSHID E i ns n)" "keeps view (ensureUniqueDomainPrefix E d ns n)"
  unfolding ensureUniqueSSHID_def ensureUniqueDomainPrefix_def VirtualMachineStore_ListAll_def Let_def
  by (intro keeps_intros keeps_calls)+

lemmas frames_service_reads =
  createRecord_keeps[THEN keeps_frames] HashPassword_keeps_view[THEN keeps_frames]
  GeneratePasswordHash_keeps[OF randInt_keeps, THEN keeps_frames] keeps_ensureUnique[THEN keeps_frames]
  keeps_readers[THEN keeps_frames]

lemma frames_VM_Create: "frames view (kindsIn {kiteVirtualMachineGVR, secretGVR}) (VM_Create E st req)"
  unfolding VM_Create_def writeVM_def VirtualMachineStore_Create_def createGuestLoginSecret_def
    VirtualMachineStore_Delete_def Let_def
  by (intro frames_intros frames_service_reads frames_create frames_delete) simp_all

lemma frames_VM_Update: "frames view (kindsIn {kiteVirtualMachineGVR}) (VM_Update E st ns n req)"
  unfolding VM_Update_def VirtualMachineStore_Update_def updateVMOnce_def VirtualMachineStore_Get_def Let_def
  by (intro frames_intros frames_service_reads frames_retry frames_update frames_calls) simp_all

lemma frames_SignUp: "frames view (kindsIn {kiteUserGVR}) (SignUp E st req)"
  unfolding frames_wp by (intro allI wp_SignUp) (auto simp: created_def)

lemma frames_Account_Update: "frames view (kindsIn {kiteUserGVR}) (Account_Update E st n req)"
  unfolding frames_wp
  by (intro allI wp_Account_Update) (auto simp: userUpdateEffect_def)

lemma frames_Authenticate: "frames view (kindsIn {kiteUserGVR}) (Authenticate E st em pw)"
  unfolding frames_wp
  by (intro allI wp_mono[OF wp_Authenticate])
     (auto simp: loginOutcome_def onlyRehashed_def userUpdateEffect_def split: sum.splits option.splits if_splits)

lemma frames_deleteVMs: "frames view (kindsIn {kiteVirtualMachineGVR}) (deleteVirtualMachinesInNamespace E ns)"
  unfolding deleteVirtualMachinesInNamespace_def VirtualMachineStore_List_def deleteVMStep_def VirtualMachineStore_Delete_def
  by (intro frames_intros frames_calls frames_forE frames_delete) simp_all

lemma frames_Account_Delete: "frames view (kindsIn {kiteUserGVR, kiteVirtualMachineGVR}) (Account_Delete E n)"
  unfolding Account_Delete_def UserStore_Get_def UserStore_Delete_def Let_def
  by (intro frames_intros frames_calls frames_delete frames_subset[OF frames_deleteVMs]) auto

lemma frames_offers:
  "frames view (kindsIn {kiteVirtualMachineOfferGVR}) (OfferStore_UpdateStatus E cur st)"
  "frames view (kindsIn {kiteVirtualMachineOfferGVR}) (Offer_Delete E ns n)"
  "frames view (kindsIn {kiteVirtualMachineOfferGVR}) (Offer_Create E oc)"
  unfolding OfferStore_UpdateStatus_def Offer_Delete_def OfferStore_Delete_def Offer_Create_def offer_createRecord_def
    normalizeExpiresAt_def OfferStore_Create_def Let_def
  by (intro frames_intros frames_calls frames_updateStatus frames_delete frames_create; simp split: option.split add: frames_calls)+

end

section \<open>The account and VM database\<close>

text \<open>
  What the system relies on across all its objects: user names, e-mail addresses, SSH ids and domain
  prefixes are unique, and access levels are in range.
\<close>

definition databaseOK :: "'s env \<Rightarrow> kview \<Rightarrow> bool" where
  "databaseOK E v \<longleftrightarrow> usersOK E v \<and> vmKeysUnique v"

definition keepsDatabase :: "'s env \<Rightarrow> kview \<Rightarrow> kview \<Rightarrow> bool" where
  "keepsDatabase E v v' \<longleftrightarrow> (databaseOK E v \<longrightarrow> databaseOK E v')"

lemma uniqueIn_cong: "(\<And>ns n. v' (g, ns, n) = v (g, ns, n)) \<Longrightarrow> uniqueIn g key v' = uniqueIn g key v"
  unfolding uniqueIn_def by simp

lemma usersOK_cong: "(\<And>ns n. v' (kiteUserGVR, ns, n) = v (kiteUserGVR, ns, n)) \<Longrightarrow> usersOK E v' = usersOK E v"
  unfolding usersOK_def by (simp add: uniqueIn_cong[of v' kiteUserGVR v])

lemma vmKeysUnique_cong:
  "(\<And>ns n. v' (kiteVirtualMachineGVR, ns, n) = v (kiteVirtualMachineGVR, ns, n)) \<Longrightarrow> vmKeysUnique v' = vmKeysUnique v"
  unfolding vmKeysUnique_def by (simp add: uniqueIn_cong[of v' kiteVirtualMachineGVR v])

lemma keepsDatabase_other:
  assumes "\<And>k. fst k \<in> {kiteUserGVR, kiteVirtualMachineGVR} \<Longrightarrow> v' k = v k"
  shows "keepsDatabase E v v'"
  using assms usersOK_cong[of v' v E] vmKeysUnique_cong[of v' v] by (simp add: keepsDatabase_def databaseOK_def)

lemma usersOK_deleted:
  assumes "usersOK E v" "deleted kiteUserGVR ns n v v'"
  shows "usersOK E v'"
proof -
  have "intValue (specOf stored) ''access_level'' = intValue (specOf cur) ''access_level''" if "marked cur stored" for cur stored
    using that specOf_cong[of stored cur] by (simp add: marked_def)
  then show ?thesis
    using assms usernameKey.unique_deleted[OF _ assms(2)] emailKey.unique_deleted[OF _ assms(2), of E]
    by (auto simp: usersOK_def deleted_def split: if_splits)
qed

lemma onlyRehashed_usersOK:
  assumes "usersOK E v" "v (kiteUserGVR, [], n) = Some user" "k_name user = n" "onlyRehashed E st pw user v v'"
  shows "usersOK E v'"
proof -
  obtain rec h stored where rec: "account_recordFromObject user = Inr rec"
    and eff: "userUpdateEffect (rec\<lparr>ur_spec := (ur_spec rec)\<lparr>us_password := h\<rparr>\<rparr>) v v' stored"
    using assms(4) by (auto simp: onlyRehashed_def)
  note sel = account_recordFromObject_sel[OF rec]
  have "intValue (specOf user) ''access_level'' \<in> {0..3}"
    using assms(1,2) unfolding usersOK_def by blast
  then show ?thesis
    using userUpdate_usersOK[OF assms(1) eff] assms(2,3) sel(1,2,4) sel(3)[of E] by simp
qed

context kube_api
begin

lemma db_frames: "frames view (kindsIn G) m \<Longrightarrow> kiteUserGVR \<notin> G \<Longrightarrow> kiteVirtualMachineGVR \<notin> G \<Longrightarrow>
    guarantees view (keepsDatabase E) m"
  unfolding guarantees_def frames_def by (auto intro!: keepsDatabase_other)

lemma db_users:
  assumes "frames view (kindsIn G) m" "kiteVirtualMachineGVR \<notin> G"
    and "\<And>s. usersOK E (view s) \<Longrightarrow> wp m (\<lambda>r s'. usersOK E (view s')) s"
  shows "guarantees view (keepsDatabase E) m"
proof -
  have "vmKeysUnique (view (snd (run_state m s))) = vmKeysUnique (view s)" for s
    using assms(1,2) by (intro vmKeysUnique_cong) (simp add: frames_def)
  then show ?thesis
    using assms(3) unfolding guarantees_def keepsDatabase_def databaseOK_def wp_snd by blast
qed

lemma db_vms:
  assumes "frames view (kindsIn G) m" "kiteUserGVR \<notin> G"
    and "\<And>s. vmKeysUnique (view s) \<Longrightarrow> wp m (\<lambda>r s'. vmKeysUnique (view s')) s"
  shows "guarantees view (keepsDatabase E) m"
proof -
  have "usersOK E (view (snd (run_state m s))) = usersOK E (view s)" for s
    using assms(1,2) by (intro usersOK_cong) (simp add: frames_def)
  then show ?thesis
    using assms(3) unfolding guarantees_def keepsDatabase_def databaseOK_def wp_snd by blast
qed

lemma wp_Authenticate_usersOK:
  assumes "usersOK E (view s)"
  shows "wp (Authenticate E st em pw) (\<lambda>r s'. usersOK E (view s')) s"
proof (rule wp_mono[OF wp_Authenticate])
  fix r s' assume out: "loginOutcome E st em pw (view s) r (view s')"
  have "view s' = view s \<or> (\<exists>n user. view s (kiteUserGVR, [], n) = Some user \<and> onlyRehashed E st pw user (view s) (view s'))"
    using out by (fastforce simp: loginOutcome_def credentialsOf_def split: sum.splits option.splits if_splits)
  then show "usersOK E (view s')"
    using assms onlyRehashed_usersOK[OF assms] view_key by metis
qed

lemma wp_deleteVMs_unique:
  assumes "vmKeysUnique (view s)"
  shows "wp (deleteVirtualMachinesInNamespace E ns) (\<lambda>r s'. vmKeysUnique (view s')) s"
proof -
  have step: "wp (deleteVMStep E ns vm) (\<lambda>r s'. vmKeysUnique (view s')) s1" if "vmKeysUnique (view s1)" for vm s1
    unfolding deleteVMStep_def VirtualMachineStore_Delete_def wp_bind
    by (rule wp_delete) (auto simp: wp_simps that intro: vmKeysUnique_deleted[OF that])
  have "wp (forE items (deleteVMStep E ns)) (\<lambda>r s'. vmKeysUnique (view s')) s1" if "vmKeysUnique (view s1)" for items s1
    by (rule wp_forE[where I = "\<lambda>s. vmKeysUnique (view s)"]) (use that step in auto)
  then show ?thesis
    unfolding deleteVirtualMachinesInNamespace_def VirtualMachineStore_List_def wp_bind
    by (intro wp_list) (auto simp: wp_simps assms)
qed

end

lemma keepsDatabase_guarantee: "guarantee (keepsDatabase E)"
  by unfold_locales (auto simp: keepsDatabase_def)

sublocale kube_api \<subseteq> db: guarantee "keepsDatabase E"
  by (rule keepsDatabase_guarantee)

context kube_api
begin

lemma db_accounts:
  "guarantees view (keepsDatabase E) (SignUp E st su)"
  "guarantees view (keepsDatabase E) (Authenticate E st em pw)"
  "guarantees view (keepsDatabase E) (Account_Update E st n upd)"
  by (rule db_users[OF frames_SignUp], simp, rule wp_SignUp, simp, simp add: usersOK_created)
     (rule db_users[OF frames_Authenticate] db_users[OF frames_Account_Update];
      auto intro!: wp_Authenticate_usersOK wp_Account_Update intro: userUpdateReady_usersOK)+

lemma db_VM_Create: "guarantees view (keepsDatabase E) (VM_Create E st cr)"
  by (rule db_vms[OF frames_VM_Create]) (auto intro: VM_Create_unique)

lemma db_VM_Update: "guarantees view (keepsDatabase E) (VM_Update E st ns n up)"
  by (rule db_vms[OF frames_VM_Update]) (auto intro!: wp_VM_Update intro: update_keys_unique)

lemma db_offers:
  "guarantees view (keepsDatabase E) (Offer_Create E oc)" "guarantees view (keepsDatabase E) (Offer_Delete E ns n)"
  "guarantees view (keepsDatabase E) (OfferStore_UpdateStatus E cur status)"
  by (rule db_frames[OF frames_offers(3)] db_frames[OF frames_offers(2)] db_frames[OF frames_offers(1)]; simp)+

lemma db_Claim: "guarantees view (keepsDatabase E) (Claim E st ns n u cl)"
  unfolding Claim_def fulfilClaim_def OfferStore_Get_def Offer_Delete_def[symmetric] Let_def ok_def fail_def
  by (intro db.g_tryE db.g_intros db_VM_Create db_offers db.g_keeps keeps_calls)

lemma db_Account_Delete: "guarantees view (keepsDatabase E) (Account_Delete E n)"
proof -
  have user: "guarantees view (keepsDatabase E) (UserStore_Delete E n)"
    unfolding UserStore_Delete_def
    by (rule db_users[OF frames_delete[of _ _ _ "kindsIn {kiteUserGVR}"]])
       (auto intro!: wp_delete intro: usersOK_deleted)
  have vms: "guarantees view (keepsDatabase E) (deleteVirtualMachinesInNamespace E ns)" for ns
    by (rule db_vms[OF frames_deleteVMs]) (auto intro: wp_deleteVMs_unique)
  show ?thesis
    unfolding Account_Delete_def UserStore_Get_def Let_def ok_def
    by (intro db.g_tryE db.g_intros user vms db.g_keeps keeps_calls)
qed

end

sublocale kube_api \<subseteq> dbapi: api_services E view "keepsDatabase E"
proof unfold_locales
  fix v v' :: kview assume "\<And>k. k \<notin> platformKeys \<Longrightarrow> v' k = v k"
  then show "keepsDatabase E v v'"
    by (intro keepsDatabase_other) (auto simp: platformKeys_def globalTLSKey_def configKey_def secretKey_def)
qed (rule db_accounts db_VM_Create db_VM_Update db_offers db_Claim db_Account_Delete)+

section \<open>The objects the API never touches\<close>

text \<open>
  Everything a VM is made of in the cluster, namespaces and network policies included, belongs to
  the controller.
\<close>

definition apiKinds :: "gvr set" where
  "apiKinds = {kiteUserGVR, kiteVirtualMachineGVR, kiteVirtualMachineOfferGVR, secretGVR, configMapGVR}"

definition leavesOtherKinds :: "gvr set \<Rightarrow> kview \<Rightarrow> kview \<Rightarrow> bool" where
  "leavesOtherKinds G v v' \<longleftrightarrow> (\<forall>k. fst k \<notin> G \<longrightarrow> v' k = v k)"

lemma frames_kinds: "frames v (kindsIn F) m \<Longrightarrow> F \<subseteq> G \<Longrightarrow> guarantees v (leavesOtherKinds G) m"
  unfolding frames_def guarantees_def leavesOtherKinds_def by blast

lemma leavesOtherKinds_guarantee: "guarantee (leavesOtherKinds G)"
  by unfold_locales (auto simp: leavesOtherKinds_def)

lemma platformKinds: "k \<in> platformKeys \<Longrightarrow> fst k = secretGVR \<or> fst k = configMapGVR"
  by (auto simp: platformKeys_def globalTLSKey_def configKey_def secretKey_def)

lemma leavesOtherKinds_platform:
  "secretGVR \<in> G \<Longrightarrow> configMapGVR \<in> G \<Longrightarrow> (\<And>k. k \<notin> platformKeys \<Longrightarrow> v' k = v k) \<Longrightarrow> leavesOtherKinds G v v'"
  unfolding leavesOtherKinds_def by (metis platformKinds)

context kube_api
begin

lemma frames_Claim: "frames view (kindsIn {kiteVirtualMachineGVR, secretGVR, kiteVirtualMachineOfferGVR}) (Claim E st ns n u cl)"
  unfolding Claim_def fulfilClaim_def OfferStore_Get_def Offer_Delete_def[symmetric] Let_def
  by (intro frames_intros frames_calls frames_subset[OF frames_VM_Create] frames_subset[OF frames_offers(1)]
      frames_subset[OF frames_offers(2)]) auto

lemmas frames_tenant_services =
  frames_VM_Create frames_VM_Update frames_offers(3) frames_Claim frames_offers(2)

lemmas frames_account_services = frames_SignUp frames_Authenticate frames_Account_Update frames_Account_Delete

end

sublocale kube_api \<subseteq> kinds: guarantee "leavesOtherKinds apiKinds"
  by (rule leavesOtherKinds_guarantee)

sublocale kube_api \<subseteq> kinds: api_services E view "leavesOtherKinds apiKinds"
proof unfold_locales
  fix v v' :: kview assume "\<And>k. k \<notin> platformKeys \<Longrightarrow> v' k = v k"
  then show "leavesOtherKinds apiKinds v v'"
    by (intro leavesOtherKinds_platform) (auto simp: apiKinds_def)
qed (rule frames_tenant_services[THEN frames_kinds] frames_account_services[THEN frames_kinds], simp add: apiKinds_def)+

end
