(* ===== verification/Api_Access.thy ===== *)
theory Api_Access
  imports Api_Properties
begin

text \<open>
  Who may do what through the HTTP API: the user a request acts for, the level each route asks for,
  the namespace the VM routes are confined to, and who can change an access level.
\<close>

section \<open>The user of a request\<close>

abbreviation levelOf :: "kobj \<Rightarrow> int" where
  "levelOf x \<equiv> intValue (specOf x) ''access_level''"

abbreviation namespaceOf :: "kobj \<Rightarrow> string" where
  "namespaceOf x \<equiv> stringValue (specOf x) ''namespace''"

text \<open>The token verifies, and \<open>x\<close> is a stored user with the name the token carries.\<close>

definition signedIn :: "'s env \<Rightarrow> Dependencies \<Rightarrow> request \<Rightarrow> 's \<Rightarrow> kview \<Rightarrow> Claims \<Rightarrow> kobj \<Rightarrow> bool" where
  "signedIn E deps rq s v claims x \<longleftrightarrow>
     fst (run_state (VerifyAccessToken E (dp_TokenService deps) (accessTokenCookieValue rq)) s) = Inr claims \<and>
     (\<exists>n. v (kiteUserGVR, [], n) = Some x) \<and> usernameOf x = TrimSpace (cl_Subject claims)"

lemma wp_andThen: "wp (andThen m k) Q s \<longleftrightarrow> wp m (\<lambda>r s'. case r of Inl rep \<Rightarrow> Q rep s' | Inr x \<Rightarrow> wp (k x) Q s') s"
  unfolding andThen_def wp_bind by (rule arg_cong[where f = "\<lambda>q. wp m q s"]) (auto simp: wp_return split: sum.split intro!: ext)

lemma wp_goOn: "wp (goOn m k) Q s \<longleftrightarrow> wp m (\<lambda>r s'. case r of Inl rep \<Rightarrow> Q (Inl rep) s' | Inr x \<Rightarrow> wp (k x) Q s') s"
  unfolding goOn_def wp_bind by (rule arg_cong[where f = "\<lambda>q. wp m q s"]) (auto simp: wp_return split: sum.split intro!: ext)

lemma wp_calling: "wp (calling m f) Q s \<longleftrightarrow> wp m (\<lambda>r s'. Q (case r of Inl e \<Rightarrow> Inl (f e) | Inr x \<Rightarrow> Inr x) s') s"
  unfolding calling_def wp_bind by (rule arg_cong[where f = "\<lambda>q. wp m q s"]) (simp add: wp_return fun_eq_iff)

lemma wp_binding: "wp (binding b t) Q s \<longleftrightarrow> Q (case b of None \<Rightarrow> Inl (message 400 t) | Some x \<Rightarrow> Inr x) s"
  unfolding binding_def by (simp add: wp_return)

lemma publicUserFromObject_sel:
  assumes "publicUserFromObject x = Inr u"
  shows "pu_accessLevel u = levelOf x" "pu_namespace u = namespaceOf x" "pu_name u = k_name x"
    "pu_username u = usernameOf x"
  using assms
  by (auto simp: publicUserFromObject_def publicUserFromSpec_def specFromObject_def specOf_def mapValue_def
      objField_def usernameOf_def split: sum.splits option.splits)

context kube_api
begin

lemma wp_Account_Get:
  assumes "\<And>s' e. view s' = view s \<Longrightarrow> Q (Inl e) s'"
    and "\<And>s' x u. view s' = view s \<Longrightarrow> view s (kiteUserGVR, [], n) = Some x \<Longrightarrow> publicUserFromObject x = Inr u \<Longrightarrow> Q (Inr u) s'"
  shows "wp (Account_Get E n) Q s"
  unfolding Account_Get_def UserStore_Get_def wp_tryE
proof (rule wp_get, unfold sum.case)
  fix s' x assume "view s' = view s" "view s (kiteUserGVR, [], n) = Some x"
  then show "wp (State_Monad.return (publicUserFromObject x)) Q s'"
    using assms by (cases "publicUserFromObject x") (simp_all add: wp_return)
qed (rule assms(1))

lemma wp_subjectUser:
  assumes none: "\<And>s' rep. view s' = view s \<Longrightarrow>
       rep = missing \<or> rep = message 500 ''failed to read kite users'' \<or> (\<exists>e. rep = f e) \<Longrightarrow> Q (Inl rep) s'"
    and found: "\<And>s' n x u. view s' = view s \<Longrightarrow> view s (kiteUserGVR, [], n) = Some x \<Longrightarrow>
       usernameOf x = TrimSpace (cl_Subject c) \<Longrightarrow> publicUserFromObject x = Inr u \<Longrightarrow> Q (Inr u) s'"
  shows "wp (subjectUser E c missing f) Q s"
  unfolding subjectUser_def wp_goOn wp_calling
proof (rule wp_FindByUsername, unfold sum.case option.case)
  fix s1 ns n x assume v: "view s1 = view s" and x: "view s (kiteUserGVR, ns, n) = Some x"
    and name: "usernameOf x = TrimSpace (cl_Subject c)"
  have "ns = []" "k_name x = n" using view_key[OF x] by (auto simp: validKey_def)
  with x v name show "wp (calling (Account_Get E (k_name x)) f) Q s1"
    unfolding wp_calling by (intro wp_Account_Get) (auto intro: none found)
qed (simp_all add: none wp_return)

text \<open>The middleware refuses the request, or hands the claims with the current level to the handler.\<close>

lemma wp_RequireAccessLevel:
  assumes refused: "\<And>s' rep t. (\<And>k. k \<noteq> globalTLSKey \<Longrightarrow> view s' k = view s k) \<Longrightarrow> rp_body rep = Msg t \<Longrightarrow>
       rp_status rep \<in> {401, 403, 500} \<Longrightarrow> Q rep s'"
    and allowed: "\<And>s' claims x. view s' = view s \<Longrightarrow> signedIn E deps rq s (view s) claims x \<Longrightarrow> l \<le> levelOf x \<Longrightarrow>
       wp (h (Some (claims\<lparr>cl_AccessLevel := levelOf x\<rparr>))) Q s'"
  shows "wp (RequireAccessLevel E deps rq l h) Q s"
proof (cases "accessTokenCookieValue rq = []")
  case True
  then show ?thesis
    unfolding RequireAccessLevel_def by (simp add: wp_return message_def json_def refused)
next
  case False
  let ?verify = "VerifyAccessToken E (dp_TokenService deps) (accessTokenCookieValue rq)"
  have policy: "frames view {globalTLSKey} (accessTokenCookiePolicyForRequest E rq)"
    unfolding accessTokenCookiePolicyForRequest_def requestUsesSecureCookie_def
    by (intro frames_intros frames_Platform_Get)
  show ?thesis
    unfolding RequireAccessLevel_def if_not_P[OF False] wp_bind[of ?verify]
  proof (rule keeps_wp[OF keeps_Verify])
    fix r s1 assume v: "view s1 = view s" and run: "run_state ?verify s = (r, s1)"
    show "wp (case r of Inl x \<Rightarrow> accessTokenCookiePolicyForRequest E rq \<bind>
            (\<lambda>policy. State_Monad.return ((message 401 ''invalid access token'')\<lparr>rp_cookies := [clearAccessTokenCookie policy]\<rparr>))
        | Inr verified \<Rightarrow> andThen (refreshClaimsFromCurrentUser E verified) (\<lambda>claims.
            if cl_AccessLevel claims < l then State_Monad.return (message 403 ''manager access level is required'')
            else h (Some claims))) Q s1"
    proof (cases r)
      case (Inl e)
      have "wp (accessTokenCookiePolicyForRequest E rq) (\<lambda>p. wp (State_Monad.return
          ((message 401 ''invalid access token'')\<lparr>rp_cookies := [clearAccessTokenCookie p]\<rparr>)) Q) s1"
        using policy unfolding frames_wp
        by (auto elim!: wp_mono allE[of _ s1] intro!: refused simp: wp_return v message_def json_def)
      then show ?thesis by (simp add: Inl wp_bind)
    next
      case (Inr claims)
      have signed: "signedIn E deps rq s (view s) claims x"
        if "view s (kiteUserGVR, [], n) = Some x" "usernameOf x = TrimSpace (cl_Subject claims)" for n x
        using that run Inr unfolding signedIn_def by auto
      have go: "wp (h (Some (claims\<lparr>cl_AccessLevel := levelOf x\<rparr>))) Q s2"
        if "view s2 = view s" "view s (kiteUserGVR, [], n) = Some x" "usernameOf x = TrimSpace (cl_Subject claims)" "l \<le> levelOf x" for s2 n x
        by (rule allowed[OF that(1) signed[OF that(2,3)] that(4)])
      have msg: "Q (message st t) s2" if "view s2 = view s" "st \<in> {401, 403, 500}" for s2 st t
        using that by (intro refused) (auto simp: message_def json_def)
      show ?thesis
        unfolding Inr sum.case refreshClaimsFromCurrentUser_def wp_andThen wp_goOn
        by (rule wp_subjectUser) (auto simp: v wp_return publicUserFromObject_sel intro: msg go)
    qed
  qed
qed

end

section \<open>The level each route asks for\<close>

text \<open>The access table of the API; \<open>None\<close> marks the public routes.\<close>

fun userRouteLevel :: "userRoute \<Rightarrow> int option" where
  "userRouteLevel GetUsers = Some 2"
| "userRouteLevel GetUser = Some 0"
| "userRouteLevel (PostUsers _) = Some 3"
| "userRouteLevel (PatchUser _) = Some 3"
| "userRouteLevel DeleteUser = Some 3"
| "userRouteLevel GetMe = Some 0"
| "userRouteLevel (PostSignup _) = None"
| "userRouteLevel (PostUser _) = None"

fun adminRouteLevel :: "adminRoute \<Rightarrow> int" where
  "adminRouteLevel AdminUsers = 2"
| "adminRouteLevel (AdminUserLevel _) = 2"
| "adminRouteLevel _ = 3"

fun offerRouteLevel :: "offerRoute \<Rightarrow> int" where
  "offerRouteLevel GetOffers = 0"
| "offerRouteLevel (ClaimOffer _) = 0"
| "offerRouteLevel _ = 3"

fun v1RouteLevel :: "v1Route \<Rightarrow> int option" where
  "v1RouteLevel V1Me = Some 0"
| "v1RouteLevel (V1VM _) = Some 0"
| "v1RouteLevel (V1Offer r) = Some (offerRouteLevel r)"
| "v1RouteLevel (V1Admin r) = Some (adminRouteLevel r)"
| "v1RouteLevel _ = None"

fun routeLevel :: "apiRoute \<Rightarrow> int option" where
  "routeLevel (Users r) = userRouteLevel r"
| "routeLevel (V1 r) = v1RouteLevel r"
| "routeLevel _ = None"

lemma users_protected: "userRouteLevel r = Some l \<Longrightarrow> \<exists>h. RegisterUsers E deps rq r = RequireAccessLevel E deps rq l h"
  by (cases r) (auto simp: RegisterUsers_def access_level_defs)

lemma admin_protected: "\<exists>h. RegisterAdmin E deps rq r = RequireAccessLevel E deps rq (adminRouteLevel r) h"
  by (cases r) (auto simp: RegisterAdmin_def access_level_defs)

lemma offers_protected: "\<exists>h. RegisterVirtualMachineOffers E deps rq r = RequireAccessLevel E deps rq (offerRouteLevel r) h"
  by (cases r) (auto simp: RegisterVirtualMachineOffers_def access_level_defs)

lemma route_protected:
  assumes "routeLevel route = Some l"
  shows "\<exists>h. Register E deps rq route = RequireAccessLevel E deps rq l h"
proof -
  have vms: "\<exists>h. RegisterVirtualMachines E deps rq r = RequireAccessLevel E deps rq 0 h" for r
    by (auto simp: RegisterVirtualMachines_def access_level_defs)
  have me: "\<exists>h. RegisterV1 E deps rq V1Me = RequireAccessLevel E deps rq 0 h"
    by (auto simp: RegisterV1_def access_level_defs)
  have "\<exists>h. RegisterV1 E deps rq r = RequireAccessLevel E deps rq l h" if "v1RouteLevel r = Some l" for r
    using that vms me admin_protected[of E deps rq] offers_protected[of E deps rq]
    by (cases r) (auto simp: RegisterV1_def)
  then show ?thesis
    using assms users_protected[of _ l E deps rq] by (cases route) (simp_all add: Register_def)
qed


definition demoDeps :: Dependencies where
  "demoDeps = \<lparr>dp_Config = \<lparr>cfg_JWTSecret = ''k'', cfg_PasswordSalt = ''salt'', cfg_AccessTokenTTL = 3600 * 1000000000\<rparr>,
     dp_TokenService = \<lparr>ts_secret = ''k'', ts_ttl = 3600 * 1000000000\<rparr>\<rparr>"

definition anonymous :: request where
  "anonymous = \<lparr>rq_cookie = None, rq_tls = False, rq_forwardedProto = [], rq_name = ''ku-1'', rq_namespace = []\<rparr>"

lemma anonymous_not_signedIn: "\<not> signedIn E deps anonymous s v claims x"
proof -
  have "TrimSpace [] = []" by code_simp
  then show ?thesis
    by (simp add: signedIn_def accessTokenCookieValue_def anonymous_def VerifyAccessToken_def TrimPrefix_def fail_def)
qed


section \<open>The VM routes and the caller's namespace\<close>

definition ownKeys :: "string \<Rightarrow> kkey set" where
  "ownKeys ns = {k. fst k \<in> {kiteVirtualMachineGVR, secretGVR} \<and> fst (snd k) \<in> {ns, TrimSpace ns}}"

lemma createRecord_namespace:
  assumes "run_state (createRecord E req) s = (Inr rec, s')"
  shows "vr_namespace rec = TrimSpace (cr_namespace req)"
  using assms
proof (rule createRecord_cases)
  fix named assume rec: "rec = recordFromRequest (defaultCreateRequest named)"
    and named: "named = (trimCreateRequest req)\<lparr>cr_name := cr_name named\<rparr>"
  have "cr_namespace named = TrimSpace (cr_namespace req)"
    by (subst named) (simp add: trimCreateRequest_def)
  then show ?thesis by (simp add: rec recordFromRequest_def defaultCreateRequest_def)
qed

context kube_api
begin

lemma frames_VM_Create_own: "frames view (ownKeys (cr_namespace req)) (VM_Create E st req)"
  unfolding VM_Create_def writeVM_def VirtualMachineStore_Create_def createGuestLoginSecret_def
    VirtualMachineStore_Delete_def Let_def
proof (intro frames_if frames_fail frames_try_known[OF keeps_frames[OF createRecord_keeps]], goal_cases)
  case (1 s s' rec)
  then show ?case
    using createRecord_namespace[OF 1]
    by (intro frames_intros frames_service_reads frames_create frames_delete) (simp_all add: ownKeys_def)
qed

lemma frames_VM_Update_own: "frames view (ownKeys ns) (VM_Update E st ns n req)"
  unfolding frames_wp
  by (intro allI wp_VM_Update) (auto simp: updateReady_def vmUpdateEffect_def ownKeys_def)

end

definition sameOutside :: "kkey set \<Rightarrow> kview \<Rightarrow> kview \<Rightarrow> bool" where
  "sameOutside K v v' \<longleftrightarrow> (\<forall>k. k \<notin> K \<longrightarrow> v' k = v k)"

lemma sameOutside_guarantee: "guarantee (sameOutside K)"
  by unfold_locales (auto simp: sameOutside_def)

interpretation outside: guarantee "sameOutside K" for K
  by (rule sameOutside_guarantee)

lemma frames_outside: "frames v K m \<longleftrightarrow> guarantees v (sameOutside K) m"
  by (simp add: frames_def guarantees_def sameOutside_def)

lemma outside_frames: "frames v K m \<Longrightarrow> guarantees v (sameOutside K) m"
  by (simp add: frames_outside)

context kube_api
begin

lemmas outside_calls =
  outside.g_intros frames_VM_Create_own[THEN outside_frames] frames_VM_Update_own[THEN outside_frames]
  keeps_readers[THEN outside.g_keeps]

lemma own_createVM: "guarantees view (sameOutside (ownKeys (pu_namespace u))) (createVM E deps u req)"
  unfolding createVM_def
  using frames_VM_Create_own[of "\<lparr>cr_name = vc_Name req, cr_namespace = pu_namespace u, cr_cpu = vc_CPU req,
      cr_memory = vc_Memory req, cr_image = vc_Image req, cr_disk = NormalizeDisk (vc_Disk req),
      cr_domainPrefix = vc_DomainPrefix req, cr_sshID = vc_SSHID req, cr_sshPassword = vc_SSHPassword req,
      cr_powerState = vc_PowerState req\<rparr>"]
  by (intro outside.g_intros outside_frames) simp

lemma own_updateVM:
  "guarantees view (sameOutside (ownKeys ns)) (updateVM E deps ns n up t)"
  "guarantees view (sameOutside (ownKeys ns)) (deleteVM E deps ns n)"
  unfolding updateVM_def deleteVM_def MarkDelete_def by (intro outside_calls)+

text \<open>Whatever the handler does for the user it looked up stays in that user's namespace.\<close>

lemma wp_own:
  assumes v: "view s1 = view s" and signed: "signedIn E deps rq s (view s) claims x"
    and own: "\<And>u. guarantees view (sameOutside (ownKeys (pu_namespace u))) (k u)"
  shows "wp (andThen (currentUser E (Some (claims\<lparr>cl_AccessLevel := l\<rparr>))) k)
    (\<lambda>rep s'. \<forall>key. key \<noteq> globalTLSKey \<longrightarrow> view s' key \<noteq> view s key \<longrightarrow>
       (\<exists>claims x. signedIn E deps rq s (view s) claims x \<and> key \<in> ownKeys (namespaceOf x))) s1"
  unfolding currentUser_def option.case wp_andThen
proof (rule wp_subjectUser, unfold sum.case)
  fix s2 n y u
  assume v2: "view s2 = view s1" and y: "view s1 (kiteUserGVR, [], n) = Some y" "publicUserFromObject y = Inr u"
    and name: "usernameOf y = TrimSpace (cl_Subject (claims\<lparr>cl_AccessLevel := l\<rparr>))"
  have y': "signedIn E deps rq s (view s) claims y" using signed y name unfolding signedIn_def v by auto
  have same: "wp (k u) (\<lambda>rep s'. sameOutside (ownKeys (namespaceOf y)) (view s2) (view s')) s2"
    using own[of u] unfolding guarantees_wp publicUserFromObject_sel(2)[OF y(2)] by blast
  show "wp (k u) (\<lambda>rep s'. \<forall>key. key \<noteq> globalTLSKey \<longrightarrow> view s' key \<noteq> view s key \<longrightarrow>
       (\<exists>claims x. signedIn E deps rq s (view s) claims x \<and> key \<in> ownKeys (namespaceOf x))) s2"
    by (rule wp_mono[OF same]) (use y' in \<open>unfold v2 v sameOutside_def, blast\<close>)
qed (simp add: v)

lemma wp_RegisterVirtualMachines:
  "wp (RegisterVirtualMachines E deps rq route) (\<lambda>rep s'. \<forall>key. key \<noteq> globalTLSKey \<longrightarrow> view s' key \<noteq> view s key \<longrightarrow>
      (\<exists>claims x. signedIn E deps rq s (view s) claims x \<and> key \<in> ownKeys (namespaceOf x))) s"
  unfolding RegisterVirtualMachines_def
proof (rule wp_RequireAccessLevel)
  fix s1 claims x assume v: "view s1 = view s" and signed: "signedIn E deps rq s (view s) claims x"
  note own = wp_own[OF v signed]
  show "wp (case route of
         GetVMs \<Rightarrow> vmListHandler E (Some (claims\<lparr>cl_AccessLevel := levelOf x\<rparr>))
       | PostVM b \<Rightarrow> vmCreateHandler E deps (Some (claims\<lparr>cl_AccessLevel := levelOf x\<rparr>)) b
       | GetVM \<Rightarrow> vmGetHandler E rq (Some (claims\<lparr>cl_AccessLevel := levelOf x\<rparr>))
       | PatchVM b \<Rightarrow> vmUpdateHandler E deps rq (Some (claims\<lparr>cl_AccessLevel := levelOf x\<rparr>)) b
       | DeleteVM \<Rightarrow> vmDeleteHandler E deps rq (Some (claims\<lparr>cl_AccessLevel := levelOf x\<rparr>))
       | StartVM \<Rightarrow> vmPowerHandler E deps ''On'' rq (Some (claims\<lparr>cl_AccessLevel := levelOf x\<rparr>))
       | StopVM \<Rightarrow> vmPowerHandler E deps ''Off'' rq (Some (claims\<lparr>cl_AccessLevel := levelOf x\<rparr>))
       | PostConsoleTicket \<Rightarrow> vmConsoleTicketHandler E deps rq (Some (claims\<lparr>cl_AccessLevel := levelOf x\<rparr>)))
     (\<lambda>rep s'. \<forall>key. key \<noteq> globalTLSKey \<longrightarrow> view s' key \<noteq> view s key \<longrightarrow>
      (\<exists>claims x. signedIn E deps rq s (view s) claims x \<and> key \<in> ownKeys (namespaceOf x))) s1"
    unfolding vmListHandler_def vmCreateHandler_def vmGetHandler_def vmUpdateHandler_def vmDeleteHandler_def
      vmPowerHandler_def vmConsoleTicketHandler_def checkQuota_def Let_def
    by (cases route; simp only: vmRoute.case; rule own; intro outside_calls own_createVM own_updateVM)
qed auto

end


text \<open>A signed-in request on the reference API server.\<close>

lemma middleware_run:
  assumes "run_state (VerifyAccessToken E (dp_TokenService deps) (accessTokenCookieValue rq)) s = (Inr c, s1)"
    and "accessTokenCookieValue rq \<noteq> []"
  shows "run_state (RequireAccessLevel E deps rq l h) s =
    run_state (andThen (refreshClaimsFromCurrentUser E c) (\<lambda>claims.
      if cl_AccessLevel claims < l then State_Monad.return (message 403 ''manager access level is required'')
      else h (Some claims))) s1"
  using assms by (simp add: RequireAccessLevel_def)

definition demoDeployment :: Dependencies where
  "demoDeployment = \<lparr>dp_Config = \<lparr>cfg_JWTSecret = ''jwt-1'', cfg_PasswordSalt = ''salt'', cfg_AccessTokenTTL = 3600 * 1000000000\<rparr>,
     dp_TokenService = demoService\<rparr>"

definition withToken :: "request \<Rightarrow> request" where
  "withToken rq = rq\<lparr>rq_cookie := Some (''Bearer '' @ accessTokenFor demoService demoClaims)\<rparr>"

lemma withToken_sel [simp]: "rq_name (withToken rq) = rq_name rq" "rq_namespace (withToken rq) = rq_namespace rq"
  by (simp_all add: withToken_def)

lemma demo_signed:
  "run_state (VerifyAccessToken mem_env (dp_TokenService demoDeployment) (accessTokenCookieValue (withToken rq))) (mem_init objs f) =
     (Inr demoClaims, mem_init objs f)"
  "accessTokenCookieValue (withToken rq) \<noteq> []"
proof -
  have tok: "accessTokenCookieValue (withToken rq) = ''Bearer '' @ accessTokenFor demoService demoClaims"
    by (simp add: accessTokenCookieValue_def withToken_def)
  show "run_state (VerifyAccessToken mem_env (dp_TokenService demoDeployment) (accessTokenCookieValue (withToken rq))) (mem_init objs f) =
     (Inr demoClaims, mem_init objs f)"
    unfolding tok demoDeployment_def Dependencies.select_convs Verify_issued[OF demoClaims_unmarshal]
    by (simp add: mem_init_def ok_def unixSeconds_def demoClaims_def)
  show "accessTokenCookieValue (withToken rq) \<noteq> []" by (simp add: tok)
qed

lemmas demo_middleware = middleware_run[OF demo_signed]

definition plainRequest :: request where
  "plainRequest = \<lparr>rq_cookie = None, rq_tls = False, rq_forwardedProto = [], rq_name = ''web'', rq_namespace = []\<rparr>"

definition demoVMRecord :: KiteVirtualMachineRecord where
  "demoVMRecord = \<lparr>vr_name = ''web'', vr_namespace = ''kite-user-ku-1'', vr_spec =
     \<lparr>vs_cpu = 2, vs_memory = ''4Gi'', vs_image = ''ubuntu-22.04'', vs_disk = ''25Gi'', vs_powerState = ''On'', vs_domainPrefix = ''blog'',
      vs_sshID = ''alice'', vs_sshPasswordHash = ''$2a$12$pw'', vs_delete = False\<rparr>\<rparr>"

definition demoTenant :: mem where
  "demoTenant = mem_init [((kiteUserGVR, [], ''ku-1''), demoUser),
     ((kiteVirtualMachineGVR, ''kite-user-ku-1'', ''web''), (newKiteVirtualMachineObject demoVMRecord)\<lparr>k_namespace := ''kite-user-ku-1''\<rparr>)] []"

lemma demo_stop:
  "run_state (RegisterVirtualMachines mem_env demoDeployment (withToken plainRequest) StopVM) demoTenant =
   run_state (andThen (refreshClaimsFromCurrentUser mem_env demoClaims) (\<lambda>claims.
      if cl_AccessLevel claims < 0 then State_Monad.return (message 403 ''manager access level is required'')
      else vmPowerHandler mem_env demoDeployment ''Off'' plainRequest (Some claims))) demoTenant"
  unfolding RegisterVirtualMachines_def demoTenant_def demo_middleware vmRoute.case vmPowerHandler_def withToken_sel
  by (simp add: AccessLevelReadOnly_def)


section \<open>What a new VM may be\<close>

definition activeVMs :: "kview \<Rightarrow> string \<Rightarrow> string set" where
  "activeVMs v ns = {n. \<exists>x. v (kiteVirtualMachineGVR, ns, n) = Some x \<and> \<not> vm_delete (vmFromObject x)}"

lemma requestedAs_sel:
  assumes "requestedAs req rec"
  shows "vr_namespace rec = TrimSpace (cr_namespace req)"
    "vs_cpu (vr_spec rec) = (if cr_cpu req = 0 then 2 else cr_cpu req)"
    "vs_memory (vr_spec rec) = (if TrimSpace (cr_memory req) = [] then ''4Gi'' else TrimSpace (cr_memory req))"
    "vs_disk (vr_spec rec) = TrimSpace (cr_disk req)"
proof -
  obtain n where eq: "recordFromRequest (defaultCreateRequest ((trimCreateRequest req)\<lparr>cr_name := n\<rparr>)) =
      rec\<lparr>vr_spec := (vr_spec rec)\<lparr>vs_sshPasswordHash := []\<rparr>\<rparr>"
    using assms unfolding requestedAs_def by blast
  show "vr_namespace rec = TrimSpace (cr_namespace req)"
    "vs_cpu (vr_spec rec) = (if cr_cpu req = 0 then 2 else cr_cpu req)"
    "vs_memory (vr_spec rec) = (if TrimSpace (cr_memory req) = [] then ''4Gi'' else TrimSpace (cr_memory req))"
    "vs_disk (vr_spec rec) = TrimSpace (cr_disk req)"
    using arg_cong[OF eq, of vr_namespace] arg_cong[OF eq, of "\<lambda>r. vs_cpu (vr_spec r)"]
      arg_cong[OF eq, of "\<lambda>r. vs_memory (vr_spec r)"] arg_cong[OF eq, of "\<lambda>r. vs_disk (vr_spec r)"]
    by (simp_all add: recordFromRequest_def defaultCreateRequest_def trimCreateRequest_def split: if_splits)
qed

text \<open>The limits that hold for a VM a user at that level has just been given.\<close>

definition withinLimits :: "int \<Rightarrow> KiteVirtualMachineSpec \<Rightarrow> bool" where
  "withinLimits level spec \<longleftrightarrow>
     1 \<le> level \<and> (level = 1 \<longrightarrow> vs_cpu spec = 2 \<and> vs_memory spec = ''4Gi'' \<and> vs_disk spec = ''25Gi'')"

lemma fixed_disk: "NormalizeDisk (GStr levelOneFixedDisk) = ''25Gi''" "TrimSpace ''25Gi'' = ''25Gi''" "TrimSpace ''4Gi'' = ''4Gi''"
  by code_simp+

text \<open>Every VM that is there afterwards and was not before belongs to the signed-in user and is within the limits.\<close>

definition newVMsFor :: "'s env \<Rightarrow> Dependencies \<Rightarrow> request \<Rightarrow> 's \<Rightarrow> kview \<Rightarrow> kview \<Rightarrow> bool" where
  "newVMsFor E deps rq s v v' \<longleftrightarrow>
     (\<forall>ns n obj. v (kiteVirtualMachineGVR, ns, n) = None \<longrightarrow> v' (kiteVirtualMachineGVR, ns, n) = Some obj \<longrightarrow>
        (\<exists>claims x rec. signedIn E deps rq s v claims x \<and> recordFromObject obj = Inr rec \<and>
           ns = TrimSpace (namespaceOf x) \<and> withinLimits (levelOf x) (vr_spec rec) \<and>
           (levelOf x = 1 \<longrightarrow> card (activeVMs v (namespaceOf x)) < 2)))"

lemma newVMsFor_same: "(\<And>k. k \<noteq> globalTLSKey \<Longrightarrow> v' k = v k) \<Longrightarrow> newVMsFor E deps rq s v v'"
  by (simp add: newVMsFor_def globalTLSKey_def)

context kube_api
begin

lemma wp_checkQuota:
  assumes "\<And>s' rep. view s' = view s \<Longrightarrow> rp_status rep \<noteq> 201 \<Longrightarrow> Q (Inl rep) s'"
    and "\<And>s'. view s' = view s \<Longrightarrow> pu_accessLevel u = 1 \<longrightarrow> card (activeVMs (view s) (pu_namespace u)) < 2 \<Longrightarrow> Q (Inr ()) s'"
  shows "wp (checkQuota E u) Q s"
proof -
  have count: "card (activeVMs (view s) ns) \<le> activeVMCount (vmsFromList items)"
    if l: "listed kiteVirtualMachineGVR ns (view s) items" for ns items
  proof -
    have "activeVMs (view s) ns \<subseteq> k_name ` set (filter (\<lambda>x. \<not> vm_delete (vmFromObject x)) items)"
    proof
      fix n assume "n \<in> activeVMs (view s) ns"
      then obtain x where x: "view s (kiteVirtualMachineGVR, ns, n) = Some x" "\<not> vm_delete (vmFromObject x)"
        by (auto simp: activeVMs_def)
      then have "x \<in> set items" using l by (auto simp: listed_def)
      with x view_key[OF x(1)] show "n \<in> k_name ` set (filter (\<lambda>x. \<not> vm_delete (vmFromObject x)) items)" by force
    qed
    then have "card (activeVMs (view s) ns) \<le> card (k_name ` set (filter (\<lambda>x. \<not> vm_delete (vmFromObject x)) items))"
      by (intro card_mono) auto
    also have "\<dots> \<le> length (filter (\<lambda>x. \<not> vm_delete (vmFromObject x)) items)"
      by (metis card_length image_set length_map)
    finally show ?thesis by (simp add: activeVMCount_def vmsFromList_def filter_map comp_def)
  qed
  show ?thesis
  proof (cases "pu_accessLevel u = AccessLevelUser")
    case True
    have err: "rp_status (writeVMError e t) \<noteq> 201" for e t
      by (auto simp: writeVMError_def message_def json_def split: option.split)
    have "wp (calling (tryE (env_list E kiteVirtualMachineGVR (pu_namespace u)) (\<lambda>items. ok (vmsFromList items)))
        (\<lambda>e. writeVMError e ''failed to list virtual machines''))
      (\<lambda>r s'. case r of Inl rep \<Rightarrow> Q (Inl rep) s' | Inr vms \<Rightarrow> wp (State_Monad.return (if activeVMCount vms \<ge> levelOneVMQuota
          then Inl (message 403 ''Level 1 users can create up to 2 active virtual machines'') else Inr ())) Q s') s"
      unfolding wp_calling wp_tryE
    proof (rule wp_list, unfold sum.case wp_ok)
      fix s' items assume v: "view s' = view s" and l: "listed kiteVirtualMachineGVR (pu_namespace u) (view s) items"
      show "wp (State_Monad.return (if activeVMCount (vmsFromList items) \<ge> levelOneVMQuota
          then Inl (message 403 ''Level 1 users can create up to 2 active virtual machines'') else Inr ())) Q s'"
        using count[OF l] assms(1)[OF v] assms(2)[OF v]
        by (auto simp: wp_return levelOneVMQuota_def message_def json_def)
    qed (simp add: assms err)
    then show ?thesis
      unfolding checkQuota_def VM_List_def VirtualMachineStore_List_def wp_goOn if_P[OF True] by simp
  next
    case False
    then show ?thesis
      by (simp add: checkQuota_def wp_return assms(2) AccessLevelUser_def)
  qed
qed

lemma wp_createVM:
  assumes v: "view s1 = view s" and signed: "signedIn E deps rq s (view s) claims x" and u: "publicUserFromObject x = Inr u"
    and level: "1 \<le> levelOf x" and quota: "levelOf x = 1 \<longrightarrow> card (activeVMs (view s) (namespaceOf x)) < 2"
  shows "wp (createVM E deps u (applyAccessLevelCreateLimits (pu_accessLevel u) req))
    (\<lambda>rep s'. (rp_status rep = 201 \<longrightarrow> (\<exists>rec hash. vmCreated rec hash (view s) (view s'))) \<and>
       newVMsFor E deps rq s (view s) (view s')) s1"
proof -
  note user = publicUserFromObject_sel[OF u]
  let ?req = "applyAccessLevelCreateLimits (pu_accessLevel u) req"
  let ?cr = "\<lparr>cr_name = vc_Name ?req, cr_namespace = pu_namespace u, cr_cpu = vc_CPU ?req, cr_memory = vc_Memory ?req,
      cr_image = vc_Image ?req, cr_disk = NormalizeDisk (vc_Disk ?req), cr_domainPrefix = vc_DomainPrefix ?req,
      cr_sshID = vc_SSHID ?req, cr_sshPassword = vc_SSHPassword ?req, cr_powerState = vc_PowerState ?req\<rparr>"
  have err: "rp_status (writeVMError e t) \<noteq> 201" for e t
    by (auto simp: writeVMError_def message_def json_def split: option.split)
  have made: "newVMsFor E deps rq s (view s) v'" if ready: "createReady E (salt deps) ?cr (view s) rec hash"
    and new: "\<And>ns n obj. view s (kiteVirtualMachineGVR, ns, n) = None \<Longrightarrow> v' (kiteVirtualMachineGVR, ns, n) = Some obj \<Longrightarrow>
      ns = vr_namespace rec \<and> recordFromObject obj = Inr rec" for rec hash v'
  proof -
    have "requestedAs ?cr rec" using ready by (simp add: createReady_def)
    note sel = requestedAs_sel[OF this]
    have "withinLimits (levelOf x) (vr_spec rec)"
      using level sel(2,3,4) user(1) fixed_disk
      by (simp add: withinLimits_def applyAccessLevelCreateLimits_def AccessLevelUser_def levelOneFixedCPU_def levelOneFixedMemory_def)
    moreover have "vr_namespace rec = TrimSpace (namespaceOf x)" using sel(1) user(2) by simp
    ultimately show ?thesis using signed new quota unfolding newVMsFor_def by blast
  qed
  have outcome: "wp (VM_Create E (salt deps) ?cr) (\<lambda>r s'. newVMsFor E deps rq s (view s) (view s') \<and>
      (\<not> isl r \<longrightarrow> (\<exists>rec hash. vmCreated rec hash (view s) (view s')))) s1"
  proof (rule wpI)
    fix r s' assume run: "run_state (VM_Create E (salt deps) ?cr) s1 = (r, s')"
    show "newVMsFor E deps rq s (view s) (view s') \<and> (\<not> isl r \<longrightarrow> (\<exists>rec hash. vmCreated rec hash (view s) (view s')))"
    proof (cases r)
      case (Inl e)
      from wpD[OF VM_Create_failed run] Inl consider "view s' = view s"
        | rec hash where "createReady E (salt deps) ?cr (view s) rec hash" "abandoned rec hash (view s) (view s') e"
        unfolding v by blast
      then have "newVMsFor E deps rq s (view s) (view s')"
        by cases (simp add: newVMsFor_def, erule made, erule abandoned_new)
      with Inl show ?thesis by simp
    next
      case (Inr vm)
      with wpD[OF VM_Create_outcome run] obtain rec hash
        where ready: "createReady E (salt deps) ?cr (view s) rec hash" and new: "vmCreated rec hash (view s) (view s')"
        unfolding v by auto
      have "newVMsFor E deps rq s (view s) (view s')" by (rule made[OF ready]) (rule vmCreated_new[OF new])
      with new show ?thesis by blast
    qed
  qed
  show ?thesis
    unfolding createVM_def wp_andThen wp_calling
    by (rule wp_mono[OF outcome]) (auto simp: wp_return err split: sum.splits)
qed

lemma wp_PostVM:
  "wp (RegisterVirtualMachines E deps rq (PostVM b))
    (\<lambda>rep s'. (rp_status rep = 201 \<longrightarrow> (\<exists>rec hash. vmCreated rec hash (view s) (view s'))) \<and>
       newVMsFor E deps rq s (view s) (view s')) s"
  unfolding RegisterVirtualMachines_def vmRoute.case
proof (rule wp_RequireAccessLevel)
  fix s1 claims c assume v: "view s1 = view s" and signed: "signedIn E deps rq s (view s) claims c"
  let ?Q = "\<lambda>rep s'. (rp_status rep = 201 \<longrightarrow> (\<exists>rec hash. vmCreated rec hash (view s) (view s'))) \<and>
       newVMsFor E deps rq s (view s) (view s')"
  have same: "newVMsFor E deps rq s (view s) (view s2)" if "view s2 = view s" for s2
    by (rule newVMsFor_same) (simp add: that)
  have err: "rp_status (writeAccountError e t) \<noteq> 201" for e t
    by (auto simp: writeAccountError_def message_def json_def split: option.split)
  have create: "wp (andThen (checkQuota E u) (\<lambda>_. createVM E deps u (applyAccessLevelCreateLimits (pu_accessLevel u) req))) ?Q s2"
    if s2: "view s2 = view s" and x: "signedIn E deps rq s (view s) claims x" and u: "publicUserFromObject x = Inr u" and l: "1 \<le> levelOf x"
    for s2 x u req
    unfolding wp_andThen
    by (rule wp_checkQuota, unfold sum.case)
       (simp add: same s2, rule wp_createVM[OF _ x u l], use s2 publicUserFromObject_sel[OF u] in auto)
  show "wp (vmCreateHandler E deps (Some (claims\<lparr>cl_AccessLevel := levelOf c\<rparr>)) b) ?Q s1"
    unfolding vmCreateHandler_def currentUser_def option.case wp_andThen[of "subjectUser E cc m f" for cc m f] Let_def
  proof (rule wp_subjectUser, unfold sum.case)
    fix s2 rep assume "view s2 = view s1" "rep = message 404 ''current user was not found'' \<or> rep = message 500 ''failed to read kite users'' \<or>
      (\<exists>e. rep = writeAccountError e ''failed to read current user'')"
    then show "?Q rep s2" using err same[of s2] v by (auto simp: message_def json_def)
  next
    fix s2 n x u
    assume s2: "view s2 = view s1" and x: "view s1 (kiteUserGVR, [], n) = Some x" and u: "publicUserFromObject x = Inr u"
      and name: "usernameOf x = TrimSpace (cl_Subject (claims\<lparr>cl_AccessLevel := levelOf c\<rparr>))"
    have "signedIn E deps rq s (view s) claims x" using signed x name unfolding signedIn_def v by auto
    note go = create[OF _ this u]
    show "wp (if \<not> canMutateOwnVM (pu_accessLevel u)
         then State_Monad.return (message 403 ''VM creation requires access level 1 or higher. Contact the administrator.'')
         else andThen (binding b ''invalid request body'') (\<lambda>req.
           andThen (checkQuota E u) (\<lambda>_. createVM E deps u (applyAccessLevelCreateLimits (pu_accessLevel u) req)))) ?Q s2"
      using go[of s2] s2 v publicUserFromObject_sel(1)[OF u] same[of s2]
      by (cases b) (auto simp: message_def json_def canMutateOwnVM_def AccessLevelUser_def wp_return wp_andThen[of "binding b' t'" for b' t'] wp_binding)
  qed
qed (auto intro: newVMsFor_same)

end


definition greedyRequest :: vmCreateRequest where
  "greedyRequest = \<lparr>vc_Name = ''w'', vc_CPU = 64, vc_Memory = ''9Ti'', vc_Image = ''u'', vc_Disk = GFloat 9, vc_DomainPrefix = ''w'',
     vc_SSHID = ''bob'', vc_SSHPassword = ''p'', vc_PowerState = ''On''\<rparr>"

definition levelOneTenant :: mem where
  "levelOneTenant = mem_init [((kiteUserGVR, [], ''u''), newKiteUserObject \<lparr>ur_name = ''u'', ur_spec = \<lparr>us_username = ''alice'',
     us_email = ''e'', us_password = ''p'', us_namespace = ''n'', us_profileImage = [], us_accessLevel = 1\<rparr>\<rparr>)] []"

lemma demo_post:
  "run_state (RegisterVirtualMachines mem_env demoDeployment (withToken plainRequest) (PostVM b)) levelOneTenant =
   run_state (andThen (refreshClaimsFromCurrentUser mem_env demoClaims) (\<lambda>claims.
      if cl_AccessLevel claims < 0 then State_Monad.return (message 403 ''manager access level is required'')
      else vmCreateHandler mem_env demoDeployment (Some claims) b)) levelOneTenant"
  unfolding RegisterVirtualMachines_def levelOneTenant_def demo_middleware vmRoute.case AccessLevelReadOnly_def ..

text \<open>Reads of a reference server without scripted faults leave its state as it is.\<close>

definition stays :: "mem \<Rightarrow> (mem, 'a) state \<Rightarrow> bool" where
  "stays s m \<longleftrightarrow> snd (run_state m s) = s"

lemma stays_bind: "stays s m \<Longrightarrow> (\<And>x. stays s (k x)) \<Longrightarrow> stays s (State_Monad.bind m k)"
  by (simp add: stays_def split: prod.split) (metis snd_conv)

lemma stays_return: "stays s (State_Monad.return x)"
  by (simp add: stays_def)

lemma stays_sum: "(\<And>e. stays s (f e)) \<Longrightarrow> (\<And>x. stays s (g x)) \<Longrightarrow> stays s (case r of Inl e \<Rightarrow> f e | Inr x \<Rightarrow> g x)"
  by (cases r) auto

lemma stays_option: "stays s a \<Longrightarrow> (\<And>x. stays s (g x)) \<Longrightarrow> stays s (case r of None \<Rightarrow> a | Some x \<Rightarrow> g x)"
  by (cases r) auto

lemma stays_if: "stays s a \<Longrightarrow> stays s b \<Longrightarrow> stays s (if c then a else b)"
  by simp

lemma stays_mem: "stays (mem_init objs []) (env_get mem_env g ns n)" "stays (mem_init objs []) (env_list mem_env g ns)"
  by (simp_all add: stays_def mem_env_def mem_get_def mem_list_def mem_call_def mem_init_def split: option.split)

lemmas stays_intros = stays_mem stays_bind stays_return stays_sum stays_option stays_if

lemma stays_reads:
  "stays (mem_init objs []) (refreshClaimsFromCurrentUser mem_env c)" "stays (mem_init objs []) (currentUser mem_env ctx)"
  "stays (mem_init objs []) (checkQuota mem_env u)"
  unfolding refreshClaimsFromCurrentUser_def currentUser_def checkQuota_def subjectUser_def goOn_def calling_def
    FindByUsername_def Account_Get_def VM_List_def UserStore_List_def UserStore_Get_def VirtualMachineStore_List_def
    tryE_def ok_def fail_def Let_def
  by (intro stays_intros)+

lemma stays_run: "stays s m \<Longrightarrow> fst (run_state m s) = x \<Longrightarrow> run_state m s = (x, s)"
  by (metis stays_def prod.collapse)

lemma andThen_run: "run_state m s = (Inr x, s1) \<Longrightarrow> run_state (andThen m k) s = run_state (k x) s1"
  by (simp add: andThen_def)

definition levelOneUser :: PublicUser where
  "levelOneUser = \<lparr>pu_name = ''u'', pu_username = ''alice'', pu_email = ''e'', pu_namespace = ''n'', pu_profileImage = [], pu_accessLevel = 1\<rparr>"

lemma demo_create:
  "rp_status (fst (run_state (RegisterVirtualMachines mem_env demoDeployment (withToken plainRequest) (PostVM (Some greedyRequest))) levelOneTenant)) = 201"
proof -
  have stays: "stays levelOneTenant (refreshClaimsFromCurrentUser mem_env demoClaims)"
    "stays levelOneTenant (currentUser mem_env (Some demoClaims))" "stays levelOneTenant (checkQuota mem_env levelOneUser)"
    unfolding levelOneTenant_def by (rule stays_reads)+
  have "fst (run_state (refreshClaimsFromCurrentUser mem_env demoClaims) levelOneTenant) = Inr demoClaims" by code_simp
  note refresh = andThen_run[OF stays_run[OF stays(1) this]]
  have "fst (run_state (currentUser mem_env (Some demoClaims)) levelOneTenant) = Inr levelOneUser" by code_simp
  note user = andThen_run[OF stays_run[OF stays(2) this]]
  have "fst (run_state (checkQuota mem_env levelOneUser) levelOneTenant) = Inr ()" by code_simp
  note quota = andThen_run[OF stays_run[OF stays(3) this]]
  have bind: "run_state (andThen (binding (Some req) t) k) s = run_state (k req) s" for req t and k :: "vmCreateRequest \<Rightarrow> (mem, reply) state" and s
    by (simp add: andThen_def binding_def)
  have "rp_status (fst (run_state (createVM mem_env demoDeployment levelOneUser
      (greedyRequest\<lparr>vc_CPU := 2, vc_Memory := ''4Gi'', vc_Disk := GStr ''25Gi''\<rparr>)) levelOneTenant)) = 201"
    by code_simp
  moreover have "applyAccessLevelCreateLimits (pu_accessLevel levelOneUser) greedyRequest =
      greedyRequest\<lparr>vc_CPU := 2, vc_Memory := ''4Gi'', vc_Disk := GStr ''25Gi''\<rparr>" "canMutateOwnVM (pu_accessLevel levelOneUser)"
    by (simp_all add: applyAccessLevelCreateLimits_def levelOneUser_def AccessLevelUser_def levelOneFixedCPU_def
        levelOneFixedMemory_def levelOneFixedDisk_def canMutateOwnVM_def)
  moreover have "\<not> cl_AccessLevel demoClaims < 0" by (simp add: demoClaims_def)
  ultimately show ?thesis
    unfolding demo_post refresh vmCreateHandler_def by (simp add: user bind quota)
qed


end
