(* ===== verification/Api_Levels.thy ===== *)
theory Api_Levels
  imports Api_Access
begin

text \<open>
  Changes of access levels through the API: which routes can make them, who may, and what goes wrong
  when the identifier of the route can denote two users.
\<close>

section \<open>Handlers with one write\<close>

lemma wp_bound: "Q (message 400 t) s \<Longrightarrow> (\<And>x. b = Some x \<Longrightarrow> wp (k x) Q s) \<Longrightarrow> wp (andThen (binding b t) k) Q s"
  unfolding wp_andThen wp_binding by (cases b) auto

lemma wp_ifI: "(c \<Longrightarrow> wp a Q s) \<Longrightarrow> (\<not> c \<Longrightarrow> wp b Q s) \<Longrightarrow> wp (if c then a else b) Q s"
  by simp

lemma wp_call:
  assumes "wp m (\<lambda>r s'. P s') s" "\<And>x s1. P s1 \<Longrightarrow> wp (k x) (\<lambda>_. P) s1"
  shows "wp (andThen (calling m f) k) (\<lambda>_. P) s"
  unfolding wp_andThen wp_calling
  by (rule wp_mono[OF assms(1)]) (auto split: sum.splits intro: assms(2))

context kube_api
begin

lemma wp_read_then:
  assumes "keeps view m" "\<And>s1 rep. view s1 = view s \<Longrightarrow> Q rep s1" "\<And>s1 x. view s1 = view s \<Longrightarrow> wp (k x) Q s1"
  shows "wp (andThen m k) Q s"
  unfolding wp_andThen by (rule wp_keeps[OF assms(1)]) (auto split: sum.split intro: assms(2,3))

lemma keeps_andThen: "keeps view m \<Longrightarrow> (\<And>x. keeps view (k x)) \<Longrightarrow> keeps view (andThen m k)"
  unfolding andThen_def by (intro keeps_intros)

lemma keeps_goOn: "keeps view m \<Longrightarrow> (\<And>x. keeps view (k x)) \<Longrightarrow> keeps view (goOn m k)"
  unfolding goOn_def by (intro keeps_intros)

lemma keeps_calling: "keeps view m \<Longrightarrow> keeps view (calling m f)"
  unfolding calling_def by (intro keeps_intros)

lemma keeps_resolve: "keeps view (resolveUserResourceName E i)"
  unfolding resolveUserResourceName_def by (intro keeps_intros keeps_goOn keeps_calling keeps_readers)

lemma keeps_canChange: "keeps view (canCurrentUserChangeAccessLevel E ctx i l)"
  unfolding canCurrentUserChangeAccessLevel_def
  by (intro keeps_intros keeps_goOn keeps_calling keeps_readers keeps_resolve)

end

section \<open>Routes that leave users alone\<close>

sublocale kube_api \<subseteq> users: guarantee "leavesOtherKinds (- {kiteUserGVR})"
  by (rule leavesOtherKinds_guarantee)

sublocale kube_api \<subseteq> users: tenant_services E view "leavesOtherKinds (- {kiteUserGVR})"
proof unfold_locales
  fix v v' :: kview assume "\<And>k. k \<notin> platformKeys \<Longrightarrow> v' k = v k"
  then show "leavesOtherKinds (- {kiteUserGVR}) v v'"
    by (intro leavesOtherKinds_platform) auto
qed (rule frames_tenant_services[THEN frames_kinds], simp)+

section \<open>Levels before and after\<close>

definition sameLevels :: "kview \<Rightarrow> kview \<Rightarrow> bool" where
  "sameLevels v v' \<longleftrightarrow> (\<forall>n x y. v (kiteUserGVR, [], n) = Some x \<longrightarrow> v' (kiteUserGVR, [], n) = Some y \<longrightarrow> levelOf y = levelOf x)"

lemma sameLevels_refl [simp]: "sameLevels v v"
  by (simp add: sameLevels_def)

lemma sameLevels_users: "leavesOtherKinds (- {kiteUserGVR}) v v' \<Longrightarrow> sameLevels u v' = sameLevels u v"
  by (simp add: sameLevels_def leavesOtherKinds_def)

lemma onlyRehashed_levels:
  assumes "v (kiteUserGVR, [], n) = Some user" "k_name user = n" "onlyRehashed E st pw user v v'"
  shows "sameLevels v v'"
proof -
  obtain rec h stored where rec: "account_recordFromObject user = Inr rec"
    and eff: "userUpdateEffect (rec\<lparr>ur_spec := (ur_spec rec)\<lparr>us_password := h\<rparr>\<rparr>) v v' stored"
    using assms(3) by (auto simp: onlyRehashed_def)
  then show ?thesis
    using account_recordFromObject_sel(1,4)[OF rec] userUpdateEffect_keys(3)[OF eff] assms(1,2)
    by (auto simp: userUpdateEffect_def sameLevels_def split: if_splits)
qed

context kube_api
begin

lemma levels_SignUp: "wp (SignUp E st su) (\<lambda>r s'. sameLevels (view s) (view s')) s"
  by (rule wp_SignUp) (auto simp: created_def sameLevels_def)

lemma levels_Authenticate: "wp (Authenticate E st em pw) (\<lambda>r s'. sameLevels (view s) (view s')) s"
proof (rule wp_mono[OF wp_Authenticate])
  fix r s' assume "loginOutcome E st em pw (view s) r (view s')"
  then have "view s' = view s \<or> (\<exists>n user. view s (kiteUserGVR, [], n) = Some user \<and> onlyRehashed E st pw user (view s) (view s'))"
    by (auto simp: loginOutcome_def credentialsOf_def split: sum.splits option.splits if_splits)
  then show "sameLevels (view s) (view s')"
    using onlyRehashed_levels view_key by (metis sameLevels_refl)
qed

lemma levels_Account_Delete: "wp (Account_Delete E n) (\<lambda>r s'. sameLevels (view s) (view s')) s"
proof -
  let ?P = "\<lambda>s1. leavesOtherKinds (- {kiteUserGVR}) (view s) (view s1)"
  have del: "wp (UserStore_Delete E n) (\<lambda>r s'. sameLevels (view s) (view s')) s1" if "?P s1" for s1
  proof -
    have "sameLevels (view s) v'" if d: "deleted kiteUserGVR [] n (view s1) v'" for v'
    proof -
      have "levelOf stored = levelOf cur" if "marked cur stored" for cur stored
        using that specOf_cong[of stored cur] by (simp add: marked_def)
      with d \<open>?P s1\<close> show ?thesis by (auto simp: deleted_def sameLevels_def leavesOtherKinds_def split: if_splits)
    qed
    with that show ?thesis
      unfolding UserStore_Delete_def by (intro wp_delete) (auto simp: sameLevels_users[OF that])
  qed
  have vms: "wp (if ns \<noteq> [] then deleteVirtualMachinesInNamespace E ns else ok ()) (\<lambda>r s'. ?P s') s1"
    if "view s1 = view s" for ns s1
  proof -
    have "guarantees view (leavesOtherKinds (- {kiteUserGVR})) (if ns \<noteq> [] then deleteVirtualMachinesInNamespace E ns else ok ())"
      unfolding ok_def by (intro users.g_if users.g_return frames_kinds[OF frames_deleteVMs]) simp
    then show ?thesis using that unfolding guarantees_wp by metis
  qed
  have rest: "wp (tryE (if ns \<noteq> [] then deleteVirtualMachinesInNamespace E ns else ok ()) (\<lambda>_. UserStore_Delete E n))
      (\<lambda>r s'. sameLevels (view s) (view s')) s1" if "view s1 = view s" for ns s1
    unfolding wp_tryE
    by (rule wp_mono[OF vms[OF that]]) (auto split: sum.split simp: sameLevels_users intro: del)
  show ?thesis
    unfolding Account_Delete_def UserStore_Get_def Let_def
    by (intro wp_try_keeps[OF get_keeps] wp_try_keeps[OF keeps_return] rest) simp_all
qed

end

section \<open>The identifier of a route\<close>

text \<open>
  A user can be addressed by the name of its object or by its user name.  The identifier is
  ambiguous when it is the object name of one user and the user name of another.
\<close>

definition resolvesTo :: "kview \<Rightarrow> string \<Rightarrow> string \<Rightarrow> bool" where
  "resolvesTo v i n \<longleftrightarrow> (\<exists>x. v (kiteUserGVR, [], n) = Some x \<and> (n = i \<or> usernameOf x = TrimSpace i))"

definition unambiguous :: "kview \<Rightarrow> string \<Rightarrow> bool" where
  "unambiguous v i \<longleftrightarrow> (\<forall>n n'. resolvesTo v i n \<longrightarrow> resolvesTo v i n' \<longrightarrow> n = n')"

definition mayChange :: "int \<Rightarrow> int \<Rightarrow> int \<Rightarrow> bool" where
  "mayChange caller old new \<longleftrightarrow> new \<in> {0..3} \<and> (3 \<le> caller \<or> 2 \<le> caller \<and> old \<le> 1 \<and> new \<le> 1)"

context kube_api
begin

lemma wp_resolve:
  assumes none: "\<And>s' rep. view s' = view s \<Longrightarrow> Q (Inl rep) s'"
    and found: "\<And>s' n. view s' = view s \<Longrightarrow> resolvesTo (view s) i n \<Longrightarrow> Q (Inr n) s'"
  shows "wp (resolveUserResourceName E i) Q s"
proof -
  have byName: "wp (goOn (calling (FindByUsername E i) (\<lambda>_. message 500 ''failed to read kite users'')) (\<lambda>found.
         State_Monad.return (case found of
           None \<Rightarrow> Inl (message 404 ''kite user was not found'')
         | Some userObject \<Rightarrow> Inr (k_name userObject)))) Q s1" if v: "view s1 = view s" for s1
    unfolding wp_goOn wp_calling
  proof (rule wp_FindByUsername, unfold sum.case wp_return option.case)
    fix s2 ns n x assume "view s2 = view s1" "view s1 (kiteUserGVR, ns, n) = Some x" "usernameOf x = TrimSpace i"
    then show "Q (Inr (k_name x)) s2"
      using view_key[of s1 kiteUserGVR ns n x] v by (intro found) (auto simp: resolvesTo_def validKey_def)
  qed (simp_all add: none v)
  show ?thesis
    unfolding resolveUserResourceName_def wp_bind
    by (rule wp_Account_Get) (auto simp: wp_return resolvesTo_def intro: byName found)
qed

lemma wp_canChange:
  assumes no: "\<And>s' rep. view s' = view s \<Longrightarrow> Q (Inl rep) s'"
    and yes: "\<And>s'. view s' = view s \<Longrightarrow> l \<in> {0..3} \<Longrightarrow>
       3 \<le> cl_AccessLevel c \<or> l \<le> 1 \<and> (\<exists>n x. resolvesTo (view s) i n \<and> view s (kiteUserGVR, [], n) = Some x \<and> levelOf x \<le> 1) \<Longrightarrow>
       Q (Inr ()) s'"
  shows "wp (canCurrentUserChangeAccessLevel E (Some c) i l) Q s"
proof -
  have target: "wp (calling (Account_Get E n) (\<lambda>e. writeAccountError e ''failed to read target user''))
      (\<lambda>r s'. case r of Inl rep \<Rightarrow> Q (Inl rep) s' | Inr target \<Rightarrow> wp (State_Monad.return
         (if pu_accessLevel target > AccessLevelUser
          then Inl (message 403 ''Level 2 managers can only change users currently at access level 0 or 1'') else Inr ())) Q s') s1"
    if "view s1 = view s" "resolvesTo (view s) i n" "l \<in> {0..3}" "l \<le> 1" for s1 n
    unfolding wp_calling
  proof (rule wp_Account_Get, unfold sum.case)
    fix s2 x u assume s2: "view s2 = view s1" and x: "view s1 (kiteUserGVR, [], n) = Some x" and u: "publicUserFromObject x = Inr u"
    have "Q (Inr ()) s2" if "levelOf x \<le> 1"
      by (rule yes) (use that s2 x \<open>view s1 = view s\<close> \<open>resolvesTo (view s) i n\<close> \<open>l \<in> {0..3}\<close> \<open>l \<le> 1\<close> in \<open>simp_all, blast\<close>)
    then show "wp (State_Monad.return
         (if pu_accessLevel u > AccessLevelUser
          then Inl (message 403 ''Level 2 managers can only change users currently at access level 0 or 1'') else Inr ())) Q s2"
      using no[of s2] s2 \<open>view s1 = view s\<close> publicUserFromObject_sel(1)[OF u] by (simp add: wp_return AccessLevelUser_def)
  qed (simp add: no that)
  have read: "wp (goOn (resolveUserResourceName E i) (\<lambda>userName.
      goOn (calling (Account_Get E userName) (\<lambda>e. writeAccountError e ''failed to read target user'')) (\<lambda>target.
      State_Monad.return (if pu_accessLevel target > AccessLevelUser
        then Inl (message 403 ''Level 2 managers can only change users currently at access level 0 or 1'')
        else Inr ())))) Q s" if "l \<in> {0..3}" "l \<le> 1"
    unfolding wp_goOn by (rule wp_resolve, unfold sum.case) (erule no, erule (1) target[OF _ _ that])
  show ?thesis
    unfolding canCurrentUserChangeAccessLevel_def option.case
    using read by (auto simp: wp_return access_level_defs intro!: no yes)
qed

end

section \<open>The two routes that change levels\<close>

text \<open>What a request may do to the levels.\<close>

definition levelsChanged :: "'s env \<Rightarrow> Dependencies \<Rightarrow> request \<Rightarrow> 's \<Rightarrow> kview \<Rightarrow> kview \<Rightarrow> bool" where
  "levelsChanged E deps rq s v v' \<longleftrightarrow> (\<forall>n x y. v (kiteUserGVR, [], n) = Some x \<longrightarrow> v' (kiteUserGVR, [], n) = Some y \<longrightarrow>
     levelOf y \<noteq> levelOf x \<longrightarrow> (\<exists>claims c. signedIn E deps rq s v claims c \<and> mayChange (levelOf c) (levelOf x) (levelOf y)))"

lemma sameLevels_changed: "sameLevels v v' \<Longrightarrow> levelsChanged E deps rq s v v'"
  by (auto simp: sameLevels_def levelsChanged_def)

text \<open>Only the addressed user can change, and its level becomes the requested one.\<close>

lemma update_levels:
  assumes ready: "userUpdateReady E st n req v cur old new" and eff: "userUpdateEffect new v v' stored"
  shows "\<forall>m x y. v (kiteUserGVR, [], m) = Some x \<longrightarrow> v' (kiteUserGVR, [], m) = Some y \<longrightarrow> levelOf y \<noteq> levelOf x \<longrightarrow>
     m = n \<and> au_accessLevel req = Some (levelOf y) \<and> levelOf y \<in> {0..3}"
proof -
  have cur: "v (kiteUserGVR, [], n) = Some cur" "ur_name new = n" and old: "account_recordFromObject cur = Inr old"
    and upd: "userSpecUpdated E st req (ur_spec old) (ur_spec new)"
    using ready by (auto simp: userUpdateReady_def)
  have "levelOf stored = us_accessLevel (ur_spec new)" by (rule userUpdateEffect_keys(3)[OF eff])
  moreover have "us_accessLevel (ur_spec old) = levelOf cur" by (rule account_recordFromObject_sel(4)[OF old])
  ultimately have "levelOf stored \<noteq> levelOf cur \<Longrightarrow> au_accessLevel req = Some (levelOf stored) \<and> levelOf stored \<in> {0..3}"
    using upd by (auto simp: userSpecUpdated_def split: option.splits)
  then show ?thesis
    using eff cur by (auto simp: userUpdateEffect_def split: if_splits)
qed

context kube_api
begin

lemma wp_Account_Update_levels:
  assumes v: "view s1 = view s"
    and may: "\<And>x y. view s (kiteUserGVR, [], n) = Some x \<Longrightarrow> au_accessLevel req = Some (levelOf y) \<Longrightarrow> levelOf y \<in> {0..3} \<Longrightarrow>
      \<exists>claims c. signedIn E deps rq s (view s) claims c \<and> mayChange (levelOf c) (levelOf x) (levelOf y)"
  shows "wp (Account_Update E st n req) (\<lambda>r s'. levelsChanged E deps rq s (view s) (view s')) s1"
proof (rule wp_Account_Update)
  fix s' cur old new stored
  assume "userUpdateReady E st n req (view s1) cur old new" "userUpdateEffect new (view s1) (view s') stored"
  note only = update_levels[OF this, unfolded v]
  have "\<exists>claims c. signedIn E deps rq s (view s) claims c \<and> mayChange (levelOf c) (levelOf x) (levelOf y)"
    if "view s (kiteUserGVR, [], m) = Some x" "view s' (kiteUserGVR, [], m) = Some y" "levelOf y \<noteq> levelOf x" for m x y
    using only[rule_format, OF that] that(1) by (intro may) auto
  then have "levelsChanged E deps rq s (view s) (view s')"
    unfolding levelsChanged_def by (intro allI impI)
  then show "levelsChanged E deps rq s (view s) (view s') \<and>
      (\<forall>e. indefinite e \<longrightarrow> levelsChanged E deps rq s (view s) (view s'))" by simp
qed (simp add: v sameLevels_changed)

lemma refused_levels:
  "(\<And>k. k \<noteq> globalTLSKey \<Longrightarrow> view s' k = view s k) \<Longrightarrow> levelsChanged E deps rq s (view s) (view s')"
  by (intro sameLevels_changed) (auto simp: sameLevels_def globalTLSKey_def)

lemma wp_userUpdate_levels:
  "wp (RequireAccessLevel E deps rq AccessLevelAdmin (\<lambda>_. userUpdateHandler E deps rq b))
     (\<lambda>_ s'. levelsChanged E deps rq s (view s) (view s')) s"
proof (rule wp_RequireAccessLevel)
  fix s1 claims c assume v: "view s1 = view s" and signed: "signedIn E deps rq s (view s) claims c" "AccessLevelAdmin \<le> levelOf c"
  have "mayChange (levelOf c) old new" if "new \<in> {0..3}" for old new
    using signed(2) that by (simp add: mayChange_def AccessLevelAdmin_def)
  with signed(1) have may: "\<exists>claims c. signedIn E deps rq s (view s) claims c \<and> mayChange (levelOf c) (levelOf x) (levelOf y)"
    if "levelOf y \<in> {0..3}" for x y using that by blast
  show "wp (userUpdateHandler E deps rq b) (\<lambda>_ s'. levelsChanged E deps rq s (view s) (view s')) s1"
    unfolding userUpdateHandler_def
    by (intro wp_bound wp_call wp_Account_Update_levels[OF v]) (auto simp: wp_return v sameLevels_changed intro: may)
qed (rule refused_levels)

lemma wp_adminUserLevel_levels:
  assumes one: "unambiguous (view s) (rq_name rq)"
  shows "wp (RequireAccessLevel E deps rq AccessLevelManager (\<lambda>ctx. adminUserAccessLevelHandler E deps rq ctx b))
     (\<lambda>_ s'. levelsChanged E deps rq s (view s) (view s')) s"
proof (rule wp_RequireAccessLevel)
  fix s1 claims c assume v: "view s1 = view s" and signed: "signedIn E deps rq s (view s) claims c" "AccessLevelManager \<le> levelOf c"
  let ?Q = "\<lambda>_ s'. levelsChanged E deps rq s (view s) (view s')"
  let ?setLevel = "\<lambda>l userName. andThen (calling (Account_Update E (salt deps) userName (levelUpdate l))
       (\<lambda>e. writeAccountError e ''failed to update user access level'')) (\<lambda>user. State_Monad.return (json 200 (UserBody user)))"
  have update: "wp (?setLevel l n) ?Q s3"
    if s3: "view s3 = view s" and n: "resolvesTo (view s) (rq_name rq) n" and l: "l \<in> {0..3}"
      and ok: "3 \<le> levelOf c \<or> l \<le> 1 \<and> (\<exists>n x. resolvesTo (view s) (rq_name rq) n \<and> view s (kiteUserGVR, [], n) = Some x \<and> levelOf x \<le> 1)"
    for s3 n l
  proof (intro wp_call wp_Account_Update_levels[OF s3])
    fix x y assume x: "view s (kiteUserGVR, [], n) = Some x" and y: "au_accessLevel (levelUpdate l) = Some (levelOf y)"
    have target: "n' = n" if "resolvesTo (view s) (rq_name rq) n'" for n'
      using one that n unfolding unambiguous_def by blast
    have "mayChange (levelOf c) (levelOf x) (levelOf y)"
      using ok x y l signed(2) target by (auto simp: mayChange_def levelUpdate_def AccessLevelManager_def)
    with signed(1) show "\<exists>claims c. signedIn E deps rq s (view s) claims c \<and> mayChange (levelOf c) (levelOf x) (levelOf y)" by blast
  qed (simp add: wp_return)
  have resolve: "wp (andThen (resolveUserResourceName E (rq_name rq)) (?setLevel l)) ?Q s2"
    if "view s2 = view s" "l \<in> {0..3}"
      "3 \<le> levelOf c \<or> l \<le> 1 \<and> (\<exists>n x. resolvesTo (view s) (rq_name rq) n \<and> view s (kiteUserGVR, [], n) = Some x \<and> levelOf x \<le> 1)" for s2 l
    unfolding wp_andThen[of "resolveUserResourceName E (rq_name rq)"]
    by (rule wp_resolve, unfold sum.case) (simp add: that sameLevels_changed, rule update, use that in auto)
  show "wp (adminUserAccessLevelHandler E deps rq (Some (claims\<lparr>cl_AccessLevel := levelOf c\<rparr>)) b) ?Q s1"
    unfolding adminUserAccessLevelHandler_def
  proof (rule wp_bound)
    fix l
    show "wp (andThen (canCurrentUserChangeAccessLevel E (Some (claims\<lparr>cl_AccessLevel := levelOf c\<rparr>)) (rq_name rq) l)
        (\<lambda>_. andThen (resolveUserResourceName E (rq_name rq)) (?setLevel l))) ?Q s1"
      unfolding wp_andThen[of "canCurrentUserChangeAccessLevel E (Some (claims\<lparr>cl_AccessLevel := levelOf c\<rparr>)) (rq_name rq) l"]
      by (rule wp_canChange, unfold sum.case) (simp add: v sameLevels_changed, rule resolve, use v in auto)
  qed (simp add: v sameLevels_changed)
qed (rule refused_levels)

lemma levels_users:
  "guarantees view (leavesOtherKinds (- {kiteUserGVR})) m \<Longrightarrow> wp m (\<lambda>_ s'. levelsChanged E deps rq s (view s) (view s')) s"
  unfolding guarantees_wp
  by (rule wp_mono[of m "\<lambda>r s'. leavesOtherKinds (- {kiteUserGVR}) (view s) (view s')"])
     (auto intro!: sameLevels_changed simp: sameLevels_users)

lemma levels_guarded:
  assumes "\<And>s1. wp m (\<lambda>_ s'. sameLevels (view s1) (view s')) s1"
  shows "wp (RequireAccessLevel E deps rq l (\<lambda>_. m)) (\<lambda>_ s'. levelsChanged E deps rq s (view s) (view s')) s"
proof (rule wp_RequireAccessLevel)
  fix s1 assume "view s1 = view s"
  with assms[of s1] show "wp m (\<lambda>_ s'. levelsChanged E deps rq s (view s) (view s')) s1"
    by (auto elim!: wp_mono intro: sameLevels_changed)
qed (rule refused_levels)

lemma levels_writers:
  "wp (userSignUpHandler E deps ub) (\<lambda>_ s'. sameLevels (view s) (view s')) s"
  "wp (userDeleteHandler E rq) (\<lambda>_ s'. sameLevels (view s) (view s')) s"
  "wp (adminUserDeleteHandler E rq) (\<lambda>_ s'. sameLevels (view s) (view s')) s"
proof -
  have del: "wp (andThen (calling (Account_Delete E n) f) (\<lambda>_. State_Monad.return g)) (\<lambda>_ s'. sameLevels (view s) (view s')) s1"
    if "view s1 = view s" for n f g s1
    using levels_Account_Delete[of n s1] by (intro wp_call) (simp_all add: that wp_return)
  show "wp (userSignUpHandler E deps ub) (\<lambda>_ s'. sameLevels (view s) (view s')) s"
    unfolding userSignUpHandler_def by (intro wp_bound wp_call levels_SignUp) (simp_all add: wp_return)
  show "wp (userDeleteHandler E rq) (\<lambda>_ s'. sameLevels (view s) (view s')) s"
    unfolding userDeleteHandler_def by (rule del) simp
  show "wp (adminUserDeleteHandler E rq) (\<lambda>_ s'. sameLevels (view s) (view s')) s"
    unfolding adminUserDeleteHandler_def by (intro wp_read_then keeps_resolve del) simp_all
qed

lemma levels_login: "wp (loginHandler E deps rq b) (\<lambda>_ s'. sameLevels (view s) (view s')) s"
proof -
  have rest: "wp m (\<lambda>_ s'. sameLevels (view s) (view s')) s1"
    if "sameLevels (view s) (view s1)" "guarantees view (leavesOtherKinds (- {kiteUserGVR})) m" for m :: "('s, reply) state" and s1
    using that unfolding guarantees_wp by (auto elim!: allE[of _ s1] wp_mono simp: sameLevels_users)
  show ?thesis
    unfolding loginHandler_def Let_def
    by (intro wp_ifI wp_bound wp_call levels_Authenticate rest users.handler_steps) (auto simp: wp_return)
qed

lemma wp_Register_levels:
  assumes "\<And>b. route = V1 (V1Admin (AdminUserLevel b)) \<Longrightarrow> unambiguous (view s) (rq_name rq)"
  shows "wp (Register E deps rq route) (\<lambda>_ s'. levelsChanged E deps rq s (view s) (view s')) s"
proof -
  have plain: "wp (userSignUpHandler E deps ub) (\<lambda>_ s'. levelsChanged E deps rq s (view s) (view s')) s"
    "wp (loginHandler E deps rq lb) (\<lambda>_ s'. levelsChanged E deps rq s (view s) (view s')) s" for ub lb
    by (rule wp_mono[OF levels_writers(1)] wp_mono[OF levels_login], erule sameLevels_changed)+
  note guarded = levels_guarded[OF levels_writers(1)] levels_guarded[OF levels_writers(2)] levels_guarded[OF levels_writers(3)]
  note reads = users.step_middleware users.step_user_readers users.step_admin_handlers users.step_vms users.step_offers
  have users: "wp (RegisterUsers E deps rq r) (\<lambda>_ s'. levelsChanged E deps rq s (view s) (view s')) s" for r
    unfolding RegisterUsers_def
    by (cases r; simp only: userRoute.case; rule plain guarded wp_userUpdate_levels levels_users; intro reads)
  have admin: "wp (RegisterAdmin E deps rq r) (\<lambda>_ s'. levelsChanged E deps rq s (view s) (view s')) s"
    if "\<And>b. r = AdminUserLevel b \<Longrightarrow> unambiguous (view s) (rq_name rq)" for r
    unfolding RegisterAdmin_def
    by (cases r; simp only: adminRoute.case; rule wp_adminUserLevel_levels[OF that] guarded levels_users; (assumption | intro reads))
  have v1: "wp (RegisterV1 E deps rq r) (\<lambda>_ s'. levelsChanged E deps rq s (view s) (view s')) s"
    if "\<And>b. r = V1Admin (AdminUserLevel b) \<Longrightarrow> unambiguous (view s) (rq_name rq)" for r
    unfolding RegisterV1_def
    by (cases r; simp only: v1Route.case; rule plain admin levels_users; ((rule that; simp; fail) | intro reads))
  show ?thesis
    unfolding Register_def
    by (cases route; simp only: apiRoute.case; rule plain users v1 levels_users; ((rule assms; simp; fail) | intro reads))
qed

end


definition userObject :: "string \<Rightarrow> string \<Rightarrow> int \<Rightarrow> kobj" where
  "userObject name username level = newKiteUserObject \<lparr>ur_name = name, ur_spec = \<lparr>us_username = username,
     us_email = username @ ''@example.com'', us_password = ''$2a$12$pw'', us_namespace = ''kite-user-'' @ name,
     us_profileImage = [], us_accessLevel = level\<rparr>\<rparr>"

definition levelRequest :: "string \<Rightarrow> request" where
  "levelRequest name = \<lparr>rq_cookie = None, rq_tls = False, rq_forwardedProto = [], rq_name = name, rq_namespace = []\<rparr>"

text \<open>The administration routes for the signed-in user \<open>alice\<close> of the reference server.\<close>

lemma demo_level:
  "run_state (Register mem_env demoDeployment (withToken rq) (V1 (V1Admin (AdminUserLevel b)))) (mem_init objs f) =
   run_state (andThen (refreshClaimsFromCurrentUser mem_env demoClaims) (\<lambda>claims.
      if cl_AccessLevel claims < 2 then State_Monad.return (message 403 ''manager access level is required'')
      else adminUserAccessLevelHandler mem_env demoDeployment rq (Some claims) b)) (mem_init objs f)"
  unfolding Register_def RegisterV1_def RegisterAdmin_def apiRoute.case v1Route.case adminRoute.case demo_middleware
    adminUserAccessLevelHandler_def withToken_sel AccessLevelManager_def ..

definition teamObjects :: "(kkey \<times> kobj) list" where
  "teamObjects = [((kiteUserGVR, [], ''ku-1''), userObject ''ku-1'' ''alice'' 2), ((kiteUserGVR, [], ''ku-2''), userObject ''ku-2'' ''bob'' 0)]"

lemma team_unambiguous: "unambiguous (mem_view (mem_init teamObjects [])) ''ku-2''"
proof -
  have "TrimSpace ''ku-2'' = ''ku-2''" by code_simp
  then show ?thesis
    by (auto simp: unambiguous_def resolvesTo_def mem_view_def mem_init_def teamObjects_def userObject_def
        newKiteUserObject_def newObject_def usernameOf_def specOf_def value_defs split: if_splits)
qed


text \<open>
  The hypothesis is needed.  \<open>resolveUserResourceName\<close> takes any error of the first lookup, not only
  \<open>NotFound\<close>, as a sign that the identifier is a user name.  One failed read while the manager's right
  is checked makes the check look at the user who chose another user's object name as user name; the
  second lookup then finds the administrator, whose level the manager may not touch.
\<close>

definition confusedObjects :: "(kkey \<times> kobj) list" where
  "confusedObjects =
     [((kiteUserGVR, [], ''ku-1''), userObject ''ku-1'' ''alice'' 2),
      ((kiteUserGVR, [], ''ku-9''), userObject ''ku-9'' ''root'' 3),
      ((kiteUserGVR, [], ''ku-3''), userObject ''ku-3'' ''ku-9'' 0)]"

text \<open>One refused read during the check lets a manager take an administrator's level away.\<close>

theorem ambiguous_identifier_demotes_admin:
  "\<exists>f rep s'. run_state (Register mem_env demoDeployment (withToken (levelRequest ''ku-9'')) (V1 (V1Admin (AdminUserLevel (Some 0)))))
       (mem_init confusedObjects f) = (rep, s') \<and> rp_status rep = 200 \<and>
     map_option levelOf (mem_view (mem_init confusedObjects f) (kiteUserGVR, [], ''ku-9'')) = Some 3 \<and>
     map_option levelOf (mem_view s' (kiteUserGVR, [], ''ku-9'')) = Some 0"
proof -
  let ?s = "mem_init confusedObjects [Served, Served, Refused]" let ?key = "(kiteUserGVR, [], ''ku-9'')"
  let ?run = "run_state (andThen (refreshClaimsFromCurrentUser mem_env demoClaims) (\<lambda>claims.
      if cl_AccessLevel claims < 2 then State_Monad.return (message 403 ''manager access level is required'')
      else adminUserAccessLevelHandler mem_env demoDeployment (levelRequest ''ku-9'') (Some claims) (Some 0))) ?s"
  obtain rep s' where run: "run_state (Register mem_env demoDeployment (withToken (levelRequest ''ku-9'')) (V1 (V1Admin (AdminUserLevel (Some 0))))) ?s = (rep, s')"
    by fastforce
  have "map_option levelOf (mem_view (snd ?run) ?key) = Some 0" "map_option levelOf (mem_view ?s ?key) = Some 3"
    "rp_status (fst ?run) = 200" by code_simp+
  with run show ?thesis unfolding demo_level by (intro exI[of _ "[Served, Served, Refused]"]) auto
qed

end
