(* ===== verification/Api_Server.thy ===== *)
theory Api_Server
  imports Api_Access
begin

text \<open>
  The API process: \<open>cmd/kite-api/main.go\<close> with its middleware, and the health report of \<open>internal/health/check.go\<close>.
\<close>

section \<open>Health\<close>

record Check =
  ck_name :: string
  ck_status :: string
  ck_message :: string

record Report =
  rp_Status :: string
  rp_Checks :: "Check list"

definition withCheck :: "Report \<Rightarrow> Check \<Rightarrow> Report" where
  "withCheck report check =
     (if ck_status check \<noteq> ''ok'' then report\<lparr>rp_Status := ''degraded'', rp_Checks := rp_Checks report @ [check]\<rparr>
      else report\<lparr>rp_Checks := rp_Checks report @ [check]\<rparr>)"

definition withFailedCheck :: "Report \<Rightarrow> Check \<Rightarrow> Report" where
  "withFailedCheck report check = report\<lparr>rp_Status := ''degraded'', rp_Checks := rp_Checks report @ [check]\<rparr>"

definition listCheck :: "'s env \<Rightarrow> string \<Rightarrow> gvr \<Rightarrow> string \<Rightarrow> ('s, Check) state" where
  "listCheck E name g successMessage = do {
     r \<leftarrow> env_list E g [];
     State_Monad.return
       (case r of
          Inl e \<Rightarrow> \<lparr>ck_name = name, ck_status = ''failed'', ck_message = errText e\<rparr>
        | Inr _ \<Rightarrow> \<lparr>ck_name = name, ck_status = ''ok'', ck_message = successMessage\<rparr>)
   }"

text \<open>\<open>None\<close> stands for a missing client.\<close>

definition health_Run :: "'s env option \<Rightarrow> ('s, Report) state" where
  "health_Run client =
     (let report = \<lparr>rp_Status = ''ok'', rp_Checks = [\<lparr>ck_name = ''api'', ck_status = ''ok'', ck_message = ''kite-api process is running''\<rparr>]\<rparr> in
      case client of
        None \<Rightarrow> State_Monad.return (withFailedCheck report
          \<lparr>ck_name = ''kubernetes.dynamicClient'', ck_status = ''failed'', ck_message = ''dynamic Kubernetes client is not configured''\<rparr>)
      | Some E \<Rightarrow> do {
          users \<leftarrow> listCheck E ''kiteusers.crd.etcdReadPath'' kiteUserGVR ''KiteUser CRD list succeeded'';
          vms \<leftarrow> listCheck E ''kitevirtualmachines.crd.etcdReadPath'' kiteVirtualMachineGVR ''KiteVirtualMachine CRD list succeeded'';
          State_Monad.return (withCheck (withCheck report users) vms)
        })"

section \<open>Origins\<close>

text \<open>
  The host that \<open>url.Parse\<close> finds in an origin, if the origin parses, and \<open>strings.EqualFold\<close> with its Unicode tables.
\<close>

record netlib =
  nl_parseHost :: "string \<Rightarrow> string option"
  nl_equalFold :: "string \<Rightarrow> string \<Rightarrow> bool"

definition methodCanMutateState :: "string \<Rightarrow> bool" where
  "methodCanMutateState httpMethod \<longleftrightarrow> httpMethod \<notin> {''GET'', ''HEAD'', ''OPTIONS''}"

definition originMatchesRequestHost :: "netlib \<Rightarrow> string \<Rightarrow> string \<Rightarrow> bool" where
  "originMatchesRequestHost N origin host =
     (case nl_parseHost N origin of None \<Rightarrow> False | Some h \<Rightarrow> nl_equalFold N h (TrimSpace host))"

definition isAllowedOrigin :: "string \<Rightarrow> bool" where
  "isAllowedOrigin origin \<longleftrightarrow>
     origin \<noteq> [] \<and>
     (origin = ''http://localhost:5173'' \<or> origin = ''http://127.0.0.1:5173'' \<or>
      HasPrefix origin ''http://localhost:'' \<or> HasPrefix origin ''http://127.0.0.1:'')"

section \<open>The server\<close>

record httpRequest =
  hr_method :: string
  hr_origin :: string
  hr_host :: string
  hr_request :: request

datatype serverRoute = HealthRoute | ApiRoute apiRoute

datatype serverAnswer = Replied reply | HealthReply nat Report | Aborted nat | RouteNotFound

record serverResponse =
  sp_allowOrigin :: "string option"
  sp_answer :: serverAnswer

text \<open>The HTTP method each route is registered for.\<close>

fun userMethod :: "userRoute \<Rightarrow> string" where
  "userMethod GetUsers = ''GET''"
| "userMethod GetUser = ''GET''"
| "userMethod (PostUsers _) = ''POST''"
| "userMethod (PatchUser _) = ''PATCH''"
| "userMethod DeleteUser = ''DELETE''"
| "userMethod GetMe = ''GET''"
| "userMethod (PostSignup _) = ''POST''"
| "userMethod (PostUser _) = ''POST''"

fun vmMethod :: "vmRoute \<Rightarrow> string" where
  "vmMethod GetVMs = ''GET''"
| "vmMethod (PostVM _) = ''POST''"
| "vmMethod GetVM = ''GET''"
| "vmMethod (PatchVM _) = ''PATCH''"
| "vmMethod DeleteVM = ''DELETE''"
| "vmMethod StartVM = ''POST''"
| "vmMethod StopVM = ''POST''"
| "vmMethod PostConsoleTicket = ''POST''"

fun offerMethod :: "offerRoute \<Rightarrow> string" where
  "offerMethod GetOffers = ''GET''"
| "offerMethod (ClaimOffer _) = ''POST''"
| "offerMethod (PostOffer _) = ''POST''"
| "offerMethod DeleteOffer = ''DELETE''"

fun adminMethod :: "adminRoute \<Rightarrow> string" where
  "adminMethod AdminUsers = ''GET''"
| "adminMethod (AdminUserLevel _) = ''PATCH''"
| "adminMethod AdminDeleteUser = ''DELETE''"
| "adminMethod AdminVMs = ''GET''"
| "adminMethod (AdminVMPower _) = ''PATCH''"
| "adminMethod AdminDeleteVM = ''DELETE''"
| "adminMethod AdminSettings = ''GET''"
| "adminMethod (AdminDomain _) = ''POST''"
| "adminMethod (AdminContact _) = ''POST''"
| "adminMethod (AdminHTTPS _) = ''POST''"
| "adminMethod (AdminSSHGateway _) = ''POST''"
| "adminMethod (AdminRotate _) = ''POST''"
| "adminMethod (AdminCert _) = ''POST''"

fun v1Method :: "v1Route \<Rightarrow> string" where
  "v1Method GetConfig = ''GET''"
| "v1Method V1Me = ''GET''"
| "v1Method (V1Login _) = ''POST''"
| "v1Method V1Logout = ''POST''"
| "v1Method (V1Signup _) = ''POST''"
| "v1Method (V1VM r) = vmMethod r"
| "v1Method (V1Offer r) = offerMethod r"
| "v1Method (V1Admin r) = adminMethod r"

fun apiMethod :: "apiRoute \<Rightarrow> string" where
  "apiMethod (PostLogin _) = ''POST''"
| "apiMethod PostLogout = ''POST''"
| "apiMethod (Users r) = userMethod r"
| "apiMethod (V1 r) = v1Method r"

definition corsMiddleware :: "httpRequest \<Rightarrow> ('s, serverAnswer) state \<Rightarrow> ('s, serverResponse) state" where
  "corsMiddleware hr handler =
     (let allow = (if isAllowedOrigin (hr_origin hr) then Some (hr_origin hr) else None) in
      if hr_method hr = ''OPTIONS'' then State_Monad.return \<lparr>sp_allowOrigin = allow, sp_answer = Aborted 204\<rparr>
      else do { answer \<leftarrow> handler; State_Monad.return \<lparr>sp_allowOrigin = allow, sp_answer = answer\<rparr> })"

definition csrfOriginMiddleware :: "netlib \<Rightarrow> httpRequest \<Rightarrow> ('s, serverAnswer) state \<Rightarrow> ('s, serverAnswer) state" where
  "csrfOriginMiddleware N hr handler =
     (if \<not> methodCanMutateState (hr_method hr) then handler
      else if hr_origin hr = [] \<or> isAllowedOrigin (hr_origin hr) \<or> originMatchesRequestHost N (hr_origin hr) (hr_host hr) then handler
      else State_Monad.return (Replied (message 403 ''cross-origin state-changing request is not allowed'')))"

definition healthHandler :: "'s env \<Rightarrow> ('s, serverAnswer) state" where
  "healthHandler E = do {
     report \<leftarrow> health_Run (Some E);
     State_Monad.return (HealthReply (if rp_Status report \<noteq> ''ok'' then 503 else 200) report)
   }"

text \<open>The router serves a route only for the method it is registered for.\<close>

definition newRouter :: "'s env \<Rightarrow> netlib \<Rightarrow> Dependencies \<Rightarrow> httpRequest \<Rightarrow> serverRoute \<Rightarrow> ('s, serverResponse) state" where
  "newRouter E N deps hr route =
     corsMiddleware hr (csrfOriginMiddleware N hr
       (case route of
          HealthRoute \<Rightarrow> if hr_method hr = ''GET'' then healthHandler E else State_Monad.return RouteNotFound
        | ApiRoute r \<Rightarrow>
            if hr_method hr = apiMethod r
            then do { rep \<leftarrow> Register E deps (hr_request hr) r; State_Monad.return (Replied rep) }
            else State_Monad.return RouteNotFound))"

text \<open>The start of the process, up to the router.\<close>

definition apiMain :: "'s env \<Rightarrow> ('s, Dependencies result) state" where
  "apiMain E =
     tryE (Bootstrap E) (\<lambda>cfg.
     case NewTokenService (cfg_JWTSecret cfg) (cfg_AccessTokenTTL cfg) of
       Inl e \<Rightarrow> fail e
     | Inr tokenService \<Rightarrow> ok \<lparr>dp_Config = cfg, dp_TokenService = tokenService\<rparr>)"

text \<open>The origin check of the console's WebSocket upgrade, in \<open>console_proxy.go\<close>.\<close>

definition consoleOriginAllowed :: "netlib \<Rightarrow> string \<Rightarrow> string \<Rightarrow> bool" where
  "consoleOriginAllowed N origin0 host =
     (let origin = TrimSpace origin0 in
      if origin = [] then True
      else case nl_parseHost N origin of
        None \<Rightarrow> False
      | Some h \<Rightarrow>
          h = host \<or> origin = ''http://localhost:5173'' \<or> origin = ''http://127.0.0.1:5173'' \<or>
          HasPrefix origin ''http://localhost:'' \<or> HasPrefix origin ''http://127.0.0.1:'')"

section \<open>Reading routes\<close>

lemma frames_originMiddleware:
  "frames v K h \<Longrightarrow> frames v K (corsMiddleware hr h)"
  "frames v K g \<Longrightarrow> frames v K (csrfOriginMiddleware N hr g)"
  unfolding corsMiddleware_def csrfOriginMiddleware_def Let_def by (intro frames_intros; simp)+

context kube_api
begin

lemma frames_middleware:
  assumes "\<And>ctx. frames view {globalTLSKey} (h ctx)"
  shows "frames view {globalTLSKey} (RequireAccessLevel E deps rq l h)"
  unfolding frames_wp
proof (intro allI wp_RequireAccessLevel)
  fix s s1 :: 's and claims :: Claims and x
  assume same: "view s1 = view s"
  have "wp (h (Some (claims\<lparr>cl_AccessLevel := levelOf x\<rparr>))) (\<lambda>r s'. \<forall>k. k \<notin> {globalTLSKey} \<longrightarrow> view s' k = view s1 k) s1"
    using assms[of "Some (claims\<lparr>cl_AccessLevel := levelOf x\<rparr>)"] unfolding frames_wp by (rule spec)
  then show "wp (h (Some (claims\<lparr>cl_AccessLevel := levelOf x\<rparr>))) (\<lambda>r s'. \<forall>k. k \<notin> {globalTLSKey} \<longrightarrow> view s' k = view s k) s1"
    unfolding same .
qed auto

lemma frames_steps:
  "frames view K m \<Longrightarrow> (\<And>x. frames view K (k x)) \<Longrightarrow> frames view K (andThen m k)"
  "frames view K n \<Longrightarrow> (\<And>x. frames view K (l x)) \<Longrightarrow> frames view K (goOn n l)"
  "frames view K p \<Longrightarrow> frames view K (calling p f)"
  unfolding andThen_def goOn_def calling_def by (intro frames_intros; simp)+

lemma frames_currentUser: "frames view K (subjectUser E claims missing f)" "frames view K (currentUser E ctx)"
  unfolding currentUser_def subjectUser_def by (intro frames_intros frames_steps keeps_frames[OF keeps_readers(1)] keeps_frames[OF keeps_readers(2)])+

lemma frames_readRoutes:
  "frames view {globalTLSKey} (userListHandler E)" "frames view {globalTLSKey} (userGetHandler E rq ctx)" "frames view {globalTLSKey} (currentUserHandler E ctx)"
  "frames view {globalTLSKey} (vmListHandler E ctx)" "frames view {globalTLSKey} (vmGetHandler E rq ctx)" "frames view {globalTLSKey} (adminVMListHandler E)"
  "frames view {globalTLSKey} (configGetHandler E)" "frames view {globalTLSKey} (adminSettingsGetHandler E)" "frames view {globalTLSKey} (vmOfferListHandler E ctx)"
  unfolding userListHandler_def userGetHandler_def currentUserHandler_def vmListHandler_def vmGetHandler_def adminVMListHandler_def
    configGetHandler_def adminSettingsGetHandler_def vmOfferListHandler_def
  by (intro frames_intros frames_steps frames_currentUser keeps_frames[OF keeps_readers(1)] keeps_frames[OF keeps_readers(2)] keeps_frames[OF keeps_readers(3)]
      keeps_frames[OF keeps_readers(4)] keeps_frames[OF keeps_readers(5)] keeps_frames[OF keeps_readers(6)] keeps_frames[OF keeps_readers(7)]
      frames_Platform_Get frames_GetPublic_tls)+

lemma frames_GET:
  assumes "apiMethod route = ''GET''"
  shows "frames view {globalTLSKey} (Register E deps rq route)"
proof -
  have users: "frames view {globalTLSKey} (RegisterUsers E deps rq r)" if "userMethod r = ''GET''" for r
    using that unfolding RegisterUsers_def by (cases r) (auto intro!: frames_middleware frames_readRoutes)
  have vms: "frames view {globalTLSKey} (RegisterVirtualMachines E deps rq r)" if "vmMethod r = ''GET''" for r
    using that unfolding RegisterVirtualMachines_def by (cases r) (auto intro!: frames_middleware frames_readRoutes)
  have offers: "frames view {globalTLSKey} (RegisterVirtualMachineOffers E deps rq r)" if "offerMethod r = ''GET''" for r
    using that unfolding RegisterVirtualMachineOffers_def by (cases r) (auto intro!: frames_middleware frames_readRoutes)
  have admin: "frames view {globalTLSKey} (RegisterAdmin E deps rq r)" if "adminMethod r = ''GET''" for r
    using that unfolding RegisterAdmin_def by (cases r) (auto intro!: frames_middleware frames_readRoutes)
  have v1: "frames view {globalTLSKey} (RegisterV1 E deps rq r)" if "v1Method r = ''GET''" for r
    using that unfolding RegisterV1_def by (cases r) (auto intro!: frames_middleware frames_readRoutes vms offers admin)
  show ?thesis using assms unfolding Register_def by (cases route) (auto intro!: users v1)
qed

lemma health_ok:
  "run_state (health_Run (Some E)) s = (report, s') \<Longrightarrow> rp_Status report = ''ok'' \<longleftrightarrow> (\<forall>c \<in> set (rp_Checks report). ck_status c = ''ok'')"
  by (auto simp: health_Run_def listCheck_def withCheck_def Let_def split: prod.splits sum.splits if_splits)

lemma keeps_health: "keeps view (healthHandler E)"
  unfolding healthHandler_def health_Run_def listCheck_def Let_def option.case by (intro keeps_intros list_keeps)

end

section \<open>Properties\<close>

text \<open>
  C7: a browser page from another origin cannot change the platform.  A request whose origin is neither empty, nor a local development
  origin, nor the host the request was sent to, changes nothing in the cluster but possibly migrates the certificate; with a method other than
  \<open>GET\<close>, \<open>HEAD\<close> and \<open>OPTIONS\<close> it is answered 403 and does not touch the cluster at all.
\<close>

theorem cross_origin_harmless:
  assumes api: "kube_api E view"
    and origin: "hr_origin hr \<noteq> []" "\<not> isAllowedOrigin (hr_origin hr)" "\<not> originMatchesRequestHost N (hr_origin hr) (hr_host hr)"
    and run: "run_state (newRouter E N deps hr route) s = (resp, s')"
  shows "(\<forall>k. k \<noteq> globalTLSKey \<longrightarrow> view s' k = view s k) \<and> sp_allowOrigin resp = None \<and>
    (methodCanMutateState (hr_method hr) \<longrightarrow> s' = s \<and> sp_answer resp = Replied (message 403 ''cross-origin state-changing request is not allowed''))"
proof -
  let ?handler = "case route of
      HealthRoute \<Rightarrow> if hr_method hr = ''GET'' then healthHandler E else State_Monad.return RouteNotFound
    | ApiRoute r \<Rightarrow>
        if hr_method hr = apiMethod r then do { rep \<leftarrow> Register E deps (hr_request hr) r; State_Monad.return (Replied rep) }
        else State_Monad.return RouteNotFound"
  show ?thesis
  proof (cases "methodCanMutateState (hr_method hr)")
    case True
    then show ?thesis
      using run origin by (auto simp: newRouter_def corsMiddleware_def csrfOriginMiddleware_def Let_def methodCanMutateState_def)
  next
    case False
    have mutating: "apiMethod r = ''GET''" if "\<not> methodCanMutateState (apiMethod r)" for r
    proof -
      let ?M = "{''GET'', ''POST'', ''PATCH'', ''DELETE''}"
      have u: "userMethod u \<in> ?M" for u by (cases u) simp_all
      have v: "vmMethod v \<in> ?M" for v by (cases v) simp_all
      have offer: "offerMethod q \<in> ?M" for q by (cases q) simp_all
      have a: "adminMethod a \<in> ?M" for a by (cases a) simp_all
      have "v1Method w \<in> ?M" for w using v offer a by (cases w) (simp_all only: v1Method.simps, simp_all)
      with u have "apiMethod r \<in> ?M" by (cases r) (simp_all only: apiMethod.simps, simp_all)
      then show ?thesis using that by (auto simp: methodCanMutateState_def)
    qed
    have "frames view {globalTLSKey} ?handler"
    proof (cases route)
      case HealthRoute
      then show ?thesis using kube_api.keeps_health[OF api] by (auto intro: keeps_frames)
    next
      case (ApiRoute r)
      then show ?thesis using False mutating kube_api.frames_GET[OF api, of r] by (auto intro: frames_bind)
    qed
    then have "frames view {globalTLSKey} (newRouter E N deps hr route)"
      unfolding newRouter_def by (intro frames_originMiddleware)
    moreover have "sp_allowOrigin resp = None"
      using run origin False by (auto simp: newRouter_def corsMiddleware_def Let_def split: if_splits prod.splits)
    ultimately show ?thesis using framesD[OF _ run] False by fastforce
  qed
qed

definition foreignLogout :: httpRequest where
  "foreignLogout = \<lparr>hr_method = ''POST'', hr_origin = ''https://evil.example'', hr_host = ''kite.example'', hr_request = plainRequest\<rparr>"

definition demoNet :: netlib where
  "demoNet = \<lparr>nl_parseHost = (\<lambda>origin. if HasPrefix origin ''https://'' then Some (drop 8 origin) else None), nl_equalFold = EqualFold\<rparr>"

theorem cross_origin_harmless_witness:
  "snd (run_state (newRouter mem_env demoNet demoDeployment foreignLogout (ApiRoute PostLogout)) demoTenant) = demoTenant"
proof -
  obtain resp s' where run: "run_state (newRouter mem_env demoNet demoDeployment foreignLogout (ApiRoute PostLogout)) demoTenant = (resp, s')" by fastforce
  have o: "hr_origin foreignLogout \<noteq> []" "\<not> isAllowedOrigin (hr_origin foreignLogout)"
    "\<not> originMatchesRequestHost demoNet (hr_origin foreignLogout) (hr_host foreignLogout)" "methodCanMutateState (hr_method foreignLogout)" by code_simp+
  from cross_origin_harmless[OF mem_kube_api, OF o(1-3) run] o(4) run show ?thesis by simp
qed

end
