(* ===== verification/Gateway_Exposure.thy ===== *)
theory Gateway_Exposure
  imports Platform Controller_Base
begin

text \<open>
  The exposure of the SSH gateway: \<open>cmd/kite-controller/apps/gateway-exposure-reconcile.go\<close>.  The
  reconciler keeps the internal Service of the gateway a \<open>ClusterIP\<close>, creates or removes the external
  LoadBalancer Service as the runtime ConfigMap asks, and writes the outcome into the status ConfigMap.
\<close>

section \<open>JSON Patch\<close>

text \<open>
  The one call of the dynamic client that only this reconciler makes.  A path is the list of its
  segments; the operations are those the reconciler sends.
\<close>

datatype patchOp = PatchReplace "string list" gov | PatchRemove "string list"

fun patchPath :: "patchOp \<Rightarrow> string list" where
  "patchPath (PatchReplace path _) = path"
| "patchPath (PatchRemove path) = path"

text \<open>The last operation that concerns a path replaces it by a text.\<close>

definition settles :: "patchOp list \<Rightarrow> string list \<Rightarrow> string \<Rightarrow> bool" where
  "settles ops path x \<longleftrightarrow>
     (\<exists>before after. ops = before @ PatchReplace path (GStr x) # after \<and>
        (\<forall>op \<in> set after. \<not> prefix (patchPath op) path \<and> \<not> prefix path (patchPath op)))"

definition patched :: "gvr \<Rightarrow> string \<Rightarrow> string \<Rightarrow> patchOp list \<Rightarrow> kview \<Rightarrow> kview \<Rightarrow> kobj \<Rightarrow> bool" where
  "patched g ns n ops v v' stored \<longleftrightarrow>
     v (g, ns, n) \<noteq> None \<and> v' = v((g, ns, n) \<mapsto> stored) \<and> k_name stored = n \<and> k_namespace stored = ns \<and>
     (\<forall>f x. settles ops [''spec'', f] x \<longrightarrow> NestedString (k_body stored) [''spec'', f] = Inr (Some x))"

text \<open>What a Service holds after a server-side apply: every applied field, and every applied element of a list.\<close>

inductive holds :: "gov \<Rightarrow> gov \<Rightarrow> bool" where
  same: "holds v v"
| mapI: "(\<And>k v. map_of m k = Some v \<Longrightarrow> \<exists>v'. map_of m' k = Some v' \<and> holds v v') \<Longrightarrow> holds (GMap m) (GMap m')"
| listI: "(\<And>v. v \<in> set vs \<Longrightarrow> \<exists>v' \<in> set vs'. holds v v') \<Longrightarrow> holds (GList vs) (GList vs')"

inductive_cases holds_str: "holds (GStr x) v"
inductive_cases holds_int: "holds (GInt i) v"
inductive_cases holds_map: "holds (GMap m) v"
inductive_cases holds_list: "holds (GList vs) v"

lemma holds_field: "holds (GMap m) v \<Longrightarrow> map_of m k = Some x \<Longrightarrow> \<exists>m' x'. v = GMap m' \<and> map_of m' k = Some x' \<and> holds x x'"
  by (erule holds_map) (auto intro: holds.same)

lemma holds_element: "holds (GList vs) v \<Longrightarrow> x \<in> set vs \<Longrightarrow> \<exists>vs' x'. v = GList vs' \<and> x' \<in> set vs' \<and> holds x x'"
  by (erule holds_list) (auto intro: holds.same)

locale patch_api = kube_api E view for E :: "'s env" and view +
  fixes jsonPatch :: "gvr \<Rightarrow> string \<Rightarrow> string \<Rightarrow> patchOp list \<Rightarrow> ('s, kobj result) state"
  assumes patch_law: "run_state (jsonPatch g ns n ops) s = (r, s') \<Longrightarrow>
     writeOutcome r (view s) (view s') (patched g ns n ops (view s) (view s'))"
    and apply_holds: "run_state (env_apply E serviceGVR ns obj) s = (Inr stored, s') \<Longrightarrow> holds (GMap (k_body obj)) (GMap (k_body stored))"

section \<open>Constants and texts\<close>

definition kiteGatewayInternalServiceName :: string where "kiteGatewayInternalServiceName = ''kite-gateway''"
definition kiteGatewayExternalServiceName :: string where "kiteGatewayExternalServiceName = ''kite-gateway-external''"
definition SSHGatewayReasonMissingExternalPort :: string where "SSHGatewayReasonMissingExternalPort = ''MissingExternalPort''"
definition SSHGatewayReasonServicePending :: string where "SSHGatewayReasonServicePending = ''ServicePending''"
definition SSHGatewayReasonServiceApplied :: string where "SSHGatewayReasonServiceApplied = ''ServiceApplied''"
definition SSHGatewayReasonApplyFailed :: string where "SSHGatewayReasonApplyFailed = ''ApplyFailed''"

definition gatewayExposureDisabledText :: string where
  "gatewayExposureDisabledText =
     runes [236, 153, 184, 235, 182, 128] @ '' VM SSH gateway'' @ runes [234, 176, 128] @ '' '' @ runes
     [235, 185, 132, 237, 153, 156, 236, 132, 177, 237, 153, 148, 235, 144, 152, 236, 150, 180] @ '' '' @
     runes [236, 158, 136, 236, 138, 181, 235, 139, 136, 235, 139, 164] @ ''. VM SSH '' @ runes [236,
     160, 145, 236, 134, 141, 236, 157, 132] @ '' '' @ runes [236, 151, 180, 235, 160, 164, 235, 169,
     180] @ '' Admin Settings'' @ runes [236, 151, 144, 236, 132, 156] @ '' Service '' @ runes [237, 143,
     172, 237, 138, 184, 236, 153, 128] @ '' '' @ runes [236, 130, 172, 236, 154, 169, 236, 158, 144] @
     '' '' @ runes [236, 149, 136, 235, 130, 180] @ '' '' @ runes [237, 143, 172, 237, 138, 184, 235,
     165, 188] @ '' '' @ runes [236, 132, 164, 236, 160, 149, 237, 149, 152, 236, 132, 184, 236, 154,
     148] @ ''.''"

definition gatewayExposureBlockedText :: string where
  "gatewayExposureBlockedText =
     runes [236, 153, 184, 235, 182, 128] @ '' VM SSH gateway'' @ runes [234, 176, 128] @ '' '' @ runes
     [236, 188, 156, 236, 160, 184] @ '' '' @ runes [236, 158, 136, 236, 167, 128, 235, 167, 140] @
     '' Gateway Service '' @ runes [237, 143, 172, 237, 138, 184, 234, 176, 128] @ '' '' @ runes [235,
     185, 132, 236, 150, 180] @ '' '' @ runes [236, 158, 136, 236, 138, 181, 235, 139, 136, 235, 139,
     164] @ ''. Admin Settings'' @ runes [236, 151, 144, 236, 132, 156] @
     '' Kubernetes LoadBalancer Service'' @ runes [234, 176, 128] @ '' '' @ runes [236, 151, 180] @ '' ''
     @ runes [237, 143, 172, 237, 138, 184, 235, 165, 188] @ '' '' @ runes [236, 158, 133, 235, 160, 165,
     237, 149, 152, 236, 132, 184, 236, 154, 148] @ ''.''"

definition gatewayExposurePendingText :: string where
  "gatewayExposurePendingText =
     ''Gateway Service'' @ runes [235, 138, 148] @ '' '' @ runes [236, 160, 129, 236, 154, 169, 235, 144,
     144, 236, 167, 128, 235, 167, 140] @ '' LoadBalancer '' @ runes [236, 163, 188, 236, 134, 140, 234,
     176, 128] @ '' '' @ runes [236, 149, 132, 236, 167, 129] @ '' '' @ runes [236, 164, 128, 235, 185,
     132, 235, 144, 152, 236, 167, 128] @ '' '' @ runes [236, 149, 138, 236, 149, 152, 236, 138, 181,
     235, 139, 136, 235, 139, 164] @ ''. '' @ runes [236, 152, 164, 235, 158, 152] @ '' '' @ runes [236,
     167, 128, 236, 134, 141, 235, 144, 152, 235, 169, 180] @ '' Service '' @ runes [237, 143, 172, 237,
     138, 184] @ '' '' @ runes [236, 130, 172, 236, 154, 169] @ '' '' @ runes [234, 176, 128, 235, 138,
     165] @ '' '' @ runes [236, 151, 172, 235, 182, 128, 236, 153, 128] @ '' '' @ runes [237, 129, 180,
     235, 159, 172, 236, 138, 164, 237, 132, 176] @ '' LoadBalancer '' @ runes [236, 131, 129, 237, 131,
     156, 235, 165, 188] @ '' '' @ runes [237, 153, 149, 236, 157, 184, 237, 149, 152, 236, 132, 184,
     236, 154, 148] @ ''.''"

definition gatewayExposureReadyText :: string where
  "gatewayExposureReadyText =
     runes [236, 153, 184, 235, 182, 128] @ '' VM SSH gateway'' @ runes [234, 176, 128] @ '' '' @ runes
     [236, 164, 128, 235, 185, 132, 235, 144, 152, 236, 151, 136, 236, 138, 181, 235, 139, 136, 235, 139,
     164] @ ''. '' @ runes [236, 130, 172, 236, 154, 169, 236, 158, 144, 235, 138, 148] @ '' Dashboard''
     @ runes [236, 151, 144] @ '' '' @ runes [237, 145, 156, 236, 139, 156, 235, 144, 156] @ '' SSH '' @
     runes [235, 170, 133, 235, 160, 185, 236, 156, 188, 235, 161, 156] @ '' VM'' @ runes [236, 151, 144]
     @ '' '' @ runes [236, 160, 145, 236, 134, 141, 237, 149, 160] @ '' '' @ runes [236, 136, 152] @
     '' '' @ runes [236, 158, 136, 236, 138, 181, 235, 139, 136, 235, 139, 164] @ ''.''"

section \<open>The steps\<close>

definition gatewayStatus :: "string \<Rightarrow> string \<Rightarrow> string \<Rightarrow> SSHGatewayStatus" where
  "gatewayStatus phase reason text =
     \<lparr>gs_Phase = phase, gs_Reason = reason, gs_Message = text, gs_ObservedExternalPort = [], gs_ObservedServiceName = [],
      gs_LastTransitionTime = []\<rparr>"

definition gatewayBlockedStatus :: "SSHGatewayDesired \<Rightarrow> SSHGatewayStatus option" where
  "gatewayBlockedStatus desired =
     (if gd_ExternalEnabled desired \<and> gd_ExternalPort desired = []
      then Some (gatewayStatus SSHGatewayPhaseBlocked SSHGatewayReasonMissingExternalPort gatewayExposureBlockedText)
      else None)"

definition withTransitionTime :: "'s env \<Rightarrow> SSHGatewayStatus \<Rightarrow> ('s, SSHGatewayStatus) state" where
  "withTransitionTime E status = do {
     now \<leftarrow> env_now E;
     State_Monad.return (status\<lparr>gs_LastTransitionTime := formatRFC3339 now\<rparr>)
   }"

definition writeStatusNow :: "'s env \<Rightarrow> SSHGatewayStatus \<Rightarrow> ('s, unit result) state" where
  "writeStatusNow E status = do { stamped \<leftarrow> withTransitionTime E status; WriteSSHGatewayStatus E stamped }"

definition writeGatewayFailedStatus :: "'s env \<Rightarrow> goerr \<Rightarrow> ('s, unit result) state" where
  "writeGatewayFailedStatus E err = do {
     r \<leftarrow> writeStatusNow E (gatewayStatus SSHGatewayPhaseFailed SSHGatewayReasonApplyFailed (errText err));
     case r of
       Inl statusErr \<Rightarrow> fail (Wrapped [] err (''; additionally failed to write gateway status: '' @ errText statusErr))
     | Inr _ \<Rightarrow> fail err
   }"

fun nodePortRemovals :: "nat \<Rightarrow> gov list \<Rightarrow> patchOp list" where
  "nodePortRemovals index [] = []"
| "nodePortRemovals index (port # ports) =
     (case port of
        GMap portMap \<Rightarrow>
          if map_of portMap ''nodePort'' \<noteq> None
          then PatchRemove [''spec'', ''ports'', Itoa (int index), ''nodePort''] # nodePortRemovals (Suc index) ports
          else nodePortRemovals (Suc index) ports
      | _ \<Rightarrow> nodePortRemovals (Suc index) ports)"

definition normalizationPatch :: "kobj \<Rightarrow> patchOp list" where
  "normalizationPatch service =
     PatchReplace [''spec'', ''type''] (GStr ''ClusterIP'') #
     nodePortRemovals 0 (nestedOr [] (NestedSlice (k_body service) [''spec'', ''ports'']))"

definition normalizeInternalGatewayService ::
  "'s env \<Rightarrow> (gvr \<Rightarrow> string \<Rightarrow> string \<Rightarrow> patchOp list \<Rightarrow> ('s, kobj result) state) \<Rightarrow> ('s, unit result) state" where
  "normalizeInternalGatewayService E jsonPatch = do {
     r \<leftarrow> env_get E serviceGVR KiteNamespace kiteGatewayInternalServiceName;
     case r of
       Inl e \<Rightarrow> if apiIsNotFound e then ok () else fail (Wrapped ''failed to read internal gateway Service: '' e [])
     | Inr service \<Rightarrow>
         let serviceType = nestedOr [] (NestedString (k_body service) [''spec'', ''type'']) in
         if serviceType = [] \<or> serviceType = ''ClusterIP'' then ok ()
         else do {
           p \<leftarrow> jsonPatch serviceGVR KiteNamespace kiteGatewayInternalServiceName (normalizationPatch service);
           case p of
             Inl e \<Rightarrow> fail (Wrapped ''failed to normalize internal gateway Service: '' e [])
           | Inr _ \<Rightarrow> ok ()
         }
   }"

definition externalGatewayService :: "int \<Rightarrow> kobj" where
  "externalGatewayService port =
     newObject ''Service'' KiteNamespace kiteGatewayExternalServiceName [(''app'', ''kite-gateway'')]
       [(''spec'', GMap
          [(''type'', GStr ''LoadBalancer''),
           (''selector'', GMap [(''app'', GStr ''kite-gateway'')]),
           (''ports'', GList [GMap [(''name'', GStr ''ssh''), (''port'', GInt port), (''targetPort'', GStr ''ssh''), (''protocol'', GStr ''TCP'')]])])]"

definition applyExternalGatewayService :: "'s env \<Rightarrow> string \<Rightarrow> ('s, unit result) state" where
  "applyExternalGatewayService E externalPort =
     (case Atoi externalPort of
        Inl e \<Rightarrow> fail (Wrapped (''invalid external gateway port '' @ quoted externalPort @ '': '') e [])
      | Inr port \<Rightarrow> do {
          r \<leftarrow> env_apply E serviceGVR KiteNamespace (externalGatewayService port);
          case r of
            Inl e \<Rightarrow> fail (Wrapped ''failed to apply external gateway Service: '' e [])
          | Inr _ \<Rightarrow> ok ()
        })"

definition externalGatewayServiceStatusFromObject :: "kobj \<Rightarrow> string \<Rightarrow> SSHGatewayStatus" where
  "externalGatewayServiceStatusFromObject service externalPort =
     (let ingress = nestedOr [] (NestedSlice (k_body service) [''status'', ''loadBalancer'', ''ingress'']);
          observed = (\<lambda>st. st\<lparr>gs_ObservedExternalPort := externalPort, gs_ObservedServiceName := kiteGatewayExternalServiceName\<rparr>) in
      if ingress = []
      then observed (gatewayStatus SSHGatewayPhaseReconciling SSHGatewayReasonServicePending gatewayExposurePendingText)
      else observed (gatewayStatus SSHGatewayPhaseReady SSHGatewayReasonServiceApplied gatewayExposureReadyText))"

definition externalGatewayServiceStatus :: "'s env \<Rightarrow> string \<Rightarrow> ('s, SSHGatewayStatus result) state" where
  "externalGatewayServiceStatus E externalPort = do {
     r \<leftarrow> env_get E serviceGVR KiteNamespace kiteGatewayExternalServiceName;
     case r of
       Inl e \<Rightarrow> fail (Wrapped ''failed to read external gateway Service status: '' e [])
     | Inr service \<Rightarrow> ok (externalGatewayServiceStatusFromObject service externalPort)
   }"

definition deleteExternalGatewayService :: "'s env \<Rightarrow> ('s, unit result) state" where
  "deleteExternalGatewayService E = do {
     r \<leftarrow> env_delete E serviceGVR KiteNamespace kiteGatewayExternalServiceName;
     case r of
       Inl e \<Rightarrow> if \<not> apiIsNotFound e then fail (Wrapped ''failed to delete external gateway Service: '' e []) else ok ()
     | Inr _ \<Rightarrow> ok ()
   }"

section \<open>The reconciler\<close>

text \<open>A step whose error is recorded before it is returned.\<close>

definition orGatewayFailed :: "'s env \<Rightarrow> ('s, 'a result) state \<Rightarrow> ('a \<Rightarrow> ('s, unit result) state) \<Rightarrow> ('s, unit result) state" where
  "orGatewayFailed E m k = do {
     r \<leftarrow> m;
     case r of Inl err \<Rightarrow> writeGatewayFailedStatus E err | Inr x \<Rightarrow> k x
   }"

definition exposeGateway :: "'s env \<Rightarrow> SSHGatewayDesired \<Rightarrow> ('s, unit result) state" where
  "exposeGateway E desired =
     (case gatewayBlockedStatus desired of
        Some status \<Rightarrow> orGatewayFailed E (deleteExternalGatewayService E) (\<lambda>_. writeStatusNow E status)
      | None \<Rightarrow>
          if \<not> gd_ExternalEnabled desired
          then orGatewayFailed E (deleteExternalGatewayService E) (\<lambda>_.
            writeStatusNow E (gatewayStatus SSHGatewayPhaseDisabled SSHGatewayReasonExternalDisabled gatewayExposureDisabledText))
          else
            orGatewayFailed E (applyExternalGatewayService E (gd_ExternalPort desired)) (\<lambda>_.
            orGatewayFailed E (externalGatewayServiceStatus E (gd_ExternalPort desired)) (\<lambda>appliedStatus.
            writeStatusNow E appliedStatus)))"

definition ReconcileKiteGatewayExposureFromConfigMap ::
  "'s env \<Rightarrow> (gvr \<Rightarrow> string \<Rightarrow> string \<Rightarrow> patchOp list \<Rightarrow> ('s, kobj result) state) \<Rightarrow> ('s, unit result) state" where
  "ReconcileKiteGatewayExposureFromConfigMap E jsonPatch =
     tryE (env_get E configMapGVR KiteNamespace RuntimeConfigName) (\<lambda>configMap.
     orGatewayFailed E (normalizeInternalGatewayService E jsonPatch) (\<lambda>_.
     exposeGateway E (SSHGatewayDesiredFromConfigData (stringMapOr configMap ''data''))))"

text \<open>The handlers ignore every object but the runtime ConfigMap and the external Service.\<close>

definition ignoreResult :: "('s, 'a result) state \<Rightarrow> ('s, unit) state" where
  "ignoreResult m = do { _ \<leftarrow> m; State_Monad.return () }"

definition reconcileGatewayExposureConfigEvent where
  "reconcileGatewayExposureConfigEvent E jsonPatch ev =
     (case ev of
        EventObject resource \<Rightarrow>
          if k_name resource \<noteq> RuntimeConfigName then State_Monad.return ()
          else ignoreResult (ReconcileKiteGatewayExposureFromConfigMap E jsonPatch)
      | _ \<Rightarrow> State_Monad.return ())"

fun informerEventObject :: "eventObj \<Rightarrow> kobj option" where
  "informerEventObject (EventObject resource) = Some resource"
| "informerEventObject (DeletedFinalStateUnknown r) = r"
| "informerEventObject OtherEvent = None"

definition reconcileGatewayExposureServiceEvent where
  "reconcileGatewayExposureServiceEvent E jsonPatch ev =
     (case informerEventObject ev of
        None \<Rightarrow> State_Monad.return ()
      | Some resource \<Rightarrow>
          if k_name resource \<noteq> kiteGatewayExternalServiceName then State_Monad.return ()
          else ignoreResult (ReconcileKiteGatewayExposureFromConfigMap E jsonPatch))"

text \<open>The handlers for added, updated and deleted objects; ConfigMaps have none for deletions.\<close>

definition RegisterKiteGatewayExposureReconciler where
  "RegisterKiteGatewayExposureReconciler E jsonPatch =
     (reconcileGatewayExposureConfigEvent E jsonPatch, \<lambda>oldObj newObj. reconcileGatewayExposureConfigEvent E jsonPatch newObj)"

definition RegisterKiteGatewayExposureServiceReconciler where
  "RegisterKiteGatewayExposureServiceReconciler E jsonPatch =
     (reconcileGatewayExposureServiceEvent E jsonPatch,
      \<lambda>oldObj newObj. reconcileGatewayExposureServiceEvent E jsonPatch newObj,
      reconcileGatewayExposureServiceEvent E jsonPatch)"

section \<open>What a pass leaves behind\<close>

definition gatewayStatusKey :: kkey where "gatewayStatusKey = (configMapGVR, KiteNamespace, SSHGatewayStatusConfigName)"
definition internalGatewayKey :: kkey where "internalGatewayKey = (serviceGVR, KiteNamespace, kiteGatewayInternalServiceName)"
definition externalGatewayKey :: kkey where "externalGatewayKey = (serviceGVR, KiteNamespace, kiteGatewayExternalServiceName)"

lemmas gatewayKeys = gatewayStatusKey_def internalGatewayKey_def externalGatewayKey_def

lemma gatewayKeys_distinct [simp]:
  "gatewayStatusKey \<noteq> internalGatewayKey" "gatewayStatusKey \<noteq> externalGatewayKey" "internalGatewayKey \<noteq> externalGatewayKey"
  "internalGatewayKey \<noteq> gatewayStatusKey" "externalGatewayKey \<noteq> gatewayStatusKey" "externalGatewayKey \<noteq> internalGatewayKey"
  by (simp_all add: gatewayKeys kiteGatewayInternalServiceName_def kiteGatewayExternalServiceName_def)

definition statusShows :: "SSHGatewayStatus \<Rightarrow> kview \<Rightarrow> bool" where
  "statusShows st v \<longleftrightarrow>
     (\<forall>x. v gatewayStatusKey = Some x \<longrightarrow> (\<exists>time. SSHGatewayStatusFromData (stringMapOr x ''data'') = st\<lparr>gs_LastTransitionTime := time\<rparr>))"

definition internalOnly :: "kview \<Rightarrow> bool" where
  "internalOnly v \<longleftrightarrow>
     (\<forall>x. v internalGatewayKey = Some x \<longrightarrow> nestedOr [] (NestedString (k_body x) [''spec'', ''type'']) \<in> {[], ''ClusterIP''})"

definition opensPort :: "kobj \<Rightarrow> string \<Rightarrow> bool" where
  "opensPort svc port \<longleftrightarrow>
     NestedString (k_body svc) [''spec'', ''type''] = Inr (Some ''LoadBalancer'') \<and>
     (\<exists>p m. Atoi port = Inr p \<and> GMap m \<in> set (nestedOr [] (NestedSlice (k_body svc) [''spec'', ''ports''])) \<and>
        map_of m ''port'' = Some (GInt p) \<and> map_of m ''targetPort'' = Some (GStr ''ssh''))"

definition exposed :: "SSHGatewayDesired \<Rightarrow> kview \<Rightarrow> bool" where
  "exposed d v \<longleftrightarrow>
     (if gd_ExternalEnabled d \<and> gd_ExternalPort d \<noteq> []
      then (\<exists>svc. v externalGatewayKey = Some svc \<and> opensPort svc (gd_ExternalPort d) \<and>
          statusShows (externalGatewayServiceStatusFromObject svc (gd_ExternalPort d)) v)
      else (\<forall>svc. v externalGatewayKey = Some svc \<longrightarrow> k_deletionTimestamp svc \<noteq> None) \<and>
        statusShows (if gd_ExternalEnabled d
          then gatewayStatus SSHGatewayPhaseBlocked SSHGatewayReasonMissingExternalPort gatewayExposureBlockedText
          else gatewayStatus SSHGatewayPhaseDisabled SSHGatewayReasonExternalDisabled gatewayExposureDisabledText) v)"

lemma statusData_roundtrip:
  assumes "objField x ''data'' = Some (GMap (stringMapToAny (SSHGatewayStatusData st)))" "gs_Phase st \<noteq> []" "gs_Reason st \<noteq> []"
  shows "SSHGatewayStatusFromData (stringMapOr x ''data'') = st"
  unfolding stringMapOr_field[OF assms(1)] using assms(2,3)
  by (cases st) (simp add: SSHGatewayStatusFromData_def SSHGatewayStatusData_def dataAt_def Let_def)

lemma externalStatus_named:
  "gs_Phase (externalGatewayServiceStatusFromObject svc p) \<noteq> []" "gs_Reason (externalGatewayServiceStatusFromObject svc p) \<noteq> []"
  by (simp_all add: externalGatewayServiceStatusFromObject_def gatewayStatus_def Let_def SSHGatewayPhaseReconciling_def
      SSHGatewayPhaseReady_def SSHGatewayReasonServicePending_def SSHGatewayReasonServiceApplied_def)

context kube_api
begin

lemma wp_WriteSSHGatewayStatus:
  assumes "gs_Phase st \<noteq> []" "gs_Reason st \<noteq> []"
  shows "wp (WriteSSHGatewayStatus E st) (\<lambda>r s'. case r of Inl e \<Rightarrow> True | Inr _ \<Rightarrow> statusShows st (view s')) s"
proof -
  define Q where "Q = (\<lambda>(r :: unit result) s'. case r of Inl e \<Rightarrow> True | Inr _ \<Rightarrow> statusShows st (view s'))"
  have QI: "Q (Inl e) s'" for e s' by (simp add: Q_def)
  have stored: "Q (Inr ()) s'"
    if "shownAt gatewayStatusKey x (view s')" "objField x ''data'' = objField (gatewayStatusObject (st\<lparr>gs_LastTransitionTime := time\<rparr>)) ''data''"
    for x s' time
  proof -
    have "objField x ''data'' = Some (GMap (stringMapToAny (SSHGatewayStatusData (st\<lparr>gs_LastTransitionTime := time\<rparr>))))"
      using that(2) by (simp add: gatewayStatusObject_def objField_def newObject_def)
    from statusData_roundtrip[OF this] assms that(1) show ?thesis by (auto simp: Q_def statusShows_def shownAt_def)
  qed
  have name: "gatewayStatusKey = (configMapGVR, KiteNamespace, k_name (gatewayStatusObject st'))" for st'
    by (simp add: gatewayStatusKey_def gatewayStatusObject_def newObject_def)
  have body: "wp (env_get E configMapGVR KiteNamespace SSHGatewayStatusConfigName) (\<lambda>c. wp (case c of
       Inr current \<Rightarrow> do { u \<leftarrow> env_update E configMapGVR KiteNamespace
           ((gatewayStatusObject st')\<lparr>k_resourceVersion := k_resourceVersion current\<rparr>);
         case u of Inl e \<Rightarrow> fail e | Inr _ \<Rightarrow> ok () }
     | Inl e \<Rightarrow> if \<not> apiIsNotFound e then fail e else do {
           w \<leftarrow> env_create E configMapGVR KiteNamespace (gatewayStatusObject st');
           case w of Inl e \<Rightarrow> fail e | Inr _ \<Rightarrow> ok () }) Q) s1"
    if st': "st' = st\<lparr>gs_LastTransitionTime := time\<rparr>" for st' time s1
  proof (rule wp_get; unfold sum.case)
    fix s2 cur
    show "wp (env_update E configMapGVR KiteNamespace ((gatewayStatusObject st')\<lparr>k_resourceVersion := k_resourceVersion cur\<rparr>) \<bind>
        (\<lambda>u. case u of Inl e \<Rightarrow> fail e | Inr _ \<Rightarrow> ok ())) Q s2"
      unfolding wp_bind
    proof (rule wp_update; unfold sum.case wp_fail wp_ok)
      let ?obj = "(gatewayStatusObject st')\<lparr>k_resourceVersion := k_resourceVersion cur\<rparr>"
      fix s3 x assume rep: "replaced configMapGVR KiteNamespace ?obj (view s2) (view s3) x"
      have key: "gatewayStatusKey = (configMapGVR, KiteNamespace, k_name ?obj)" using name[of st'] by simp
      have "sameBody configMapGVR ?obj x" using rep unfolding replaced_def by blast
      then have "objField x ''data'' = objField (gatewayStatusObject st') ''data''" by (simp add: sameBody_def exactGVR_def objField_def)
      with replaced_shown[OF rep key] have "shownAt gatewayStatusKey x (view s3)" "objField x ''data'' = objField (gatewayStatusObject st') ''data''" by simp_all
      then show "Q (Inr ()) s3" unfolding st' by (rule stored)
    qed (rule QI)+
  next
    fix s2 e
    have "wp (env_create E configMapGVR KiteNamespace (gatewayStatusObject st') \<bind> (\<lambda>w. case w of Inl e \<Rightarrow> fail e | Inr _ \<Rightarrow> ok ())) Q s2"
      unfolding wp_bind
    proof (rule wp_create; unfold sum.case wp_fail wp_ok)
      fix s3 x assume "created configMapGVR KiteNamespace (gatewayStatusObject st') (view s2) (view s3) x"
      then have "shownAt gatewayStatusKey x (view s3)" "objField x ''data'' = objField (gatewayStatusObject st') ''data''"
        by (auto simp: created_def shownAt_def name[of st'] sameBody_def exactGVR_def)
      then show "Q (Inr ()) s3" unfolding st' by (rule stored)
    qed (rule QI)+
    then show "wp (if \<not> apiIsNotFound e then fail e else env_create E configMapGVR KiteNamespace (gatewayStatusObject st') \<bind>
        (\<lambda>w. case w of Inl e \<Rightarrow> fail e | Inr _ \<Rightarrow> ok ())) Q s2"
      by (simp add: wp_fail QI)
  qed
  have kept: "st = st\<lparr>gs_LastTransitionTime := gs_LastTransitionTime st\<rparr>" by simp
  have "wp (WriteSSHGatewayStatus E st) Q s"
    unfolding WriteSSHGatewayStatus_def wp_bind
    by (rule wpI) (auto simp: wp_return wp_bind split: if_splits prod.splits intro!: body[OF refl] body[OF kept])
  then show ?thesis by (simp add: Q_def)
qed

lemma wp_writeStatusNow:
  assumes "gs_Phase st \<noteq> []" "gs_Reason st \<noteq> []"
  shows "wp (writeStatusNow E st) (\<lambda>r s'. case r of Inl e \<Rightarrow> True | Inr _ \<Rightarrow> statusShows st (view s')) s"
proof -
  have same: "statusShows (st\<lparr>gs_LastTransitionTime := time\<rparr>) v = statusShows st v" for time v by (simp add: statusShows_def)
  have "wp (WriteSSHGatewayStatus E (st\<lparr>gs_LastTransitionTime := time\<rparr>))
      (\<lambda>r s'. case r of Inl e \<Rightarrow> True | Inr _ \<Rightarrow> statusShows st (view s')) s" for time s
    using wp_WriteSSHGatewayStatus[of "st\<lparr>gs_LastTransitionTime := time\<rparr>" s] assms unfolding same by simp
  then show ?thesis unfolding writeStatusNow_def withTransitionTime_def wp_bind wp_return by (rule wp_keeps[OF now_keeps])
qed

lemma frames_writeStatusNow: "frames view {gatewayStatusKey} (writeStatusNow E st)"
  unfolding writeStatusNow_def withTransitionTime_def WriteSSHGatewayStatus_def
  by (intro frames_intros frames_create frames_update keeps_frames[OF get_keeps] keeps_frames[OF now_keeps])
     (simp_all add: gatewayStatusKey_def gatewayStatusObject_def newObject_def)

lemma wp_failedStatus: "wp (writeGatewayFailedStatus E err) (\<lambda>r s'. isl r) s"
  unfolding writeGatewayFailedStatus_def wp_bind by (rule wpI) (auto simp: wp_simps split: sum.split)

lemma wp_orGatewayFailed:
  assumes "\<And>e s'. Q (Inl e) s'" and "wp m (\<lambda>r s1. case r of Inl e \<Rightarrow> True | Inr x \<Rightarrow> wp (k x) Q s1) s"
  shows "wp (orGatewayFailed E m k) Q s"
proof -
  have failed: "wp (writeGatewayFailedStatus E err) Q s'" for err s'
    by (rule wp_mono[OF wp_failedStatus]) (metis assms(1) isl_def)
  show ?thesis
    unfolding orGatewayFailed_def wp_bind by (rule wp_mono[OF assms(2)]) (auto simp: failed split: sum.splits)
qed

lemma frames_orGatewayFailed:
  assumes "gatewayStatusKey \<in> K" "frames view K m" "\<And>x. frames view K (k x)"
  shows "frames view K (orGatewayFailed E m k)"
proof -
  have "frames view K (writeStatusNow E st)" for st by (rule frames_subset[OF frames_writeStatusNow]) (simp add: assms(1))
  then show ?thesis
    unfolding orGatewayFailed_def writeGatewayFailedStatus_def by (intro frames_intros assms)
qed

lemma wp_deleteExternal:
  "wp (deleteExternalGatewayService E) (\<lambda>r s'. (\<forall>k. k \<noteq> externalGatewayKey \<longrightarrow> view s' k = view s k) \<and> (case r of Inl e \<Rightarrow> True | Inr _ \<Rightarrow>
      (\<forall>svc. view s' externalGatewayKey = Some svc \<longrightarrow> k_deletionTimestamp svc \<noteq> None))) s"
  unfolding deleteExternalGatewayService_def wp_bind externalGatewayKey_def
  by (rule wp_delete) (auto simp: wp_simps deleted_def marked_def split: if_splits)

lemma frames_exposeGateway: "frames view {gatewayStatusKey, externalGatewayKey} (exposeGateway E d)"
proof -
  have name: "k_name (externalGatewayService p) = kiteGatewayExternalServiceName" for p
    by (simp add: externalGatewayService_def newObject_def)
  have status: "frames view {gatewayStatusKey, externalGatewayKey} (writeStatusNow E st)" for st
    by (rule frames_subset[OF frames_writeStatusNow]) simp
  show ?thesis
    unfolding exposeGateway_def deleteExternalGatewayService_def applyExternalGatewayService_def externalGatewayServiceStatus_def
    by (intro frames_orGatewayFailed status frames_intros frames_delete frames_apply keeps_frames[OF get_keeps])
       (simp_all add: externalGatewayKey_def name)
qed

end

context patch_api
begin

lemma holds_externalService: "holds (GMap (k_body (externalGatewayService p))) (GMap (k_body svc)) \<Longrightarrow> Atoi port = Inr p \<Longrightarrow> opensPort svc port"
proof -
  assume held: "holds (GMap (k_body (externalGatewayService p))) (GMap (k_body svc))" and port: "Atoi port = Inr p"
  let ?port = "[(''name'', GStr ''ssh''), (''port'', GInt p), (''targetPort'', GStr ''ssh''), (''protocol'', GStr ''TCP'')]"
  let ?spec = "[(''type'', GStr ''LoadBalancer''), (''selector'', GMap [(''app'', GStr ''kite-gateway'')]), (''ports'', GList [GMap ?port])]"
  have "map_of (k_body (externalGatewayService p)) ''spec'' = Some (GMap ?spec)" by (simp add: externalGatewayService_def newObject_def)
  from holds_field[OF held this] obtain spec where spec: "map_of (k_body svc) ''spec'' = Some spec" "holds (GMap ?spec) spec" by auto
  from holds_field[OF spec(2), of "''type''"] obtain m where m: "spec = GMap m" "map_of m ''type'' = Some (GStr ''LoadBalancer'')"
    by (auto elim: holds_str)
  from holds_field[OF spec(2), of "''ports''"] m(1) obtain ports where ports: "map_of m ''ports'' = Some ports" "holds (GList [GMap ?port]) ports" by auto
  from holds_element[OF ports(2)] obtain vs x where vs: "ports = GList vs" "x \<in> set vs" "holds (GMap ?port) x" by auto
  from holds_field[OF vs(3), of "''port''"] obtain pm where pm: "x = GMap pm" "map_of pm ''port'' = Some (GInt p)" by (auto elim: holds_int)
  from holds_field[OF vs(3), of "''targetPort''"] pm(1) have "map_of pm ''targetPort'' = Some (GStr ''ssh'')" by (auto elim: holds_str)
  with spec(1) m ports(1) vs(1,2) pm port show ?thesis
    by (auto simp: opensPort_def NestedString_def NestedSlice_def nestedOr_def)
qed

lemma wp_applyExternal:
  "wp (applyExternalGatewayService E port) (\<lambda>r s'. case r of Inl e \<Rightarrow> True | Inr _ \<Rightarrow>
      \<exists>svc. view s' externalGatewayKey = Some svc \<and> opensPort svc port) s"
proof (cases "Atoi port")
  case (Inr p)
  have name: "k_name (externalGatewayService p) = kiteGatewayExternalServiceName" by (simp add: externalGatewayService_def newObject_def)
  have "wp (env_apply E serviceGVR KiteNamespace (externalGatewayService p)) (\<lambda>r s'. case r of Inl e \<Rightarrow> True | Inr _ \<Rightarrow>
      \<exists>svc. view s' externalGatewayKey = Some svc \<and> opensPort svc port) s"
  proof (rule wpI)
    fix r s' assume run: "run_state (env_apply E serviceGVR KiteNamespace (externalGatewayService p)) s = (r, s')"
    have "\<exists>svc. view s' externalGatewayKey = Some svc \<and> opensPort svc port" if "r = Inr stored" for stored
      using apply_law[OF run] holds_externalService[OF apply_holds[OF run[unfolded that]] Inr]
      by (auto simp: that writeOutcome_def applied_def externalGatewayKey_def name)
    then show "case r of Inl e \<Rightarrow> True | Inr _ \<Rightarrow> \<exists>svc. view s' externalGatewayKey = Some svc \<and> opensPort svc port"
      by (simp split: sum.split)
  qed
  then show ?thesis
    unfolding applyExternalGatewayService_def Inr sum.case wp_bind by (rule wp_mono) (auto simp: wp_simps split: sum.splits)
qed (simp add: applyExternalGatewayService_def wp_simps)

lemma wp_exposeGateway:
  "wp (exposeGateway E d) (\<lambda>r s'. case r of Inl e \<Rightarrow> True | Inr _ \<Rightarrow> exposed d (view s')) s"
proof -
  define Q where "Q = (\<lambda>(r :: unit result) s'. case r of Inl e \<Rightarrow> True | Inr _ \<Rightarrow> exposed d (view s'))"
  have QI: "Q (Inl e) s'" for e s' by (simp add: Q_def)
  have status: "wp (writeStatusNow E st) Q s1"
    if "gs_Phase st \<noteq> []" "gs_Reason st \<noteq> []"
      "\<And>v. v externalGatewayKey = view s1 externalGatewayKey \<Longrightarrow> statusShows st v \<Longrightarrow> exposed d v" for st s1
  proof (rule wpI)
    fix r s' assume run: "run_state (writeStatusNow E st) s1 = (r, s')"
    have "view s' externalGatewayKey = view s1 externalGatewayKey" using framesD[OF frames_writeStatusNow run] by simp
    with wpD[OF wp_writeStatusNow[OF that(1,2)] run] that(3) show "Q r s'" by (simp add: Q_def split: sum.splits)
  qed
  have gone: "wp (orGatewayFailed E (deleteExternalGatewayService E) (\<lambda>_. writeStatusNow E st)) Q s"
    if "gs_Phase st \<noteq> []" "gs_Reason st \<noteq> []"
      "\<And>v. (\<forall>svc. v externalGatewayKey = Some svc \<longrightarrow> k_deletionTimestamp svc \<noteq> None) \<Longrightarrow> statusShows st v \<Longrightarrow> exposed d v" for st
    by (rule wp_orGatewayFailed, rule QI, rule wp_mono[OF wp_deleteExternal])
       (use that in \<open>auto split: sum.splits intro!: status\<close>)
  have read: "wp (orGatewayFailed E (externalGatewayServiceStatus E (gd_ExternalPort d)) (writeStatusNow E)) Q s1"
    if "gd_ExternalEnabled d" "gd_ExternalPort d \<noteq> []" "view s1 externalGatewayKey = Some svc" "opensPort svc (gd_ExternalPort d)" for s1 svc
    unfolding externalGatewayServiceStatus_def
    by (rule wp_orGatewayFailed, rule QI, unfold wp_bind, rule wp_get)
       (use that in \<open>auto simp: wp_simps exposed_def externalGatewayKey_def externalStatus_named intro!: status\<close>)
  have open_it: "wp (orGatewayFailed E (applyExternalGatewayService E (gd_ExternalPort d)) (\<lambda>_.
      orGatewayFailed E (externalGatewayServiceStatus E (gd_ExternalPort d)) (writeStatusNow E))) Q s"
    if "gd_ExternalEnabled d" "gd_ExternalPort d \<noteq> []"
    by (rule wp_orGatewayFailed, rule QI, rule wp_mono[OF wp_applyExternal]) (auto split: sum.splits intro: read[OF that])
  have "wp (exposeGateway E d) Q s"
    unfolding exposeGateway_def gatewayBlockedStatus_def
    by (auto intro!: gone open_it simp: exposed_def gatewayStatus_def SSHGatewayPhaseBlocked_def SSHGatewayReasonMissingExternalPort_def
        SSHGatewayPhaseDisabled_def SSHGatewayReasonExternalDisabled_def)
  then show ?thesis by (simp add: Q_def)
qed

lemma settles_normalization: "settles (normalizationPatch svc) [''spec'', ''type''] ''ClusterIP''"
proof -
  have "\<exists>q. patchPath op = [''spec'', ''ports'', q, ''nodePort'']" if "op \<in> set (nodePortRemovals i ports)" for op i ports
    using that by (induction i ports rule: nodePortRemovals.induct) (auto split: gov.splits if_splits)
  then show ?thesis
    unfolding settles_def normalizationPatch_def by (intro exI[of _ "[]"] exI) fastforce
qed

lemma frames_normalize: "frames view {internalGatewayKey} (normalizeInternalGatewayService E jsonPatch)"
  unfolding normalizeInternalGatewayService_def Let_def
  by (intro frames_intros keeps_frames[OF get_keeps] framesI[OF patch_law]) (auto simp: patched_def internalGatewayKey_def split: if_splits)

lemma wp_normalize:
  "wp (normalizeInternalGatewayService E jsonPatch) (\<lambda>r s'. case r of Inl e \<Rightarrow> True | Inr _ \<Rightarrow> internalOnly (view s')) s"
proof -
  have patch: "wp (jsonPatch serviceGVR KiteNamespace kiteGatewayInternalServiceName (normalizationPatch svc))
      (\<lambda>p. wp (case p of Inl e \<Rightarrow> fail (Wrapped ''failed to normalize internal gateway Service: '' e []) | Inr _ \<Rightarrow> ok ())
        (\<lambda>r s'. case r of Inl e \<Rightarrow> True | Inr _ \<Rightarrow> internalOnly (view s'))) s1" for svc s1
  proof (rule wpI)
    fix p s' assume run: "run_state (jsonPatch serviceGVR KiteNamespace kiteGatewayInternalServiceName (normalizationPatch svc)) s1 = (p, s')"
    have "internalOnly (view s')" if "p = Inr x" for x
      using patch_law[OF run] settles_normalization[of svc] unfolding that
      by (auto simp: writeOutcome_def patched_def internalOnly_def internalGatewayKey_def nestedOr_def)
    then show "wp (case p of Inl e \<Rightarrow> fail (Wrapped ''failed to normalize internal gateway Service: '' e []) | Inr _ \<Rightarrow> ok ())
        (\<lambda>r s'. case r of Inl e \<Rightarrow> True | Inr _ \<Rightarrow> internalOnly (view s')) s'"
      by (auto simp: wp_simps split: sum.split)
  qed
  show ?thesis
    unfolding normalizeInternalGatewayService_def Let_def wp_bind
    by (rule wp_get) (auto simp: wp_simps wp_bind internalOnly_def internalGatewayKey_def intro: patch)
qed

lemma frames_exposure:
  "frames view {internalGatewayKey, gatewayStatusKey, externalGatewayKey} (ReconcileKiteGatewayExposureFromConfigMap E jsonPatch)"
  unfolding ReconcileKiteGatewayExposureFromConfigMap_def
  by (intro frames_tryE frames_orGatewayFailed keeps_frames[OF get_keeps] frames_subset[OF frames_normalize]
      frames_subset[OF frames_exposeGateway]) auto

lemma wp_exposure:
  "wp (ReconcileKiteGatewayExposureFromConfigMap E jsonPatch) (\<lambda>r s'. case r of Inl e \<Rightarrow> True | Inr _ \<Rightarrow>
     \<exists>cm. view s configKey = Some cm \<and> exposed (SSHGatewayDesiredFromConfigData (stringMapOr cm ''data'')) (view s') \<and> internalOnly (view s')) s"
proof -
  define Q where "Q = (\<lambda>(r :: unit result) s'. case r of Inl e \<Rightarrow> True | Inr _ \<Rightarrow>
     \<exists>cm. view s configKey = Some cm \<and> exposed (SSHGatewayDesiredFromConfigData (stringMapOr cm ''data'')) (view s') \<and> internalOnly (view s'))"
  have QI: "Q (Inl e) s'" for e s' by (simp add: Q_def)
  have expose: "wp (exposeGateway E (SSHGatewayDesiredFromConfigData (stringMapOr cm ''data''))) Q s1"
    if "view s configKey = Some cm" "internalOnly (view s1)" for cm s1
  proof (rule wpI)
    fix r s' assume run: "run_state (exposeGateway E (SSHGatewayDesiredFromConfigData (stringMapOr cm ''data''))) s1 = (r, s')"
    have "view s' internalGatewayKey = view s1 internalGatewayKey" using framesD[OF frames_exposeGateway run] by simp
    with wpD[OF wp_exposeGateway run] that show "Q r s'" by (auto simp: Q_def internalOnly_def split: sum.splits)
  qed
  have "wp (ReconcileKiteGatewayExposureFromConfigMap E jsonPatch) Q s"
    unfolding ReconcileKiteGatewayExposureFromConfigMap_def wp_tryE
  proof (rule wp_get; unfold sum.case)
    fix s1 cm assume "view s (configMapGVR, KiteNamespace, RuntimeConfigName) = Some cm"
    then have cm: "view s configKey = Some cm" by (simp add: configKey_def)
    show "wp (orGatewayFailed E (normalizeInternalGatewayService E jsonPatch)
        (\<lambda>_. exposeGateway E (SSHGatewayDesiredFromConfigData (stringMapOr cm ''data'')))) Q s1"
      by (rule wp_orGatewayFailed, rule QI, rule wp_mono[OF wp_normalize]) (auto intro: expose[OF cm] split: sum.splits)
  qed (rule QI)
  then show ?thesis by (simp add: Q_def)
qed

end

section \<open>A reference for JSON Patch\<close>

text \<open>Replaces or removes the value at a path, which has to exist.\<close>

fun patchAt :: "string list \<Rightarrow> gov option \<Rightarrow> gov \<Rightarrow> gov option" where
  "patchAt (k # ks) new (GMap m) =
     (case map_of m k of
        None \<Rightarrow> None
      | Some v \<Rightarrow>
          if ks = [] then Some (GMap (case new of None \<Rightarrow> AList.delete k m | Some x \<Rightarrow> AList.update k x m))
          else map_option (\<lambda>v'. GMap (AList.update k v' m)) (patchAt ks new v))"
| "patchAt (k # ks) new (GList vs) =
     (case Atoi k of
        Inl _ \<Rightarrow> None
      | Inr i \<Rightarrow>
          if i < 0 \<or> int (length vs) \<le> i then None
          else if ks = [] then Some (GList (case new of None \<Rightarrow> take (nat i) vs @ drop (Suc (nat i)) vs | Some x \<Rightarrow> vs[nat i := x]))
          else map_option (\<lambda>v'. GList (vs[nat i := v'])) (patchAt ks new (vs ! nat i)))"
| "patchAt _ _ _ = None"

fun patchOnce :: "patchOp \<Rightarrow> gov \<Rightarrow> gov option" where
  "patchOnce (PatchReplace path x) v = patchAt path (Some x) v"
| "patchOnce (PatchRemove path) v = patchAt path None v"

fun patchAll :: "patchOp list \<Rightarrow> gov \<Rightarrow> gov option" where
  "patchAll [] v = Some v"
| "patchAll (op # ops) v = Option.bind (patchOnce op v) (patchAll ops)"

text \<open>The server refuses an object whose \<open>spec\<close> is not an object.\<close>

definition mem_jsonPatch :: "gvr \<Rightarrow> string \<Rightarrow> string \<Rightarrow> patchOp list \<Rightarrow> (mem, kobj result) state" where
  "mem_jsonPatch g ns n ops = mem_call (\<lambda>s.
     case mem_view s (g, ns, n) of
       None \<Rightarrow> (notFound, s)
     | Some cur \<Rightarrow>
         (case patchAll ops (GMap (k_body cur)) of
            Some (GMap body) \<Rightarrow>
              (case map_of body ''spec'' of
                 Some (GMap spec) \<Rightarrow>
                   let x = cur\<lparr>k_body := body, k_resourceVersion := CHR ''1'' # k_resourceVersion cur\<rparr> in
                   (Inr x, mem_put (g, ns, n) x s)
               | _ \<Rightarrow> (Inl (ApiErr StatusReasonOther ''invalid''), s))
          | _ \<Rightarrow> (Inl (ApiErr StatusReasonOther ''invalid''), s)))"

text \<open>A field of \<open>spec\<close> that is set stays set while no operation concerns it.\<close>

fun specField :: "string \<Rightarrow> string \<Rightarrow> gov \<Rightarrow> bool" where
  "specField f x (GMap body) =
     (case map_of body ''spec'' of Some (GMap m) \<Rightarrow> map_of m f = Some (GStr x) | Some (GList _) \<Rightarrow> True | _ \<Rightarrow> False)"
| "specField f x (GList _) = True"
| "specField f x _ = False"

lemma specField_set: "patchAt [''spec'', f] (Some (GStr x)) v = Some v' \<Longrightarrow> specField f x v'"
  by (cases v) (auto split: option.splits if_splits gov.splits sum.splits elim!: patchAt.elims)

lemma specField_kept:
  assumes "\<not> prefix path [''spec'', f]" "\<not> prefix [''spec'', f] path" "patchAt path new v = Some v'" "specField f x v"
  shows "specField f x v'"
proof -
  obtain k ks where path: "path = k # ks" using assms(3) by (cases path) auto
  consider (list) vs where "v = GList vs" | (other) body where "v = GMap body" "k \<noteq> ''spec''" | (spec) body where "v = GMap body" "k = ''spec''"
    using assms(4) by (cases v) auto
  then show ?thesis
  proof cases
    case list
    then show ?thesis using assms(3) by (auto simp: path split: sum.splits if_splits)
  next
    case other
    then show ?thesis using assms(3,4) by (auto simp: path delete_conv' split: option.splits if_splits)
  next
    case spec
    note v = spec(1) and True = spec(2)
    with assms(1) obtain g gs where ks: "ks = g # gs" by (cases ks) (auto simp: path)
    have "g \<noteq> f" using assms(2) by (auto simp: path ks True)
    then show ?thesis
      using assms(3,4) by (auto simp: v path ks True delete_conv' split: option.splits if_splits gov.splits sum.splits)
  qed
qed

lemma patchAll_append: "patchAll (a @ b) v = Option.bind (patchAll a v) (patchAll b)"
  by (induction a arbitrary: v) (auto split: bind_splits)

lemma patchAll_settles:
  assumes "settles ops [''spec'', f] x" "patchAll ops v = Some v'"
  shows "specField f x v'"
proof -
  obtain before after where ops: "ops = before @ PatchReplace [''spec'', f] (GStr x) # after"
    and free: "\<forall>op \<in> set after. \<not> prefix (patchPath op) [''spec'', f] \<and> \<not> prefix [''spec'', f] (patchPath op)"
    using assms(1) unfolding settles_def by blast
  have kept: "specField f x u'" if "patchAll rest u = Some u'" "specField f x u" "set rest \<subseteq> set after" for rest u u'
    using that
  proof (induction rest arbitrary: u)
    case (Cons op rest)
    then obtain u1 where u1: "patchOnce op u = Some u1" "patchAll rest u1 = Some u'" by (auto split: bind_splits)
    have "specField f x u1"
      using specField_kept[of "patchPath op" f _ u u1 x] free Cons.prems u1(1) by (cases op) auto
    then show ?case using Cons.IH u1(2) Cons.prems by simp
  qed simp
  obtain u where "patchAll before v = Some u" "patchAll (PatchReplace [''spec'', f] (GStr x) # after) u = Some v'"
    using assms(2) by (auto simp: ops patchAll_append split: bind_splits)
  then show ?thesis using kept[of after] specField_set by (auto split: bind_splits)
qed

lemma mem_patch_api: "patch_api mem_env mem_view mem_jsonPatch"
proof (intro patch_api.intro mem_kube_api patch_api_axioms.intro)
  fix g ns n ops s r s' assume "run_state (mem_jsonPatch g ns n ops) s = (r, s')"
  then show "writeOutcome r (mem_view s) (mem_view s') (patched g ns n ops (mem_view s) (mem_view s'))"
    unfolding mem_jsonPatch_def
  proof (rule mem_write)
    fix s0 r0 s1 assume s0: "mem_view s0 = mem_view s" and f: "(case mem_view s0 (g, ns, n) of None \<Rightarrow> (notFound, s0) | Some cur \<Rightarrow>
         (case patchAll ops (GMap (k_body cur)) of
            Some (GMap body) \<Rightarrow>
              (case map_of body ''spec'' of
                 Some (GMap spec) \<Rightarrow>
                   let x = cur\<lparr>k_body := body, k_resourceVersion := CHR ''1'' # k_resourceVersion cur\<rparr> in
                   (Inr x, mem_put (g, ns, n) x s0)
               | _ \<Rightarrow> (Inl (ApiErr StatusReasonOther ''invalid''), s0))
          | _ \<Rightarrow> (Inl (ApiErr StatusReasonOther ''invalid''), s0))) = (r0, s1)"
    show "case r0 of Inl e \<Rightarrow> mem_view s1 = mem_view s | Inr x \<Rightarrow> patched g ns n ops (mem_view s) (mem_view s1) x"
    proof (cases "mem_view s (g, ns, n)")
      case (Some cur)
      note key = mem_view_key[OF Some]
      show ?thesis
        using f s0 Some key
        by (auto simp: Let_def patched_def NestedString_def split: option.splits gov.splits dest!: patchAll_settles)
    qed (use f s0 in \<open>auto simp: notFound_def\<close>)
  qed
next
  fix ns obj s stored s' assume "run_state (env_apply mem_env serviceGVR ns obj) s = (Inr stored, s')"
  then have "\<exists>rest. \<forall>k. map_of (k_body stored) k = (case map_of (k_body obj) k of None \<Rightarrow> rest k | Some v \<Rightarrow> Some v)"
    unfolding mem_env_sel mem_apply_def
    by (rule mem_call_cases[where P = "\<lambda>r s'. r = Inr stored \<longrightarrow> (\<exists>rest. \<forall>k. map_of (k_body stored) k =
        (case map_of (k_body obj) k of None \<Rightarrow> rest k | Some v \<Rightarrow> Some v))", rule_format])
       (auto simp: Let_def merge_conv' map_add_def split: option.splits if_splits)
  then show "holds (GMap (k_body obj)) (GMap (k_body stored))"
    by (auto intro!: holds.mapI intro: holds.same)
qed

interpretation memPatch: patch_api mem_env mem_view mem_jsonPatch
  by (rule mem_patch_api)

section \<open>Properties\<close>


definition exposureWorld :: mem where
  "exposureWorld = mem_init
     [(configKey, newObject ''ConfigMap'' KiteNamespace RuntimeConfigName []
        [(''data'', GMap [(SSHGatewayExternalEnabledKey, GStr ''true''), (SSHGatewayExternalPortKey, GStr ''2222'')])]),
      (internalGatewayKey, newObject ''Service'' KiteNamespace kiteGatewayInternalServiceName []
        [(''spec'', GMap [(''type'', GStr ''NodePort''),
           (''ports'', GList [GMap [(''port'', GInt 22), (''nodePort'', GInt 30022)]])])])] []"

text \<open>The reference server accepts a first status.\<close>

lemma mem_writeStatusNow:
  "m_faults m = [] \<Longrightarrow> mem_view m gatewayStatusKey = None \<Longrightarrow> \<exists>s'. run_state (writeStatusNow mem_env st) m = (Inr (), s')"
  by (simp add: writeStatusNow_def withTransitionTime_def WriteSSHGatewayStatus_def mem_get_def mem_create_def mem_call_def
      gatewayStatusKey_def gatewayStatusObject_def newObject_def notFound_def apiIsNotFound_def Let_def validKey_def
      SSHGatewayStatusConfigName_def ok_def)


end
