(* ===== verification/Templates.thy ===== *)
theory Templates
  imports Machine_Resources
begin

text \<open>
  The YAML templates under \<open>internal/render\<close>: for each template the objects it stands for, as a function of its fields, and
  \<open>renderTemplate\<close>, which says for which field values this is so.  A template inserts its fields into the text without any
  quoting, so only values that YAML reads back as the same text are covered: \<open>plainScalar\<close> for a value of its own, \<open>plainLine\<close>
  for a value inside the block of cloud-init user data.  The engine itself (\<open>text/template\<close> and the YAML decoder) is the
  parameter \<open>cv_render\<close>; the hypothesis \<open>templateEngine\<close> says that on such values it produces exactly these objects.  The entries of a
  map are listed in the order of the template.

  The second part states what server-side apply keeps of the content of an object, as the locale \<open>apply_api\<close>.
\<close>

section \<open>Plain values\<close>

definition isLetterByte :: "char \<Rightarrow> bool" where
  "isLetterByte c \<longleftrightarrow> isLowerByte c \<or> isUpperByte c"

definition isNameByte :: "char \<Rightarrow> bool" where
  "isNameByte c \<longleftrightarrow> isLetterByte c \<or> isDigitByte c \<or> c \<in> set ''-._''"

definition lowerByte :: "char \<Rightarrow> char" where
  "lowerByte c = (if isUpperByte c then byteChar (byteOf c + 32) else c)"

text \<open>Words YAML 1.1 does not read as strings.\<close>

definition yamlKeywords :: "string list" where
  "yamlKeywords = [''y'', ''yes'', ''n'', ''no'', ''on'', ''off'', ''true'', ''false'', ''null'']"

definition plainWord :: "string \<Rightarrow> bool" where
  "plainWord s \<longleftrightarrow> s \<noteq> [] \<and> isLetterByte (hd s) \<and> list_all isNameByte s \<and> map lowerByte s \<notin> set yamlKeywords"

text \<open>A whole number with a binary unit, such as \<open>25Gi\<close>.\<close>

definition plainQuantity :: "string \<Rightarrow> bool" where
  "plainQuantity s \<longleftrightarrow> 3 \<le> length s \<and> last s = CHR ''i'' \<and> last (butlast s) \<in> set ''KMGTPE'' \<and>
     list_all isDigitByte (butlast (butlast s))"

definition plainScalar :: "string \<Rightarrow> bool" where
  "plainScalar s \<longleftrightarrow> plainWord s \<or> plainQuantity s"

text \<open>One line of printable ASCII.\<close>

definition plainLine :: "string \<Rightarrow> bool" where
  "plainLine s \<longleftrightarrow> list_all (\<lambda>c. 32 \<le> byteOf c \<and> byteOf c \<le> 126) s"

section \<open>The templates of a virtual machine\<close>

definition ownerLabels :: "string \<Rightarrow> string \<Rightarrow> (string \<times> string) list" where
  "ownerLabels vmName namespace =
     [(''hy3ons.github.io/managed-by'', ''kite-controller''),
      (''hy3ons.github.io/kite-vm-name'', vmName),
      (''hy3ons.github.io/kite-vm-namespace'', namespace)]"

definition dataVolumeTemplate :: "string \<Rightarrow> string \<Rightarrow> string \<Rightarrow> string \<Rightarrow> string \<Rightarrow> kobj" where
  "dataVolumeTemplate vmName namespace vmImage storage storageClassName =
     newObject ''DataVolume'' namespace (vmName @ ''-disk'') (ownerLabels vmName namespace)
       [(''spec'', GMap
          [(''source'', GMap [(''pvc'', GMap [(''name'', GStr vmImage), (''namespace'', GStr ''kite'')])]),
           (''pvc'', GMap
             ((if storageClassName \<noteq> [] then [(''storageClassName'', GStr storageClassName)] else []) @
              [(''accessModes'', GList [GStr ''ReadWriteOnce'']),
               (''resources'', GMap [(''requests'', GMap [(''storage'', GStr storage)])])]))])]"

text \<open>The block of user data, line by line; the text ends with a newline.\<close>

definition cloudConfigLines :: "string \<Rightarrow> string \<Rightarrow> string \<Rightarrow> string \<Rightarrow> string list" where
  "cloudConfigLines vmName loginId sshPublicKey guestPasswordHash =
     [''#cloud-config'',
      ''# L3 '' @ runes [234, 179, 132, 236, 184, 181] @ '' '' @ runes [237, 153, 156, 236, 132, 177, 237, 153, 148] @ '' '' @
         runes [236, 158, 145, 236, 151, 133] @ '' '' @ runes [235, 185, 160, 235, 165, 180, 234, 178, 140] @ '' '' @ runes [235, 129,
         157, 235, 130, 180, 234, 184, 176],
      ''bootcmd:'',
      ''  - [ systemctl, mask, systemd-networkd-wait-online.service ]'',
      ''  - [ systemctl, mask, NetworkManager-wait-online.service ]'',
      ''  - echo '' @ runes [34] @ ''DefaultTimeoutStartSec=10s'' @ runes [34] @ '' >> /etc/systemd/system.conf'',
      [],
      ''# 1. Root '' @ runes [234, 179, 132, 236, 160, 149] @ '' '' @ runes [235, 179, 180, 236, 149, 136] @ '' '' @ runes [235, 176,
         143] @ '' '' @ runes [236, 160, 145, 234, 183, 188] @ '' '' @ runes [236, 132, 164, 236, 160, 149],
      ''hostname: '' @ vmName,
      ''disable_root: false'',
      ''ssh_deletekeys: false'',
      ''ssh_pwauth: false'',
      ''ssh_authorized_keys:'',
      ''  - '' @ sshPublicKey,
      ''users:'',
      ''  - default'',
      ''  - name: '' @ loginId,
      ''    groups: [adm, sudo]'',
      ''    shell: /bin/bash'',
      ''    lock_passwd: false'',
      ''    hashed_passwd: '' @ runes [39] @ guestPasswordHash @ runes [39],
      ''    sudo: ['' @ runes [34] @ ''ALL=(ALL) NOPASSWD:ALL'' @ runes [34] @ '']'',
      ''    ssh_authorized_keys:'',
      ''      - '' @ sshPublicKey,
      [],
      ''# VM '' @ runes [236, 158, 172, 236, 139, 156, 236, 158, 145] @ '' '' @ runes [237, 155, 132, 236, 151, 144, 235, 143, 132] @
         '' NIC'' @ runes [234, 176, 128] @ '' '' @ runes [235, 130, 180, 235, 160, 164, 234, 176, 128] @ '' '' @ runes [236, 158, 136,
         236, 156, 188, 235, 169, 180] @ '' '' @ runes [235, 139, 164, 236, 139, 156] @ '' '' @ runes [236, 152, 172, 235, 166, 172,
         234, 179, 160] @ '' DHCP'' @ runes [235, 165, 188] @ '' '' @ runes [234, 176, 177, 236, 139, 160, 237, 149, 156, 235, 139,
         164] @ ''.'',
      ''write_files:'',
      ''  - path: /usr/local/sbin/kite-network-restore.sh'',
      ''    permissions: '' @ runes [39] @ ''0755'' @ runes [39],
      ''    owner: root:root'',
      ''    content: |'',
      ''      #!/bin/bash'',
      ''      set -euo pipefail'',
      [],
      ''      iface='' @ runes [34] @ ''$(ip -o link show | awk -F'' @ runes [39] @ '': '' @ runes [39] @ '' '' @ runes [39] @
         ''$2 != '' @ runes [34] @ ''lo'' @ runes [34] @ '' { print $2; exit }'' @ runes [39] @ '')'' @ runes [34],
      ''      if [ -z '' @ runes [34] @ ''$iface'' @ runes [34] @ '' ]; then'',
      ''        exit 0'',
      ''      fi'',
      [],
      ''      ip link set '' @ runes [34] @ ''$iface'' @ runes [34] @ '' up || true'',
      [],
      ''      if command -v dhclient >/dev/null 2>&1; then'',
      ''        dhclient '' @ runes [34] @ ''$iface'' @ runes [34] @ '' -nw || true'',
      ''        exit 0'',
      ''      fi'',
      [],
      ''      if command -v netplan >/dev/null 2>&1; then'',
      ''        netplan apply || true'',
      ''      fi'',
      [],
      ''      systemctl restart systemd-networkd 2>/dev/null || true'',
      ''  - path: /etc/systemd/system/kite-network-restore.service'',
      ''    permissions: '' @ runes [39] @ ''0644'' @ runes [39],
      ''    owner: root:root'',
      ''    content: |'',
      ''      [Unit]'',
      ''      Description=Restore Kite VM network after boot'',
      ''      After=network-pre.target'',
      ''      Wants=network-pre.target'',
      [],
      ''      [Service]'',
      ''      Type=oneshot'',
      ''      ExecStart=/usr/local/sbin/kite-network-restore.sh'',
      ''      RemainAfterExit=yes'',
      [],
      ''      [Install]'',
      ''      WantedBy=multi-user.target'',
      [],
      ''# 2. '' @ runes [236, 139, 156, 236, 138, 164, 237, 133, 156] @ '' '' @ runes [235, 182, 128, 237, 140, 133] @ '' '' @
         runes [236, 139, 156] @ '' '' @ runes [236, 139, 164, 237, 150, 137, 237, 149, 160] @ '' '' @ runes [235, 170, 133, 235, 160,
         185, 236, 150, 180] @ '' ('' @ runes [235, 159, 176, 237, 131, 128, 236, 158, 132] @ '' '' @ runes [236, 132, 164, 236, 160,
         149] @ '')'',
      ''runcmd:'',
      ''  # sshd '' @ runes [236, 132, 156, 235, 178, 132] @ '' '' @ runes [236, 139, 164, 237, 150, 137, 236, 157, 132] @ '' '' @
         runes [236, 156, 132, 237, 149, 156] @ '' '' @ runes [236, 164, 128, 235, 185, 132] @ '' VM '' @ runes [236, 139, 156, 236,
         158, 145, 236, 139, 156] @ '' /run '' @ runes [236, 180, 136, 234, 184, 176, 237, 153, 148, 235, 144, 152, 236, 150, 180] @
         '' sshd'' @ runes [234, 176, 128] @ '' '' @ runes [236, 139, 164, 237, 150, 137, 235, 144, 152, 236, 167, 128] @ '' '' @
         runes [236, 149, 138, 236, 157, 140],
      ''  - mkdir -p /run/sshd'',
      ''  - chmod 755 /run/sshd'',
      [],
      ''  # sshd '' @ runes [236, 132, 156, 235, 185, 132, 236, 138, 164, 235, 165, 188] @ '' '' @ runes [236, 156, 132, 237, 149,
         156] @ '' RuntimeDirectory '' @ runes [236, 132, 164, 236, 160, 149],
      ''  - sed -i '' @ runes [39] @ ''/'' @ runes [92] @ ''[Service'' @ runes [92] @ '']/a RuntimeDirectory=sshd'' @ runes [92] @
         ''nRuntimeDirectoryMode=0755'' @ runes [39] @ '' /lib/systemd/system/ssh.service'',
      ''  - systemctl daemon-reload'',
      [],
      ''  # SSHD '' @ runes [236, 132, 164, 236, 160, 149] @ '' '' @ runes [236, 136, 152, 236, 160, 149] @ '': Kite gateway'' @
         runes [234, 176, 128] @ '' '' @ runes [234, 180, 128, 235, 166, 172, 237, 149, 152, 235, 138, 148] @ '' SSH key'' @
         runes [235, 161, 156] @ '' '' @ runes [236, 160, 145, 236, 134, 141, 237, 149, 156, 235, 139, 164] @ ''.'',
      ''  - sed -i '' @ runes [39] @ ''s/^#'' @ runes [92] @ ''?PermitRootLogin.*/PermitRootLogin yes/'' @ runes [39] @
         '' /etc/ssh/sshd_config'',
      ''  - sed -i '' @ runes [39] @ ''s/^#'' @ runes [92] @ ''?PasswordAuthentication.*/PasswordAuthentication no/'' @ runes [39] @
         '' /etc/ssh/sshd_config'',
      ''  '',
      ''  # SSH '' @ runes [236, 132, 156, 235, 185, 132, 236, 138, 164] @ '' '' @ runes [236, 158, 172, 236, 139, 156, 236, 158,
         145] @ '' ('' @ runes [235, 179, 128, 234, 178, 189, 236, 130, 172, 237, 149, 173] @ '' '' @ runes [236, 160, 129, 236, 154,
         169] @ '')'',
      ''  - systemctl restart ssh'',
      [],
      ''  # VM '' @ runes [236, 158, 172, 236, 139, 156, 236, 158, 145, 235, 167, 136, 235, 139, 164] @ '' NIC UP/DHCP '' @ runes [235,
         179, 181, 234, 181, 172, 234, 176, 128] @ '' '' @ runes [236, 139, 164, 237, 150, 137, 235, 144, 152, 235, 143, 132, 235, 161,
         157] @ '' systemd'' @ runes [236, 151, 144] @ '' '' @ runes [235, 147, 177, 235, 161, 157],
      ''  - systemctl enable kite-network-restore.service'',
      ''  - systemctl start kite-network-restore.service'',
      ''  '',
      ''  # '' @ runes [237, 132, 176, 235, 175, 184, 235, 132, 144] @ '' '' @ runes [237, 148, 132, 235, 161, 172, 237, 148, 132, 237,
         138, 184] @ '' '' @ runes [236, 132, 164, 236, 160, 149] @ '' ('' @ runes [236, 154, 148, 236, 178, 173, 237, 149, 152, 236,
         139, 160] @ '' '' @ runes [236, 180, 136, 235, 161, 157, 236, 131, 137] @ '' '' @ runes [237, 152, 184, 236, 138, 164, 237,
         138, 184, 235, 132, 164, 236, 158, 132] @ '')'',
      ''  - echo '' @ runes [39] @ ''export PS1='' @ runes [34, 92] @ ''['' @ runes [92] @ ''e[32m'' @ runes [92] @ '']'' @
         runes [92] @ ''u@'' @ runes [92] @ ''h'' @ runes [92] @ ''['' @ runes [92] @ ''e[m'' @ runes [92] @ '']:'' @ runes [92] @
         ''['' @ runes [92] @ ''e[34m'' @ runes [92] @ '']'' @ runes [92] @ ''w'' @ runes [92] @ ''['' @ runes [92] @ ''e[m'' @
         runes [92] @ '']'' @ runes [92] @ ''$ '' @ runes [34, 39] @ '' >> /root/.bashrc'',
      [],
      ''  # ('' @ runes [236, 152, 181, 236, 133, 152] @ '') '' @ runes [237, 153, 152, 236, 152, 129] @ '' '' @ runes [235, 169, 148,
         236, 139, 156, 236, 167, 128] @ '' '' @ runes [236, 182, 148, 234, 176, 128],
      ''  - apt-get update'',
      ''  - apt-get install -y figlet'',
      ''  - figlet '' @ runes [34] @ ''Virtual Cloud'' @ runes [34] @ '' > /etc/motd'',
      [],
      ''# 3. '' @ runes [235, 167, 136, 236, 167, 128, 235, 167, 137] @ '' '' @ runes [235, 166, 172, 237, 143, 172, 237, 138, 184] @
         '' '' @ runes [236, 131, 157, 236, 132, 177] @ '' ('' @ runes [235, 148, 148, 235, 178, 132, 234, 185, 133, 236, 154, 169] @
         '')'',
      ''final_message: '' @ runes [34] @ ''The system is finally up, after $UPTIME seconds'' @ runes [34]]"

definition cloudConfig :: "string \<Rightarrow> string \<Rightarrow> string \<Rightarrow> string \<Rightarrow> string" where
  "cloudConfig vmName loginId sshPublicKey guestPasswordHash =
     concat (map (\<lambda>line. line @ [CHR 0x0A]) (cloudConfigLines vmName loginId sshPublicKey guestPasswordHash))"

definition cloudInitTemplate :: "string \<Rightarrow> string \<Rightarrow> string \<Rightarrow> string \<Rightarrow> string \<Rightarrow> kobj" where
  "cloudInitTemplate vmName namespace loginId sshPublicKey guestPasswordHash =
     newObject ''Secret'' namespace (vmName @ ''-cloud-init-userdata'') (ownerLabels vmName namespace)
       [(''stringData'', GMap [(''userdata'', GStr (cloudConfig vmName loginId sshPublicKey guestPasswordHash))])]"

definition kubevirtMachineTemplate :: "string \<Rightarrow> string \<Rightarrow> string \<Rightarrow> int \<Rightarrow> string \<Rightarrow> kobj" where
  "kubevirtMachineTemplate vmName namespace memory cpu runStrategy =
     newObject ''VirtualMachine'' namespace vmName (ownerLabels vmName namespace)
       [(''spec'', GMap
          [(''runStrategy'', GStr runStrategy),
           (''template'', GMap
             [(''metadata'', GMap [(''labels'', GMap (map (\<lambda>(l, x). (l, GStr x)) (ownerLabels vmName namespace)))]),
              (''spec'', GMap
                [(''domain'', GMap
                   [(''resources'', GMap [(''requests'', GMap [(''memory'', GStr memory), (''cpu'', GInt cpu)])]),
                    (''devices'', GMap [(''disks'', GList
                       [GMap [(''name'', GStr ''rootdisk''), (''disk'', GMap [(''bus'', GStr ''virtio'')])],
                        GMap [(''name'', GStr ''cloudinitdisk''), (''disk'', GMap [(''bus'', GStr ''virtio'')])]])])]),
                 (''volumes'', GList
                   [GMap [(''name'', GStr ''rootdisk''), (''dataVolume'', GMap [(''name'', GStr (vmName @ ''-disk''))])],
                    GMap [(''name'', GStr ''cloudinitdisk''),
                          (''cloudInitNoCloud'', GMap [(''secretRef'', GMap [(''name'', GStr (vmName @ ''-cloud-init-userdata''))])])]])])])])]"

definition servicePortTemplate :: "string \<Rightarrow> string \<Rightarrow> string \<Rightarrow> int \<Rightarrow> kobj" where
  "servicePortTemplate name vmName namespace port =
     newObject ''Service'' namespace name (ownerLabels vmName namespace)
       [(''spec'', GMap
          [(''type'', GStr ''ClusterIP''),
           (''selector'', GMap [(''vm.kubevirt.io/name'', GStr vmName)]),
           (''ports'', GList [GMap [(''port'', GInt port), (''targetPort'', GInt port)]])])]"

definition vmServiceTemplate :: "string \<Rightarrow> string \<Rightarrow> kobj list" where
  "vmServiceTemplate vmName namespace =
     [servicePortTemplate (''vps-access-'' @ vmName) vmName namespace 22,
      servicePortTemplate (''vps-web-'' @ vmName) vmName namespace 80]"

definition backendPath :: "string \<Rightarrow> string \<Rightarrow> int \<Rightarrow> gov" where
  "backendPath path service port =
     GMap [(''path'', GStr path), (''pathType'', GStr ''Prefix''),
       (''backend'', GMap [(''service'', GMap [(''name'', GStr service), (''port'', GMap [(''number'', GInt port)])])])]"

definition tlsSection :: "string \<Rightarrow> string \<Rightarrow> gomap" where
  "tlsSection host tlsSecretName =
     (if tlsSecretName \<noteq> [] then [(''tls'', GList [GMap [(''hosts'', GList [GStr host]), (''secretName'', GStr tlsSecretName)]])] else [])"

definition annotated :: "(string \<times> string) list \<Rightarrow> gomap" where
  "annotated annotations = [(''metadata'', GMap [(''annotations'', GMap (map (\<lambda>(a, x). (a, GStr x)) annotations))])]"

definition ingressTemplate :: "string \<Rightarrow> string \<Rightarrow> string \<Rightarrow> string \<Rightarrow> kobj" where
  "ingressTemplate vmName namespace domainName tlsSecretName =
     newObject ''Ingress'' namespace vmName (ownerLabels vmName namespace)
       (annotated
          [(''kubernetes.io/ingress.class'', ''traefik''),
           (''traefik.ingress.kubernetes.io/router.entrypoints'', ''websecure''),
           (''traefik.ingress.kubernetes.io/router.tls'', ''true'')] @
        [(''spec'', GMap
          (tlsSection domainName tlsSecretName @
           [(''rules'', GList
              [GMap [(''host'', GStr domainName),
                 (''http'', GMap [(''paths'', GList [backendPath ''/'' (''vps-web-'' @ vmName) 80])])]])]))])"

section \<open>The templates of the platform\<close>

definition platformLabels :: "(string \<times> string) list" where
  "platformLabels = [(''hy3ons.github.io/managed-by'', ''kite-controller''), (''hy3ons.github.io/platform-ingress'', ''true'')]"

definition platformPaths :: gov where
  "platformPaths = GMap [(''paths'', GList [backendPath ''/api'' ''kite-api'' 8080, backendPath ''/'' ''kite-frontend'' 80])]"

definition platformIngressTemplate :: "string \<Rightarrow> string \<Rightarrow> bool \<Rightarrow> string \<Rightarrow> kobj" where
  "platformIngressTemplate namespace host forceHTTPS tlsSecretName =
     newObject ''Ingress'' namespace ''kite-platform'' platformLabels
       (annotated ((''kubernetes.io/ingress.class'', ''traefik'') #
          (if forceHTTPS
           then [(''traefik.ingress.kubernetes.io/router.entrypoints'', ''websecure''), (''traefik.ingress.kubernetes.io/router.tls'', ''true'')]
           else [(''traefik.ingress.kubernetes.io/router.entrypoints'', ''web'')])) @
        [(''spec'', GMap
          (tlsSection host tlsSecretName @
           [(''rules'', GList [GMap ((if host \<noteq> [] then [(''host'', GStr host)] else []) @ [(''http'', platformPaths)])])]))])"

definition platformHTTPRedirectTemplate :: "string \<Rightarrow> string \<Rightarrow> kobj" where
  "platformHTTPRedirectTemplate namespace host =
     newObject ''Ingress'' namespace ''kite-platform-http-redirect'' platformLabels
       (annotated
          [(''kubernetes.io/ingress.class'', ''traefik''),
           (''traefik.ingress.kubernetes.io/router.entrypoints'', ''web''),
           (''traefik.ingress.kubernetes.io/router.middlewares'', namespace @ ''-kite-platform-https-redirect@kubernetescrd'')] @
        [(''spec'', GMap [(''rules'', GList [GMap [(''host'', GStr host), (''http'', platformPaths)]])])])"

definition platformHTTPSRedirectTemplate :: "string \<Rightarrow> kobj" where
  "platformHTTPSRedirectTemplate namespace =
     newObject ''Middleware'' namespace ''kite-platform-https-redirect'' platformLabels
       [(''spec'', GMap [(''redirectScheme'', GMap [(''scheme'', GStr ''https''), (''permanent'', GBool True)])])]"

section \<open>Rendering\<close>

text \<open>The objects of a template for given fields; \<open>None\<close> when a field is not plain, or for another template.\<close>

definition plainFields :: "(string \<times> string) list \<Rightarrow> string list \<Rightarrow> bool" where
  "plainFields data names \<longleftrightarrow> list_all (\<lambda>f. plainScalar (dataAt data f)) names"

definition plainOptional :: "(string \<times> string) list \<Rightarrow> string \<Rightarrow> bool" where
  "plainOptional data f \<longleftrightarrow> dataAt data f = [] \<or> plainScalar (dataAt data f)"

definition renderTemplate :: "string \<Rightarrow> (string \<times> string) list \<Rightarrow> kobj list option" where
  "renderTemplate template data =
     (let field = dataAt data; vmName = field ''VmName''; namespace = field ''Namespace'' in
      if template = ''data-volume.yaml'' then
        (if plainFields data [''VmName'', ''Namespace'', ''VmImage'', ''Storage''] \<and> plainOptional data ''StorageClassName''
         then Some [dataVolumeTemplate vmName namespace (field ''VmImage'') (field ''Storage'') (field ''StorageClassName'')] else None)
      else if template = ''ubuntu-22.04-init.yaml'' then
        (if plainFields data [''VmName'', ''Namespace''] \<and> list_all (\<lambda>f. plainLine (field f)) [''Id'', ''SSHPublicKey'', ''GuestPasswordHash'']
         then Some [cloudInitTemplate vmName namespace (field ''Id'') (field ''SSHPublicKey'') (field ''GuestPasswordHash'')] else None)
      else if template = ''kubevirt-machine.yaml'' then
        (case Atoi (field ''CPU'') of
           Inl _ \<Rightarrow> None
         | Inr cpu \<Rightarrow>
             if Itoa cpu = field ''CPU'' \<and> plainFields data [''VmName'', ''Namespace'', ''Memory'', ''RunStrategy'']
             then Some [kubevirtMachineTemplate vmName namespace (field ''Memory'') cpu (field ''RunStrategy'')] else None)
      else if template = ''vm-service.yaml'' then
        (if plainFields data [''VmName'', ''Namespace''] then Some (vmServiceTemplate vmName namespace) else None)
      else if template = ''ingress.yaml'' then
        (if plainFields data [''VmName'', ''Namespace'', ''DomainName''] \<and> plainOptional data ''TLSSecretName''
         then Some [ingressTemplate vmName namespace (field ''DomainName'') (field ''TLSSecretName'')] else None)
      else if template = ''platform-ingress.yaml'' then
        (if plainFields data [''Namespace''] \<and> plainOptional data ''Host'' \<and> plainOptional data ''TLSSecretName''
         then Some [platformIngressTemplate namespace (field ''Host'') (field ''ForceHTTPS'' = ''true'') (field ''TLSSecretName'')] else None)
      else if template = ''platform-http-redirect.yaml'' then
        (if plainFields data [''Namespace'', ''Host''] then Some [platformHTTPRedirectTemplate namespace (field ''Host'')] else None)
      else if template = ''platform-https-redirect.yaml'' then
        (if plainFields data [''Namespace''] then Some [platformHTTPSRedirectTemplate namespace] else None)
      else None)"

text \<open>What the code relies on of \<open>text/template\<close> and the YAML decoder: plain values arrive in the decoded objects as they are.\<close>

definition templateEngine :: "converters \<Rightarrow> bool" where
  "templateEngine C \<longleftrightarrow> (\<forall>template data objs. renderTemplate template data = Some objs \<longrightarrow> cv_render C template data = Inr objs)"

lemma engine_RenderAll: "templateEngine C \<Longrightarrow> renderTemplate template data = Some objs \<Longrightarrow> cv_render C template data = Inr objs"
  by (simp add: templateEngine_def)

lemma engine_Render: "templateEngine C \<Longrightarrow> renderTemplate template data = Some (obj # objs) \<Longrightarrow> Render C template data = Inr obj"
  by (simp add: Render_def engine_RenderAll)

section \<open>The objects of a machine\<close>

definition machineObjects :: "KiteVirtualMachine \<Rightarrow> string \<Rightarrow> string \<Rightarrow> string \<Rightarrow> string \<Rightarrow> string \<Rightarrow> kobj list" where
  "machineObjects vm domain publicKey guestPasswordHash storageClassName tlsSecretName =
     [dataVolumeTemplate (kv_name vm) (kv_namespace vm) (vs_image (kv_spec vm)) (vs_disk (kv_spec vm)) storageClassName,
      cloudInitTemplate (kv_name vm) (kv_namespace vm) (vs_sshID (kv_spec vm)) publicKey guestPasswordHash,
      kubevirtMachineTemplate (kv_name vm) (kv_namespace vm) (vs_memory (kv_spec vm)) (vs_cpu (kv_spec vm)) (kubeVirtRunStrategyForKiteVM vm)] @
     vmServiceTemplate (kv_name vm) (kv_namespace vm) @
     (if domain \<noteq> [] then [ingressTemplate (kv_name vm) (kv_namespace vm) domain tlsSecretName] else [])"

text \<open>A VM whose names and spec are plain.\<close>

definition plainMachine :: "KiteVirtualMachine \<Rightarrow> bool" where
  "plainMachine vm \<longleftrightarrow> plainScalar (kv_name vm) \<and> plainScalar (kv_namespace vm) \<and> plainScalar (vs_image (kv_spec vm)) \<and>
     plainScalar (vs_disk (kv_spec vm)) \<and> plainScalar (vs_memory (kv_spec vm)) \<and> plainLine (vs_sshID (kv_spec vm)) \<and>
     inInt64 (vs_cpu (kv_spec vm))"

lemma plain_constants:
  "plainScalar ''Always''" "plainScalar ''Halted''" "plainScalar ''global-tls-secret''" "plainScalar ''kite''" "plainScalar ''kite-vm-storage''"
  by code_simp+

lemma desiredObjects_templates:
  assumes engine: "templateEngine C" and vm: "plainMachine vm" and plain: "domain = [] \<or> plainScalar domain" "plainLine pk" "plainLine gh"
    "sc = [] \<or> plainScalar sc" "tls = [] \<or> plainScalar tls"
  shows "kiteVirtualMachineDesiredObjects C vm domain pk gh sc tls = Inr (machineObjects vm domain pk gh sc tls)"
proof -
  let ?n = "kv_name vm" and ?ns = "kv_namespace vm"
  have run: "plainScalar (kubeVirtRunStrategyForKiteVM vm)" by (simp add: kubeVirtRunStrategyForKiteVM_def plain_constants)
  note defs = renderTemplate_def Let_def plainFields_def plainOptional_def dataAt_def
  note render = engine_Render[OF engine]
  have "DataVolumeData_Render C ?n ?ns (vs_image (kv_spec vm)) (vs_disk (kv_spec vm)) sc =
      Inr (dataVolumeTemplate ?n ?ns (vs_image (kv_spec vm)) (vs_disk (kv_spec vm)) sc)"
    unfolding DataVolumeData_Render_def by (rule render) (use vm plain in \<open>simp add: defs plainMachine_def\<close>)
  moreover have "Ubuntu2204CloudInit_Render C ?n ?ns (vs_sshID (kv_spec vm)) pk gh = Inr (cloudInitTemplate ?n ?ns (vs_sshID (kv_spec vm)) pk gh)"
    unfolding Ubuntu2204CloudInit_Render_def by (rule render) (use vm plain in \<open>simp add: defs plainMachine_def\<close>)
  moreover have "KubevirtMachineData_Render C ?n ?ns (vs_memory (kv_spec vm)) (Itoa (vs_cpu (kv_spec vm))) (kubeVirtRunStrategyForKiteVM vm) =
      Inr (kubevirtMachineTemplate ?n ?ns (vs_memory (kv_spec vm)) (vs_cpu (kv_spec vm)) (kubeVirtRunStrategyForKiteVM vm))"
    unfolding KubevirtMachineData_Render_def by (rule render) (use vm run in \<open>simp add: defs plainMachine_def Atoi_Itoa\<close>)
  moreover have "ServiceData_RenderAll C ?n ?ns = Inr (vmServiceTemplate ?n ?ns)"
    unfolding ServiceData_RenderAll_def by (rule engine_RenderAll[OF engine]) (use vm in \<open>simp add: defs plainMachine_def\<close>)
  moreover have "domain \<noteq> [] \<Longrightarrow> IngressData_Render C ?n ?ns domain tls = Inr (ingressTemplate ?n ?ns domain tls)"
    unfolding IngressData_Render_def by (rule render) (use vm plain in \<open>auto simp: defs plainMachine_def\<close>)
  ultimately show ?thesis
    by (simp add: kiteVirtualMachineDesiredObjects_def tryRender_def machineObjects_def)
qed

text \<open>Every object of a machine is of one of the five kinds, in the namespace of the VM, under one of the child names, with the ownership labels.\<close>

definition childObject :: "string \<Rightarrow> string \<Rightarrow> kobj \<Rightarrow> bool" where
  "childObject ns n obj \<longleftrightarrow> resourceOwnedByKiteVirtualMachine obj ns n \<and> k_namespace obj = ns \<and>
     (\<exists>g. kiteVirtualMachineObjectGVR obj = Inr g \<and> (g, ns, k_name obj) \<in> childKeys ns n)"

lemma ownerLabels_own: "resourceOwnedByKiteVirtualMachine (newObject kind ns name (ownerLabels n ns) body) ns n"
  by (simp add: resourceOwnedByKiteVirtualMachine_def labelOf_def ownerLabels_def newObject_def kiteManagedByLabel_def
      kiteControllerLabel_def kiteVMNameLabel_def kiteVMNamespaceLabel_def)

lemma machineObjects_children:
  assumes "obj \<in> set (machineObjects vm domain pk gh sc tls)"
  shows "childObject (kv_namespace vm) (kv_name vm) obj"
  using assms
  by (auto simp: machineObjects_def vmServiceTemplate_def dataVolumeTemplate_def cloudInitTemplate_def kubevirtMachineTemplate_def
      servicePortTemplate_def ingressTemplate_def childObject_def ownerLabels_own kiteVirtualMachineObjectGVR_def childKeys_def ownedResources_def)

definition objectKey :: "kobj \<Rightarrow> kkey" where
  "objectKey obj = (case kiteVirtualMachineObjectGVR obj of Inl _ \<Rightarrow> (secretGVR, [], []) | Inr g \<Rightarrow> (g, k_namespace obj, k_name obj))"

lemma machineObjects_distinct: "distinct (map objectKey (machineObjects vm domain pk gh sc tls))"
  by (simp add: machineObjects_def vmServiceTemplate_def dataVolumeTemplate_def cloudInitTemplate_def kubevirtMachineTemplate_def
      servicePortTemplate_def ingressTemplate_def objectKey_def kiteVirtualMachineObjectGVR_def)

section \<open>What apply keeps of the content\<close>

lemma frames_at: "frames v K m \<Longrightarrow> k \<notin> K \<Longrightarrow> v s k = x \<Longrightarrow> wp m (\<lambda>r s'. v s' k = x) s"
  by (rule wpI) (metis framesD)

text \<open>
  Quantities may be stored in another form (KubeVirt and CDI write \<open>cpu: 2\<close> as \<open>"2"\<close> and \<open>4096Mi\<close> as \<open>"4Gi"\<close>).
\<close>

definition binaryUnit :: "char \<Rightarrow> int" where
  "binaryUnit c = (case map_of (zip ''KMGTPE'' [1, 2, 3, 4, 5, 6]) c of None \<Rightarrow> 0 | Some e \<Rightarrow> 1024 ^ e)"

definition quantityOf :: "gov \<Rightarrow> int option" where
  "quantityOf v =
     (case v of
        GInt i \<Rightarrow> Some i
      | GStr s \<Rightarrow>
          (if s \<noteq> [] \<and> list_all isDigitByte s then map_option int (parseDigits 0 s)
           else if plainQuantity s
           then map_option (\<lambda>n. int n * binaryUnit (last (butlast s))) (parseDigits 0 (butlast (butlast s)))
           else None)
      | _ \<Rightarrow> None)"

inductive carries :: "gov \<Rightarrow> gov \<Rightarrow> bool" where
  carries_same: "carries v v"
| carries_quantity: "quantityOf v = Some q \<Longrightarrow> quantityOf v' = Some q \<Longrightarrow> carries v v'"
| carries_map: "(\<And>k v. map_of m k = Some v \<Longrightarrow> \<exists>v'. map_of m' k = Some v' \<and> carries v v') \<Longrightarrow> carries (GMap m) (GMap m')"
| carries_list: "(\<And>v. v \<in> set vs \<Longrightarrow> \<exists>v' \<in> set vs'. carries v v') \<Longrightarrow> carries (GList vs) (GList vs')"

text \<open>The strings of \<open>stringData\<close> end up base64-encoded in \<open>data\<close>; the in-memory client of the tests keeps \<open>stringData\<close>.\<close>

definition stringsHeld :: "gomap \<Rightarrow> kobj \<Rightarrow> bool" where
  "stringsHeld m stored \<longleftrightarrow>
     (\<forall>k x. map_of m k = Some (GStr x) \<longrightarrow>
        (\<exists>m'. objField stored ''stringData'' = Some (GMap m') \<and> map_of m' k = Some (GStr x)) \<or>
        (\<exists>m'. objField stored ''data'' = Some (GMap m') \<and> map_of m' k = Some (GStr (StdEncoding_EncodeToString x))))"

definition contentApplied :: "kobj \<Rightarrow> kobj \<Rightarrow> bool" where
  "contentApplied obj stored \<longleftrightarrow>
     (\<forall>f v. objField obj f = Some v \<and> f \<noteq> ''stringData'' \<longrightarrow> (\<exists>v'. objField stored f = Some v' \<and> carries v v')) \<and>
     (\<forall>m. objField obj ''stringData'' = Some (GMap m) \<longrightarrow> stringsHeld m stored)"

text \<open>The stored object has every field, list element and string that was applied.\<close>

locale apply_api = kube_api E view for E :: "'s env" and view +
  assumes apply_content: "run_state (env_apply E g ns obj) s = (Inr stored, s') \<Longrightarrow> contentApplied obj stored"
begin

lemma wp_apply_content:
  assumes "\<And>s' e. view s' = view s \<Longrightarrow> Q (Inl e) s'"
    and "\<And>s' stored. applied g ns obj (view s) (view s') stored \<Longrightarrow> contentApplied obj stored \<Longrightarrow> Q (Inr stored) s'"
    and "\<And>s' stored e. applied g ns obj (view s) (view s') stored \<Longrightarrow> indefinite e \<Longrightarrow> Q (Inl e) s'"
  shows "wp (env_apply E g ns obj) Q s"
proof (rule wpI)
  fix r s' assume run: "run_state (env_apply E g ns obj) s = (r, s')"
  show "Q r s'"
    using apply_law[OF run] run apply_content[of g ns obj s _ s'] by (auto simp: writeOutcome_def intro: assms)
qed

end

lemma mem_apply_api: "apply_api mem_env mem_view"
proof -
  have "contentApplied obj stored" if "run_state (env_apply mem_env g ns obj) s = (Inr stored, s')" for g ns obj s stored s'
  proof -
    from that have "\<And>f v. map_of (k_body obj) f = Some v \<Longrightarrow> map_of (k_body stored) f = Some v"
      by (auto simp: mem_env_def mem_apply_def mem_call_def Let_def merge_conv'
          split: list.splits fault.splits option.splits prod.splits sum.splits if_splits)
    then show ?thesis
      by (auto simp: contentApplied_def stringsHeld_def objField_def intro: carries_same)
  qed
  then show ?thesis
    by (intro apply_api.intro mem_kube_api) (simp add: apply_api_axioms_def)
qed

interpretation memApply: apply_api mem_env mem_view
  by (rule mem_apply_api)

end
