(* ===== verification/Platform_Ingress.thy ===== *)
theory Platform_Ingress
  imports Gateway_Exposure Templates
begin

text \<open>
  The Ingress of the platform itself: \<open>cmd/kite-controller/apps/platform-ingress-reconcile.go\<close> with the
  renderers \<open>internal/render/platform-ingress\<close>, \<open>platform-http-redirect\<close> and \<open>platform-https-redirect\<close>.
  The runtime ConfigMap names the host and whether plain HTTP is redirected; a redirect needs the
  platform certificate.
\<close>

section \<open>Renderers\<close>

definition PlatformIngressData_Render :: "converters \<Rightarrow> string \<Rightarrow> string \<Rightarrow> bool \<Rightarrow> string \<Rightarrow> kobj result" where
  "PlatformIngressData_Render C namespace host forceHTTPS tlsSecretName =
     Render C ''platform-ingress.yaml''
       [(''Namespace'', namespace), (''Host'', host), (''ForceHTTPS'', FormatBool forceHTTPS), (''TLSSecretName'', tlsSecretName)]"

definition PlatformHTTPRedirectData_Render :: "converters \<Rightarrow> string \<Rightarrow> string \<Rightarrow> kobj result" where
  "PlatformHTTPRedirectData_Render C namespace host =
     (if TrimSpace host = [] then Inl (Plain ''platform HTTP redirect host is required'')
      else Render C ''platform-http-redirect.yaml'' [(''Namespace'', namespace), (''Host'', host)])"

definition PlatformHTTPSRedirectData_Render :: "converters \<Rightarrow> string \<Rightarrow> kobj result" where
  "PlatformHTTPSRedirectData_Render C namespace = Render C ''platform-https-redirect.yaml'' [(''Namespace'', namespace)]"

section \<open>Operations\<close>

definition applyKitePlatformIngress :: "'s env \<Rightarrow> kobj \<Rightarrow> ('s, unit result) state" where
  "applyKitePlatformIngress E ingressObject = do {
     r \<leftarrow> env_apply E ingressGVR (k_namespace ingressObject) ingressObject;
     case r of
       Inl e \<Rightarrow> fail (Wrapped (''failed to apply Kite platform Ingress '' @ k_namespace ingressObject @ ''/'' @ k_name ingressObject @ '': '') e [])
     | Inr _ \<Rightarrow> ok ()
   }"

definition applyKitePlatformHTTPSRedirect :: "'s env \<Rightarrow> kobj \<Rightarrow> ('s, unit result) state" where
  "applyKitePlatformHTTPSRedirect E middlewareObject = do {
     r \<leftarrow> env_apply E traefikMiddlewareGVR (k_namespace middlewareObject) middlewareObject;
     case r of
       Inl e \<Rightarrow> fail (Wrapped (''failed to apply Kite platform HTTPS redirect middleware '' @ k_namespace middlewareObject @ ''/'' @
                  k_name middlewareObject @ '': '') e [])
     | Inr _ \<Rightarrow> ok ()
   }"

definition deleteKitePlatformHTTPSRedirect :: "'s env \<Rightarrow> ('s, unit result) state" where
  "deleteKitePlatformHTTPSRedirect E = do {
     r \<leftarrow> env_delete E ingressGVR KiteNamespace ''kite-platform-http-redirect'';
     case r of
       Inl e \<Rightarrow>
         if \<not> apiIsNotFound e then fail (Wrapped ''failed to delete Kite platform HTTPS redirect Ingress: '' e [])
         else do { _ \<leftarrow> env_delete E traefikMiddlewareGVR KiteNamespace ''kite-platform-https-redirect''; ok () }
     | Inr _ \<Rightarrow> do { _ \<leftarrow> env_delete E traefikMiddlewareGVR KiteNamespace ''kite-platform-https-redirect''; ok () }
   }"

text \<open>\<open>x, err := r; if err != nil { return fmt.Errorf(text + "%w", err) }\<close> for a renderer.\<close>

definition rendering :: "string \<Rightarrow> 'a result \<Rightarrow> ('a \<Rightarrow> ('s, 'b result) state) \<Rightarrow> ('s, 'b result) state" where
  "rendering text r k = (case r of Inl e \<Rightarrow> fail (Wrapped text e []) | Inr x \<Rightarrow> k x)"

definition configHost :: "kobj \<Rightarrow> string" where
  "configHost configMap = trimDots (TrimSpace (nestedOr [] (NestedString (k_body configMap) [''data'', BaseDomainConfigKey])))"

definition configForcesHTTPS :: "kobj \<Rightarrow> bool" where
  "configForcesHTTPS configMap = EqualFold (nestedOr [] (NestedString (k_body configMap) [''data'', ForceHTTPSConfigKey])) ''true''"

definition reconcileHostless :: "'s env \<Rightarrow> converters \<Rightarrow> ('s, unit result) state" where
  "reconcileHostless E C =
     rendering ''failed to render default Kite platform Ingress: '' (PlatformIngressData_Render C KiteNamespace [] False []) (\<lambda>ingressObject.
     tryE (applyKitePlatformIngress E ingressObject) (\<lambda>_.
     deleteKitePlatformHTTPSRedirect E))"

definition applyRedirecting :: "'s env \<Rightarrow> converters \<Rightarrow> string \<Rightarrow> kobj \<Rightarrow> ('s, unit result) state" where
  "applyRedirecting E C host ingressObject =
     rendering ''failed to render Kite platform HTTPS redirect middleware: '' (PlatformHTTPSRedirectData_Render C KiteNamespace) (\<lambda>redirectObject.
     tryE (applyKitePlatformHTTPSRedirect E redirectObject) (\<lambda>_.
     rendering ''failed to render Kite platform HTTP redirect Ingress: '' (PlatformHTTPRedirectData_Render C KiteNamespace host) (\<lambda>redirectIngressObject.
     tryE (applyKitePlatformIngress E redirectIngressObject) (\<lambda>_.
     applyKitePlatformIngress E ingressObject))))"

definition reconcileHost :: "'s env \<Rightarrow> converters \<Rightarrow> string \<Rightarrow> bool \<Rightarrow> ('s, unit result) state" where
  "reconcileHost E C host shouldForceHTTPS = do {
     h \<leftarrow> HasTLSCertificate E;
     case h of
       Inl e \<Rightarrow> fail (Wrapped ''failed to read Kite platform TLS Secret: '' e [])
     | Inr hasTLS \<Rightarrow>
         if shouldForceHTTPS \<and> \<not> hasTLS
         then fail (Plain (''cannot enable Kite platform HTTPS redirect without '' @ GlobalTLSSecretNS @ ''/'' @ GlobalTLSSecretName))
         else
           let tlsSecretName = (if hasTLS then GlobalTLSSecretName else []) in
           rendering ''failed to render Kite platform Ingress: ''
             (PlatformIngressData_Render C KiteNamespace host shouldForceHTTPS tlsSecretName) (\<lambda>ingressObject.
           if shouldForceHTTPS then applyRedirecting E C host ingressObject
           else tryE (applyKitePlatformIngress E ingressObject) (\<lambda>_. deleteKitePlatformHTTPSRedirect E))
   }"

definition ReconcileKitePlatformIngressFromConfigMap :: "'s env \<Rightarrow> converters \<Rightarrow> ('s, unit result) state" where
  "ReconcileKitePlatformIngressFromConfigMap E C =
     tryE (env_get E configMapGVR KiteNamespace RuntimeConfigName) (\<lambda>configMap.
     let host = configHost configMap; shouldForceHTTPS = configForcesHTTPS configMap in
     if host = [] then reconcileHostless E C else reconcileHost E C host shouldForceHTTPS)"

definition reconcilePlatformIngressConfigEvent :: "'s env \<Rightarrow> converters \<Rightarrow> eventObj \<Rightarrow> ('s, unit) state" where
  "reconcilePlatformIngressConfigEvent E C ev =
     (case ev of
        EventObject resource \<Rightarrow>
          if k_name resource \<noteq> RuntimeConfigName then State_Monad.return ()
          else ignoreResult (ReconcileKitePlatformIngressFromConfigMap E C)
      | _ \<Rightarrow> State_Monad.return ())"

definition reconcilePlatformTLSSecretEvent :: "'s env \<Rightarrow> converters \<Rightarrow> eventObj \<Rightarrow> ('s, unit) state" where
  "reconcilePlatformTLSSecretEvent E C ev =
     (case ev of
        EventObject resource \<Rightarrow>
          if k_name resource \<noteq> GlobalTLSSecretName \<or> k_namespace resource \<noteq> GlobalTLSSecretNS then State_Monad.return ()
          else ignoreResult (ReconcileKitePlatformIngressFromConfigMap E C)
      | _ \<Rightarrow> State_Monad.return ())"

text \<open>The handlers for added and updated objects.\<close>

definition RegisterKitePlatformIngressReconciler where
  "RegisterKitePlatformIngressReconciler E C =
     (reconcilePlatformIngressConfigEvent E C, \<lambda>oldObj newObj. reconcilePlatformIngressConfigEvent E C newObj)"

definition RegisterKitePlatformTLSSecretReconciler where
  "RegisterKitePlatformTLSSecretReconciler E C =
     (reconcilePlatformTLSSecretEvent E C, \<lambda>oldObj newObj. reconcilePlatformTLSSecretEvent E C newObj)"

section \<open>What a pass leaves behind\<close>

definition platformIngressKey :: kkey where "platformIngressKey = (ingressGVR, KiteNamespace, ''kite-platform'')"
definition httpRedirectKey :: kkey where "httpRedirectKey = (ingressGVR, KiteNamespace, ''kite-platform-http-redirect'')"
definition middlewareKey :: kkey where "middlewareKey = (traefikMiddlewareGVR, KiteNamespace, ''kite-platform-https-redirect'')"

lemmas ingressKeys = platformIngressKey_def httpRedirectKey_def middlewareKey_def globalTLSKey_def configKey_def

definition tlsAvailable :: "kview \<Rightarrow> bool" where
  "tlsAvailable v \<longleftrightarrow>
     (case v globalTLSKey of
        Some secret \<Rightarrow> hasTLSData secret
      | None \<Rightarrow> \<exists>legacy. v (secretGVR, LegacyGlobalTLSSecretNS, GlobalTLSSecretName) = Some legacy \<and> hasTLSData legacy)"

definition redirects :: "kobj \<Rightarrow> bool" where
  "redirects configMap \<longleftrightarrow> configHost configMap \<noteq> [] \<and> configForcesHTTPS configMap"

definition platformTLSName :: "kview \<Rightarrow> kobj \<Rightarrow> string" where
  "platformTLSName v configMap = (if configHost configMap \<noteq> [] \<and> tlsAvailable v then GlobalTLSSecretName else [])"

text \<open>An object of a template that is in the cluster with its content.\<close>

definition holdsAt :: "kview \<Rightarrow> kkey \<Rightarrow> kobj \<Rightarrow> bool" where
  "holdsAt v k obj \<longleftrightarrow> (\<exists>x. v k = Some x \<and> contentApplied obj x)"

definition served :: "string \<Rightarrow> bool \<Rightarrow> string \<Rightarrow> kview \<Rightarrow> bool" where
  "served host redirecting tlsSecretName v \<longleftrightarrow>
     holdsAt v platformIngressKey (platformIngressTemplate KiteNamespace host redirecting tlsSecretName) \<and>
     (if redirecting
      then holdsAt v httpRedirectKey (platformHTTPRedirectTemplate KiteNamespace host) \<and>
        holdsAt v middlewareKey (platformHTTPSRedirectTemplate KiteNamespace)
      else \<forall>x. v httpRedirectKey = Some x \<longrightarrow> k_deletionTimestamp x \<noteq> None)"

definition plainHost :: "string \<Rightarrow> bool" where
  "plainHost host \<longleftrightarrow> host = [] \<or> plainScalar host"

lemma rendered:
  assumes "templateEngine C" "plainHost host" "n = [] \<or> plainScalar n"
  shows "PlatformIngressData_Render C KiteNamespace host b n = Inr (platformIngressTemplate KiteNamespace host b n)"
    "host \<noteq> [] \<Longrightarrow> PlatformHTTPRedirectData_Render C KiteNamespace host = Inr x \<Longrightarrow> x = platformHTTPRedirectTemplate KiteNamespace host"
    "PlatformHTTPSRedirectData_Render C KiteNamespace = Inr (platformHTTPSRedirectTemplate KiteNamespace)"
proof -
  note defs = renderTemplate_def Let_def plainFields_def plainOptional_def dataAt_def KiteNamespace_def plain_constants
  have flag: "FormatBool b = ''true'' \<longleftrightarrow> b" by (simp add: FormatBool_def)
  show "PlatformIngressData_Render C KiteNamespace host b n = Inr (platformIngressTemplate KiteNamespace host b n)"
    unfolding PlatformIngressData_Render_def
    by (rule engine_Render[OF assms(1)]) (use assms(2,3) in \<open>simp add: defs flag plainHost_def\<close>)
  show "PlatformHTTPSRedirectData_Render C KiteNamespace = Inr (platformHTTPSRedirectTemplate KiteNamespace)"
    unfolding PlatformHTTPSRedirectData_Render_def by (rule engine_Render[OF assms(1)]) (simp add: defs)
  assume "host \<noteq> []" "PlatformHTTPRedirectData_Render C KiteNamespace host = Inr x"
  moreover have "Render C ''platform-http-redirect.yaml'' [(''Namespace'', KiteNamespace), (''Host'', host)] =
      Inr (platformHTTPRedirectTemplate KiteNamespace host)"
    by (rule engine_Render[OF assms(1)]) (use assms(2) \<open>host \<noteq> []\<close> in \<open>simp add: defs plainHost_def\<close>)
  ultimately show "x = platformHTTPRedirectTemplate KiteNamespace host"
    by (simp add: PlatformHTTPRedirectData_Render_def split: if_splits)
qed

lemma platformTemplate_names [simp]:
  "k_name (platformIngressTemplate ns host b n) = ''kite-platform''" "k_namespace (platformIngressTemplate ns host b n) = ns"
  "k_name (platformHTTPRedirectTemplate ns host) = ''kite-platform-http-redirect''" "k_namespace (platformHTTPRedirectTemplate ns host) = ns"
  "k_name (platformHTTPSRedirectTemplate ns) = ''kite-platform-https-redirect''" "k_namespace (platformHTTPSRedirectTemplate ns) = ns"
  by (simp_all add: platformIngressTemplate_def platformHTTPRedirectTemplate_def platformHTTPSRedirectTemplate_def)

lemma rendered_names:
  assumes "templateEngine C" "plainHost host"
  shows "PlatformIngressData_Render C KiteNamespace host b (if h then GlobalTLSSecretName else []) = Inr x \<Longrightarrow> k_name x = ''kite-platform'' \<and> k_namespace x = KiteNamespace"
    "PlatformIngressData_Render C KiteNamespace host b [] = Inr x \<Longrightarrow> k_name x = ''kite-platform'' \<and> k_namespace x = KiteNamespace"
    "host \<noteq> [] \<Longrightarrow> PlatformHTTPRedirectData_Render C KiteNamespace host = Inr x \<Longrightarrow> k_name x = ''kite-platform-http-redirect'' \<and> k_namespace x = KiteNamespace"
    "PlatformHTTPSRedirectData_Render C KiteNamespace = Inr x \<Longrightarrow> k_name x = ''kite-platform-https-redirect'' \<and> k_namespace x = KiteNamespace"
proof -
  have n: "(if h then GlobalTLSSecretName else []) = [] \<or> plainScalar (if h then GlobalTLSSecretName else [])"
    by (simp add: GlobalTLSSecretName_def plain_constants)
  note r = rendered[OF assms n] rendered[OF assms disjI1[OF refl]]
  show "PlatformIngressData_Render C KiteNamespace host b (if h then GlobalTLSSecretName else []) = Inr x \<Longrightarrow> k_name x = ''kite-platform'' \<and> k_namespace x = KiteNamespace"
    "PlatformIngressData_Render C KiteNamespace host b [] = Inr x \<Longrightarrow> k_name x = ''kite-platform'' \<and> k_namespace x = KiteNamespace"
    "PlatformHTTPSRedirectData_Render C KiteNamespace = Inr x \<Longrightarrow> k_name x = ''kite-platform-https-redirect'' \<and> k_namespace x = KiteNamespace"
    by (auto simp only: r sum.inject platformTemplate_names)
  show "host \<noteq> [] \<Longrightarrow> PlatformHTTPRedirectData_Render C KiteNamespace host = Inr x \<Longrightarrow> k_name x = ''kite-platform-http-redirect'' \<and> k_namespace x = KiteNamespace"
    by (drule (1) r(2)) simp
qed

context kube_api
begin

lemma wp_HasTLSCertificate:
  "wp (HasTLSCertificate E) (\<lambda>r s'. (\<forall>k. k \<noteq> globalTLSKey \<longrightarrow> view s' k = view s k) \<and> (tlsAvailable (view s) \<or> view s' = view s) \<and>
     (\<forall>b. r = Inr b \<longrightarrow> b = tlsAvailable (view s))) s"
  (is "wp _ ?Q s")
proof -
  have gone: "wp (migrateLegacyTLSCertificate E) ?Q s1" if same: "view s1 = view s" and none: "view s globalTLSKey = None" for s1
    unfolding migrateLegacyTLSCertificate_def wp_bind
  proof (rule wp_get; unfold sum.case)
    fix s2 legacy assume s2: "view s2 = view s1" and legacy: "view s1 (secretGVR, LegacyGlobalTLSSecretNS, GlobalTLSSecretName) = Some legacy"
    show "wp (if \<not> hasTLSData legacy then ok False else do {
        c \<leftarrow> env_create E secretGVR GlobalTLSSecretNS (newGlobalTLSSecretFromEncodedData (stringMapOr legacy ''data''));
        case c of Inl e \<Rightarrow> if apiIsAlreadyExists e then ok True else fail e | Inr _ \<Rightarrow> ok True }) ?Q s2"
    proof (cases "hasTLSData legacy")
      case True
      then have avail: "tlsAvailable (view s)" using none legacy same by (simp add: tlsAvailable_def)
      have name: "k_name (newGlobalTLSSecretFromEncodedData d) = GlobalTLSSecretName" for d by (simp add: newGlobalTLSSecretFromEncodedData_def)
      show ?thesis
        using True avail s2 same by (auto simp: wp_bind intro!: wp_create) (auto simp: wp_simps created_def name globalTLSKey_def)
    qed (use none legacy same s2 in \<open>simp add: wp_simps tlsAvailable_def\<close>)
  qed (use none same in \<open>auto simp: wp_simps tlsAvailable_def\<close>)
  show ?thesis
    unfolding HasTLSCertificate_def wp_bind
  proof (rule wp_get; unfold sum.case)
    fix s1 e assume "view s1 = view s" "apiIsNotFound e \<longrightarrow> view s (secretGVR, GlobalTLSSecretNS, GlobalTLSSecretName) = None"
    then show "wp (if apiIsNotFound e then migrateLegacyTLSCertificate E else fail e) ?Q s1"
      using gone by (auto simp: wp_fail globalTLSKey_def)
  qed (auto simp: wp_simps tlsAvailable_def globalTLSKey_def)
qed

text \<open>What each write does: it frames its key, and on success leaves the object there.\<close>

lemma frames_platformWrites:
  "(ingressGVR, k_namespace x, k_name x) \<in> K \<Longrightarrow> frames view K (applyKitePlatformIngress E x)"
  "(traefikMiddlewareGVR, k_namespace x, k_name x) \<in> K \<Longrightarrow> frames view K (applyKitePlatformHTTPSRedirect E x)"
  "httpRedirectKey \<in> K \<Longrightarrow> middlewareKey \<in> K \<Longrightarrow> frames view K (deleteKitePlatformHTTPSRedirect E)"
  unfolding applyKitePlatformIngress_def applyKitePlatformHTTPSRedirect_def deleteKitePlatformHTTPSRedirect_def httpRedirectKey_def middlewareKey_def
  by (intro frames_intros frames_apply frames_delete; simp)+

lemma wp_deleteRedirect:
  "wp (deleteKitePlatformHTTPSRedirect E) (\<lambda>r s'. view s' platformIngressKey = view s platformIngressKey \<and>
     (r = Inr () \<longrightarrow> (\<forall>x. view s' httpRedirectKey = Some x \<longrightarrow> k_deletionTimestamp x \<noteq> None))) s"
proof -
  define Q where "Q = (\<lambda>(r :: unit result) s'. view s' platformIngressKey = view s platformIngressKey \<and>
     (r = Inr () \<longrightarrow> (\<forall>x. view s' httpRedirectKey = Some x \<longrightarrow> k_deletionTimestamp x \<noteq> None)))"
  have middleware: "wp (env_delete E traefikMiddlewareGVR KiteNamespace ''kite-platform-https-redirect'' \<bind> (\<lambda>_. ok ())) Q s1"
    if "Q (Inr ()) s1" for s1
    unfolding wp_bind by (rule wp_delete) (use that in \<open>auto simp: wp_ok deleted_def ingressKeys Q_def\<close>)
  have "wp (deleteKitePlatformHTTPSRedirect E) Q s"
    unfolding deleteKitePlatformHTTPSRedirect_def wp_bind[of "env_delete E ingressGVR KiteNamespace ''kite-platform-http-redirect''"]
    by (rule wp_delete; auto simp: wp_fail intro!: middleware) (auto simp: Q_def ingressKeys deleted_def marked_def)
  then show ?thesis by (simp add: Q_def)
qed

lemma frames_rendering: "(\<And>x. r = Inr x \<Longrightarrow> frames view K (k x)) \<Longrightarrow> frames view K (rendering text r k)"
  unfolding rendering_def by (cases r) auto

lemma frames_reconcileHost:
  assumes "templateEngine C"
  shows "host \<noteq> [] \<Longrightarrow> plainHost host \<Longrightarrow> frames view {platformIngressKey, httpRedirectKey, middlewareKey, globalTLSKey} (reconcileHost E C host b)"
    and "frames view {platformIngressKey, httpRedirectKey, middlewareKey} (reconcileHostless E C)"
proof -
  assume host: "host \<noteq> []" "plainHost host"
  show "frames view {platformIngressKey, httpRedirectKey, middlewareKey, globalTLSKey} (reconcileHost E C host b)"
    unfolding reconcileHost_def applyRedirecting_def Let_def
    by (intro frames_rendering frames_intros frames_platformWrites frames_subset[OF frames_HasTLSCertificate];
        (drule rendered_names[OF assms host(2)] rendered_names(3)[OF assms host(2,1)])?; simp add: ingressKeys)
next
  have none: "plainHost []" by (simp add: plainHost_def)
  show "frames view {platformIngressKey, httpRedirectKey, middlewareKey} (reconcileHostless E C)"
    unfolding reconcileHostless_def
    by (intro frames_rendering frames_intros frames_platformWrites; (drule rendered_names(2)[OF assms none])?; simp add: ingressKeys)
qed

lemma wp_platformFrame:
  assumes "templateEngine C" and plain: "\<And>cm. view s configKey = Some cm \<Longrightarrow> plainHost (configHost cm)"
    and k: "k \<notin> {platformIngressKey, httpRedirectKey, middlewareKey, globalTLSKey}"
  shows "wp (ReconcileKitePlatformIngressFromConfigMap E C) (\<lambda>r s'. view s' k = view s k) s"
  unfolding ReconcileKitePlatformIngressFromConfigMap_def wp_tryE
proof (rule wp_get; unfold sum.case)
  fix s1 cm assume same: "view s1 = view s" and cm: "view s (configMapGVR, KiteNamespace, RuntimeConfigName) = Some cm"
  show "wp (let host = configHost cm; shouldForceHTTPS = configForcesHTTPS cm in
      if host = [] then reconcileHostless E C else reconcileHost E C host shouldForceHTTPS) (\<lambda>r s'. view s' k = view s k) s1"
    using frames_at[OF frames_reconcileHost(1)[OF assms(1)] k] frames_at[OF frames_reconcileHost(2)[OF assms(1)]] k same plain cm
    by (auto simp: Let_def configKey_def)
qed auto

end

context apply_api
begin

lemma wp_platformApply:
  "(\<And>e s'. Q (Inl e) s') \<Longrightarrow> (\<And>s' y. view s' = (view s)((ingressGVR, k_namespace x, k_name x) \<mapsto> y) \<Longrightarrow> contentApplied x y \<Longrightarrow> Q (Inr ()) s') \<Longrightarrow>
     wp (applyKitePlatformIngress E x) Q s"
  "(\<And>e s'. Q (Inl e) s') \<Longrightarrow> (\<And>s' y. view s' = (view s)((traefikMiddlewareGVR, k_namespace x, k_name x) \<mapsto> y) \<Longrightarrow> contentApplied x y \<Longrightarrow> Q (Inr ()) s') \<Longrightarrow>
     wp (applyKitePlatformHTTPSRedirect E x) Q s"
  unfolding applyKitePlatformIngress_def applyKitePlatformHTTPSRedirect_def wp_bind
  by (rule wp_apply_content; auto simp: wp_simps applied_def)+

lemma wp_redirecting:
  assumes "templateEngine C" "host \<noteq> []" "plainHost host"
  shows "wp (applyRedirecting E C host (platformIngressTemplate KiteNamespace host True n)) (\<lambda>r s'. r = Inr () \<longrightarrow> served host True n (view s')) s"
  unfolding applyRedirecting_def rendering_def rendered(3)[OF assms(1,3), of "[]", simplified] sum.case
  by (auto split: sum.split simp: wp_fail wp_tryE dest!: rendered(2)[OF assms(1,3) disjI1[OF refl] assms(2)] intro!: wp_platformApply)
     (auto simp: served_def holdsAt_def ingressKeys)

lemma wp_plain:
  "wp (tryE (applyKitePlatformIngress E (platformIngressTemplate KiteNamespace host False n)) (\<lambda>_. deleteKitePlatformHTTPSRedirect E))
     (\<lambda>r s'. r = Inr () \<longrightarrow> served host False n (view s')) s"
  unfolding wp_tryE
  by (rule wp_platformApply) (auto intro!: wp_mono[OF wp_deleteRedirect] simp: served_def holdsAt_def platformIngressKey_def)

lemma wp_reconcileHost:
  assumes engine: "templateEngine C" and host: "host \<noteq> []" "plainHost host"
  shows "wp (reconcileHost E C host b) (\<lambda>r s'. (b \<and> \<not> tlsAvailable (view s) \<longrightarrow> isl r \<and> view s' = view s) \<and>
     (r = Inr () \<longrightarrow> served host b (if tlsAvailable (view s) then GlobalTLSSecretName else []) (view s'))) s"
  unfolding reconcileHost_def wp_bind
proof (rule wp_mono[OF wp_HasTLSCertificate])
  fix h :: "bool result" and s1 assume h: "(\<forall>k. k \<noteq> globalTLSKey \<longrightarrow> view s1 k = view s k) \<and> (tlsAvailable (view s) \<or> view s1 = view s) \<and>
     (\<forall>b. h = Inr b \<longrightarrow> b = tlsAvailable (view s))"
  let ?n = "if tlsAvailable (view s) then GlobalTLSSecretName else []"
  have name: "?n = [] \<or> plainScalar ?n" by (simp add: GlobalTLSSecretName_def plain_constants)
  have pass: "wp (rendering ''failed to render Kite platform Ingress: '' (PlatformIngressData_Render C KiteNamespace host b ?n) (\<lambda>x.
      if b then applyRedirecting E C host x else tryE (applyKitePlatformIngress E x) (\<lambda>_. deleteKitePlatformHTTPSRedirect E)))
      (\<lambda>r s'. r = Inr () \<longrightarrow> served host b ?n (view s')) s1"
    unfolding rendered(1)[OF engine host(2) name] rendering_def sum.case
    using wp_redirecting[OF engine host] wp_plain by (cases b) simp_all
  show "wp (case h of Inl e \<Rightarrow> fail (Wrapped ''failed to read Kite platform TLS Secret: '' e [])
      | Inr hasTLS \<Rightarrow>
         if b \<and> \<not> hasTLS
         then fail (Plain (''cannot enable Kite platform HTTPS redirect without '' @ GlobalTLSSecretNS @ ''/'' @ GlobalTLSSecretName))
         else
           let tlsSecretName = (if hasTLS then GlobalTLSSecretName else []) in
           rendering ''failed to render Kite platform Ingress: '' (PlatformIngressData_Render C KiteNamespace host b tlsSecretName) (\<lambda>ingressObject.
           if b then applyRedirecting E C host ingressObject
           else tryE (applyKitePlatformIngress E ingressObject) (\<lambda>_. deleteKitePlatformHTTPSRedirect E)))
      (\<lambda>r s'. (b \<and> \<not> tlsAvailable (view s) \<longrightarrow> isl r \<and> view s' = view s) \<and> (r = Inr () \<longrightarrow> served host b ?n (view s'))) s1"
  proof (cases h)
    case (Inr hasTLS)
    with h have tls: "hasTLS = tlsAvailable (view s)" by blast
    then show ?thesis
    proof (cases "b \<and> \<not> hasTLS")
      case False
      from False tls have "\<not> (b \<and> \<not> tlsAvailable (view s))" by simp
      then show ?thesis
        unfolding Inr sum.case if_not_P[OF False] Let_def unfolding tls by (intro wp_mono[OF pass]) blast
    qed (use h Inr in \<open>simp add: wp_fail\<close>)
  qed (use h in \<open>auto simp: wp_fail\<close>)
qed

lemma wp_platformIngress:
  assumes engine: "templateEngine C" and plain: "\<And>cm. view s configKey = Some cm \<Longrightarrow> plainHost (configHost cm)"
  shows "wp (ReconcileKitePlatformIngressFromConfigMap E C) (\<lambda>r s'.
     (\<forall>cm. view s configKey = Some cm \<longrightarrow> redirects cm \<and> \<not> tlsAvailable (view s) \<longrightarrow> isl r \<and> view s' = view s) \<and>
     (r = Inr () \<longrightarrow> (\<exists>cm. view s configKey = Some cm \<and> served (configHost cm) (redirects cm) (platformTLSName (view s) cm) (view s')))) s"
proof -
  have hostless: "wp (reconcileHostless E C) (\<lambda>r s'. r = Inr () \<longrightarrow> served [] False [] (view s')) s1" for s1
    unfolding reconcileHostless_def rendering_def rendered(1)[OF engine, of "[]" "[]", unfolded plainHost_def, OF disjI1[OF refl] disjI1[OF refl]] sum.case
    by (rule wp_plain)
  show ?thesis
    unfolding ReconcileKitePlatformIngressFromConfigMap_def wp_tryE
  proof (rule wp_get; unfold sum.case)
    fix s1 cm assume same: "view s1 = view s" and "view s (configMapGVR, KiteNamespace, RuntimeConfigName) = Some cm"
    then have cm: "view s configKey = Some cm" by (simp add: configKey_def)
    show "wp (let host = configHost cm; shouldForceHTTPS = configForcesHTTPS cm in
        if host = [] then reconcileHostless E C else reconcileHost E C host shouldForceHTTPS)
      (\<lambda>r s'. (\<forall>cm. view s configKey = Some cm \<longrightarrow> redirects cm \<and> \<not> tlsAvailable (view s) \<longrightarrow> isl r \<and> view s' = view s) \<and>
        (r = Inr () \<longrightarrow> (\<exists>cm. view s configKey = Some cm \<and> served (configHost cm) (redirects cm) (platformTLSName (view s) cm) (view s')))) s1"
    proof (cases "configHost cm = []")
      case True
      then show ?thesis
        using cm by (auto simp: Let_def redirects_def platformTLSName_def intro: wp_mono[OF hostless])
    next
      case False
      show ?thesis
        using cm False same
        by (auto simp: Let_def redirects_def platformTLSName_def intro!: wp_mono[OF wp_reconcileHost[OF engine False plain[OF cm]]])
    qed
  qed auto
qed

end

section \<open>Properties\<close>


text \<open>A cluster that serves a host, with and without a certificate.\<close>

definition ingressConverters :: converters where
  "ingressConverters =
     \<lparr>cv_vm = (\<lambda>_. Inl (Plain ''not a virtual machine'')), cv_user = (\<lambda>_. Inl (Plain ''not a user'')),
      cv_render = (\<lambda>template data. case renderTemplate template data of None \<Rightarrow> Inl (Plain ''value cannot be inserted'') | Some objs \<Rightarrow> Inr objs),
      cv_localTime = (\<lambda>_. [])\<rparr>"

lemma ingressConverters_ok: "templateEngine ingressConverters"
  by (simp add: templateEngine_def ingressConverters_def)

definition ingressWorld :: "bool \<Rightarrow> mem" where
  "ingressWorld tls = mem_init
     ((configKey, newObject ''ConfigMap'' KiteNamespace RuntimeConfigName []
        [(''data'', GMap [(BaseDomainConfigKey, GStr ''kite.example.com''), (ForceHTTPSConfigKey, GStr ''true'')])]) #
      (if tls then [(globalTLSKey, newGlobalTLSSecret ''cert'' ''key'')] else [])) []"

lemma ingressWorld_config:
  obtains cm where "mem_view (ingressWorld tls) configKey = Some cm" "configHost cm = ''kite.example.com''" "redirects cm"
proof -
  have "map_option (\<lambda>cm. configHost cm = ''kite.example.com'' \<and> redirects cm) (mem_view (ingressWorld True) configKey) = Some True"
    "map_option (\<lambda>cm. configHost cm = ''kite.example.com'' \<and> redirects cm) (mem_view (ingressWorld False) configKey) = Some True" by code_simp+
  then show thesis using that by (cases tls) auto
qed

lemma ingressWorld_plain: "mem_view (ingressWorld tls) configKey = Some cm \<Longrightarrow> plainHost (configHost cm)"
proof -
  have "plainHost ''kite.example.com''" by code_simp
  then show "mem_view (ingressWorld tls) configKey = Some cm \<Longrightarrow> plainHost (configHost cm)"
    using ingressWorld_config[of tls] by fastforce
qed


end
