(* ===== verification/Machine_Reconcile.thy ===== *)
theory Machine_Reconcile
  imports Templates
begin

text \<open>
  The KiteVirtualMachine reconciler (\<open>machine-reconcile.go\<close>) and the three reconcilers that mirror
  the state of its children into it: \<open>kubevirt-status-reconcile.go\<close>, \<open>data-volume-reconcile.go\<close> and
  \<open>vm-service-reconcile.go\<close>, with their informer handlers.
\<close>

section \<open>The desired state\<close>

text \<open>
  The repeated error path: write the phase \<open>Failed\<close> with the text of the error, then return the error,
  extended when the status write fails too.
\<close>

definition failedWrite :: "KiteVirtualMachine \<Rightarrow> string \<Rightarrow> goerr \<Rightarrow> statusWrite" where
  "failedWrite vm domain err =
     \<lparr>sw_phase = kiteVMPhaseFailed, sw_powerState = currentPowerStateFromVM vm, sw_domain = domain,
      sw_nodeName = st_nodeName (kv_status vm), sw_conditionStatus = ConditionFalse,
      sw_reason = kiteVMReasonFailed, sw_message = errText err\<rparr>"

definition failWithStatus :: "'s env \<Rightarrow> converters \<Rightarrow> KiteVirtualMachine \<Rightarrow> string \<Rightarrow> goerr \<Rightarrow> ('s, 'a result) state" where
  "failWithStatus E C vm domain err = do {
     r \<leftarrow> updateKiteVirtualMachineStatus E C vm (failedWrite vm domain err);
     case r of
       Inl statusErr \<Rightarrow> fail (Wrapped [] err (''; failed to update failed status: '' @ errText statusErr))
     | Inr _ \<Rightarrow> fail err
   }"

definition orFailed :: "'s env \<Rightarrow> converters \<Rightarrow> KiteVirtualMachine \<Rightarrow> string \<Rightarrow> ('s, 'a result) state \<Rightarrow> ('s, 'a result) state" where
  "orFailed E C vm domain m = do {
     r \<leftarrow> m;
     case r of Inl err \<Rightarrow> failWithStatus E C vm domain err | Inr x \<Rightarrow> ok x
   }"

definition appliedWrite :: "KiteVirtualMachine \<Rightarrow> string \<Rightarrow> statusWrite" where
  "appliedWrite vm domain =
     \<lparr>sw_phase = kiteVMPhaseProvisioning, sw_powerState = currentPowerStateFromVM vm, sw_domain = domain,
      sw_nodeName = st_nodeName (kv_status vm), sw_conditionStatus = ConditionFalse,
      sw_reason = kiteVMReasonReconciled,
      sw_message = ''VM resources are applied and waiting for KubeVirt readiness''\<rparr>"

definition reconcileKiteVirtualMachineDesiredState :: "'s env \<Rightarrow> converters \<Rightarrow> KiteVirtualMachine \<Rightarrow> ('s, unit result) state" where
  "reconcileKiteVirtualMachineDesiredState E C vm =
     (case validateKiteVirtualMachineSpec vm of
        Some err \<Rightarrow> failWithStatus E C vm [] err
      | None \<Rightarrow>
          tryE (kiteVirtualMachineDomain E vm) (\<lambda>domain.
          tryE (kiteVirtualMachineStorageClassName E) (\<lambda>storageClassName.
          tryE (orFailed E C vm domain (ensureKiteVirtualMachineSSHKeySecret E vm)) (\<lambda>keyPair.
          tryE (orFailed E C vm domain (guestLoginPasswordHash E vm)) (\<lambda>guestPasswordHash.
          tryE (if domain \<noteq> []
                then orFailed E C vm domain (ensureKiteVirtualMachineIngressTLSSecret E (kv_namespace vm))
                else ok []) (\<lambda>tlsSecretName.
          tryE (State_Monad.return (kiteVirtualMachineDesiredObjects C vm domain (PublicKey keyPair)
                  guestPasswordHash storageClassName tlsSecretName)) (\<lambda>objects.
          tryE (forE objects (\<lambda>obj. orFailed E C vm domain (applyKiteVirtualMachineObject E obj))) (\<lambda>_.
          updateKiteVirtualMachineStatus E C vm (appliedWrite vm domain)))))))))"

section \<open>The reconciler\<close>

definition latestKiteVirtualMachineForReconcile ::
  "'s env \<Rightarrow> converters \<Rightarrow> string \<Rightarrow> string \<Rightarrow> ('s, (kobj \<times> KiteVirtualMachine) result) state" where
  "latestKiteVirtualMachineForReconcile E C namespace name =
     tryE (env_get E kiteVirtualMachineGVR namespace name) (\<lambda>current.
       case kiteVirtualMachineFromUnstructured C current of
         Inl e \<Rightarrow> fail e
       | Inr vm \<Rightarrow> ok (current, vm))"

definition kiteVirtualMachineNamespaceTerminating :: "'s env \<Rightarrow> string \<Rightarrow> ('s, bool result) state" where
  "kiteVirtualMachineNamespaceTerminating E namespace = do {
     r \<leftarrow> env_get E namespaceGVR [] namespace;
     case r of
       Inl e \<Rightarrow>
         if apiIsNotFound e then ok False
         else fail (Wrapped (''failed to read KiteVirtualMachine namespace '' @ namespace @ '': '') e [])
     | Inr current \<Rightarrow> ok (k_deletionTimestamp current \<noteq> None)
   }"

definition deletingWrite :: "KiteVirtualMachine \<Rightarrow> statusWrite" where
  "deletingWrite vm =
     \<lparr>sw_phase = kiteVMPhaseDeleting, sw_powerState = currentPowerStateFromVM vm, sw_domain = [],
      sw_nodeName = st_nodeName (kv_status vm), sw_conditionStatus = ConditionFalse,
      sw_reason = kiteVMReasonDeleting,
      sw_message = ''delete intent accepted; removing VM-owned resources''\<rparr>"

text \<open>The part of \<open>ReconcileKiteVirtualMachine\<close> after the latest copy has been read.\<close>

definition reconcileLatest :: "'s env \<Rightarrow> converters \<Rightarrow> kobj \<Rightarrow> KiteVirtualMachine \<Rightarrow> ('s, unit result) state" where
  "reconcileLatest E C resource vm =
     tryE (kiteVirtualMachineNamespaceTerminating E (kv_namespace vm)) (\<lambda>namespaceTerminating.
       if namespaceTerminating then reconcileKiteVirtualMachineDeletion E resource vm
       else if k_deletionTimestamp resource \<noteq> None then reconcileKiteVirtualMachineDeletion E resource vm
       else
         tryE (if \<not> hasKiteVirtualMachineFinalizer (kv_finalizers vm)
               then updateKiteVirtualMachineFinalizers E resource (kv_finalizers vm @ [kiteVirtualMachineCleanupFinalizer])
               else ok ()) (\<lambda>_.
         if \<not> vs_delete (kv_spec vm) then reconcileKiteVirtualMachineDesiredState E C vm
         else
           tryE (updateKiteVirtualMachineStatus E C vm (deletingWrite vm)) (\<lambda>_.
           cleanupThen E (kv_namespace vm) (kv_name vm)
             (deleteKiteVirtualMachineCRD E (kv_namespace vm) (kv_name vm)))))"

definition ReconcileKiteVirtualMachine :: "'s env \<Rightarrow> converters \<Rightarrow> eventObj \<Rightarrow> ('s, unit result) state" where
  "ReconcileKiteVirtualMachine E C ev =
     (case kiteVirtualMachineResourceFromEventObject ev of
        Inl e \<Rightarrow> fail e
      | Inr _ \<Rightarrow>
          (case kiteVirtualMachineFromEventObject C ev of
             Inl e \<Rightarrow> fail e
           | Inr vm \<Rightarrow>
               if kv_namespace vm = [] then ok ()
               else do {
                 r \<leftarrow> latestKiteVirtualMachineForReconcile E C (kv_namespace vm) (kv_name vm);
                 case r of
                   Inl e \<Rightarrow> if apiIsNotFound e then ok () else fail e
                 | Inr latest \<Rightarrow> reconcileLatest E C (fst latest) (snd latest)
               }))"

definition kiteVirtualMachineNeedsSameGenerationReconcile :: "converters \<Rightarrow> eventObj \<Rightarrow> bool" where
  "kiteVirtualMachineNeedsSameGenerationReconcile C ev =
     (case kiteVirtualMachineResourceFromEventObject ev of
        Inl e \<Rightarrow> False
      | Inr resource \<Rightarrow>
          if k_deletionTimestamp resource \<noteq> None then True else
          case kiteVirtualMachineFromEventObject C ev of
            Inl e \<Rightarrow> False
          | Inr vm \<Rightarrow>
              if vs_delete (kv_spec vm) then True
              else let phase = TrimSpace (st_phase (kv_status vm)) in
                phase = [] \<or> phase = kiteVMPhaseFailed \<or> phase = kiteVMPhaseProvisioning)"

text \<open>
  The informer handlers that \<open>RegisterKiteVirtualMachineReconciler\<close> attaches; an error is only logged.
  Of the values an informer delivers only the object itself has the method set of \<open>metav1.Object\<close>.
\<close>

definition logged :: "('s, 'a result) state \<Rightarrow> ('s, unit) state" where
  "logged m = do { _ \<leftarrow> m; State_Monad.return () }"

definition machineAddFunc :: "'s env \<Rightarrow> converters \<Rightarrow> eventObj \<Rightarrow> ('s, unit) state" where
  "machineAddFunc E C ev = logged (ReconcileKiteVirtualMachine E C ev)"

definition machineUpdateFunc :: "'s env \<Rightarrow> converters \<Rightarrow> eventObj \<Rightarrow> eventObj \<Rightarrow> ('s, unit) state" where
  "machineUpdateFunc E C oldObj newObj =
     (case (oldObj, newObj) of
        (EventObject oldResource, EventObject newResource) \<Rightarrow>
          if k_generation oldResource = k_generation newResource \<and>
             \<not> kiteVirtualMachineNeedsSameGenerationReconcile C newObj
          then State_Monad.return ()
          else logged (ReconcileKiteVirtualMachine E C newObj)
      | _ \<Rightarrow> State_Monad.return ())"

definition machineDeleteFunc :: "'s env \<Rightarrow> converters \<Rightarrow> eventObj \<Rightarrow> ('s, unit) state" where
  "machineDeleteFunc E C ev =
     (case kiteVirtualMachineFromEventObject C ev of
        Inl e \<Rightarrow> State_Monad.return ()
      | Inr vm \<Rightarrow> logged (
          tryE (deleteKubeVirtVirtualMachine E (kv_namespace vm) (kv_name vm)) (\<lambda>_.
          deleteKiteVirtualMachineOwnedResources E (kv_namespace vm) (kv_name vm))))"

section \<open>KubeVirt state\<close>

definition kiteNodeNameFromKubeVirtVirtualMachine :: "kobj \<Rightarrow> string" where
  "kiteNodeNameFromKubeVirtVirtualMachine kubeVirtVM = TrimSpace (statusString kubeVirtVM ''nodeName'')"

definition kubeVirtVirtualMachineRunning :: "kobj \<Rightarrow> bool" where
  "kubeVirtVirtualMachineRunning kubeVirtVM =
     (let runStrategy = nestedOr [] (NestedString (k_body kubeVirtVM) [''spec'', ''runStrategy'']) in
      if runStrategy = ''Always'' \<or> runStrategy = ''RerunOnFailure'' \<or> runStrategy = ''Manual'' then True
      else if runStrategy = ''Halted'' then False
      else nestedOr False (NestedBool (k_body kubeVirtVM) [''spec'', ''running'']))"

definition printableStatus :: "kobj \<Rightarrow> string" where
  "printableStatus kubeVirtVM =
     (let p0 = TrimSpace (statusString kubeVirtVM ''printableStatus'');
          p1 = (if p0 = [] then statusString kubeVirtVM ''phase'' else p0) in
      if p1 = [] then ''Unknown'' else p1)"

definition kiteStatusFromKubeVirtVirtualMachine :: "KiteVirtualMachine \<Rightarrow> kobj \<Rightarrow> string \<times> string \<times> string \<times> string" where
  "kiteStatusFromKubeVirtVirtualMachine kiteVM kubeVirtVM =
     (let running = kubeVirtVirtualMachineRunning kubeVirtVM; printable = printableStatus kubeVirtVM in
      if printable = ''Running''
      then (kiteVMPhaseRunning, ''On'', ConditionTrue, ''KubeVirt VirtualMachine is running'')
      else if printable = ''Stopped'' then
        (if vmShouldRun kiteVM
         then (kiteVMPhaseProvisioning, ''Off'', ConditionFalse, ''VM start is pending while KubeVirt reports Stopped'')
         else (kiteVMPhaseStopped, ''Off'', ConditionTrue, ''KubeVirt VirtualMachine is stopped''))
      else if printable = ''Starting''
      then (kiteVMPhaseProvisioning, ''On'', ConditionFalse, ''KubeVirt VirtualMachine is starting'')
      else if running
      then (kiteVMPhaseProvisioning, ''On'', ConditionFalse, ''KubeVirt VirtualMachine status is '' @ printable)
      else (kiteVMPhaseReady, ''Off'', ConditionTrue, ''KubeVirt VirtualMachine status is '' @ printable))"

text \<open>
  The three mirroring reconcilers start alike: they read the owner the labels of the child name, and
  ignore a child that is not managed by the controller or whose owner is gone.
\<close>

definition withOwner :: "'s env \<Rightarrow> kobj \<Rightarrow> (kobj \<Rightarrow> ('s, unit result) state) \<Rightarrow> ('s, unit result) state" where
  "withOwner E child k =
     (if labelOf child kiteManagedByLabel \<noteq> kiteControllerLabel then ok () else
      let kiteVMNamespace = labelOf child kiteVMNamespaceLabel; kiteVMName = labelOf child kiteVMNameLabel in
      if kiteVMNamespace = [] \<or> kiteVMName = [] then ok () else do {
        r \<leftarrow> env_get E kiteVirtualMachineGVR kiteVMNamespace kiteVMName;
        case r of
          Inl e \<Rightarrow>
            if apiIsNotFound e then ok ()
            else fail (Wrapped (''failed to read owning KiteVirtualMachine '' @ kiteVMNamespace @ ''/'' @ kiteVMName @ '': '') e [])
        | Inr kiteVMObject \<Rightarrow> k kiteVMObject
      })"

definition runtimeWrite :: "string \<times> string \<times> string \<times> string \<Rightarrow> string \<Rightarrow> string \<Rightarrow> statusWrite" where
  "runtimeWrite st domain nodeName =
     (case st of (phase, powerState, conditionStatus, message) \<Rightarrow>
        \<lparr>sw_phase = phase, sw_powerState = powerState, sw_domain = domain, sw_nodeName = nodeName,
         sw_conditionStatus = conditionStatus, sw_reason = kiteVMReasonReconciled, sw_message = message\<rparr>)"

definition mirrorKubeVirt :: "'s env \<Rightarrow> converters \<Rightarrow> kobj \<Rightarrow> bool \<Rightarrow> kobj \<Rightarrow> ('s, unit result) state" where
  "mirrorKubeVirt E C kubeVirtVM wasDeleted kiteVMObject =
     (case kiteVirtualMachineFromUnstructured C kiteVMObject of
        Inl e \<Rightarrow> fail e
      | Inr kiteVM \<Rightarrow>
          if wasDeleted \<or> k_deletionTimestamp kiteVMObject \<noteq> None
          then ReconcileKiteVirtualMachine E C (EventObject kiteVMObject)
          else
            tryE (kiteVirtualMachineDomain E kiteVM) (\<lambda>domain.
            tryE (updateKiteVirtualMachineStatus E C kiteVM
                    (runtimeWrite (kiteStatusFromKubeVirtVirtualMachine kiteVM kubeVirtVM) domain
                       (kiteNodeNameFromKubeVirtVirtualMachine kubeVirtVM))) (\<lambda>_.
            if vs_delete (kv_spec kiteVM) \<or> vmShouldRun kiteVM \<noteq> kubeVirtVirtualMachineRunning kubeVirtVM
            then ReconcileKiteVirtualMachine E C (EventObject kiteVMObject)
            else ok ())))"

definition ReconcileKubeVirtVirtualMachineStatus :: "'s env \<Rightarrow> converters \<Rightarrow> eventObj \<Rightarrow> bool \<Rightarrow> ('s, unit result) state" where
  "ReconcileKubeVirtVirtualMachineStatus E C ev wasDeleted =
     (case kubeVirtVirtualMachineFromEventObject ev of
        Inl e \<Rightarrow> fail e
      | Inr kubeVirtVM \<Rightarrow> withOwner E kubeVirtVM (mirrorKubeVirt E C kubeVirtVM wasDeleted))"

section \<open>DataVolume state\<close>

definition mirrorDataVolume :: "'s env \<Rightarrow> converters \<Rightarrow> kobj \<Rightarrow> bool \<Rightarrow> kobj \<Rightarrow> ('s, unit result) state" where
  "mirrorDataVolume E C dataVolume wasDeleted kiteVMObject =
     (if wasDeleted \<or> k_deletionTimestamp kiteVMObject \<noteq> None
      then ReconcileKiteVirtualMachine E C (EventObject kiteVMObject)
      else case kiteVirtualMachineFromUnstructured C kiteVMObject of
        Inl e \<Rightarrow> fail e
      | Inr kiteVM \<Rightarrow> updateKiteVirtualMachineDataVolumeStatus E C kiteVM (dataVolumeStatus dataVolume))"

definition ReconcileKiteVirtualMachineDataVolume :: "'s env \<Rightarrow> converters \<Rightarrow> eventObj \<Rightarrow> bool \<Rightarrow> ('s, unit result) state" where
  "ReconcileKiteVirtualMachineDataVolume E C ev wasDeleted =
     (case dataVolumeFromEventObject ev of
        Inl e \<Rightarrow> fail e
      | Inr dataVolume \<Rightarrow> withOwner E dataVolume (mirrorDataVolume E C dataVolume wasDeleted))"

section \<open>Service state\<close>

definition serviceWrite :: "KiteVirtualMachine \<Rightarrow> kobj \<Rightarrow> string \<Rightarrow> statusWrite" where
  "serviceWrite kiteVM kiteVMObject domain =
     (let phase0 = statusString kiteVMObject ''phase''; power0 = statusString kiteVMObject ''currentPowerState'' in
      \<lparr>sw_phase = (if phase0 = [] then kiteVMPhaseProvisioning else phase0),
       sw_powerState = (if power0 = [] then currentPowerStateFromVM kiteVM else power0), sw_domain = domain,
       sw_nodeName = st_nodeName (kv_status kiteVM), sw_conditionStatus = ConditionFalse,
       sw_reason = kiteVMReasonReconciled, sw_message = ''VM Service is synced''\<rparr>)"

definition mirrorService :: "'s env \<Rightarrow> converters \<Rightarrow> bool \<Rightarrow> kobj \<Rightarrow> ('s, unit result) state" where
  "mirrorService E C wasDeleted kiteVMObject =
     (if wasDeleted \<or> k_deletionTimestamp kiteVMObject \<noteq> None
      then ReconcileKiteVirtualMachine E C (EventObject kiteVMObject)
      else case kiteVirtualMachineFromUnstructured C kiteVMObject of
        Inl e \<Rightarrow> fail e
      | Inr kiteVM \<Rightarrow>
          tryE (kiteVirtualMachineDomain E kiteVM) (\<lambda>domain.
            updateKiteVirtualMachineStatus E C kiteVM (serviceWrite kiteVM kiteVMObject domain)))"

definition ReconcileKiteVirtualMachineService :: "'s env \<Rightarrow> converters \<Rightarrow> eventObj \<Rightarrow> bool \<Rightarrow> ('s, unit result) state" where
  "ReconcileKiteVirtualMachineService E C ev wasDeleted =
     (case serviceFromEventObject ev of
        Inl e \<Rightarrow> fail e
      | Inr service \<Rightarrow> withOwner E service (mirrorService E C wasDeleted))"

text \<open>The handlers of the three informers differ only in the reconciler they call.\<close>

definition mirrorHandlers :: "(eventObj \<Rightarrow> bool \<Rightarrow> ('s, unit result) state) \<Rightarrow>
    (eventObj \<Rightarrow> ('s, unit) state) \<times> (eventObj \<Rightarrow> eventObj \<Rightarrow> ('s, unit) state) \<times> (eventObj \<Rightarrow> ('s, unit) state)" where
  "mirrorHandlers reconcile =
     (\<lambda>obj. logged (reconcile obj False),
      \<lambda>oldObj newObj. logged (reconcile newObj False),
      \<lambda>obj. logged (reconcile obj True))"

definition RegisterKubeVirtVirtualMachineStatusReconciler where
  "RegisterKubeVirtVirtualMachineStatusReconciler E C = mirrorHandlers (ReconcileKubeVirtVirtualMachineStatus E C)"

definition RegisterKiteVirtualMachineDataVolumeReconciler where
  "RegisterKiteVirtualMachineDataVolumeReconciler E C = mirrorHandlers (ReconcileKiteVirtualMachineDataVolume E C)"

definition RegisterKiteVirtualMachineServiceReconciler where
  "RegisterKiteVirtualMachineServiceReconciler E C = mirrorHandlers (ReconcileKiteVirtualMachineService E C)"

section \<open>What a reconcile can touch\<close>

text \<open>
  What the desired state is made of, read off the cluster: the domain and the storage class from the runtime ConfigMap, the
  guest password hash from its Secret, and the name of the TLS Secret when the platform has a certificate.
\<close>

definition runtimeSetting :: "kview \<Rightarrow> string \<Rightarrow> string" where
  "runtimeSetting v key =
     (case v (configMapGVR, ''kite'', ''kite-runtime-config'') of
        None \<Rightarrow> []
      | Some config \<Rightarrow> TrimSpace (nestedOr [] (NestedString (k_body config) [''data'', key])))"

definition desiredDomain :: "kview \<Rightarrow> KiteVirtualMachine \<Rightarrow> string" where
  "desiredDomain v vm =
     (let domPrefix = TrimSpace (vs_domainPrefix (kv_spec vm)); baseDomain = trimDots (runtimeSetting v ''baseDomain'') in
      if domPrefix = [] \<or> baseDomain = [] then [] else trimDots domPrefix @ ''.'' @ baseDomain)"

definition desiredStorageClass :: "kview \<Rightarrow> string" where
  "desiredStorageClass v = (let name = runtimeSetting v ''vmStorageClassName'' in if name = [] then ''kite-vm-storage'' else name)"

definition guestSecretKey :: "KiteVirtualMachine \<Rightarrow> kkey" where
  "guestSecretKey vm = (secretGVR, kv_namespace vm, SecretName (kv_name vm))"

definition guestHash :: "kview \<Rightarrow> KiteVirtualMachine \<Rightarrow> string option" where
  "guestHash v vm =
     (case v (guestSecretKey vm) of
        None \<Rightarrow> None
      | Some secret \<Rightarrow>
          (case StdEncoding_DecodeString (TrimSpace (dataAt (secretData secret) PasswordHashKey)) of
             Inl _ \<Rightarrow> None
           | Inr hash \<Rightarrow> Some (TrimSpace hash)))"

definition desiredTLSName :: "kview \<Rightarrow> KiteVirtualMachine \<Rightarrow> string" where
  "desiredTLSName v vm = (if desiredDomain v vm = [] \<or> v (tlsKey GlobalTLSSecretNS) = None then [] else GlobalTLSSecretName)"

text \<open>
  Inputs that the templates take over as they are: a plain VM, plain settings, a guest hash and public keys of one printable
  line.  The last conjunct is about \<open>ssh.MarshalAuthorizedKey\<close>, which writes the key type and base64 text.
\<close>

definition plainInputs :: "'s env \<Rightarrow> kview \<Rightarrow> KiteVirtualMachine \<Rightarrow> bool" where
  "plainInputs E v vm \<longleftrightarrow>
     plainMachine vm \<and> (desiredDomain v vm = [] \<or> plainScalar (desiredDomain v vm)) \<and> plainScalar (desiredStorageClass v) \<and>
     (\<forall>hash. guestHash v vm = Some hash \<longrightarrow> plainLine hash) \<and>
     (\<forall>secret kp. v (sshKey vm) = Some secret \<and> keyPairFromSecret secret = Inr kp \<longrightarrow> plainLine (PublicKey kp)) \<and>
     (\<forall>t key t' p. run_state (env_rsaGenerate E 2048) t = (Inr key, t') \<and> env_sshAuthorizedKey E key = Inr p \<longrightarrow> plainLine (TrimSpace p))"

text \<open>The inputs do not depend on the KiteVirtualMachine objects, nor on the two Secrets a pass writes itself.\<close>

lemma inputs_cong:
  assumes "\<And>k. fst k \<noteq> kiteVirtualMachineGVR \<Longrightarrow> k \<noteq> sshKey vm \<Longrightarrow> k \<noteq> tlsKey (kv_namespace vm) \<Longrightarrow> v' k = v k"
  shows "desiredDomain v' vm = desiredDomain v vm" "desiredStorageClass v' = desiredStorageClass v" "guestHash v' vm = guestHash v vm"
proof -
  have "(x :: string) @ ''-guest-login'' \<noteq> y @ ''-ssh-key''" "x @ ''-guest-login'' \<noteq> GlobalTLSSecretName" for x y
    by (auto dest!: arg_cong[of _ _ last] simp: GlobalTLSSecretName_def)
  then have "v' (guestSecretKey vm) = v (guestSecretKey vm)"
    by (intro assms) (auto simp: guestSecretKey_def sshKey_def tlsKey_def SecretName_def sshKeySecretName_def)
  then show "guestHash v' vm = guestHash v vm" by (simp add: guestHash_def)
  have "v' (configMapGVR, ''kite'', ''kite-runtime-config'') = v (configMapGVR, ''kite'', ''kite-runtime-config'')"
    by (intro assms) (auto simp: sshKey_def tlsKey_def)
  then show "desiredDomain v' vm = desiredDomain v vm" "desiredStorageClass v' = desiredStorageClass v"
    by (simp_all add: desiredDomain_def desiredStorageClass_def runtimeSetting_def)
qed

lemma plainInputs_cong:
  assumes "\<And>k. fst k \<noteq> kiteVirtualMachineGVR \<Longrightarrow> v' k = v k"
  shows "plainInputs E v' vm = plainInputs E v vm"
  using assms[of "sshKey vm"] by (simp add: plainInputs_def inputs_cong[of vm v' v] assms sshKey_def)

definition vmFootprint :: "string \<Rightarrow> string \<Rightarrow> kkey set" where
  "vmFootprint ns n = {vmKey ns n, tlsKey ns} \<union> childKeys ns n"

lemma converted_key:
  "convertsVM C \<Longrightarrow> cv_vm C obj = Inr vm \<Longrightarrow> kv_namespace vm = k_namespace obj \<and> kv_name vm = k_name obj"
  by (auto simp: convertsVM_def vmConverted_def)

context kube_api begin

lemma frames_failWithStatus:
  "vmKey (kv_namespace vm) (kv_name vm) \<in> K \<Longrightarrow> frames view K (failWithStatus E C vm domain err)"
  unfolding failWithStatus_def by (intro frames_intros frames_vmStatus)

lemma frames_orFailed:
  "vmKey (kv_namespace vm) (kv_name vm) \<in> K \<Longrightarrow> frames view K m \<Longrightarrow> frames view K (orFailed E C vm domain m)"
  unfolding orFailed_def by (intro frames_intros frames_failWithStatus)

lemma frames_try_pure:
  "(\<And>x. r = Inr x \<Longrightarrow> frames view K (k x)) \<Longrightarrow> frames view K (tryE (State_Monad.return r) k)"
  by (rule frames_try_known) (auto simp: frames_return)

lemma footprint_mem:
  "vmKey ns n \<in> vmFootprint ns n" "tlsKey ns \<in> vmFootprint ns n" "childKeys ns n \<subseteq> vmFootprint ns n"
  "sshKey vm \<in> vmFootprint (kv_namespace vm) (kv_name vm)"
  by (auto simp: vmFootprint_def sshKey_def childKeys_def ownedResources_def)

lemma trimDots_Nil: "trimDots [] = []"
  by (simp add: trimDots_def)

lemma wp_domain:
  "wp (kiteVirtualMachineDomain E vm) (\<lambda>r s'. view s' = view s \<and> (\<forall>x. r = Inr x \<longrightarrow> x = desiredDomain (view s) vm)) s"
proof (cases "TrimSpace (vs_domainPrefix (kv_spec vm)) = []")
  case False
  then show ?thesis
    unfolding kiteVirtualMachineDomain_def Let_def if_not_P[OF False] wp_bind
    by (intro wp_get) (auto simp: wp_simps desiredDomain_def runtimeSetting_def Let_def trimDots_Nil)
qed (simp add: kiteVirtualMachineDomain_def desiredDomain_def wp_simps)

lemma wp_storageClass:
  "wp (kiteVirtualMachineStorageClassName E) (\<lambda>r s'. view s' = view s \<and> (\<forall>x. r = Inr x \<longrightarrow> x = desiredStorageClass (view s))) s"
  unfolding kiteVirtualMachineStorageClassName_def Let_def wp_bind
  by (intro wp_get) (auto simp: wp_simps desiredStorageClass_def runtimeSetting_def Let_def)

lemma wp_guestHash:
  "wp (guestLoginPasswordHash E vm) (\<lambda>r s'. view s' = view s \<and> (\<forall>x. r = Inr x \<longrightarrow> guestHash (view s) vm = Some x)) s"
  unfolding guestLoginPasswordHash_def Let_def wp_bind
  by (intro wp_get) (auto simp: wp_simps guestHash_def guestSecretKey_def split: sum.split)

lemma wp_publicKey:
  "wp (ensureKiteVirtualMachineSSHKeySecret E vm) (\<lambda>r s'. \<forall>kp. r = Inr kp \<longrightarrow>
     (\<exists>secret. view s (sshKey vm) = Some secret \<and> keyPairFromSecret secret = Inr kp) \<or>
     (\<exists>t key t' p. run_state (env_rsaGenerate E 2048) t = (Inr key, t') \<and> env_sshAuthorizedKey E key = Inr p \<and> PublicKey kp = TrimSpace p)) s"
proof -
  have create: "\<exists>t key t' p. run_state (env_rsaGenerate E 2048) t = (Inr key, t') \<and> env_sshAuthorizedKey E key = Inr p \<and> PublicKey kp = TrimSpace p"
    if "run_state (createSSHKeySecret E vm) s1 = (Inr kp, s')" for s1 kp s'
    using that by (fastforce simp: createSSHKeySecret_def GenerateRSA_def tryE_def ok_def fail_def
        split: prod.splits sum.splits option.splits if_splits)
  show ?thesis
    unfolding ensureKiteVirtualMachineSSHKeySecret_def wp_bind
    by (intro wp_get) (auto simp: wp_simps sshKey_def intro!: wpI, metis create)
qed

lemma wp_tlsName:
  "wp (ensureKiteVirtualMachineIngressTLSSecret E ns) (\<lambda>r s'. \<forall>x. r = Inr x \<longrightarrow>
     x = (if view s (tlsKey GlobalTLSSecretNS) = None then [] else GlobalTLSSecretName)) s"
proof -
  have copy: "x = GlobalTLSSecretName" if "run_state (writeIngressTLSSecret E ns desired) s1 = (Inr x, s')" for desired s1 x s'
    using that by (auto simp: writeIngressTLSSecret_def Let_def ok_def fail_def split: prod.splits sum.splits if_splits)
  show ?thesis
    unfolding ensureKiteVirtualMachineIngressTLSSecret_def Let_def wp_bind
    by (intro wp_get) (auto simp: wp_simps tlsKey_def intro!: wpI dest: copy)
qed

lemma orFailed_run: "run_state (orFailed E C vm domain m) s = (Inr x, s') \<Longrightarrow> run_state m s = (Inr x, s')"
  by (auto simp: orFailed_def failWithStatus_def ok_def fail_def split: prod.splits sum.splits)

lemma wp_try_run:
  "(\<And>e s1. run_state m s = (Inl e, s1) \<Longrightarrow> Q (Inl e) s1) \<Longrightarrow> (\<And>x s1. run_state m s = (Inr x, s1) \<Longrightarrow> wp (k x) Q s1) \<Longrightarrow> wp (tryE m k) Q s"
  unfolding wp_tryE by (rule wpI) (auto split: sum.split)

lemma sshKey_not_tls: "sshKey vm \<noteq> tlsKey ns" "sshKey vm \<noteq> vmKey ns n"
  by (auto simp: sshKey_def tlsKey_def vmKey_def sshKeySecretName_def GlobalTLSSecretName_def dest!: arg_cong[of "_ @ _" _ last])

lemma wp_tlsStep:
  "wp (if d \<noteq> [] then orFailed E C vm d (ensureKiteVirtualMachineIngressTLSSecret E (kv_namespace vm)) else ok [])
     (\<lambda>r s'. (\<forall>k. k \<notin> {vmKey (kv_namespace vm) (kv_name vm), tlsKey (kv_namespace vm)} \<longrightarrow> view s' k = view s k) \<and>
        (\<forall>x. r = Inr x \<longrightarrow> x = (if d = [] \<or> view s (tlsKey GlobalTLSSecretNS) = None then [] else GlobalTLSSecretName))) s"
proof (cases "d = []")
  case False
  let ?m = "orFailed E C vm d (ensureKiteVirtualMachineIngressTLSSecret E (kv_namespace vm))"
  have "frames view {vmKey (kv_namespace vm) (kv_name vm), tlsKey (kv_namespace vm)} ?m"
    by (intro frames_orFailed frames_ensureTLS) simp_all
  from framesD[OF this] show ?thesis
    using False by (auto intro!: wpI dest!: orFailed_run wpD[OF wp_tlsName])
qed (simp add: wp_ok)

text \<open>
  A pass up to the point where the objects are applied: nothing but the VM's own status and two Secrets can have changed, and
  the objects are those of the templates for the inputs above.
\<close>

lemma wp_desiredState:
  assumes engine: "templateEngine C" and plain: "plainInputs E (view s) vm"
    and K: "K = {vmKey (kv_namespace vm) (kv_name vm), sshKey vm, tlsKey (kv_namespace vm)}"
    and failed: "\<And>e s'. (\<forall>k. k \<notin> K \<longrightarrow> view s' k = view s k) \<Longrightarrow> Q (Inl e) s'"
    and go: "\<And>kp hash s1 s2 s'. validateKiteVirtualMachineSpec vm = None \<Longrightarrow> \<forall>k. k \<notin> K \<longrightarrow> view s' k = view s k \<Longrightarrow>
       run_state (ensureKiteVirtualMachineSSHKeySecret E vm) s1 = (Inr kp, s2) \<Longrightarrow> view s' (sshKey vm) = view s2 (sshKey vm) \<Longrightarrow>
       guestHash (view s) vm = Some hash \<Longrightarrow>
       wp (tryE (forE (machineObjects vm (desiredDomain (view s) vm) (PublicKey kp) hash (desiredStorageClass (view s)) (desiredTLSName (view s) vm))
             (\<lambda>obj. orFailed E C vm (desiredDomain (view s) vm) (applyKiteVirtualMachineObject E obj)))
           (\<lambda>_. updateKiteVirtualMachineStatus E C vm (appliedWrite vm (desiredDomain (view s) vm)))) Q s'"
  shows "wp (reconcileKiteVirtualMachineDesiredState E C vm) Q s"
proof (cases "validateKiteVirtualMachineSpec vm")
  case (Some e)
  have "frames view K (failWithStatus E C vm [] e :: ('s, unit result) state)" by (rule frames_failWithStatus) (simp add: K)
  moreover have "\<exists>e'. r = Inl e'" if "run_state (failWithStatus E C vm [] e) s = (r, s')" for r :: "unit result" and s'
    using that by (auto simp: failWithStatus_def fail_def split: prod.splits sum.splits)
  ultimately show ?thesis
    unfolding reconcileKiteVirtualMachineDesiredState_def Some option.case
    by (intro wpI) (metis failed framesD)
next
  case None
  let ?d = "desiredDomain (view s) vm"
  have step: "frames view K (orFailed E C vm ?d m)" if "frames view K m" for m :: "('s, 'x result) state"
    using that by (intro frames_orFailed) (simp_all add: K)
  show ?thesis
    unfolding reconcileKiteVirtualMachineDesiredState_def None option.case
  proof (intro wp_try_run[of "kiteVirtualMachineDomain E vm"] wp_try_run[of "kiteVirtualMachineStorageClassName E"])
    fix e s1 assume "run_state (kiteVirtualMachineDomain E vm) s = (Inl e, s1)"
    from wpD[OF wp_domain this] show "Q (Inl e) s1" by (intro failed) simp
  next
    fix d s1 e s2 assume d: "run_state (kiteVirtualMachineDomain E vm) s = (Inr d, s1)"
      and "run_state (kiteVirtualMachineStorageClassName E) s1 = (Inl e, s2)"
    from wpD[OF wp_domain d] wpD[OF wp_storageClass this(2)] show "Q (Inl e) s2" by (intro failed) simp
  next
    fix d s1 sc s2 assume "run_state (kiteVirtualMachineDomain E vm) s = (Inr d, s1)"
      and "run_state (kiteVirtualMachineStorageClassName E) s1 = (Inr sc, s2)"
    from wpD[OF wp_domain this(1)] wpD[OF wp_storageClass this(2)]
    have s2: "view s2 = view s" and d: "d = ?d" and sc: "sc = desiredStorageClass (view s)" by auto
    show "wp (tryE (orFailed E C vm d (ensureKiteVirtualMachineSSHKeySecret E vm)) (\<lambda>keyPair.
          tryE (orFailed E C vm d (guestLoginPasswordHash E vm)) (\<lambda>guestPasswordHash.
          tryE (if d \<noteq> [] then orFailed E C vm d (ensureKiteVirtualMachineIngressTLSSecret E (kv_namespace vm)) else ok []) (\<lambda>tlsSecretName.
          tryE (State_Monad.return (kiteVirtualMachineDesiredObjects C vm d (PublicKey keyPair) guestPasswordHash sc tlsSecretName)) (\<lambda>objects.
          tryE (forE objects (\<lambda>obj. orFailed E C vm d (applyKiteVirtualMachineObject E obj))) (\<lambda>_.
          updateKiteVirtualMachineStatus E C vm (appliedWrite vm d))))))) Q s2"
      unfolding d sc
    proof (rule wp_try_run)
      fix e s3 assume "run_state (orFailed E C vm ?d (ensureKiteVirtualMachineSSHKeySecret E vm)) s2 = (Inl e, s3)"
      from framesD[OF step[OF frames_ensureSSHKey] this] show "Q (Inl e) s3" by (intro failed) (simp add: K s2)
    next
      fix kp s3 assume run: "run_state (orFailed E C vm ?d (ensureKiteVirtualMachineSSHKeySecret E vm)) s2 = (Inr kp, s3)"
      have s3: "view s3 k = view s k" if "k \<notin> K" for k using framesD[OF step[OF frames_ensureSSHKey] run, of k] that by (simp add: K s2)
      note key = orFailed_run[OF run]
      have pk: "plainLine (PublicKey kp)" using wpD[OF wp_publicKey key] plain unfolding s2 plainInputs_def by metis
      show "wp (tryE (orFailed E C vm ?d (guestLoginPasswordHash E vm)) (\<lambda>guestPasswordHash.
          tryE (if ?d \<noteq> [] then orFailed E C vm ?d (ensureKiteVirtualMachineIngressTLSSecret E (kv_namespace vm)) else ok []) (\<lambda>tlsSecretName.
          tryE (State_Monad.return (kiteVirtualMachineDesiredObjects C vm ?d (PublicKey kp) guestPasswordHash (desiredStorageClass (view s)) tlsSecretName)) (\<lambda>objects.
          tryE (forE objects (\<lambda>obj. orFailed E C vm ?d (applyKiteVirtualMachineObject E obj))) (\<lambda>_.
          updateKiteVirtualMachineStatus E C vm (appliedWrite vm ?d)))))) Q s3"
      proof (rule wp_try_run, goal_cases)
        case (1 e s4)
        from framesD[OF step[OF keeps_frames[OF reads_keep(3)]] 1] s3 show ?case by (intro failed) simp
      next
        case (2 hash s4)
        note guest = wpD[OF wp_guestHash orFailed_run[OF 2]]
        have "guestHash (view s3) vm = guestHash (view s) vm" by (rule inputs_cong(3)) (rule s3, auto simp: K vmKey_def)
        with guest have s4: "view s4 = view s3" and hash: "guestHash (view s) vm = Some hash" by auto
        show ?case
        proof (rule wp_try_run, goal_cases)
          case (1 e s5)
          with wpD[OF wp_tlsStep 1] s3 s4 show ?case by (intro failed) (simp add: K)
        next
          case (2 tls s5)
          note tls = wpD[OF wp_tlsStep 2]
          have "view s4 (tlsKey GlobalTLSSecretNS) = view s (tlsKey GlobalTLSSecretNS)"
            using framesD[OF frames_ensureSSHKey[of vm "{sshKey vm}"] key, of "tlsKey GlobalTLSSecretNS"]
              sshKey_not_tls(1)[of vm GlobalTLSSecretNS] by (simp add: s4 s2)
          with tls have name: "tls = desiredTLSName (view s) vm" by (simp add: desiredTLSName_def)
          have "kiteVirtualMachineDesiredObjects C vm ?d (PublicKey kp) hash (desiredStorageClass (view s)) tls =
              Inr (machineObjects vm ?d (PublicKey kp) hash (desiredStorageClass (view s)) tls)"
            using plain hash by (intro desiredObjects_templates[OF engine])
              (auto simp: plainInputs_def pk name desiredTLSName_def GlobalTLSSecretName_def plain_constants)
          moreover have "\<forall>k. k \<notin> K \<longrightarrow> view s5 k = view s k" using tls s3 s4 by (simp add: K)
          moreover have "view s5 (sshKey vm) = view s3 (sshKey vm)" using tls sshKey_not_tls[of vm] unfolding s4 by blast
          ultimately show ?case
            using go[OF None _ key _ hash, of s5] unfolding name[symmetric] by (simp add: wp_tryE[of "State_Monad.return _"] wp_return)
        qed
      qed
    qed
  qed
qed

lemma namespaceTerminating_keeps: "keeps view (kiteVirtualMachineNamespaceTerminating E ns)"
  unfolding kiteVirtualMachineNamespaceTerminating_def by (intro keeps_intros get_keeps)

lemma wp_desiredState_frame:
  assumes "templateEngine C" "plainInputs E (view s) vm" and k: "k \<notin> vmFootprint (kv_namespace vm) (kv_name vm)"
  shows "wp (reconcileKiteVirtualMachineDesiredState E C vm) (\<lambda>r s'. view s' k = view s k) s"
proof (rule wp_desiredState[OF assms(1,2) refl])
  have other: "k \<notin> {vmKey (kv_namespace vm) (kv_name vm), sshKey vm, tlsKey (kv_namespace vm)}"
    using k footprint_mem by auto
  show "view s' k = view s k" if "\<forall>k. k \<notin> {vmKey (kv_namespace vm) (kv_name vm), sshKey vm, tlsKey (kv_namespace vm)} \<longrightarrow> view s' k = view s k" for s'
    using that other by blast
  fix kp hash s' assume "\<forall>k. k \<notin> {vmKey (kv_namespace vm) (kv_name vm), sshKey vm, tlsKey (kv_namespace vm)} \<longrightarrow> view s' k = view s k"
  with other have same: "view s' k = view s k" by blast
  let ?objs = "machineObjects vm (desiredDomain (view s) vm) (PublicKey kp) hash (desiredStorageClass (view s)) (desiredTLSName (view s) vm)"
  have child: "frames view (vmFootprint (kv_namespace vm) (kv_name vm)) (applyKiteVirtualMachineObject E obj)" if "obj \<in> set ?objs" for obj
    using machineObjects_children[OF that] by (intro frames_applyObject) (auto simp: childObject_def vmFootprint_def)
  have "frames view (vmFootprint (kv_namespace vm) (kv_name vm)) (tryE (forE ?objs
      (\<lambda>obj. orFailed E C vm (desiredDomain (view s) vm) (applyKiteVirtualMachineObject E obj)))
      (\<lambda>_. updateKiteVirtualMachineStatus E C vm (appliedWrite vm (desiredDomain (view s) vm))))"
    by (intro frames_tryE frames_forE frames_orFailed frames_vmStatus footprint_mem child)
  from framesD[OF this] k same
  show "wp (tryE (forE ?objs (\<lambda>obj. orFailed E C vm (desiredDomain (view s) vm) (applyKiteVirtualMachineObject E obj)))
      (\<lambda>_. updateKiteVirtualMachineStatus E C vm (appliedWrite vm (desiredDomain (view s) vm)))) (\<lambda>r s'. view s' k = view s k) s'"
    by (intro wpI) metis
qed

lemma wp_reconcileLatest_frame:
  assumes engine: "templateEngine C" and plain: "plainInputs E (view s) vm"
    and key: "k_namespace resource = kv_namespace vm" "k_name resource = kv_name vm"
    and k: "k \<notin> vmFootprint (kv_namespace vm) (kv_name vm)"
  shows "wp (reconcileLatest E C resource vm) (\<lambda>r s'. view s' k = view s k) s"
proof -
  let ?Q = "\<lambda>(r :: unit result) s'. view s' k = view s k" and ?F = "vmFootprint (kv_namespace vm) (kv_name vm)"
  have own: "vmKey (k_namespace resource) (k_name resource) \<in> ?F" by (simp add: key footprint_mem)
  have deletion: "wp (reconcileKiteVirtualMachineDeletion E resource vm) ?Q s1" if "view s1 = view s" for s1
    using that unfolding reconcileKiteVirtualMachineDeletion_def
    by (intro frames_at[OF _ k] frames_intros frames_cleanupThen frames_updateFinalizers footprint_mem own) simp_all
  have cleanup: "frames view ?F (tryE (updateKiteVirtualMachineStatus E C vm (deletingWrite vm)) (\<lambda>_.
      cleanupThen E (kv_namespace vm) (kv_name vm) (deleteKiteVirtualMachineCRD E (kv_namespace vm) (kv_name vm))))"
    by (intro frames_tryE frames_cleanupThen frames_deleteCRD frames_vmStatus footprint_mem)
  let ?fin = "if \<not> hasKiteVirtualMachineFinalizer (kv_finalizers vm)
      then updateKiteVirtualMachineFinalizers E resource (kv_finalizers vm @ [kiteVirtualMachineCleanupFinalizer]) else ok ()"
  have live: "wp (tryE ?fin (\<lambda>_. if \<not> vs_delete (kv_spec vm) then reconcileKiteVirtualMachineDesiredState E C vm
      else tryE (updateKiteVirtualMachineStatus E C vm (deletingWrite vm)) (\<lambda>_.
        cleanupThen E (kv_namespace vm) (kv_name vm) (deleteKiteVirtualMachineCRD E (kv_namespace vm) (kv_name vm))))) ?Q s1"
    if s1: "view s1 = view s" for s1
  proof (rule wp_try_run)
    fix r s2 assume "run_state ?fin s1 = (r, s2)"
    moreover have "frames view {vmKey (kv_namespace vm) (kv_name vm)} ?fin"
      by (intro frames_if frames_ok frames_updateFinalizers) (simp add: key)
    ultimately have same: "view s2 k' = view s k'" if "k' \<noteq> vmKey (kv_namespace vm) (kv_name vm)" for k'
      using framesD[of view "{vmKey (kv_namespace vm) (kv_name vm)}"] that s1 by (metis singletonD)
    from k footprint_mem have "k \<noteq> vmKey (kv_namespace vm) (kv_name vm)" by metis
    note here = same[OF this]
    have "plainInputs E (view s2) vm" using plain plainInputs_cong[of "view s2" "view s" E vm] same by (auto simp: vmKey_def)
    note wp_desiredState_frame[OF engine this k, unfolded here]
    then show "?Q r s2" and "wp (if \<not> vs_delete (kv_spec vm) then reconcileKiteVirtualMachineDesiredState E C vm
      else tryE (updateKiteVirtualMachineStatus E C vm (deletingWrite vm)) (\<lambda>_.
        cleanupThen E (kv_namespace vm) (kv_name vm) (deleteKiteVirtualMachineCRD E (kv_namespace vm) (kv_name vm)))) ?Q s2"
      using here frames_at[OF cleanup k here] by simp_all
  qed
  show ?thesis
    unfolding reconcileLatest_def
    by (rule wp_try_keeps[OF namespaceTerminating_keeps]) (simp_all add: deletion live)
qed

lemma latest_keeps: "keeps view (latestKiteVirtualMachineForReconcile E C ns n)"
  unfolding latestKiteVirtualMachineForReconcile_def by (intro keeps_intros get_keeps)

text \<open>The latest copy is the stored object and its conversion.\<close>

lemma wp_latest:
  assumes "\<And>s' e. view s' = view s \<Longrightarrow> Q (Inl e) s'"
    and "\<And>s' obj vm. view s' = view s \<Longrightarrow> view s (vmKey ns n) = Some obj \<Longrightarrow> cv_vm C obj = Inr vm \<Longrightarrow> Q (Inr (obj, vm)) s'"
  shows "wp (latestKiteVirtualMachineForReconcile E C ns n) Q s"
  unfolding latestKiteVirtualMachineForReconcile_def kiteVirtualMachineFromUnstructured_def wp_tryE
  by (rule wp_get) (auto simp: wp_simps vmKey_def intro: assms split: sum.splits)

lemma wp_Reconcile:
  assumes C: "convertsVM C" and ev: "kiteVirtualMachineFromEventObject C ev = Inr vm"
    and same: "\<And>s' r. view s' = view s \<Longrightarrow> Q r s'"
    and latest: "\<And>s' obj latest. view s' = view s \<Longrightarrow> view s (vmKey (kv_namespace vm) (kv_name vm)) = Some obj \<Longrightarrow>
       cv_vm C obj = Inr latest \<Longrightarrow> kv_namespace latest = kv_namespace vm \<Longrightarrow> kv_name latest = kv_name vm \<Longrightarrow>
       k_namespace obj = kv_namespace vm \<Longrightarrow> k_name obj = kv_name vm \<Longrightarrow> wp (reconcileLatest E C obj latest) Q s'"
  shows "wp (ReconcileKiteVirtualMachine E C ev) Q s"
proof -
  obtain res where res: "kiteVirtualMachineResourceFromEventObject ev = Inr res"
    using ev by (auto simp: kiteVirtualMachineFromEventObject_def split: sum.splits)
  have "wp (latestKiteVirtualMachineForReconcile E C (kv_namespace vm) (kv_name vm))
     (\<lambda>r. wp (case r of Inl e \<Rightarrow> if apiIsNotFound e then ok () else fail e
        | Inr latest \<Rightarrow> reconcileLatest E C (fst latest) (snd latest)) Q) s"
  proof (rule wp_latest, unfold sum.case fst_conv snd_conv)
    fix s' obj latest assume v: "view s' = view s" and obj: "view s (vmKey (kv_namespace vm) (kv_name vm)) = Some obj"
      and cv: "cv_vm C obj = Inr latest"
    have "k_name obj = kv_name vm" "k_namespace obj = kv_namespace vm"
      using view_key[OF obj[unfolded vmKey_def]] by auto
    with converted_key[OF C cv] show "wp (reconcileLatest E C obj latest) Q s'"
      by (intro assms(4)[OF v obj cv]) simp_all
  qed (simp add: wp_simps same)
  then show ?thesis
    unfolding ReconcileKiteVirtualMachine_def by (simp add: res ev wp_bind wp_ok same)
qed

end

end
