(* ===== verification/Machine_Properties.thy ===== *)
theory Machine_Properties
  imports Machine_Reconcile
begin

text \<open>
  Properties of the KiteVirtualMachine controller: which objects a reconcile can touch, what clean-up
  deletes and when it lets a VM go, what a successful pass has applied, and how statuses settle.  The
  first section gives executable stand-ins for the third-party converters, for concrete runs.
\<close>

section \<open>Executable converters\<close>

definition mem_vm :: "kobj \<Rightarrow> KiteVirtualMachine result" where
  "mem_vm obj = Inr
     \<lparr>kv_name = k_name obj, kv_namespace = k_namespace obj, kv_finalizers = k_finalizers obj,
      kv_spec = \<lparr>vs_cpu = intValue (specOf obj) ''cpu'', vs_memory = stringValue (specOf obj) ''memory'',
        vs_image = stringValue (specOf obj) ''image'', vs_disk = stringValue (specOf obj) ''disk'',
        vs_powerState = stringValue (specOf obj) ''powerState'', vs_domainPrefix = stringValue (specOf obj) ''domainPrefix'',
        vs_sshID = stringValue (specOf obj) ''sshId'', vs_sshPasswordHash = [], vs_delete = boolValue (specOf obj) ''delete''\<rparr>,
      kv_status = demoStatus\<lparr>st_phase := statusString obj ''phase'', st_nodeName := statusString obj ''nodeName''\<rparr>\<rparr>"

definition childOf :: "string \<Rightarrow> string \<Rightarrow> string \<Rightarrow> string \<Rightarrow> gomap \<Rightarrow> kobj" where
  "childOf kind name ns n body =
     newObject kind ns name [(kiteManagedByLabel, kiteControllerLabel), (kiteVMNameLabel, n), (kiteVMNamespaceLabel, ns)] body"

definition mem_render :: "string \<Rightarrow> (string \<times> string) list \<Rightarrow> kobj list result" where
  "mem_render template data =
     (case renderTemplate template data of
        None \<Rightarrow> Inl (Plain ''value cannot be inserted'')
      | Some objs \<Rightarrow> Inr objs)"

text \<open>Concrete runs leave the long text of the user data unevaluated.\<close>

declare cloudConfig_def [code del]

definition mem_user :: "kobj \<Rightarrow> KiteUser result" where
  "mem_user obj = Inr
     \<lparr>ku_name = k_name obj, ku_generation = k_generation obj,
      ku_spec = \<lparr>us_username = stringValue (specOf obj) ''username'', us_email = stringValue (specOf obj) ''email'',
        us_password = stringValue (specOf obj) ''password'', us_namespace = stringValue (specOf obj) ''namespace'',
        us_profileImage = stringValue (specOf obj) ''profile_image'', us_accessLevel = intValue (specOf obj) ''access_level''\<rparr>\<rparr>"

definition mem_userRender :: "string \<Rightarrow> (string \<times> string) list \<Rightarrow> kobj list result" where
  "mem_userRender template data =
     (let ns = dataAt data ''Namespace'' in
      if template = ''namespace.yaml'' then Inr [newObject ''Namespace'' [] ns [(''hy3ons.github.io/managed-by'', ''kite-controller'')] []]
      else Inr [newObject ''NetworkPolicy'' ns ''deny-from-other-namespaces'' [] [],
                newObject ''NetworkPolicy'' ns ''tenant-isolation-egress'' [] []])"

definition mem_conv :: converters where
  "mem_conv = \<lparr>cv_vm = mem_vm, cv_user = mem_user, 
     cv_render = (\<lambda>template data. if template = ''namespace.yaml'' \<or> template = ''network-policy.yaml''
       then mem_userRender template data else mem_render template data), cv_localTime = (\<lambda>_. ''2030-01-01T00:00:00Z'')\<rparr>"

lemma mem_convertsVM: "convertsVM mem_conv"
  by (auto simp: convertsVM_def mem_conv_def mem_vm_def vmConverted_def)

lemma mem_engine: "templateEngine mem_conv"
  by (auto simp: templateEngine_def mem_conv_def mem_render_def) (simp_all add: renderTemplate_def)

definition vmObject :: "(string \<times> gov) list \<Rightarrow> (string \<times> gov) list \<Rightarrow> kobj" where
  "vmObject extra status = (newObject ''KiteVirtualMachine'' ''ku-alice'' ''web'' []
     [(''spec'', GMap ([(''cpu'', GInt 2), (''memory'', GStr ''4Gi''), (''image'', GStr ''ubuntu-22.04''), (''disk'', GStr ''20Gi''),
        (''powerState'', GStr ''On''), (''sshId'', GStr ''alice1'')] @ extra)), (''status'', GMap status)])
     \<lparr>k_resourceVersion := ''1'', k_generation := 1\<rparr>"

definition guestSecret :: kobj where
  "guestSecret = childOf ''Secret'' ''web-guest-login'' ''ku-alice'' ''web'' [(''data'', GMap [(PasswordHashKey, GStr ''aGFzaA=='')])]"

definition vmWorld :: "kobj \<Rightarrow> (kkey \<times> kobj) list \<Rightarrow> mem" where
  "vmWorld vm others = mem_init ((vmKey ''ku-alice'' ''web'', vm) # ((secretGVR, ''ku-alice'', ''web-guest-login''), guestSecret) # others) []"

section \<open>The footprint of a reconcile\<close>


text \<open>The inputs of the concrete VM are plain.\<close>

definition inputTexts :: "kview \<Rightarrow> KiteVirtualMachine \<Rightarrow> bool" where
  "inputTexts v vm \<longleftrightarrow> plainMachine vm \<and> (desiredDomain v vm = [] \<or> plainScalar (desiredDomain v vm)) \<and> plainScalar (desiredStorageClass v) \<and>
     (case guestHash v vm of None \<Rightarrow> True | Some hash \<Rightarrow> plainLine hash) \<and>
     (case v (sshKey vm) of None \<Rightarrow> True
      | Some secret \<Rightarrow> (case keyPairFromSecret secret of Inl _ \<Rightarrow> True | Inr kp \<Rightarrow> plainLine (PublicKey kp)))"

lemma plainInputs_mem: "inputTexts v vm \<Longrightarrow> plainInputs mem_env v vm"
proof -
  have "plainLine (TrimSpace (''ssh-rsa '' @ ''rsa-key''))" by code_simp
  then show "inputTexts v vm \<Longrightarrow> plainInputs mem_env v vm"
    by (auto simp: inputTexts_def plainInputs_def ok_def)
qed


section \<open>Clean-up\<close>

text \<open>
  \<open>cleanedUp\<close>: apart from the VM itself, objects are only deleted or marked for deletion, and only
  children that carry the ownership labels of the VM.
\<close>

definition cleanedUp :: "string \<Rightarrow> string \<Rightarrow> kview \<Rightarrow> kview \<Rightarrow> bool" where
  "cleanedUp ns n v v' \<longleftrightarrow>
     (\<forall>k. k \<noteq> vmKey ns n \<longrightarrow> v' k = v k \<or> (\<exists>cur. v k = Some cur \<and> ownedChild ns n k cur \<and> goneOrMarked cur (v' k)))"

definition released :: "string \<Rightarrow> string \<Rightarrow> kview \<Rightarrow> kview \<Rightarrow> bool" where
  "released ns n v v' \<longleftrightarrow> v (kubeVirtVirtualMachineGVR, ns, n) = None \<and> childrenCleared ns n v'"

lemma deletesOnly_cleanedUp: "deletesOnly (ownedChild ns n) v v' \<Longrightarrow> cleanedUp ns n v v'"
  unfolding deletesOnly_def cleanedUp_def by blast

lemma cleanedUp_vm:
  assumes "cleanedUp ns n v v1" "\<And>k. k \<noteq> vmKey ns n \<Longrightarrow> v2 k = v1 k"
  shows "cleanedUp ns n v v2"
  using assms unfolding cleanedUp_def by metis

lemma cleanedUp_vm_first:
  assumes "\<And>k. k \<noteq> vmKey ns n \<Longrightarrow> v1 k = v k" "cleanedUp ns n v1 v2"
  shows "cleanedUp ns n v v2"
  using assms unfolding cleanedUp_def by metis

lemma vm_not_child: "vmKey ns n \<notin> childKeys ns' n'"
  by (auto simp: vmKey_def childKeys_def ownedResources_def)

lemma deletesOnly_keeps_vm: "deletesOnly (ownedChild ns n) v v' \<Longrightarrow> v' (vmKey ns n) = v (vmKey ns n)"
  using vm_not_child unfolding deletesOnly_def ownedChild_def by metis

lemma childrenCleared_vm:
  assumes "childrenCleared ns n v1" "\<And>k. k \<noteq> vmKey ns n \<Longrightarrow> v2 k = v1 k"
  shows "childrenCleared ns n v2"
proof -
  have "v2 (g, ns, name) = v1 (g, ns, name)" if "(g, name) \<in> set (ownedResources n)" for g name
    using that by (intro assms(2)) (auto simp: vmKey_def ownedResources_def)
  with assms(1) show ?thesis unfolding childrenCleared_def childCleared_def by fastforce
qed

text \<open>Clean-up followed by a last step that touches only the VM.\<close>

lemma wp_cleanup_last:
  assumes "kube_api E view" "frames view {vmKey ns n} lastStep"
  shows "wp (cleanupThen E ns n lastStep) (\<lambda>r s'. cleanedUp ns n (view s) (view s') \<and>
     (view s' (vmKey ns n) \<noteq> view s (vmKey ns n) \<longrightarrow> released ns n (view s) (view s'))) s"
proof (rule kube_api.wp_cleanupThen[OF assms(1)])
  fix s1 assume del: "deletesOnly (ownedChild ns n) (view s) (view s1)"
    and kv: "view s (kubeVirtVirtualMachineGVR, ns, n) = None" and cleared: "childrenCleared ns n (view s1)"
  have "wp lastStep (\<lambda>r s'. \<forall>k. k \<notin> {vmKey ns n} \<longrightarrow> view s' k = view s1 k) s1"
    using assms(2) unfolding frames_wp by blast
  then show "wp lastStep (\<lambda>r s'. cleanedUp ns n (view s) (view s') \<and>
     (view s' (vmKey ns n) \<noteq> view s (vmKey ns n) \<longrightarrow> released ns n (view s) (view s'))) s1"
  proof (rule wp_mono)
    fix r :: "unit result" and s' assume "\<forall>k. k \<notin> {vmKey ns n} \<longrightarrow> view s' k = view s1 k"
    then have other: "\<And>k. k \<noteq> vmKey ns n \<Longrightarrow> view s' k = view s1 k" by blast
    show "cleanedUp ns n (view s) (view s') \<and>
       (view s' (vmKey ns n) \<noteq> view s (vmKey ns n) \<longrightarrow> released ns n (view s) (view s'))"
      using cleanedUp_vm[OF deletesOnly_cleanedUp[OF del] other] childrenCleared_vm[OF cleared other] kv
      by (simp add: released_def)
  qed
qed (auto simp: deletesOnly_cleanedUp deletesOnly_keeps_vm)

text \<open>The VM is on its way out: it carries a deletion timestamp, or its namespace does.\<close>

definition vmDeleting :: "kview \<Rightarrow> string \<Rightarrow> string \<Rightarrow> bool" where
  "vmDeleting v ns n \<longleftrightarrow>
     (\<exists>obj. v (vmKey ns n) = Some obj \<and> k_deletionTimestamp obj \<noteq> None) \<or>
     (\<exists>obj. v (namespaceGVR, [], ns) = Some obj \<and> k_deletionTimestamp obj \<noteq> None)"

lemma wp_namespaceTerminating:
  assumes "kube_api E view"
    and "\<And>s' e. view s' = view s \<Longrightarrow> Q (Inl e) s'"
    and "\<And>s' obj. view s' = view s \<Longrightarrow> view s (namespaceGVR, [], ns) = Some obj \<Longrightarrow> Q (Inr (k_deletionTimestamp obj \<noteq> None)) s'"
    and "\<And>s'. view s' = view s \<Longrightarrow> view s (namespaceGVR, [], ns) = None \<Longrightarrow> Q (Inr False) s'"
  shows "wp (kiteVirtualMachineNamespaceTerminating E ns) Q s"
  unfolding kiteVirtualMachineNamespaceTerminating_def wp_bind
  by (rule kube_api.wp_get[OF assms(1)]) (auto simp: wp_simps simp del: not_None_eq intro: assms(2-4))

lemma wp_deletion:
  assumes "kube_api E view" "k_namespace obj = kv_namespace vm" "k_name obj = kv_name vm"
  shows "wp (reconcileKiteVirtualMachineDeletion E obj vm) (\<lambda>r s'. cleanedUp (kv_namespace vm) (kv_name vm) (view s) (view s') \<and>
     (view s' (vmKey (kv_namespace vm) (kv_name vm)) \<noteq> view s (vmKey (kv_namespace vm) (kv_name vm)) \<longrightarrow>
        released (kv_namespace vm) (kv_name vm) (view s) (view s'))) s"
proof -
  have "frames view {vmKey (kv_namespace vm) (kv_name vm)}
     (updateKiteVirtualMachineFinalizers E obj (removeKiteVirtualMachineFinalizer (kv_finalizers vm)))"
    by (rule kube_api.frames_updateFinalizers[OF assms(1)]) (simp add: assms(2,3))
  from wp_cleanup_last[OF assms(1) this] show ?thesis
    by (auto simp: reconcileKiteVirtualMachineDeletion_def wp_ok cleanedUp_def)
qed

text \<open>C13: for a VM that is being deleted, or whose namespace is, a reconcile creates and changes no other
  object: it only deletes children that carry the VM's ownership labels.  The VM itself is changed (its
  finalizer removed) only when its KubeVirt VM is gone and all its children are gone, marked for deletion
  or not its own.\<close>

theorem Reconcile_deleting:
  assumes "kube_api E view" "convertsVM C" "kiteVirtualMachineFromEventObject C ev = Inr vm"
    "vmDeleting (view s) (kv_namespace vm) (kv_name vm)"
    "run_state (ReconcileKiteVirtualMachine E C ev) s = (r, s')"
  shows "cleanedUp (kv_namespace vm) (kv_name vm) (view s) (view s') \<and>
    (view s' (vmKey (kv_namespace vm) (kv_name vm)) \<noteq> view s (vmKey (kv_namespace vm) (kv_name vm)) \<longrightarrow>
       released (kv_namespace vm) (kv_name vm) (view s) (view s'))"
proof -
  let ?ns = "kv_namespace vm" let ?n = "kv_name vm"
  let ?Q = "\<lambda>(r :: unit result) s'. cleanedUp ?ns ?n (view s) (view s') \<and>
    (view s' (vmKey ?ns ?n) \<noteq> view s (vmKey ?ns ?n) \<longrightarrow> released ?ns ?n (view s) (view s'))"
  have same: "?Q r s'" if "view s' = view s" for r s' using that by (simp add: cleanedUp_def)
  have "wp (ReconcileKiteVirtualMachine E C ev) ?Q s"
  proof (rule kube_api.wp_Reconcile[OF assms(1-3)])
    fix s1 obj latest assume v: "view s1 = view s" and obj: "view s (vmKey ?ns ?n) = Some obj"
      and cv: "cv_vm C obj = Inr latest" and n: "kv_namespace latest = ?ns" "kv_name latest = ?n" "k_namespace obj = ?ns" "k_name obj = ?n"
    have del: "wp (reconcileKiteVirtualMachineDeletion E obj latest) ?Q s2" if "view s2 = view s" for s2
      using wp_deletion[OF assms(1), of obj latest s2] n that by simp
    show "wp (reconcileLatest E C obj latest) ?Q s1"
      unfolding reconcileLatest_def wp_tryE[of "kiteVirtualMachineNamespaceTerminating E (kv_namespace latest)"]
      by (rule wp_namespaceTerminating[OF assms(1)])
         (use v obj n assms(4) del same in \<open>auto simp: vmDeleting_def\<close>)
  qed (rule same)
  from wpD[OF this assms(5)] show ?thesis .
qed

definition demoEvent :: "kobj \<Rightarrow> eventObj" where
  "demoEvent obj = EventObject obj"

lemma demo_converted:
  assumes "k_namespace obj = ''ku-alice''" "k_name obj = ''web''"
  obtains vm where "kiteVirtualMachineFromEventObject mem_conv (demoEvent obj) = Inr vm" "kv_namespace vm = ''ku-alice''" "kv_name vm = ''web''"
  using assms
  by (simp add: kiteVirtualMachineFromEventObject_def kiteVirtualMachineResourceFromEventObject_def eventResource_def
      mem_conv_def mem_vm_def demoEvent_def)

lemma vmObject_sel [simp]: "k_namespace (vmObject x y) = ''ku-alice''" "k_name (vmObject x y) = ''web''"
  by (simp_all add: vmObject_def newObject_def)

definition goingVM :: kobj where
  "goingVM = (vmObject [] [])\<lparr>k_deletionTimestamp := Some ''t'', k_finalizers := [kiteVirtualMachineCleanupFinalizer]\<rparr>"

text \<open>In the witness an unowned Service with the name of a child survives while the VM is released.\<close>

definition goingWorld :: mem where
  "goingWorld = vmWorld goingVM
     [((serviceGVR, ''ku-alice'', ''vps-web-web''), newObject ''Service'' ''ku-alice'' ''vps-web-web'' [] [])]"

theorem Reconcile_deleting_witness:
  "\<exists>s'. cleanedUp ''ku-alice'' ''web'' (mem_view goingWorld) (mem_view s') \<and>
     released ''ku-alice'' ''web'' (mem_view goingWorld) (mem_view s') \<and>
     mem_view s' (vmKey ''ku-alice'' ''web'') = None \<and> mem_view s' (serviceGVR, ''ku-alice'', ''vps-web-web'') \<noteq> None"
proof -
  let ?m = "ReconcileKiteVirtualMachine mem_env mem_conv (demoEvent goingVM)"
  obtain vm where vm: "kiteVirtualMachineFromEventObject mem_conv (demoEvent goingVM) = Inr vm" "kv_namespace vm = ''ku-alice''" "kv_name vm = ''web''"
    by (rule demo_converted[of goingVM]) (simp_all add: goingVM_def)
  obtain r s' where run: "run_state ?m goingWorld = (r, s')" by fastforce
  have "map_option (\<lambda>x. \<not> Option.is_none (k_deletionTimestamp x)) (mem_view goingWorld (vmKey ''ku-alice'' ''web'')) = Some True" by code_simp
  then have del: "vmDeleting (mem_view goingWorld) (kv_namespace vm) (kv_name vm)"
    unfolding vm vmDeleting_def by (auto simp: Option.is_none_def split: option.splits)
  have gone: "Option.is_none (mem_view (snd (run_state ?m goingWorld)) (vmKey ''ku-alice'' ''web''))" by code_simp
  moreover have "\<not> Option.is_none (mem_view (snd (run_state ?m goingWorld)) (serviceGVR, ''ku-alice'', ''vps-web-web''))" by code_simp
  moreover have "\<not> Option.is_none (mem_view goingWorld (vmKey ''ku-alice'' ''web''))" by code_simp
  ultimately show ?thesis
    using Reconcile_deleting[OF mem_kube_api mem_convertsVM vm(1), OF del run] run
    by (intro exI[of _ s']) (auto simp: vm Option.is_none_def split: option.splits)
qed

definition deleteRequested :: "kview \<Rightarrow> converters \<Rightarrow> string \<Rightarrow> string \<Rightarrow> bool" where
  "deleteRequested v C ns n \<longleftrightarrow>
     \<not> vmDeleting v ns n \<and>
     (\<exists>obj vm. v (vmKey ns n) = Some obj \<and> cv_vm C obj = Inr vm \<and> vs_delete (kv_spec vm))"

definition vmGoing :: "kview \<Rightarrow> string \<Rightarrow> string \<Rightarrow> bool" where
  "vmGoing v ns n \<longleftrightarrow> (case v (vmKey ns n) of None \<Rightarrow> True | Some x \<Rightarrow> k_deletionTimestamp x \<noteq> None)"

text \<open>Before the clean-up of a delete intent, only the VM itself is written, and it stays alive.\<close>

definition vmOnly :: "string \<Rightarrow> string \<Rightarrow> kview \<Rightarrow> kview \<Rightarrow> bool" where
  "vmOnly ns n v v' \<longleftrightarrow> (\<forall>k. k \<noteq> vmKey ns n \<longrightarrow> v' k = v k) \<and> \<not> vmGoing v' ns n"

lemma vmOnly_finalizers: "vmOnly ns n v v1 \<Longrightarrow> finalizersReplaced ns n fs v1 v2 \<Longrightarrow> vmOnly ns n v v2"
proof -
  assume 1: "vmOnly ns n v v1" and 2: "finalizersReplaced ns n fs v1 v2"
  from 2 obtain cur where cur: "v1 (vmKey ns n) = Some cur"
    and fin: "if k_deletionTimestamp cur \<noteq> None \<and> fs = [] then v2 = v1(vmKey ns n := None)
      else \<exists>stored. v2 = v1(vmKey ns n \<mapsto> stored) \<and> k_finalizers stored = fs \<and> sameExceptFinalizers cur stored"
    unfolding finalizersReplaced_def by blast
  have alive: "k_deletionTimestamp cur = None" using 1 cur by (simp add: vmOnly_def vmGoing_def)
  with fin obtain stored where "v2 = v1(vmKey ns n \<mapsto> stored)" "sameExceptFinalizers cur stored" by auto
  with 1 alive show ?thesis by (simp add: vmOnly_def vmGoing_def sameExceptFinalizers_def)
qed

lemma vmOnly_status: "vmOnly ns n v v1 \<Longrightarrow> statusWritten plan ns n v1 v2 \<Longrightarrow> vmOnly ns n v v2"
  by (auto simp: vmOnly_def statusWritten_def vmGoing_def)

definition intentOutcome :: "string \<Rightarrow> string \<Rightarrow> kview \<Rightarrow> kview \<Rightarrow> bool" where
  "intentOutcome ns n v v' \<longleftrightarrow> cleanedUp ns n v v' \<and> (vmGoing v' ns n \<longrightarrow> released ns n v v')"

lemma vmOnly_outcome: "vmOnly ns n v v' \<Longrightarrow> intentOutcome ns n v v'"
  by (auto simp: vmOnly_def intentOutcome_def cleanedUp_def)

lemma wp_intent:
  assumes api: "kube_api E view" and only: "vmOnly ns n v (view s1)"
  shows "wp (cleanupThen E ns n (deleteKiteVirtualMachineCRD E ns n)) (\<lambda>r s'. intentOutcome ns n v (view s')) s1"
proof (rule wp_mono[OF wp_cleanup_last[OF api kube_api.frames_deleteCRD[OF api]]])
  have first: "\<And>k. k \<noteq> vmKey ns n \<Longrightarrow> view s1 k = v k" using only unfolding vmOnly_def by blast
  fix r :: "unit result" and s'
  assume Q: "cleanedUp ns n (view s1) (view s') \<and>
     (view s' (vmKey ns n) \<noteq> view s1 (vmKey ns n) \<longrightarrow> released ns n (view s1) (view s'))"
  have "view s1 (kubeVirtVirtualMachineGVR, ns, n) = v (kubeVirtVirtualMachineGVR, ns, n)"
    by (rule first) (simp add: vmKey_def)
  with Q cleanedUp_vm_first[OF first] only show "intentOutcome ns n v (view s')"
    by (auto simp: released_def vmGoing_def vmOnly_def intentOutcome_def)
qed simp

lemma wp_intent_prepared:
  assumes api: "kube_api E view" and only: "vmOnly (k_namespace obj) (k_name obj) v (view s1)"
    and n: "kv_namespace vm = k_namespace obj" "kv_name vm = k_name obj"
  shows "wp (tryE (if c then updateKiteVirtualMachineFinalizers E obj fs else ok ()) (\<lambda>_.
     tryE (updateKiteVirtualMachineStatus E C vm w) (\<lambda>_.
       cleanupThen E (kv_namespace vm) (kv_name vm) (deleteKiteVirtualMachineCRD E (kv_namespace vm) (kv_name vm)))))
     (\<lambda>r s'. intentOutcome (k_namespace obj) (k_name obj) v (view s')) s1"
proof -
  let ?O = "vmOnly (k_namespace obj) (k_name obj) v"
  have "wp (if c then updateKiteVirtualMachineFinalizers E obj fs else ok ()) (\<lambda>r s2. ?O (view s2)) s1"
    using only by (cases c) (auto simp: wp_ok intro!: kube_api.wp_updateFinalizers[OF api] intro: vmOnly_finalizers)
  moreover have "wp (updateKiteVirtualMachineStatus E C vm w) (\<lambda>r s3. ?O (view s3)) s2" if "?O (view s2)" for s2
    unfolding updateKiteVirtualMachineStatus_def
    by (rule kube_api.wp_writeStatus[OF api]) (use that n in \<open>auto intro: vmOnly_status\<close>)
  moreover note clean = wp_intent[OF api, of "k_namespace obj" "k_name obj" v]
  ultimately show ?thesis
    unfolding wp_tryE n
    by (elim wp_mono) (auto split: sum.splits intro!: vmOnly_outcome intro: clean wp_mono)
qed

text \<open>With \<open>spec.delete\<close> set on a VM that is not yet being deleted, the VM object is deleted (removed or
  marked) only when its KubeVirt VM is absent and all its children are cleared, and apart from the VM
  only children with its ownership labels are deleted.\<close>

theorem Reconcile_delete_intent:
  assumes api: "kube_api E view" and C: "convertsVM C" and ev: "kiteVirtualMachineFromEventObject C ev = Inr vm"
    and req: "deleteRequested (view s) C (kv_namespace vm) (kv_name vm)"
    and run: "run_state (ReconcileKiteVirtualMachine E C ev) s = (r, s')"
  shows "cleanedUp (kv_namespace vm) (kv_name vm) (view s) (view s') \<and>
    (vmGoing (view s') (kv_namespace vm) (kv_name vm) \<longrightarrow> released (kv_namespace vm) (kv_name vm) (view s) (view s'))"
proof -
  let ?ns = "kv_namespace vm" let ?n = "kv_name vm"
  have start: "vmOnly ?ns ?n (view s) (view s1)" if "view s1 = view s" for s1
    using that req by (auto simp: deleteRequested_def vmGoing_def vmDeleting_def vmOnly_def)
  have "wp (ReconcileKiteVirtualMachine E C ev) (\<lambda>r s'. intentOutcome ?ns ?n (view s) (view s')) s"
  proof (rule kube_api.wp_Reconcile[OF api C ev])
    fix s1 obj latest assume v: "view s1 = view s" and obj: "view s (vmKey ?ns ?n) = Some obj"
      and cv: "cv_vm C obj = Inr latest" and n: "kv_namespace latest = ?ns" "kv_name latest = ?n" "k_namespace obj = ?ns" "k_name obj = ?n"
    have delete: "vs_delete (kv_spec latest)" and alive: "k_deletionTimestamp obj = None"
      and ns: "\<And>x. view s (namespaceGVR, [], ?ns) = Some x \<Longrightarrow> k_deletionTimestamp x = None"
      using req obj cv by (auto simp: deleteRequested_def vmDeleting_def)
    note rest = wp_intent_prepared[OF api, of obj "view s" _ latest, unfolded n, OF start refl refl]
    show "wp (reconcileLatest E C obj latest) (\<lambda>r s'. intentOutcome ?ns ?n (view s) (view s')) s1"
      unfolding reconcileLatest_def n wp_tryE[of "kiteVirtualMachineNamespaceTerminating E ?ns"]
      by (rule wp_namespaceTerminating[OF api])
         (use v ns delete alive in \<open>simp_all add: rest vmOnly_outcome start\<close>)
  qed (rule vmOnly_outcome[OF start])
  from wpD[OF this run] show ?thesis by (simp add: intentOutcome_def)
qed

definition intentVM :: kobj where
  "intentVM = vmObject [(''delete'', GBool True)] []"

theorem Reconcile_delete_intent_witness:
  "\<exists>s'. cleanedUp ''ku-alice'' ''web'' (mem_view (vmWorld intentVM [])) (mem_view s') \<and>
     vmGoing (mem_view s') ''ku-alice'' ''web'' \<and> released ''ku-alice'' ''web'' (mem_view (vmWorld intentVM [])) (mem_view s') \<and>
     mem_view s' (secretGVR, ''ku-alice'', ''web-guest-login'') = None"
proof -
  let ?m = "ReconcileKiteVirtualMachine mem_env mem_conv (demoEvent intentVM)" let ?s = "vmWorld intentVM []"
  obtain vm where vm: "kiteVirtualMachineFromEventObject mem_conv (demoEvent intentVM) = Inr vm" "kv_namespace vm = ''ku-alice''" "kv_name vm = ''web''"
    by (rule demo_converted[of intentVM]) (simp_all add: intentVM_def)
  obtain r s' where run: "run_state ?m ?s = (r, s')" by fastforce
  have "map_option (\<lambda>x. Option.is_none (k_deletionTimestamp x) \<and> boolValue (specOf x) ''delete'') (mem_view ?s (vmKey ''ku-alice'' ''web'')) = Some True"
    and "Option.is_none (mem_view ?s (namespaceGVR, [], ''ku-alice''))" by code_simp+
  then have req: "deleteRequested (mem_view ?s) mem_conv (kv_namespace vm) (kv_name vm)"
    unfolding vm deleteRequested_def vmDeleting_def
    by (auto simp: Option.is_none_def mem_conv_def mem_vm_def split: option.splits)
  have "case mem_view (snd (run_state ?m ?s)) (vmKey ''ku-alice'' ''web'') of None \<Rightarrow> True | Some x \<Rightarrow> \<not> Option.is_none (k_deletionTimestamp x)"
    by code_simp
  then have going: "vmGoing (mem_view s') ''ku-alice'' ''web''"
    using run by (auto simp: vmGoing_def Option.is_none_def split: option.splits)
  have "Option.is_none (mem_view (snd (run_state ?m ?s)) (secretGVR, ''ku-alice'', ''web-guest-login''))" by code_simp
  then show ?thesis
    using Reconcile_delete_intent[OF mem_kube_api mem_convertsVM vm(1), OF req run] run going
    by (intro exI[of _ s']) (auto simp: vm Option.is_none_def split: option.splits)
qed

section \<open>What a successful pass has applied\<close>

lemma owned_applied:
  assumes "applied g ns' obj v v' stored" "resourceOwnedByKiteVirtualMachine obj ns n" "ns \<noteq> []" "n \<noteq> []"
  shows "resourceOwnedByKiteVirtualMachine stored ns n"
proof -
  have "labelOf stored l = labelOf obj l" if "labelOf obj l \<noteq> []" for l
    using assms(1) that by (auto simp: applied_def labelOf_def split: option.splits)
  with assms(2-4) show ?thesis
    by (simp add: resourceOwnedByKiteVirtualMachine_def kiteControllerLabel_def)
qed

text \<open>An object of the desired state that is in the cluster, as a child of the VM and with the content that was applied.\<close>

definition appliedAt :: "string \<Rightarrow> string \<Rightarrow> kview \<Rightarrow> kobj \<Rightarrow> bool" where
  "appliedAt ns n v obj \<longleftrightarrow> (\<exists>x. v (objectKey obj) = Some x \<and> ownedChild ns n (objectKey obj) x \<and> contentApplied obj x)"

lemma childObject_key:
  "childObject ns n obj \<Longrightarrow> \<exists>g. kiteVirtualMachineObjectGVR obj = Inr g \<and> k_namespace obj = ns \<and> objectKey obj = (g, ns, k_name obj)"
  by (auto simp: childObject_def objectKey_def)

lemma wp_applyObject:
  assumes api: "apply_api E view" and child: "childObject ns n obj" and named: "ns \<noteq> []" "n \<noteq> []"
    and failed: "\<And>s' e. Q (Inl e) s'"
    and success: "\<And>s'. appliedAt ns n (view s') obj \<and> (\<forall>k. k \<noteq> objectKey obj \<longrightarrow> view s' k = view s k) \<Longrightarrow> Q (Inr ()) s'"
  shows "wp (applyKiteVirtualMachineObject E obj) Q s"
proof -
  obtain g where g: "kiteVirtualMachineObjectGVR obj = Inr g" and ns: "k_namespace obj = ns" and key: "objectKey obj = (g, ns, k_name obj)"
    using childObject_key[OF child] by blast
  have own: "resourceOwnedByKiteVirtualMachine obj ns n" "objectKey obj \<in> childKeys ns n"
    using child by (auto simp: childObject_def objectKey_def)
  have fin: "appliedAt ns n (view s') obj \<and> (\<forall>k. k \<noteq> objectKey obj \<longrightarrow> view s' k = view s k)"
    if app: "applied g ns obj (view s) (view s') stored" "contentApplied obj stored" for s' stored
    using app(1) owned_applied[OF app(1) own(1) named] own(2) app(2) by (auto simp: applied_def appliedAt_def ownedChild_def key)
  have "wp (env_apply E g ns obj) (\<lambda>r. wp (case r of
            Inl e \<Rightarrow> if apiIsNotFound e
              then fail (Plain (k_kind obj @ '' resource API is not installed in this cluster; '' @
                      missingKiteVirtualMachineDependencyMessage (k_kind obj)))
              else fail (Wrapped (''failed to apply '' @ k_kind obj @ '' '' @ ns @ ''/'' @ k_name obj @ '': '') e [])
          | Inr _ \<Rightarrow> ok ()) Q) s"
    by (rule apply_api.wp_apply_content[OF api], unfold sum.case wp_ok) (rule success[OF fin] | simp add: wp_simps failed)+
  then show ?thesis
    unfolding applyKiteVirtualMachineObject_def g sum.case wp_bind ns .
qed

lemma wp_applyAll:
  assumes api: "apply_api E view" and child: "\<And>obj. obj \<in> set objs \<Longrightarrow> childObject ns n obj" and keys: "distinct (map objectKey objs)"
    and named: "ns \<noteq> []" "n \<noteq> []" and other: "k \<notin> objectKey ` set objs"
  shows "wp (forE objs (\<lambda>obj. orFailed E C vm domain (applyKiteVirtualMachineObject E obj)))
     (\<lambda>r s'. case r of Inl e \<Rightarrow> True | Inr _ \<Rightarrow> (\<forall>obj \<in> set objs. appliedAt ns n (view s') obj) \<and> view s' k = view s k) s"
proof (rule wp_forE_all[where I = "\<lambda>ys s'. (\<forall>obj \<in> set ys. appliedAt ns n (view s') obj) \<and> view s' k = view s k"])
  fix ys obj zs s1 assume split: "objs = ys @ obj # zs" and I: "(\<forall>obj \<in> set ys. appliedAt ns n (view s1) obj) \<and> view s1 k = view s k"
  let ?Q = "\<lambda>r s'. case r of Inl e \<Rightarrow> True | Inr (_ :: unit) \<Rightarrow> (\<forall>obj \<in> set (ys @ [obj]). appliedAt ns n (view s') obj) \<and> view s' k = view s k"
  have c: "childObject ns n obj" using child split by simp
  have failing: "wp (failWithStatus E C vm domain e) ?Q s2" for e s2
    unfolding failWithStatus_def wp_bind by (rule wpI) (auto simp: wp_simps split: sum.splits)
  have good: "?Q (Inr ()) s2"
    if s2: "appliedAt ns n (view s2) obj \<and> (\<forall>k. k \<noteq> objectKey obj \<longrightarrow> view s2 k = view s1 k)" for s2
  proof -
    have "objectKey obj \<notin> objectKey ` set ys" using keys by (simp add: split)
    then have "view s2 (objectKey o') = view s1 (objectKey o')" if "o' \<in> set ys" for o'
      using s2[THEN conjunct2, rule_format, of "objectKey o'"] that by (metis imageI)
    then have "appliedAt ns n (view s2) o'" if "o' \<in> set ys" for o' using I that by (simp add: appliedAt_def)
    moreover have "k \<noteq> objectKey obj" using other by (auto simp: split)
    moreover from this have "view s2 k = view s k" using s2[THEN conjunct2, rule_format, of k] I by simp
    ultimately show ?thesis using s2[THEN conjunct1] by simp
  qed
  show "wp (orFailed E C vm domain (applyKiteVirtualMachineObject E obj)) ?Q s1"
    unfolding orFailed_def wp_bind by (rule wp_applyObject[OF api c named]; simp only: sum.case wp_ok; (rule failing | erule good[unfolded sum.case]))
qed simp

lemma sshKey_not_object: "sshKey vm \<notin> objectKey ` set (machineObjects vm domain pk gh sc tls)"
  by (auto simp: machineObjects_def vmServiceTemplate_def dataVolumeTemplate_def cloudInitTemplate_def kubevirtMachineTemplate_def
      servicePortTemplate_def ingressTemplate_def objectKey_def kiteVirtualMachineObjectGVR_def sshKey_def sshKeySecretName_def)

lemma valid_named: "validateKiteVirtualMachineSpec vm = None \<Longrightarrow> kv_name vm \<noteq> [] \<and> kv_namespace vm \<noteq> []"
  by (auto simp: validateKiteVirtualMachineSpec_def missingSpecFields_def Let_def split: if_splits)



section \<open>Statuses\<close>

lemma settled_noop:
  assumes "kube_api E view" "statusSettled plan (kv_namespace vm) (kv_name vm) (view s)"
  shows "wp (writeStatus E C vm what plan) (\<lambda>r s'. view s' = view s) s"
  by (rule kube_api.wp_writeStatus[OF assms(1)])
     (use assms(2) in \<open>auto simp: statusSettled_def statusWritten_def plannedBody_def\<close>)

lemma wp_settles:
  assumes "kube_api E view"
    and "\<And>v'. statusWritten plan (kv_namespace vm) (kv_name vm) (view s) v' \<Longrightarrow> statusSettled plan (kv_namespace vm) (kv_name vm) v'"
  shows "wp (writeStatus E C vm what plan) (\<lambda>r s'. r = Inr () \<longrightarrow> statusSettled plan (kv_namespace vm) (kv_name vm) (view s')) s"
  by (rule kube_api.wp_writeStatus[OF assms(1)]) (auto intro: assms(2))

text \<open>C30: a status write that succeeded is settled: writing the same status again, whatever the clock shows,
  is a no-op, for the VM status and for the DataVolume status alike.\<close>

theorem status_update_idempotent:
  assumes "kube_api E view"
  shows "(run_state (updateKiteVirtualMachineStatus E C vm w) s = (Inr (), s1) \<longrightarrow>
      run_state (updateKiteVirtualMachineStatus E C' vm w) s1 = (r, s2) \<longrightarrow> view s2 = view s1) \<and>
    (run_state (updateKiteVirtualMachineDataVolumeStatus E C vm d) s = (Inr (), s1) \<longrightarrow>
      run_state (updateKiteVirtualMachineDataVolumeStatus E C' vm d) s1 = (r, s2) \<longrightarrow> view s2 = view s1)"
proof (intro conjI impI)
  assume 1: "run_state (updateKiteVirtualMachineStatus E C vm w) s = (Inr (), s1)"
    and 2: "run_state (updateKiteVirtualMachineStatus E C' vm w) s1 = (r, s2)"
  have name: "k_name cur = kv_name vm" if "view s (vmKey (kv_namespace vm) (kv_name vm)) = Some cur" for cur
    using kube_api.view_key[OF assms that[unfolded vmKey_def]] by simp
  have "statusSettled (vmStatusPlan vm w) (kv_namespace vm) (kv_name vm) (view s1)"
    using wpD[OF wp_settles[OF assms vmStatus_settles[OF _ name]] 1[unfolded updateKiteVirtualMachineStatus_def]] by simp
  from wpD[OF settled_noop[OF assms this] 2[unfolded updateKiteVirtualMachineStatus_def]] show "view s2 = view s1" .
next
  assume 1: "run_state (updateKiteVirtualMachineDataVolumeStatus E C vm d) s = (Inr (), s1)"
    and 2: "run_state (updateKiteVirtualMachineDataVolumeStatus E C' vm d) s1 = (r, s2)"
  have "statusSettled (dataVolumePlan d) (kv_namespace vm) (kv_name vm) (view s1)"
    using wpD[OF wp_settles[OF assms dataVolume_settles] 1[unfolded updateKiteVirtualMachineDataVolumeStatus_def]] by simp
  from wpD[OF settled_noop[OF assms this] 2[unfolded updateKiteVirtualMachineDataVolumeStatus_def]] show "view s2 = view s1" .
qed

theorem status_update_idempotent_witness:
  "mem_view (snd (run_state (updateKiteVirtualMachineStatus mem_env mem_conv demoMachine (appliedWrite demoMachine ''web.kite.dev''))
      (snd (run_state (updateKiteVirtualMachineStatus mem_env mem_conv demoMachine (appliedWrite demoMachine ''web.kite.dev'')) (vmWorld (vmObject [] []) []))))) =
   mem_view (snd (run_state (updateKiteVirtualMachineStatus mem_env mem_conv demoMachine (appliedWrite demoMachine ''web.kite.dev'')) (vmWorld (vmObject [] []) [])))"
proof -
  let ?m = "updateKiteVirtualMachineStatus mem_env mem_conv demoMachine (appliedWrite demoMachine ''web.kite.dev'')"
  let ?s = "vmWorld (vmObject [] []) []"
  have "\<not> isl (fst (run_state ?m ?s))" by code_simp
  from run_Inr[OF this] obtain u s1 where "run_state ?m ?s = (Inr u, s1)" by blast
  then have run: "run_state ?m ?s = (Inr (), s1)" by simp
  obtain r s2 where run2: "run_state ?m s1 = (r, s2)" by fastforce
  from status_update_idempotent[OF mem_kube_api, THEN conjunct1, rule_format, OF run run2] run run2 show ?thesis by simp
qed


definition runningVM :: kobj where
  "runningVM = vmObject [] [(''phase'', GStr ''Running''), (''observedGeneration'', GInt 1),
     (''conditions'', GList [GMap [(''type'', GStr kiteVMConditionReady), (''status'', GStr ''True'')]])]"

lemma runningVM_view: "mem_view (vmWorld runningVM []) (vmKey ''ku-alice'' ''web'') = Some runningVM"
  by (simp add: mem_view_def vmWorld_def mem_init_def vmKey_def validKey_def runningVM_def vmObject_def newObject_def)


lemma settled_shows:
  assumes "statusSettled (vmStatusPlan vm w) ns n v" "v (vmKey ns n) = Some x" "k_deletionTimestamp x = None"
    "sw_phase w \<noteq> kiteVMPhaseProvisioning"
  shows "showsStatus x (sw_phase w) w"
    "conditionMatches (findKiteVirtualMachineCondition (k_body x)) (sw_conditionStatus w) (sw_reason w) (sw_message w)"
proof -
  have "vmStatusPlan vm w x = None" using assms(1-3) by (simp add: statusSettled_def)
  then have "kiteVirtualMachineStatusMatches x (k_generation x) (sw_phase w) w False"
    using assms(4) by (auto simp: vmStatusPlan_def Let_def shouldPreserveRuntimeStatus_def split: if_splits)
  then show "showsStatus x (sw_phase w) w"
    "conditionMatches (findKiteVirtualMachineCondition (k_body x)) (sw_conditionStatus w) (sw_reason w) (sw_message w)"
    unfolding statusMatches_iff by auto
qed

text \<open>A successful status write of a living VM shows the status that was asked for.\<close>

lemma wp_vmStatus_shows:
  assumes api: "kube_api E view" and cur: "view s (vmKey (kv_namespace vm) (kv_name vm)) = Some cur" "k_deletionTimestamp cur = None"
    and phase: "sw_phase w \<noteq> kiteVMPhaseProvisioning"
  shows "wp (updateKiteVirtualMachineStatus E C vm w) (\<lambda>r s'. r = Inr () \<longrightarrow>
     (\<exists>x. view s' (vmKey (kv_namespace vm) (kv_name vm)) = Some x \<and> showsStatus x (sw_phase w) w \<and>
        conditionMatches (findKiteVirtualMachineCondition (k_body x)) (sw_conditionStatus w) (sw_reason w) (sw_message w))) s"
proof -
  have name: "k_name c = kv_name vm" if "view s (vmKey (kv_namespace vm) (kv_name vm)) = Some c" for c
    using kube_api.view_key[OF api that[unfolded vmKey_def]] by simp
  have written: "\<exists>x. v' (vmKey (kv_namespace vm) (kv_name vm)) = Some x \<and> showsStatus x (sw_phase w) w \<and>
        conditionMatches (findKiteVirtualMachineCondition (k_body x)) (sw_conditionStatus w) (sw_reason w) (sw_message w)"
    if wr: "statusWritten (vmStatusPlan vm w) (kv_namespace vm) (kv_name vm) (view s) v'" for v'
  proof -
    obtain x where x: "v' (vmKey (kv_namespace vm) (kv_name vm)) = Some x" "k_deletionTimestamp x = None"
      using wr unfolding statusWritten_def by (metis fun_upd_same)
    with settled_shows[OF vmStatus_settles[OF wr name] x phase] show ?thesis by blast
  qed
  show ?thesis
    unfolding updateKiteVirtualMachineStatus_def
    by (rule kube_api.wp_writeStatus[OF api]) (use written settled_shows[of vm w "kv_namespace vm" "kv_name vm" "view s" cur, OF _ cur phase] cur in auto)
qed

text \<open>A status write that succeeds on a living VM, for any phase but \<open>Provisioning\<close>, leaves the phase,
  power state, domain, node and child names in the status, the generation observed, and the Ready
  condition with the given status, reason and message.\<close>

theorem status_write_shows:
  assumes "kube_api E view" "view s (vmKey (kv_namespace vm) (kv_name vm)) = Some cur" "k_deletionTimestamp cur = None"
    "sw_phase w \<noteq> kiteVMPhaseProvisioning" "run_state (updateKiteVirtualMachineStatus E C vm w) s = (Inr (), s')"
  shows "\<exists>x. view s' (vmKey (kv_namespace vm) (kv_name vm)) = Some x \<and> showsStatus x (sw_phase w) w \<and>
     conditionMatches (findKiteVirtualMachineCondition (k_body x)) (sw_conditionStatus w) (sw_reason w) (sw_message w)"
  using wpD[OF wp_vmStatus_shows[OF assms(1-4)] assms(5)] by simp

theorem status_write_shows_witness:
  "\<exists>s' x. mem_view s' (vmKey ''ku-alice'' ''web'') = Some x \<and> showsStatus x kiteVMPhaseDeleting (deletingWrite demoMachine)"
proof -
  let ?m = "updateKiteVirtualMachineStatus mem_env mem_conv demoMachine (deletingWrite demoMachine)"
  have v: "mem_view (vmWorld runningVM []) (vmKey (kv_namespace demoMachine) (kv_name demoMachine)) = Some runningVM"
    using runningVM_view by (simp add: demoMachine_def)
  have "\<not> isl (fst (run_state ?m (vmWorld runningVM [])))" by code_simp
  from run_Inr[OF this] obtain u s' where "run_state ?m (vmWorld runningVM []) = (Inr u, s')" by blast
  then have run: "run_state ?m (vmWorld runningVM []) = (Inr (), s')" by simp
  have "k_deletionTimestamp runningVM = None" "sw_phase (deletingWrite demoMachine) \<noteq> kiteVMPhaseProvisioning"
    by (simp_all add: runningVM_def vmObject_def newObject_def deletingWrite_def phase_defs)
  from status_write_shows[OF mem_kube_api, OF v this run] show ?thesis
    by (auto simp: demoMachine_def deletingWrite_def)
qed

text \<open>A Service event on a VM that runs, was stopped or is ready keeps the phase but turns the Ready
  condition to \<open>False\<close> (\<open>VM Service is synced\<close>), although KubeVirt had reported the VM ready.\<close>

theorem service_event_clears_ready:
  assumes api: "kube_api E view" and C: "convertsVM C"
    and owner: "labelOf service kiteManagedByLabel = kiteControllerLabel" "labelOf service kiteVMNamespaceLabel = ns"
      "labelOf service kiteVMNameLabel = n" "ns \<noteq> []" "n \<noteq> []"
    and obj: "view s (vmKey ns n) = Some obj" "k_deletionTimestamp obj = None"
    and stable: "kiteVMPhaseIsRuntimeStable (statusString obj ''phase'')"
    and run: "run_state (ReconcileKiteVirtualMachineService E C (EventObject service) False) s = (Inr (), s')"
  shows "\<exists>x. view s' (vmKey ns n) = Some x \<and> statusString x ''phase'' = statusString obj ''phase'' \<and>
     conditionMatches (findKiteVirtualMachineCondition (k_body x)) ConditionFalse kiteVMReasonReconciled ''VM Service is synced''"
proof -
  let ?Q = "\<lambda>r s'. r = Inr () \<longrightarrow> (\<exists>x. view s' (vmKey ns n) = Some x \<and> statusString x ''phase'' = statusString obj ''phase'' \<and>
     conditionMatches (findKiteVirtualMachineCondition (k_body x)) ConditionFalse kiteVMReasonReconciled ''VM Service is synced'')"
  have nonempty: "statusString obj ''phase'' \<noteq> []" "statusString obj ''phase'' \<noteq> kiteVMPhaseProvisioning"
    using stable by (auto simp: kiteVMPhaseIsRuntimeStable_def phase_defs)
  have "wp (mirrorService E C False obj) ?Q s1" if v1: "view s1 = view s" for s1
  proof (cases "cv_vm C obj")
    case (Inl e)
    then show ?thesis using obj by (simp add: mirrorService_def kiteVirtualMachineFromUnstructured_def wp_fail)
  next
    case (Inr vm)
    have key: "kv_namespace vm = ns" "kv_name vm = n"
      using converted_key[OF C Inr] kube_api.view_key[OF api obj(1)[unfolded vmKey_def]] by auto
    have "wp (updateKiteVirtualMachineStatus E C vm (serviceWrite vm obj domain)) ?Q s2" if "view s2 = view s" for domain s2
      by (rule wp_mono[OF wp_vmStatus_shows[OF api]])
         (use that obj key nonempty in \<open>auto simp: serviceWrite_def Let_def showsStatus_def\<close>)
    then have "wp (tryE (kiteVirtualMachineDomain E vm) (\<lambda>domain. updateKiteVirtualMachineStatus E C vm (serviceWrite vm obj domain))) ?Q s1"
      using v1 by (intro kube_api.wp_try_keeps[OF api kube_api.reads_keep(1)[OF api]]) simp_all
    then show ?thesis using obj Inr by (simp add: mirrorService_def kiteVirtualMachineFromUnstructured_def)
  qed
  then have "wp (env_get E kiteVirtualMachineGVR ns n) (\<lambda>r. wp (case r of
          Inl e \<Rightarrow> if apiIsNotFound e then ok ()
            else fail (Wrapped (''failed to read owning KiteVirtualMachine '' @ ns @ ''/'' @ n @ '': '') e [])
        | Inr kiteVMObject \<Rightarrow> mirrorService E C False kiteVMObject) ?Q) s"
    using obj(1) by (intro kube_api.wp_get[OF api]) (auto simp: wp_simps vmKey_def)
  then have "wp (ReconcileKiteVirtualMachineService E C (EventObject service) False) ?Q s"
    unfolding ReconcileKiteVirtualMachineService_def serviceFromEventObject_def eventResource_def eventObj.case sum.case
      withOwner_def owner(1-3) Let_def using owner(4,5) by (simp add: wp_bind)
  from wpD[OF this run] show ?thesis by simp
qed

definition accessService :: kobj where
  "accessService = childOf ''Service'' ''vps-access-web'' ''ku-alice'' ''web'' []"

theorem service_event_clears_ready_witness:
  "\<exists>s' x. machineStringValue (map_of (findKiteVirtualMachineCondition (k_body runningVM)) ''status'') = ConditionTrue \<and>
     mem_view s' (vmKey ''ku-alice'' ''web'') = Some x \<and> statusString x ''phase'' = ''Running'' \<and>
     machineStringValue (map_of (findKiteVirtualMachineCondition (k_body x)) ''status'') = ConditionFalse"
proof -
  let ?m = "ReconcileKiteVirtualMachineService mem_env mem_conv (EventObject accessService) False"
  have "\<not> isl (fst (run_state ?m (vmWorld runningVM [])))" by code_simp
  from run_Inr[OF this] obtain u s' where "run_state ?m (vmWorld runningVM []) = (Inr u, s')" by blast
  then have run: "run_state ?m (vmWorld runningVM []) = (Inr (), s')" by simp
  have labels: "labelOf accessService kiteManagedByLabel = kiteControllerLabel" "labelOf accessService kiteVMNamespaceLabel = ''ku-alice''"
    "labelOf accessService kiteVMNameLabel = ''web''" "''ku-alice'' \<noteq> []" "''web'' \<noteq> []" by code_simp+
  have st: "kiteVMPhaseIsRuntimeStable (statusString runningVM ''phase'')" "statusString runningVM ''phase'' = ''Running''"
    "machineStringValue (map_of (findKiteVirtualMachineCondition (k_body runningVM)) ''status'') = ConditionTrue" by code_simp+
  have "k_deletionTimestamp runningVM = None" by (simp add: runningVM_def vmObject_def newObject_def)
  from service_event_clears_ready[OF mem_kube_api mem_convertsVM labels, OF runningVM_view this st(1) run] st
  show ?thesis by (auto simp: conditionMatches_def)
qed

section \<open>KubeVirt state\<close>

text \<open>The Ready condition mirrored from KubeVirt is \<open>True\<close> exactly for the stable phases Running, Stopped
  and Ready, and the power state \<open>On\<close> is reported exactly when KubeVirt reports the VM as running, as
  starting, or, with any status other than stopped, intends it to run.\<close>

theorem kubevirt_status_consistent:
  "case kiteStatusFromKubeVirtVirtualMachine vm kv of (phase, pow, condition, message) \<Rightarrow>
     (condition = ConditionTrue \<longleftrightarrow> kiteVMPhaseIsRuntimeStable phase) \<and>
     (condition = ConditionFalse \<longleftrightarrow> phase = kiteVMPhaseProvisioning) \<and>
     (pow = ''On'' \<longleftrightarrow> printableStatus kv \<in> {''Running'', ''Starting''} \<or>
        printableStatus kv \<noteq> ''Stopped'' \<and> kubeVirtVirtualMachineRunning kv)"
  by (simp add: kiteStatusFromKubeVirtVirtualMachine_def Let_def kiteVMPhaseIsRuntimeStable_def phase_defs
      ConditionTrue_def ConditionFalse_def)

text \<open>The run strategy written for a VM is read back as its power intent, so that a KubeVirt VM that
  carries what the controller rendered is never seen as drifted.\<close>

theorem runStrategy_roundtrip:
  assumes "NestedString (k_body kv) [''spec'', ''runStrategy''] = Inr (Some (kubeVirtRunStrategyForKiteVM vm))"
  shows "kubeVirtVirtualMachineRunning kv = vmShouldRun vm"
  using assms by (simp add: kubeVirtVirtualMachineRunning_def nestedOr_def kubeVirtRunStrategyForKiteVM_def split: if_splits)

theorem runStrategy_roundtrip_witness:
  "kubeVirtVirtualMachineRunning (childOf ''VirtualMachine'' ''web'' ''ku-alice'' ''web'' [(''spec'', GMap [(''runStrategy'', GStr ''Always'')])]) =
     vmShouldRun demoMachine"
proof -
  have "NestedString (k_body (childOf ''VirtualMachine'' ''web'' ''ku-alice'' ''web'' [(''spec'', GMap [(''runStrategy'', GStr ''Always'')])]))
     [''spec'', ''runStrategy''] = Inr (Some (kubeVirtRunStrategyForKiteVM demoMachine))" by code_simp
  from runStrategy_roundtrip[OF this] show ?thesis .
qed

section \<open>Concurrent key generation\<close>

text \<open>When another writer stores the SSH key Secret between the read and the create, the function still
  succeeds, with the pair it has just generated: the stored Secret is left as it is, and the returned
  public key is not the one the gateway will use.\<close>

theorem sshKey_lost_race:
  assumes api: "kube_api E view" and stored: "view s (secretGVR, kv_namespace vm, sshKeySecretName (kv_name vm)) = Some secret"
    and run: "run_state (createSSHKeySecret E vm) s = (Inr kp, s')"
  shows "view s' = view s \<and> fst (run_state (GenerateRSA E 2048) s) = Inr kp"
proof -
  obtain g s1 where gen: "run_state (GenerateRSA E 2048) s = (g, s1)" by fastforce
  have v1: "view s1 = view s" using keepsD[OF kube_api.GenerateRSA_keeps[OF api] gen] .
  have "wp (env_create E secretGVR (kv_namespace vm) (newKiteVirtualMachineSSHKeySecret vm kp')) (\<lambda>r s2. view s2 = view s \<and> isl r) s1" for kp'
    by (rule kube_api.wp_create[OF api]) (use stored v1 in \<open>auto simp: created_def\<close>)
  from wpD[OF this] run gen show ?thesis
    by (auto simp: createSSHKeySecret_def ok_def fail_def split: sum.splits prod.splits if_splits)
qed

definition otherKeySecret :: kobj where
  "otherKeySecret = newKiteVirtualMachineSSHKeySecret demoMachine \<lparr>PrivateKey = ''other'', PublicKey = ''other''\<rparr>"

theorem sshKey_lost_race_witness:
  "\<exists>kp s' secret. run_state (createSSHKeySecret mem_env demoMachine) (mem_init [(sshKey demoMachine, otherKeySecret)] []) = (Inr kp, s') \<and>
     mem_view s' (sshKey demoMachine) = Some secret \<and> keyPairFromSecret secret \<noteq> Inr kp"
proof -
  let ?s = "mem_init [(sshKey demoMachine, otherKeySecret)] []" let ?m = "createSSHKeySecret mem_env demoMachine"
  have "\<not> isl (fst (run_state ?m ?s))" by code_simp
  from run_Inr[OF this] obtain kp s' where run: "run_state ?m ?s = (Inr kp, s')" by blast
  have "map_option keyPairFromSecret (mem_view ?s (sshKey demoMachine)) = Some (Inr \<lparr>PrivateKey = ''other'', PublicKey = ''other''\<rparr>)"
    by code_simp
  then obtain secret where sec: "mem_view ?s (sshKey demoMachine) = Some secret"
    "keyPairFromSecret secret = Inr \<lparr>PrivateKey = ''other'', PublicKey = ''other''\<rparr>" by blast
  have gen: "fst (run_state (GenerateRSA mem_env 2048) ?s) = Inr \<lparr>PrivateKey = ''pem:rsa-key'', PublicKey = ''ssh-rsa rsa-key''\<rparr>"
    by code_simp
  from sec(1) have "mem_view ?s (secretGVR, kv_namespace demoMachine, sshKeySecretName (kv_name demoMachine)) = Some secret"
    by (simp only: sshKey_def)
  from sshKey_lost_race[OF mem_kube_api, OF this run] gen sec run
  show ?thesis by auto
qed

end
