(* ===== verification/User_Reconcile.thy ===== *)
theory User_Reconcile
  imports Machine_Reconcile
begin

text \<open>
  The KiteUser controllers: \<open>user-reconcile.go\<close> (namespace and network policies of a user),
  \<open>namespace-reconcile.go\<close> (orphaned and deleted namespaces) and \<open>user-base-resource-reconcile.go\<close>
  (drift of the network policies).
\<close>

section \<open>Status\<close>

definition kiteUserPhaseReady :: string where "kiteUserPhaseReady = ''Ready''"
definition kiteUserPhaseFailed :: string where "kiteUserPhaseFailed = ''Failed''"
definition kiteUserConditionReady :: string where "kiteUserConditionReady = ''NamespaceReady''"
definition kiteUserReasonReconciled :: string where "kiteUserReasonReconciled = ''Reconciled''"
definition kiteUserReasonFailed :: string where "kiteUserReasonFailed = ''ReconcileFailed''"
definition kiteUserReadyMessage :: string where
  "kiteUserReadyMessage = ''user namespace and network policies are ready''"
definition kiteNamespaceManagedByKey :: string where "kiteNamespaceManagedByKey = ''hy3ons.github.io/managed-by''"
definition kiteNamespaceManagedBy :: string where "kiteNamespaceManagedBy = ''kite-controller''"
definition deprecatedUserQuotaPolicyName :: string where "deprecatedUserQuotaPolicyName = ''kite-user-quota-policy''"

fun firstReady :: "gov list \<Rightarrow> gomap" where
  "firstReady [] = []"
| "firstReady (GMap c # items) = (if stringValue c ''type'' = kiteUserConditionReady then c else firstReady items)"
| "firstReady (_ # items) = firstReady items"

definition findKiteUserCondition :: "kobj \<Rightarrow> gomap" where
  "findKiteUserCondition current =
     firstReady (nestedOr [] (NestedSlice (k_body current) [''status'', ''conditions'']))"

definition otherUserCondition :: "gov \<Rightarrow> bool" where
  "otherUserCondition item = (case item of GMap c \<Rightarrow> stringValue c ''type'' \<noteq> kiteUserConditionReady | _ \<Rightarrow> False)"

definition replaceKiteUserCondition :: "kobj \<Rightarrow> gomap \<Rightarrow> gov list" where
  "replaceKiteUserCondition current condition =
     filter otherUserCondition (nestedOr [] (NestedSlice (k_body current) [''status'', ''conditions''])) @ [GMap condition]"

record userStatusWrite =
  uw_phase :: string
  uw_conditionStatus :: string
  uw_reason :: string
  uw_message :: string

definition kiteUserStatusCondition :: "kobj \<Rightarrow> string \<Rightarrow> int \<Rightarrow> userStatusWrite \<Rightarrow> gomap" where
  "kiteUserStatusCondition current now observedGeneration w =
     (let existing = findKiteUserCondition current;
          existingTime = stringValue existing ''lastTransitionTime'';
          lastTransitionTime =
            (if stringValue existing ''status'' = uw_conditionStatus w \<and> existingTime \<noteq> [] then existingTime else now) in
      [(''type'', GStr kiteUserConditionReady), (''status'', GStr (uw_conditionStatus w)),
       (''reason'', GStr (uw_reason w)), (''message'', GStr (uw_message w)),
       (''observedGeneration'', GInt observedGeneration), (''lastTransitionTime'', GStr lastTransitionTime)])"

definition kiteUserStatusMatches :: "kobj \<Rightarrow> int \<Rightarrow> string \<Rightarrow> userStatusWrite \<Rightarrow> bool" where
  "kiteUserStatusMatches current observedGeneration namespace w =
     (let condition = findKiteUserCondition current in
      statusString current ''phase'' = uw_phase w \<and>
      statusInt current ''observedGeneration'' = observedGeneration \<and>
      statusString current ''observedNamespace'' = namespace \<and>
      statusString current ''message'' = uw_message w \<and>
      stringValue condition ''status'' = uw_conditionStatus w \<and>
      stringValue condition ''reason'' = uw_reason w \<and>
      stringValue condition ''message'' = uw_message w)"

definition updateKiteUserStatus :: "'s env \<Rightarrow> converters \<Rightarrow> KiteUser \<Rightarrow> userStatusWrite \<Rightarrow> ('s, unit result) state" where
  "updateKiteUserStatus E C user w = do {
     r \<leftarrow> env_get E kiteUserGVR [] (ku_name user);
     case r of
       Inl e \<Rightarrow>
         if apiIsNotFound e then ok ()
         else fail (Wrapped (''failed to read KiteUser '' @ ku_name user @ '' for status update: '') e [])
     | Inr current \<Rightarrow>
         if kiteUserStatusMatches current (ku_generation user) (us_namespace (ku_spec user)) w then ok ()
         else do {
           now \<leftarrow> env_now E;
           (let condition = kiteUserStatusCondition current (cv_localTime C now) (ku_generation user) w;
                conditions = replaceKiteUserCondition current condition in
            tryE (State_Monad.return (setStatusFields
                [(''phase'', Some (GStr (uw_phase w))),
                 (''observedGeneration'', Some (GInt (ku_generation user))),
                 (''observedNamespace'', Some (GStr (us_namespace (ku_spec user)))),
                 (''message'', Some (GStr (uw_message w))),
                 (''conditions'', Some (GList conditions))] (k_body current))) (\<lambda>body. do {
              u \<leftarrow> env_updateStatus E kiteUserGVR [] (current\<lparr>k_body := body\<rparr>);
              case u of
                Inl e \<Rightarrow> fail (Wrapped (''failed to update KiteUser '' @ ku_name user @ '' status: '') e [])
              | Inr _ \<Rightarrow> ok ()
            }))
         }
   }"

section \<open>Namespaces\<close>

definition kiteManagedNamespace :: "kobj \<Rightarrow> bool" where
  "kiteManagedNamespace namespace \<longleftrightarrow> labelOf namespace kiteNamespaceManagedByKey = kiteNamespaceManagedBy"

definition userNamespaceOf :: "kobj \<Rightarrow> string" where
  "userNamespaceOf user = nestedOr [] (NestedString (k_body user) [''spec'', ''namespace''])"

definition kiteUsersForNamespace :: "'s env \<Rightarrow> string \<Rightarrow> ('s, kobj list result) state" where
  "kiteUsersForNamespace E namespace = do {
     r \<leftarrow> env_list E kiteUserGVR [];
     case r of
       Inl e \<Rightarrow> fail (Wrapped (''failed to list KiteUsers for namespace '' @ namespace @ '' reconcile: '') e [])
     | Inr users \<Rightarrow> ok (filter (\<lambda>user. userNamespaceOf user = namespace) users)
   }"

definition namespaceReferencedByKiteUser :: "'s env \<Rightarrow> string \<Rightarrow> ('s, bool result) state" where
  "namespaceReferencedByKiteUser E namespace =
     tryE (kiteUsersForNamespace E namespace) (\<lambda>users. ok (users \<noteq> []))"

definition deleteNamespace :: "'s env \<Rightarrow> string \<Rightarrow> string \<Rightarrow> ('s, unit result) state" where
  "deleteNamespace E txt namespace = do {
     d \<leftarrow> env_delete E namespaceGVR [] namespace;
     case d of
       Inl e \<Rightarrow> if apiIsNotFound e then ok () else fail (Wrapped (txt @ namespace @ '': '') e [])
     | Inr _ \<Rightarrow> ok ()
   }"

definition deleteKiteUserNamespaceIfUnreferenced :: "'s env \<Rightarrow> string \<Rightarrow> ('s, unit result) state" where
  "deleteKiteUserNamespaceIfUnreferenced E namespace =
     tryE (namespaceReferencedByKiteUser E namespace) (\<lambda>referenced.
       if referenced then ok () else do {
         r \<leftarrow> env_get E namespaceGVR [] namespace;
         case r of
           Inl e \<Rightarrow>
             if apiIsNotFound e then ok ()
             else fail (Wrapped (''failed to read previous KiteUser namespace '' @ namespace @ '': '') e [])
         | Inr current \<Rightarrow>
             if \<not> kiteManagedNamespace current
             then fail (Plain (''previous namespace '' @ namespace @ '' is not managed by Kite''))
             else deleteNamespace E ''failed to delete previous KiteUser namespace '' namespace
       })"

definition reconcileKiteUserNamespaceChange :: "'s env \<Rightarrow> KiteUser \<Rightarrow> ('s, unit result) state" where
  "reconcileKiteUserNamespaceChange E user = do {
     r \<leftarrow> env_get E kiteUserGVR [] (ku_name user);
     case r of
       Inl e \<Rightarrow>
         if apiIsNotFound e then ok ()
         else fail (Wrapped (''failed to read KiteUser '' @ ku_name user @ '' before namespace change cleanup: '') e [])
     | Inr current \<Rightarrow>
         let previousNamespace = statusString current ''observedNamespace'' in
         if previousNamespace = [] \<or> previousNamespace = us_namespace (ku_spec user) then ok ()
         else deleteKiteUserNamespaceIfUnreferenced E previousNamespace
   }"

definition validateUserNamespace :: "'s env \<Rightarrow> KiteUser \<Rightarrow> ('s, unit result) state" where
  "validateUserNamespace E user = do {
     r \<leftarrow> env_get E namespaceGVR [] (us_namespace (ku_spec user));
     case r of
       Inl e \<Rightarrow>
         if apiIsNotFound e then ok ()
         else fail (Wrapped (''failed to read namespace '' @ us_namespace (ku_spec user) @ '' for KiteUser '' @ ku_name user @ '': '') e [])
     | Inr current \<Rightarrow>
         if kiteManagedNamespace current then ok ()
         else fail (Plain (''namespace '' @ us_namespace (ku_spec user) @ '' already exists and is not managed by Kite''))
   }"

section \<open>Base resources\<close>

definition NamespaceData_Render :: "converters \<Rightarrow> string \<Rightarrow> kobj result" where
  "NamespaceData_Render C namespace = Render C ''namespace.yaml'' [(''Namespace'', namespace)]"

definition NetworkPolicyData_RenderAll :: "converters \<Rightarrow> string \<Rightarrow> kobj list result" where
  "NetworkPolicyData_RenderAll C namespace = cv_render C ''network-policy.yaml'' [(''Namespace'', namespace)]"

definition userBaseResources :: "converters \<Rightarrow> KiteUser \<Rightarrow> kobj list result" where
  "userBaseResources C user =
     tryRender (''failed to render namespace for KiteUser '' @ ku_name user @ '': '')
       (NamespaceData_Render C (us_namespace (ku_spec user))) (\<lambda>namespaceObject.
     tryRender (''failed to render network policies for KiteUser '' @ ku_name user @ '': '')
       (NetworkPolicyData_RenderAll C (us_namespace (ku_spec user))) (\<lambda>networkPolicyObjects.
     Inr ([namespaceObject] @ networkPolicyObjects)))"

definition userResourceGVR :: "kobj \<Rightarrow> (gvr \<times> bool) result" where
  "userResourceGVR obj =
     (if k_kind obj = ''Namespace'' then Inr (namespaceGVR, False)
      else if k_kind obj = ''NetworkPolicy'' then Inr (networkPolicyGVR, True)
      else Inl (Plain (''unsupported KiteUser base resource kind '' @ quoted (k_kind obj))))"

definition applyUserResource :: "'s env \<Rightarrow> kobj \<Rightarrow> ('s, unit result) state" where
  "applyUserResource E obj =
     (case userResourceGVR obj of
        Inl e \<Rightarrow> fail e
      | Inr (g, namespaced) \<Rightarrow>
          let ns = (if namespaced then k_namespace obj else []);
              at = k_kind obj @ '' '' @ k_namespace obj @ ''/'' @ k_name obj in do {
          r \<leftarrow> env_apply E g ns obj;
          case r of
            Inr _ \<Rightarrow> ok ()
          | Inl e \<Rightarrow>
              if apiIsNotFound e then do {
                c \<leftarrow> env_create E g ns obj;
                case c of
                  Inl ce \<Rightarrow> fail (Wrapped (''failed to create '' @ at @ '' after apply NotFound: '') ce [])
                | Inr _ \<Rightarrow> ok ()
              } else fail (Wrapped (''failed to apply '' @ at @ '': '') e [])
        })"

definition deleteUserResource :: "'s env \<Rightarrow> kobj \<Rightarrow> ('s, unit result) state" where
  "deleteUserResource E obj =
     (case userResourceGVR obj of
        Inl e \<Rightarrow> fail e
      | Inr (g, namespaced) \<Rightarrow> do {
          d \<leftarrow> env_delete E g (if namespaced then k_namespace obj else []) (k_name obj);
          case d of
            Inl e \<Rightarrow>
              if apiIsNotFound e then ok ()
              else fail (Wrapped (''failed to delete '' @ k_kind obj @ '' '' @ k_namespace obj @ ''/'' @ k_name obj @ '': '') e [])
          | Inr _ \<Rightarrow> ok ()
        })"

section \<open>The reconcilers\<close>

definition kiteUserFromEventObject :: "converters \<Rightarrow> eventObj \<Rightarrow> KiteUser result" where
  "kiteUserFromEventObject C ev =
     (case eventResource ''KiteUser'' ev of
        Inl e \<Rightarrow> Inl e
      | Inr resource \<Rightarrow>
          (case cv_user C resource of
             Inl e \<Rightarrow> Inl (Wrapped (''failed to convert KiteUser '' @ k_name resource @ '': '') e [])
           | Inr user \<Rightarrow> Inr user))"

definition deleteDeprecatedQuota :: "'s env \<Rightarrow> KiteUser \<Rightarrow> ('s, unit result) state" where
  "deleteDeprecatedQuota E user = do {
     d \<leftarrow> env_delete E resourceQuotaGVR (us_namespace (ku_spec user)) deprecatedUserQuotaPolicyName;
     case d of
       Inl e \<Rightarrow>
         if \<not> apiIsNotFound e
         then fail (Wrapped (''failed to delete deprecated ResourceQuota '' @ us_namespace (ku_spec user) @ ''/'' @
                 deprecatedUserQuotaPolicyName @ '': '') e [])
         else ok ()
     | Inr _ \<Rightarrow> ok ()
   }"

definition readyUserWrite :: userStatusWrite where
  "readyUserWrite =
     \<lparr>uw_phase = kiteUserPhaseReady, uw_conditionStatus = ConditionTrue, uw_reason = kiteUserReasonReconciled,
      uw_message = kiteUserReadyMessage\<rparr>"

definition reconcileUser :: "'s env \<Rightarrow> converters \<Rightarrow> KiteUser \<Rightarrow> ('s, unit result) state" where
  "reconcileUser E C user =
     (if us_namespace (ku_spec user) = []
      then fail (Plain (''KiteUser '' @ ku_name user @ '' has empty spec.namespace''))
      else
        tryE (reconcileKiteUserNamespaceChange E user) (\<lambda>_.
        tryE (validateUserNamespace E user) (\<lambda>_.
        tryE (State_Monad.return (userBaseResources C user)) (\<lambda>objects.
        tryE (forE objects (applyUserResource E)) (\<lambda>_.
        tryE (deleteDeprecatedQuota E user) (\<lambda>_.
        updateKiteUserStatus E C user readyUserWrite))))))"

definition ReconcileKiteUser :: "'s env \<Rightarrow> converters \<Rightarrow> eventObj \<Rightarrow> ('s, unit result) state" where
  "ReconcileKiteUser E C ev =
     (case kiteUserFromEventObject C ev of Inl e \<Rightarrow> fail e | Inr user \<Rightarrow> reconcileUser E C user)"

definition recordKiteUserReconcileFailure :: "'s env \<Rightarrow> converters \<Rightarrow> eventObj \<Rightarrow> goerr \<Rightarrow> ('s, unit result) state" where
  "recordKiteUserReconcileFailure E C ev cause =
     (case kiteUserFromEventObject C ev of
        Inl e \<Rightarrow> fail e
      | Inr user \<Rightarrow> updateKiteUserStatus E C user
          \<lparr>uw_phase = kiteUserPhaseFailed, uw_conditionStatus = ConditionFalse, uw_reason = kiteUserReasonFailed,
           uw_message = errText cause\<rparr>)"

definition DeleteKiteUserResources :: "'s env \<Rightarrow> converters \<Rightarrow> eventObj \<Rightarrow> ('s, unit result) state" where
  "DeleteKiteUserResources E C ev =
     (case kiteUserFromEventObject C ev of
        Inl e \<Rightarrow> fail e
      | Inr user \<Rightarrow>
          if us_namespace (ku_spec user) = []
          then fail (Plain (''KiteUser '' @ ku_name user @ '' has empty spec.namespace''))
          else
            tryE (namespaceReferencedByKiteUser E (us_namespace (ku_spec user))) (\<lambda>referenced.
            if referenced then ok () else
            tryE (State_Monad.return (userBaseResources C user)) (\<lambda>objects.
            forE (rev objects) (\<lambda>obj. if k_kind obj = ''Namespace'' then ok () else deleteUserResource E obj))))"

text \<open>The handlers of the KiteUser informer.\<close>

definition userChangeFunc :: "'s env \<Rightarrow> converters \<Rightarrow> eventObj \<Rightarrow> ('s, unit) state" where
  "userChangeFunc E C ev = do {
     r \<leftarrow> ReconcileKiteUser E C ev;
     case r of
       Inl err \<Rightarrow> logged (recordKiteUserReconcileFailure E C ev err)
     | Inr _ \<Rightarrow> State_Monad.return ()
   }"

definition RegisterKiteUserReconciler :: "'s env \<Rightarrow> converters \<Rightarrow>
    (eventObj \<Rightarrow> ('s, unit) state) \<times> (eventObj \<Rightarrow> eventObj \<Rightarrow> ('s, unit) state) \<times> (eventObj \<Rightarrow> ('s, unit) state)" where
  "RegisterKiteUserReconciler E C =
     (userChangeFunc E C, \<lambda>oldObj newObj. userChangeFunc E C newObj, \<lambda>obj. logged (DeleteKiteUserResources E C obj))"

text \<open>A loop over the users of a namespace that reconciles each and wraps the first error.\<close>

definition reconcileUsers :: "'s env \<Rightarrow> converters \<Rightarrow> (kobj \<Rightarrow> string) \<Rightarrow> kobj list \<Rightarrow> ('s, unit result) state" where
  "reconcileUsers E C txt users =
     forE users (\<lambda>user. do {
       r \<leftarrow> ReconcileKiteUser E C (EventObject user);
       case r of Inl e \<Rightarrow> fail (Wrapped (txt user) e []) | Inr _ \<Rightarrow> ok ()
     })"

definition ReconcileKiteNamespace :: "'s env \<Rightarrow> eventObj \<Rightarrow> ('s, unit result) state" where
  "ReconcileKiteNamespace E ev =
     (case namespaceFromEventObject ev of
        Inl e \<Rightarrow> fail e
      | Inr namespace \<Rightarrow>
          if \<not> kiteManagedNamespace namespace then ok () else
          tryE (namespaceReferencedByKiteUser E (k_name namespace)) (\<lambda>referenced.
            if referenced then ok ()
            else deleteNamespace E ''failed to delete orphan Kite namespace '' (k_name namespace)))"

definition RestoreKiteNamespace :: "'s env \<Rightarrow> converters \<Rightarrow> eventObj \<Rightarrow> ('s, unit result) state" where
  "RestoreKiteNamespace E C ev =
     (case namespaceFromEventObject ev of
        Inl e \<Rightarrow> fail e
      | Inr namespace \<Rightarrow>
          if \<not> kiteManagedNamespace namespace then ok () else
          tryE (kiteUsersForNamespace E (k_name namespace)) (\<lambda>users.
            reconcileUsers E C (\<lambda>user. ''failed to restore Kite namespace '' @ k_name namespace @ '' for KiteUser '' @
              k_name user @ '': '') users))"

definition RegisterKiteNamespaceReconciler :: "'s env \<Rightarrow> converters \<Rightarrow>
    (eventObj \<Rightarrow> ('s, unit) state) \<times> (eventObj \<Rightarrow> eventObj \<Rightarrow> ('s, unit) state) \<times> (eventObj \<Rightarrow> ('s, unit) state)" where
  "RegisterKiteNamespaceReconciler E C =
     (\<lambda>obj. logged (ReconcileKiteNamespace E obj),
      \<lambda>oldObj newObj. logged (ReconcileKiteNamespace E newObj),
      \<lambda>obj. logged (RestoreKiteNamespace E C obj))"

definition userNetworkPolicyDenyFromOtherNamespaces :: string where
  "userNetworkPolicyDenyFromOtherNamespaces = ''deny-from-other-namespaces''"

definition userNetworkPolicyTenantIsolationEgress :: string where
  "userNetworkPolicyTenantIsolationEgress = ''tenant-isolation-egress''"

definition kiteUserManagedBaseResource :: "gvr \<Rightarrow> kobj \<Rightarrow> bool" where
  "kiteUserManagedBaseResource resource obj =
     (case resource of
        networkPolicyGVR \<Rightarrow>
          k_name obj = userNetworkPolicyDenyFromOtherNamespaces \<or> k_name obj = userNetworkPolicyTenantIsolationEgress
      | _ \<Rightarrow> False)"

definition ReconcileKiteUserBaseResource :: "'s env \<Rightarrow> converters \<Rightarrow> gvr \<Rightarrow> eventObj \<Rightarrow> ('s, unit result) state" where
  "ReconcileKiteUserBaseResource E C resource ev =
     (case baseResourceFromEventObject ev of
        Inl e \<Rightarrow> fail e
      | Inr obj \<Rightarrow>
          if \<not> kiteUserManagedBaseResource resource obj then ok () else
          tryE (kiteUsersForNamespace E (k_namespace obj)) (\<lambda>users.
            reconcileUsers E C (\<lambda>user. ''failed to restore KiteUser base resources for '' @ k_name user @ '' after '' @
              k_kind obj @ '' '' @ k_namespace obj @ ''/'' @ k_name obj @ '' drift: '') users))"

definition RegisterKiteUserBaseResourceReconciler :: "'s env \<Rightarrow> converters \<Rightarrow> gvr \<Rightarrow>
    (eventObj \<Rightarrow> ('s, unit) state) \<times> (eventObj \<Rightarrow> eventObj \<Rightarrow> ('s, unit) state) \<times> (eventObj \<Rightarrow> ('s, unit) state)" where
  "RegisterKiteUserBaseResourceReconciler E C resource =
     (\<lambda>obj. logged (ReconcileKiteUserBaseResource E C resource obj),
      \<lambda>oldObj newObj. logged (ReconcileKiteUserBaseResource E C resource newObj),
      \<lambda>obj. logged (ReconcileKiteUserBaseResource E C resource obj))"

end
