(* ===== verification/User_Properties.thy ===== *)
theory User_Properties
  imports User_Reconcile Machine_Properties
begin

text \<open>
  Properties of the KiteUser controllers: which namespaces are deleted, that a namespace not managed by
  Kite is never taken over, what a successful reconcile leaves, and what the deletion of a user removes.
\<close>

section \<open>References to namespaces\<close>

definition referenced :: "kview \<Rightarrow> string \<Rightarrow> bool" where
  "referenced v ns \<longleftrightarrow> (\<exists>scope n u. v (kiteUserGVR, scope, n) = Some u \<and> userNamespaceOf u = ns)"

definition nsKey :: "string \<Rightarrow> kkey" where
  "nsKey ns = (namespaceGVR, [], ns)"

definition userKey :: "string \<Rightarrow> kkey" where
  "userKey n = (kiteUserGVR, [], n)"

definition policyKeys :: "string \<Rightarrow> kkey set" where
  "policyKeys ns = {(networkPolicyGVR, ns, userNetworkPolicyDenyFromOtherNamespaces),
                    (networkPolicyGVR, ns, userNetworkPolicyTenantIsolationEgress)}"

text \<open>What the user controller relies on of the two templates.\<close>

definition rendersUserBase :: "converters \<Rightarrow> string \<Rightarrow> bool" where
  "rendersUserBase C ns \<longleftrightarrow>
     (\<forall>objs. cv_render C ''namespace.yaml'' [(''Namespace'', ns)] = Inr objs \<longrightarrow>
        (\<forall>obj \<in> set objs. k_kind obj = ''Namespace'' \<and> k_name obj = ns \<and> kiteManagedNamespace obj)) \<and>
     (\<forall>objs. cv_render C ''network-policy.yaml'' [(''Namespace'', ns)] = Inr objs \<longrightarrow>
        (\<forall>obj \<in> set objs. k_kind obj = ''NetworkPolicy'' \<and> k_namespace obj = ns) \<and>
        map k_name objs = [userNetworkPolicyDenyFromOtherNamespaces, userNetworkPolicyTenantIsolationEgress])"

context kube_api begin

lemma wp_users:
  assumes "\<And>s' e. view s' = view s \<Longrightarrow> Q (Inl e) s'"
    and "\<And>s' users. view s' = view s \<Longrightarrow> users \<noteq> [] \<longleftrightarrow> referenced (view s) ns \<Longrightarrow> Q (Inr users) s'"
  shows "wp (kiteUsersForNamespace E ns) Q s"
  unfolding kiteUsersForNamespace_def wp_bind
proof (rule wp_list, unfold sum.case wp_ok)
  fix s' items assume v: "view s' = view s" and l: "listed kiteUserGVR [] (view s) items"
  have "filter (\<lambda>u. userNamespaceOf u = ns) items \<noteq> [] \<longleftrightarrow> referenced (view s) ns"
    using l by (auto simp: listed_def referenced_def filter_empty_conv)
  then show "Q (Inr (filter (\<lambda>user. userNamespaceOf user = ns) items)) s'" by (rule assms(2)[OF v])
qed (simp add: wp_fail assms(1))

lemma wp_referenced:
  assumes "\<And>s' e. view s' = view s \<Longrightarrow> Q (Inl e) s'"
    and "\<And>s'. view s' = view s \<Longrightarrow> Q (Inr (referenced (view s) ns)) s'"
  shows "wp (namespaceReferencedByKiteUser E ns) Q s"
  unfolding namespaceReferencedByKiteUser_def wp_tryE
  by (rule wp_users) (simp_all add: wp_ok assms)

lemma wp_deleteNamespace:
  assumes "\<And>s' e. view s' = view s \<Longrightarrow> Q (Inl e) s'"
    and "\<And>s'. view s' = view s \<Longrightarrow> view s (nsKey ns) = None \<Longrightarrow> Q (Inr ()) s'"
    and "\<And>s' r. deleted namespaceGVR [] ns (view s) (view s') \<Longrightarrow> Q r s'"
  shows "wp (deleteNamespace E pre ns) Q s"
  unfolding deleteNamespace_def wp_bind
  by (rule wp_delete) (auto simp: wp_simps nsKey_def intro: assms)

end

text \<open>C32: the namespace reconciler deletes at most the namespace of the event, only when that carries the Kite
  label and no KiteUser refers to it; and when it succeeds on such a namespace, the namespace is gone or
  marked for deletion.\<close>

theorem ReconcileKiteNamespace_orphans:
  assumes api: "kube_api E view" and ev: "namespaceFromEventObject ev = Inr obj"
    and run: "run_state (ReconcileKiteNamespace E ev) s = (r, s')"
  shows "(view s' = view s \<or> kiteManagedNamespace obj \<and> \<not> referenced (view s) (k_name obj) \<and>
           deleted namespaceGVR [] (k_name obj) (view s) (view s')) \<and>
    (r = Inr () \<and> kiteManagedNamespace obj \<and> \<not> referenced (view s) (k_name obj) \<longrightarrow>
       (case view s' (nsKey (k_name obj)) of None \<Rightarrow> True | Some x \<Rightarrow> k_deletionTimestamp x \<noteq> None))"
    (is "?P r s'")
proof -
  have gone: "case v' (nsKey ns) of None \<Rightarrow> True | Some x \<Rightarrow> k_deletionTimestamp x \<noteq> None"
    if "deleted namespaceGVR [] ns v v'" for v v' ns
    using that by (auto simp: deleted_def nsKey_def marked_def split: option.splits if_splits)
  have "wp (ReconcileKiteNamespace E ev) ?P s"
  proof (cases "kiteManagedNamespace obj")
    case True
    have "wp (deleteNamespace E pre (k_name obj)) ?P s1" if "view s1 = view s" "\<not> referenced (view s) (k_name obj)" for pre s1
      by (rule kube_api.wp_deleteNamespace[OF api]) (use that True gone in auto)
    with True ev show ?thesis
      unfolding ReconcileKiteNamespace_def
      by (simp add: wp_tryE) (rule kube_api.wp_referenced[OF api], auto simp: wp_ok)
  qed (simp add: ReconcileKiteNamespace_def ev wp_ok)
  from wpD[OF this run] show ?thesis .
qed

definition namespaceObject :: "string \<Rightarrow> string \<Rightarrow> kobj" where
  "namespaceObject n by = newObject ''Namespace'' [] n [(kiteNamespaceManagedByKey, by)] []"

definition userObject :: "string \<Rightarrow> string \<Rightarrow> string \<Rightarrow> kobj" where
  "userObject n ns observed = (newObject ''KiteUser'' [] n []
     [(''spec'', GMap [(''namespace'', GStr ns)]), (''status'', GMap [(''observedNamespace'', GStr observed)])])
     \<lparr>k_resourceVersion := ''1'', k_generation := 1\<rparr>"

definition orphanWorld :: mem where
  "orphanWorld = mem_init [(nsKey ''ku-old'', namespaceObject ''ku-old'' kiteNamespaceManagedBy),
     (userKey ''alice'', userObject ''alice'' ''ku-alice'' ''ku-alice'')] []"

theorem ReconcileKiteNamespace_orphans_witness:
  "\<exists>s'. deleted namespaceGVR [] ''ku-old'' (mem_view orphanWorld) (mem_view s')"
proof -
  let ?obj = "namespaceObject ''ku-old'' kiteNamespaceManagedBy"
  let ?m = "ReconcileKiteNamespace mem_env (EventObject ?obj)"
  obtain r s' where run: "run_state ?m orphanWorld = (r, s')" by fastforce
  have "Option.is_none (mem_view (snd (run_state ?m orphanWorld)) (nsKey ''ku-old''))"
    "\<not> Option.is_none (mem_view orphanWorld (nsKey ''ku-old''))" by code_simp+
  then have "mem_view s' \<noteq> mem_view orphanWorld" using run by auto
  moreover have "namespaceFromEventObject (EventObject ?obj) = Inr ?obj" "k_name ?obj = ''ku-old''"
    by (simp_all add: namespaceFromEventObject_def eventResource_def namespaceObject_def)
  ultimately show ?thesis using ReconcileKiteNamespace_orphans[OF mem_kube_api, of "EventObject ?obj" ?obj] run by metis
qed

section \<open>Namespaces that are not managed by Kite\<close>

text \<open>The previous namespace of a user was deleted: managed by Kite and referred to by no KiteUser.\<close>

definition previousDeleted :: "KiteUser \<Rightarrow> kview \<Rightarrow> kview \<Rightarrow> bool" where
  "previousDeleted user v v' \<longleftrightarrow>
     (\<exists>u x. v (userKey (ku_name user)) = Some u \<and>
        (let prev = statusString u ''observedNamespace'' in
           prev \<noteq> [] \<and> prev \<noteq> us_namespace (ku_spec user) \<and> \<not> referenced v prev \<and>
           v (nsKey prev) = Some x \<and> kiteManagedNamespace x \<and> deleted namespaceGVR [] prev v v'))"

lemma previousDeleted_other:
  assumes "previousDeleted user v v'" "k = nsKey (us_namespace (ku_spec user)) \<or> fst k \<noteq> namespaceGVR"
  shows "v' k = v k"
  using assms by (auto simp: previousDeleted_def Let_def deleted_def nsKey_def)

context kube_api begin

lemma wp_namespaceChange:
  assumes same: "\<And>s' r. view s' = view s \<Longrightarrow> Q r s'"
    and gone: "\<And>s' r. previousDeleted user (view s) (view s') \<Longrightarrow> Q r s'"
  shows "wp (reconcileKiteUserNamespaceChange E user) Q s"
  unfolding reconcileKiteUserNamespaceChange_def wp_bind
proof (rule wp_get, unfold sum.case Let_def)
  fix s1 cur assume v1: "view s1 = view s" and cur: "view s (kiteUserGVR, [], ku_name user) = Some cur"
  let ?prev = "statusString cur ''observedNamespace''"
  have "wp (deleteKiteUserNamespaceIfUnreferenced E ?prev) Q s1"
    if p: "?prev \<noteq> []" "?prev \<noteq> us_namespace (ku_spec user)"
  proof -
    have del: "wp (deleteNamespace E pre ?prev) Q s3"
      if v3: "view s3 = view s" and nr: "\<not> referenced (view s) ?prev" and x: "view s (namespaceGVR, [], ?prev) = Some x" "kiteManagedNamespace x"
      for pre s3 x
    proof (rule wp_deleteNamespace)
      fix s4 and r :: "unit result" assume "deleted namespaceGVR [] ?prev (view s3) (view s4)"
      with v3 nr x cur p have "previousDeleted user (view s) (view s4)"
        unfolding previousDeleted_def userKey_def nsKey_def Let_def by auto
      then show "Q r s4" by (rule gone)
    qed (use v3 same in auto)
    have inner: "wp (env_get E namespaceGVR [] ?prev) (\<lambda>r. wp (case r of
           Inl e \<Rightarrow> if apiIsNotFound e then ok ()
             else fail (Wrapped (''failed to read previous KiteUser namespace '' @ ?prev @ '': '') e [])
         | Inr current \<Rightarrow> if \<not> kiteManagedNamespace current
             then fail (Plain (''previous namespace '' @ ?prev @ '' is not managed by Kite''))
             else deleteNamespace E ''failed to delete previous KiteUser namespace '' ?prev) Q) s2"
      if v2: "view s2 = view s" and nr: "\<not> referenced (view s) ?prev" for s2
      by (rule wp_get) (use v2 del[OF _ nr] same in \<open>auto simp: wp_simps\<close>)
    show ?thesis
      unfolding deleteKiteUserNamespaceIfUnreferenced_def wp_tryE
      by (rule wp_referenced) (use v1 inner same in \<open>auto simp: wp_ok wp_bind\<close>)
  qed
  then show "wp (if ?prev = [] \<or> ?prev = us_namespace (ku_spec user) then ok ()
      else deleteKiteUserNamespaceIfUnreferenced E ?prev) Q s1"
    by (simp add: wp_ok same v1)
qed (simp add: wp_simps same)

lemma wp_validate:
  assumes "\<And>s' e. view s' = view s \<Longrightarrow> Q (Inl e) s'"
    and "\<And>s'. view s' = view s \<Longrightarrow> (\<forall>x. view s (nsKey (us_namespace (ku_spec user))) = Some x \<longrightarrow> kiteManagedNamespace x) \<Longrightarrow> Q (Inr ()) s'"
  shows "wp (validateUserNamespace E user) Q s"
  unfolding validateUserNamespace_def wp_bind
  by (rule wp_get) (auto simp: wp_simps nsKey_def intro: assms)

end

text \<open>A KiteUser whose namespace exists and is not managed by Kite is always refused with an error; no
  object is created or changed for it, and the only possible effect is that its previous namespace, when
  it was managed by Kite and has no other user, has already been deleted.\<close>

theorem unmanaged_namespace_refused:
  assumes api: "kube_api E view" and ev: "kiteUserFromEventObject C ev = Inr user"
    and ns: "view s (nsKey (us_namespace (ku_spec user))) = Some x" "\<not> kiteManagedNamespace x"
    and run: "run_state (ReconcileKiteUser E C ev) s = (r, s')"
  shows "isl r \<and> (view s' = view s \<or> previousDeleted user (view s) (view s'))"
proof -
  let ?Q = "\<lambda>r s'. isl r \<and> (view s' = view s \<or> previousDeleted user (view s) (view s'))"
  let ?rest = "\<lambda>_. tryE (State_Monad.return (userBaseResources C user)) (\<lambda>objects.
        tryE (forE objects (applyUserResource E)) (\<lambda>_.
        tryE (deleteDeprecatedQuota E user) (\<lambda>_. updateKiteUserStatus E C user readyUserWrite)))"
  have valid: "wp (tryE (validateUserNamespace E user) ?rest) ?Q s1"
    if v1: "view s1 = view s \<or> previousDeleted user (view s) (view s1)" for s1
  proof -
    have "view s1 (nsKey (us_namespace (ku_spec user))) = Some x"
      using v1 ns(1) previousDeleted_other by metis
    with ns(2) v1 show ?thesis
      unfolding wp_tryE[of "validateUserNamespace E user"]
      by (intro kube_api.wp_validate[OF api]) auto
  qed
  have "wp (tryE (reconcileKiteUserNamespaceChange E user) (\<lambda>_. tryE (validateUserNamespace E user) ?rest)) ?Q s"
    unfolding wp_tryE[of "reconcileKiteUserNamespaceChange E user"]
    by (rule kube_api.wp_namespaceChange[OF api]) (use valid in \<open>auto split: sum.split\<close>)
  then have "wp (ReconcileKiteUser E C ev) ?Q s"
    by (simp add: ReconcileKiteUser_def reconcileUser_def ev wp_fail)
  from wpD[OF this run] show ?thesis .
qed

text \<open>In the witness the user moves to \<open>kube-system\<close>: refused, but the old namespace is gone.\<close>

definition movedWorld :: mem where
  "movedWorld = mem_init [(nsKey ''ku-alice'', namespaceObject ''ku-alice'' kiteNamespaceManagedBy),
     (nsKey ''kube-system'', namespaceObject ''kube-system'' ''other''),
     (userKey ''alice'', userObject ''alice'' ''kube-system'' ''ku-alice'')] []"

theorem unmanaged_namespace_refused_witness:
  "\<exists>e s' user. run_state (ReconcileKiteUser mem_env mem_conv (EventObject (userObject ''alice'' ''kube-system'' ''ku-alice''))) movedWorld = (Inl e, s') \<and>
     previousDeleted user (mem_view movedWorld) (mem_view s') \<and> mem_view s' (nsKey ''ku-alice'') = None"
proof -
  let ?ev = "EventObject (userObject ''alice'' ''kube-system'' ''ku-alice'')" let ?m = "ReconcileKiteUser mem_env mem_conv ?ev"
  obtain user where user: "kiteUserFromEventObject mem_conv ?ev = Inr user" "us_namespace (ku_spec user) = ''kube-system''"
    by (simp add: kiteUserFromEventObject_def eventResource_def mem_conv_def mem_user_def userObject_def newObject_def
        specOf_def mapValue_def stringValue_def)
  obtain r s' where run: "run_state ?m movedWorld = (r, s')" by fastforce
  have "map_option kiteManagedNamespace (mem_view movedWorld (nsKey ''kube-system'')) = Some False" by code_simp
  then obtain x where x: "mem_view movedWorld (nsKey (us_namespace (ku_spec user))) = Some x" "\<not> kiteManagedNamespace x"
    by (auto simp: user)
  have gone: "Option.is_none (mem_view (snd (run_state ?m movedWorld)) (nsKey ''ku-alice''))"
    "\<not> Option.is_none (mem_view movedWorld (nsKey ''ku-alice''))" by code_simp+
  then have "mem_view s' \<noteq> mem_view movedWorld" "mem_view s' (nsKey ''ku-alice'') = None"
    using run by (auto simp: Option.is_none_def split: option.splits)
  with unmanaged_namespace_refused[OF mem_kube_api user(1), OF x run] run show ?thesis
    by (cases r) auto
qed

section \<open>What a successful reconcile leaves\<close>

lemma firstReady_append:
  "firstReady (filter otherUserCondition items @ [GMap c]) = (if stringValue c ''type'' = kiteUserConditionReady then c else [])"
proof (induction items)
  case (Cons x items)
  then show ?case by (cases x) (auto simp: otherUserCondition_def)
qed simp

definition userShows :: "kobj \<Rightarrow> KiteUser \<Rightarrow> userStatusWrite \<Rightarrow> bool" where
  "userShows u user w \<longleftrightarrow> kiteUserStatusMatches u (ku_generation user) (us_namespace (ku_spec user)) w"

lemma userStatus_stored:
  assumes set: "setStatusFields [(''phase'', Some (GStr (uw_phase w))), (''observedGeneration'', Some (GInt (ku_generation user))),
       (''observedNamespace'', Some (GStr (us_namespace (ku_spec user)))), (''message'', Some (GStr (uw_message w))),
       (''conditions'', Some (GList (replaceKiteUserCondition cur (kiteUserStatusCondition cur now (ku_generation user) w))))] (k_body cur) = Inr body"
    and st: "objField stored ''status'' = map_of body ''status''"
  shows "userShows stored user w"
proof -
  let ?c = "kiteUserStatusCondition cur now (ku_generation user) w"
  have field: "statusField (k_body stored) f = statusField body f" for f
    using st by (intro statusField_cong) (simp add: objField_def)
  note get = setStatusFields_get(1)[OF set]
  have "findKiteUserCondition stored = firstReady (replaceKiteUserCondition cur ?c)"
    unfolding findKiteUserCondition_def NestedSlice_def NestedField_status nestedOr_def
    using field[of "''conditions''"] get[of "''conditions''"]
    by (auto simp: statusField_def mapValue_def split: option.splits gov.splits)
  also have "\<dots> = ?c"
    unfolding replaceKiteUserCondition_def firstReady_append
    by (simp add: kiteUserStatusCondition_def Let_def stringValue_def)
  finally have cond: "findKiteUserCondition stored = ?c" .
  show ?thesis
    unfolding userShows_def kiteUserStatusMatches_def Let_def cond
    by (simp add: statusString_field statusInt_field field get machineStringValue_def)
       (simp add: kiteUserStatusCondition_def Let_def stringValue_def)
qed

context kube_api begin

lemma wp_userStatus:
  assumes failed: "\<And>s' e. (\<And>k. k \<noteq> userKey (ku_name user) \<Longrightarrow> view s' k = view s k) \<Longrightarrow> Q (Inl e) s'"
    and success: "\<And>s'. (\<And>k. k \<noteq> userKey (ku_name user) \<Longrightarrow> view s' k = view s k) \<Longrightarrow>
       (case view s' (userKey (ku_name user)) of None \<Rightarrow> True | Some u \<Rightarrow> userShows u user w) \<Longrightarrow> Q (Inr ()) s'"
  shows "wp (updateKiteUserStatus E C user w) Q s"
  unfolding updateKiteUserStatus_def wp_bind
proof (rule wp_get, unfold sum.case)
  fix s1 cur assume v1: "view s1 = view s" and cur: "view s (kiteUserGVR, [], ku_name user) = Some cur"
  have name: "k_name cur = ku_name user" using view_key[OF cur] by simp
  let ?fields = "\<lambda>now. [(''phase'', Some (GStr (uw_phase w))), (''observedGeneration'', Some (GInt (ku_generation user))),
       (''observedNamespace'', Some (GStr (us_namespace (ku_spec user)))), (''message'', Some (GStr (uw_message w))),
       (''conditions'', Some (GList (replaceKiteUserCondition cur
          (kiteUserStatusCondition cur (cv_localTime C now) (ku_generation user) w))))]"
  let ?send = "\<lambda>body. do {
              u \<leftarrow> env_updateStatus E kiteUserGVR [] (cur\<lparr>k_body := body\<rparr>);
              case u of
                Inl e \<Rightarrow> fail (Wrapped (''failed to update KiteUser '' @ ku_name user @ '' status: '') e [])
              | Inr _ \<Rightarrow> ok () }"
  have send: "wp (?send body) Q s2" if v2: "view s2 = view s" and body: "setStatusFields (?fields now) (k_body cur) = Inr body" for s2 body now
  proof -
    have wr: "(\<forall>k. k \<noteq> userKey (ku_name user) \<longrightarrow> view s3 k = view s k) \<and> view s3 (userKey (ku_name user)) = Some stored \<and> userShows stored user w"
      if rep: "statusReplaced kiteUserGVR [] (cur\<lparr>k_body := body\<rparr>) (view s2) (view s3) stored" for s3 stored
    proof -
      have "objField stored ''status'' = map_of body ''status''" "view s3 = (view s)(userKey (ku_name user) \<mapsto> stored)"
        using rep name v2 by (auto simp: statusReplaced_def objField_def userKey_def)
      with userStatus_stored[OF body] show ?thesis by auto
    qed
    show ?thesis
      unfolding wp_bind by (rule wp_updateStatus) (use wr v2 in \<open>auto simp: wp_simps intro!: failed success\<close>)
  qed
  have "wp (tryE (State_Monad.return (setStatusFields (?fields now) (k_body cur))) ?send) Q s2" if "view s2 = view s" for s2 now
    using send[OF that, of now] failed that
    by (cases "setStatusFields (?fields now) (k_body cur)") (auto simp: wp_tryE wp_return)
  then have "wp (env_now E) (\<lambda>now. wp (tryE (State_Monad.return (setStatusFields (?fields now) (k_body cur))) ?send) Q) s1"
    by (intro wp_keeps[OF now_keeps]) (simp add: v1)
  moreover have "Q (Inr ()) s1" if "kiteUserStatusMatches cur (ku_generation user) (us_namespace (ku_spec user)) w"
    using that v1 cur by (intro success) (simp_all add: userKey_def userShows_def)
  ultimately show "wp (if kiteUserStatusMatches cur (ku_generation user) (us_namespace (ku_spec user)) w then ok ()
         else do {
           now \<leftarrow> env_now E;
           (let condition = kiteUserStatusCondition cur (cv_localTime C now) (ku_generation user) w;
                conditions = replaceKiteUserCondition cur condition in
            tryE (State_Monad.return (setStatusFields
                [(''phase'', Some (GStr (uw_phase w))),
                 (''observedGeneration'', Some (GInt (ku_generation user))),
                 (''observedNamespace'', Some (GStr (us_namespace (ku_spec user)))),
                 (''message'', Some (GStr (uw_message w))),
                 (''conditions'', Some (GList conditions))] (k_body cur))) ?send) }) Q s1"
    unfolding Let_def
    by (cases "kiteUserStatusMatches cur (ku_generation user) (us_namespace (ku_spec user)) w") (simp_all only: if_True if_False wp_ok wp_bind)
qed (auto simp: wp_simps userKey_def intro: failed success)

lemma frames_quota: "(resourceQuotaGVR, us_namespace (ku_spec user), deprecatedUserQuotaPolicyName) \<in> K \<Longrightarrow>
    frames view K (deleteDeprecatedQuota E user)"
  unfolding deleteDeprecatedQuota_def by (intro frames_intros frames_delete)

end

text \<open>An applied base resource is there afterwards, with the managed label when it is a namespace.\<close>

definition baseThere :: "kview \<Rightarrow> kobj \<Rightarrow> bool" where
  "baseThere v obj \<longleftrightarrow> (\<exists>g namespaced x. userResourceGVR obj = Inr (g, namespaced) \<and>
     v (g, if namespaced then k_namespace obj else [], k_name obj) = Some x \<and>
     (g = namespaceGVR \<longrightarrow> kiteManagedNamespace x))"

definition goodBase :: "kobj \<Rightarrow> bool" where
  "goodBase obj \<longleftrightarrow> (k_kind obj = ''Namespace'' \<and> kiteManagedNamespace obj) \<or> k_kind obj = ''NetworkPolicy''"

lemma userResourceGVR_kind: "userResourceGVR obj = Inr (g, b) \<Longrightarrow>
    (g = namespaceGVR \<longleftrightarrow> k_kind obj = ''Namespace'') \<and> b = (g = networkPolicyGVR) \<and> g \<in> {namespaceGVR, networkPolicyGVR}"
  by (auto simp: userResourceGVR_def split: if_splits)

lemma baseThere_put:
  assumes "goodBase obj" "userResourceGVR obj = Inr (g, namespaced)"
    "v' = v((g, if namespaced then k_namespace obj else [], k_name obj) \<mapsto> x)"
    "kiteManagedNamespace obj \<longrightarrow> kiteManagedNamespace x"
  shows "baseThere v' obj" "baseThere v o' \<Longrightarrow> baseThere v' o'"
proof -
  have x: "g = namespaceGVR \<longrightarrow> kiteManagedNamespace x"
    using assms userResourceGVR_kind[OF assms(2)] by (auto simp: goodBase_def)
  then show "baseThere v' obj" using assms(2,3) by (auto simp: baseThere_def)
  show "baseThere v' o'" if "baseThere v o'"
    using that x assms(3) unfolding baseThere_def by (metis fun_upd_other fun_upd_same prod.inject)
qed

lemma managed_labels: "(\<And>l y. map_of (k_labels a) l = Some y \<Longrightarrow> map_of (k_labels b) l = Some y) \<Longrightarrow>
    kiteManagedNamespace a \<Longrightarrow> kiteManagedNamespace b"
  by (auto simp: kiteManagedNamespace_def labelOf_def kiteNamespaceManagedBy_def split: option.splits)

context kube_api begin

lemma wp_applyUser:
  assumes good: "goodBase obj" and failed: "\<And>s' e. Q (Inl e) s'"
    and success: "\<And>s'. baseThere (view s') obj \<Longrightarrow> (\<And>o'. baseThere (view s) o' \<Longrightarrow> baseThere (view s') o') \<Longrightarrow> Q (Inr ()) s'"
  shows "wp (applyUserResource E obj) Q s"
proof -
  have "\<exists>g b. userResourceGVR obj = Inr (g, b)" using good by (auto simp: goodBase_def userResourceGVR_def)
  then obtain g b where g: "userResourceGVR obj = Inr (g, b)" by blast
  let ?ns = "if b then k_namespace obj else []"
  have app: "Q (Inr ()) s'" if "applied g ?ns obj (view s) (view s') x" for s' x
    using that baseThere_put[OF good g, of "view s'" "view s" x] managed_labels[of obj x]
    by (intro success) (auto simp: applied_def)
  have cre: "Q (Inr ()) s'" if "created g ?ns obj (view s1) (view s') x" "view s1 = view s" for s1 s' x
    using that baseThere_put[OF good g, of "view s'" "view s" x] managed_labels[of obj x]
    by (intro success) (auto simp: created_def sameMeta_def)
  have create: "wp (env_create E g ?ns obj) (\<lambda>c. wp (case c of
          Inl ce \<Rightarrow> fail (Wrapped (''failed to create '' @ (k_kind obj @ '' '' @ k_namespace obj @ ''/'' @ k_name obj) @ '' after apply NotFound: '') ce [])
        | Inr _ \<Rightarrow> ok ()) Q) s1" if "view s1 = view s" for s1
    by (rule wp_create) (use that cre in \<open>auto simp: wp_simps failed\<close>)
  have nf: "\<not> (indefinite e \<and> apiIsNotFound e)" for e by (auto dest: indefinite_not_definite)
  have "wp (env_apply E g ?ns obj) (\<lambda>r. wp (case r of
            Inr _ \<Rightarrow> ok ()
          | Inl e \<Rightarrow>
              if apiIsNotFound e then do {
                c \<leftarrow> env_create E g ?ns obj;
                case c of
                  Inl ce \<Rightarrow> fail (Wrapped (''failed to create '' @ (k_kind obj @ '' '' @ k_namespace obj @ ''/'' @ k_name obj) @ '' after apply NotFound: '') ce [])
                | Inr _ \<Rightarrow> ok ()
              } else fail (Wrapped (''failed to apply '' @ (k_kind obj @ '' '' @ k_namespace obj @ ''/'' @ k_name obj) @ '': '') e [])) Q) s"
  proof (rule wp_apply, unfold sum.case)
    fix s1 e assume "view s1 = view s"
    then show "wp (if apiIsNotFound e then do {
                c \<leftarrow> env_create E g ?ns obj;
                case c of
                  Inl ce \<Rightarrow> fail (Wrapped (''failed to create '' @ (k_kind obj @ '' '' @ k_namespace obj @ ''/'' @ k_name obj) @ '' after apply NotFound: '') ce [])
                | Inr _ \<Rightarrow> ok ()
              } else fail (Wrapped (''failed to apply '' @ (k_kind obj @ '' '' @ k_namespace obj @ ''/'' @ k_name obj) @ '': '') e [])) Q s1"
      using create by (cases "apiIsNotFound e") (simp_all only: if_True if_False wp_bind wp_fail failed)
  qed (use nf app in \<open>auto simp: wp_simps failed\<close>)
  then show ?thesis
    unfolding applyUserResource_def g sum.case prod.case Let_def wp_bind .
qed

lemma wp_applyUsers:
  assumes "\<forall>obj \<in> set objs. goodBase obj"
  shows "wp (forE objs (applyUserResource E)) (\<lambda>r s'. case r of Inl e \<Rightarrow> True | Inr _ \<Rightarrow> \<forall>obj \<in> set objs. baseThere (view s') obj) s"
  by (rule wp_forE_all[where I = "\<lambda>ys s. \<forall>obj \<in> set ys. baseThere (view s) obj"])
     (use assms in \<open>auto intro!: wp_applyUser\<close>)

end

definition userReady :: "KiteUser \<Rightarrow> kview \<Rightarrow> bool" where
  "userReady user v \<longleftrightarrow>
     (\<exists>x. v (nsKey (us_namespace (ku_spec user))) = Some x \<and> kiteManagedNamespace x) \<and>
     (\<forall>k \<in> policyKeys (us_namespace (ku_spec user)). v k \<noteq> None) \<and>
     (case v (userKey (ku_name user)) of None \<Rightarrow> True | Some u \<Rightarrow> userShows u user readyUserWrite)"

lemma baseResources_good:
  assumes "rendersUserBase C (us_namespace (ku_spec user))" "userBaseResources C user = Inr objs"
  shows "\<forall>obj \<in> set objs. goodBase obj"
    and "(\<forall>obj \<in> set objs. baseThere v obj) \<Longrightarrow> (\<exists>x. v (nsKey (us_namespace (ku_spec user))) = Some x \<and> kiteManagedNamespace x) \<and>
       (\<forall>k \<in> policyKeys (us_namespace (ku_spec user)). v k \<noteq> None)"
proof -
  let ?ns = "us_namespace (ku_spec user)"
  obtain nsObj pols where objs: "objs = nsObj # pols"
    and n: "NamespaceData_Render C ?ns = Inr nsObj" and p: "NetworkPolicyData_RenderAll C ?ns = Inr pols"
    using assms(2) by (auto simp: userBaseResources_def tryRender_def split: sum.splits)
  have ns: "k_kind nsObj = ''Namespace''" "k_name nsObj = ?ns" "kiteManagedNamespace nsObj"
  proof -
    obtain rest where "cv_render C ''namespace.yaml'' [(''Namespace'', ?ns)] = Inr (nsObj # rest)"
      using n by (auto simp: NamespaceData_Render_def Render_def split: sum.splits list.splits)
    then show "k_kind nsObj = ''Namespace''" "k_name nsObj = ?ns" "kiteManagedNamespace nsObj"
      using assms(1) unfolding rendersUserBase_def by auto
  qed
  have pol: "\<forall>obj \<in> set pols. k_kind obj = ''NetworkPolicy'' \<and> k_namespace obj = ?ns"
    "map k_name pols = [userNetworkPolicyDenyFromOtherNamespaces, userNetworkPolicyTenantIsolationEgress]"
    using p assms(1) unfolding NetworkPolicyData_RenderAll_def rendersUserBase_def by simp_all
  show "\<forall>obj \<in> set objs. goodBase obj" using ns pol(1) by (auto simp: objs goodBase_def)
  assume there: "\<forall>obj \<in> set objs. baseThere v obj"
  have one: "baseThere v nsObj" "\<forall>obj \<in> set pols. baseThere v obj" using there by (simp_all add: objs)
  have "\<exists>x. v (nsKey ?ns) = Some x \<and> kiteManagedNamespace x"
    using one(1) ns by (auto simp: baseThere_def userResourceGVR_def nsKey_def)
  moreover have "v (networkPolicyGVR, ?ns, n) \<noteq> None" if "n \<in> set (map k_name pols)" for n
    using that one(2) pol(1) by (fastforce simp: baseThere_def userResourceGVR_def)
  ultimately show "(\<exists>x. v (nsKey ?ns) = Some x \<and> kiteManagedNamespace x) \<and> (\<forall>k \<in> policyKeys ?ns. v k \<noteq> None)"
    unfolding pol(2) policyKeys_def by auto
qed

lemma wp_try_any:
  "(\<And>s1 e. Q (Inl e) s1) \<Longrightarrow> (\<And>x s1 s2. run_state m s1 = (Inr x, s2) \<Longrightarrow> wp (k x) Q s2) \<Longrightarrow> wp (tryE m k) Q s"
  unfolding wp_tryE by (rule wpI) (auto split: sum.splits)

text \<open>C33: when \<open>ReconcileKiteUser\<close> succeeds, the namespace of the user exists and carries the Kite label, both
  network policies exist, and the status of the user, if it still exists, reports Ready for this namespace.\<close>

theorem ReconcileKiteUser_ready:
  assumes api: "kube_api E view" and ev: "kiteUserFromEventObject C ev = Inr user"
    and render: "rendersUserBase C (us_namespace (ku_spec user))"
    and run: "run_state (ReconcileKiteUser E C ev) s = (Inr (), s')"
  shows "userReady user (view s')"
proof -
  let ?Q = "\<lambda>r s'. r = Inr () \<longrightarrow> userReady user (view s')" let ?ns = "us_namespace (ku_spec user)"
  let ?R = "\<lambda>v. (\<exists>x. v (nsKey ?ns) = Some x \<and> kiteManagedNamespace x) \<and> (\<forall>k \<in> policyKeys ?ns. v k \<noteq> None)"
  let ?quota = "(resourceQuotaGVR, ?ns, deprecatedUserQuotaPolicyName)"
  have keep: "?R v'" if "?R v" "\<And>k. k \<noteq> userKey (ku_name user) \<Longrightarrow> k \<noteq> ?quota \<Longrightarrow> v' k = v k" for v v'
    using that by (auto simp: nsKey_def policyKeys_def userKey_def)
  have status: "wp (updateKiteUserStatus E C user readyUserWrite) ?Q s2" if "?R (view s2)" for s2
    by (rule kube_api.wp_userStatus[OF api]) (use keep[OF that] in \<open>auto simp: userReady_def\<close>)
  have quota: "wp (tryE (deleteDeprecatedQuota E user) (\<lambda>_. updateKiteUserStatus E C user readyUserWrite)) ?Q s1" if "?R (view s1)" for s1
  proof -
    have "wp (deleteDeprecatedQuota E user) (\<lambda>r s'. \<forall>k. k \<notin> {?quota} \<longrightarrow> view s' k = view s1 k) s1"
      using kube_api.frames_quota[OF api, of user "{?quota}"] unfolding frames_wp by blast
    then show ?thesis
      unfolding wp_tryE by (rule wp_mono) (use status keep[OF that] in \<open>auto split: sum.splits\<close>)
  qed
  have "wp (reconcileUser E C user) ?Q s"
    unfolding reconcileUser_def
  proof (split if_split, intro conjI impI, simp add: wp_fail, rule wp_try_any, simp, rule wp_try_any, simp, rule wp_try_any, simp)
    fix objs and s1 s2 :: 'a
    assume "run_state (State_Monad.return (userBaseResources C user)) s1 = (Inr objs, s2)"
    then have objs: "userBaseResources C user = Inr objs" by simp
    note good = baseResources_good[OF render objs]
    show "wp (tryE (forE objs (applyUserResource E)) (\<lambda>_. tryE (deleteDeprecatedQuota E user)
       (\<lambda>_. updateKiteUserStatus E C user readyUserWrite))) ?Q s2"
      unfolding wp_tryE[of "forE objs (applyUserResource E)"]
      by (rule wp_mono[OF kube_api.wp_applyUsers[OF api good(1)]]) (use good(2) quota in \<open>auto split: sum.splits\<close>)
  qed
  then have "wp (ReconcileKiteUser E C ev) ?Q s" by (simp add: ReconcileKiteUser_def ev)
  from wpD[OF this run] show ?thesis by simp
qed

definition freshUserWorld :: mem where
  "freshUserWorld = mem_init [(userKey ''alice'', userObject ''alice'' ''ku-alice'' [])] []"

lemma mem_rendersUserBase: "rendersUserBase mem_conv ns"
  by (auto simp: rendersUserBase_def mem_conv_def mem_userRender_def dataAt_def kiteManagedNamespace_def labelOf_def
      kiteNamespaceManagedByKey_def kiteNamespaceManagedBy_def userNetworkPolicyDenyFromOtherNamespaces_def
      userNetworkPolicyTenantIsolationEgress_def)

theorem ReconcileKiteUser_ready_witness:
  "\<exists>user s'. us_namespace (ku_spec user) = ''ku-alice'' \<and> userReady user (mem_view s') \<and>
     run_state (ReconcileKiteUser mem_env mem_conv (EventObject (userObject ''alice'' ''ku-alice'' []))) freshUserWorld = (Inr (), s')"
proof -
  let ?ev = "EventObject (userObject ''alice'' ''ku-alice'' [])" let ?m = "ReconcileKiteUser mem_env mem_conv ?ev"
  obtain user where user: "kiteUserFromEventObject mem_conv ?ev = Inr user" "us_namespace (ku_spec user) = ''ku-alice''"
    by (simp add: kiteUserFromEventObject_def eventResource_def mem_conv_def mem_user_def userObject_def newObject_def
        specOf_def mapValue_def stringValue_def)
  have "\<not> isl (fst (run_state ?m freshUserWorld))" by code_simp
  from run_Inr[OF this] obtain u s' where "run_state ?m freshUserWorld = (Inr u, s')" by blast
  then have run: "run_state ?m freshUserWorld = (Inr (), s')" by simp
  from ReconcileKiteUser_ready[OF mem_kube_api user(1) mem_rendersUserBase run] run user show ?thesis by blast
qed

section \<open>Deleted users\<close>

context kube_api begin

lemma wp_deleteUserResource:
  assumes inv: "deletesOnly (\<lambda>k _. k \<in> K) v0 (view s)"
    and obj: "k_kind obj = ''NetworkPolicy''" "(networkPolicyGVR, k_namespace obj, k_name obj) \<in> K"
    and P: "\<And>s' r. deletesOnly (\<lambda>k _. k \<in> K) v0 (view s') \<Longrightarrow> Q r s'"
  shows "wp (deleteUserResource E obj) Q s"
proof -
  have step: "deletesOnly (\<lambda>k _. k \<in> K) v0 v2" if del: "deleted networkPolicyGVR (k_namespace obj) (k_name obj) (view s) v2" for v2
  proof -
    obtain cur where "view s (networkPolicyGVR, k_namespace obj, k_name obj) = Some cur" using del by (auto simp: deleted_def)
    with deletesOnly_at[OF inv] obtain x where "v0 (networkPolicyGVR, k_namespace obj, k_name obj) = Some x" by blast
    from deletesOnly_deleted(1)[OF inv this _ del] obj(2) show ?thesis by simp
  qed
  have "wp (env_delete E networkPolicyGVR (k_namespace obj) (k_name obj)) (\<lambda>d. wp (case d of
            Inl e \<Rightarrow> if apiIsNotFound e then ok ()
              else fail (Wrapped (''failed to delete '' @ k_kind obj @ '' '' @ k_namespace obj @ ''/'' @ k_name obj @ '': '') e [])
          | Inr _ \<Rightarrow> ok ()) Q) s"
    by (rule wp_delete) (use inv step in \<open>auto simp: wp_simps intro: P\<close>)
  moreover have "userResourceGVR obj = Inr (networkPolicyGVR, True)" by (simp add: userResourceGVR_def obj(1))
  ultimately show ?thesis
    unfolding deleteUserResource_def by (simp only: sum.case prod.case if_True wp_bind)
qed

end

text \<open>When a KiteUser is deleted, nothing happens as long as another KiteUser refers to its namespace;
  otherwise at most the two network policies of that namespace are deleted.  The namespace itself and
  everything else in the cluster stay.\<close>

theorem DeleteKiteUserResources_policies:
  assumes api: "kube_api E view" and ev: "kiteUserFromEventObject C ev = Inr user"
    and render: "rendersUserBase C (us_namespace (ku_spec user))"
    and run: "run_state (DeleteKiteUserResources E C ev) s = (r, s')"
  shows "deletesOnly (\<lambda>k _. k \<in> policyKeys (us_namespace (ku_spec user))) (view s) (view s') \<and>
    (referenced (view s) (us_namespace (ku_spec user)) \<longrightarrow> view s' = view s)"
proof -
  let ?ns = "us_namespace (ku_spec user)" let ?P = "\<lambda>v. deletesOnly (\<lambda>k _. k \<in> policyKeys ?ns) (view s) v"
  let ?Q = "\<lambda>(r :: unit result) s'. ?P (view s') \<and> (referenced (view s) ?ns \<longrightarrow> view s' = view s)"
  let ?del = "\<lambda>obj. if k_kind obj = ''Namespace'' then ok () else deleteUserResource E obj"
  have loop: "wp (forE (rev objs) ?del) ?Q s1"
    if v1: "view s1 = view s" and nr: "\<not> referenced (view s) ?ns" and objs: "userBaseResources C user = Inr objs" for s1 objs
  proof -
    obtain nsObj pols where o: "objs = nsObj # pols" "NamespaceData_Render C ?ns = Inr nsObj" "NetworkPolicyData_RenderAll C ?ns = Inr pols"
      using objs by (auto simp: userBaseResources_def tryRender_def split: sum.splits)
    obtain rest where "cv_render C ''namespace.yaml'' [(''Namespace'', ?ns)] = Inr (nsObj # rest)"
      using o(2) by (auto simp: NamespaceData_Render_def Render_def split: sum.splits list.splits)
    then have ns: "k_kind nsObj = ''Namespace''" using render unfolding rendersUserBase_def by auto
    have pol: "k_kind obj = ''NetworkPolicy'' \<and> (networkPolicyGVR, k_namespace obj, k_name obj) \<in> policyKeys ?ns" if "obj \<in> set pols" for obj
    proof -
      have "\<forall>obj \<in> set pols. k_kind obj = ''NetworkPolicy'' \<and> k_namespace obj = ?ns"
        "map k_name pols = [userNetworkPolicyDenyFromOtherNamespaces, userNetworkPolicyTenantIsolationEgress]"
        using o(3) render unfolding NetworkPolicyData_RenderAll_def rendersUserBase_def by simp_all
      moreover from this(2) that have "k_name obj \<in> {userNetworkPolicyDenyFromOtherNamespaces, userNetworkPolicyTenantIsolationEgress}"
        by (metis image_eqI list.set_map list.simps(15) list.set(1))
      ultimately show ?thesis using that by (auto simp: policyKeys_def)
    qed
    have "wp (forE (rev objs) ?del) (\<lambda>r s'. ?P (view s')) s1"
      by (rule wp_forE) (use v1 ns pol o(1) in \<open>auto simp: wp_ok intro: kube_api.wp_deleteUserResource[OF api]\<close>)
    then show ?thesis by (rule wp_mono) (simp add: nr)
  qed
  have "wp (tryE (State_Monad.return (userBaseResources C user)) (\<lambda>objects. forE (rev objects) ?del)) ?Q s1"
    if "view s1 = view s" "\<not> referenced (view s) ?ns" for s1
    using loop[OF that] that by (cases "userBaseResources C user") (simp_all add: wp_tryE wp_return)
  then have "wp (tryE (namespaceReferencedByKiteUser E ?ns) (\<lambda>referenced. if referenced then ok () else
      tryE (State_Monad.return (userBaseResources C user)) (\<lambda>objects. forE (rev objects) ?del))) ?Q s"
    unfolding wp_tryE[of "namespaceReferencedByKiteUser E ?ns"]
    by (intro kube_api.wp_referenced[OF api]) (auto simp: wp_ok)
  then have "wp (DeleteKiteUserResources E C ev) ?Q s"
    by (simp add: DeleteKiteUserResources_def ev wp_fail)
  from wpD[OF this run] show ?thesis by simp
qed

definition policyWorld :: mem where
  "policyWorld = mem_init [(nsKey ''ku-alice'', namespaceObject ''ku-alice'' kiteNamespaceManagedBy),
     ((networkPolicyGVR, ''ku-alice'', ''deny-from-other-namespaces''), newObject ''NetworkPolicy'' ''ku-alice'' ''deny-from-other-namespaces'' [] [])] []"

theorem DeleteKiteUserResources_policies_witness:
  "\<exists>s'. deletesOnly (\<lambda>k _. k \<in> policyKeys ''ku-alice'') (mem_view policyWorld) (mem_view s') \<and>
     mem_view s' (networkPolicyGVR, ''ku-alice'', ''deny-from-other-namespaces'') = None \<and> mem_view s' (nsKey ''ku-alice'') \<noteq> None"
proof -
  let ?ev = "DeletedFinalStateUnknown (Some (userObject ''alice'' ''ku-alice'' ''ku-alice''))"
  let ?m = "DeleteKiteUserResources mem_env mem_conv ?ev"
  obtain user where user: "kiteUserFromEventObject mem_conv ?ev = Inr user" "us_namespace (ku_spec user) = ''ku-alice''"
    by (simp add: kiteUserFromEventObject_def eventResource_def mem_conv_def mem_user_def userObject_def newObject_def
        specOf_def mapValue_def stringValue_def)
  obtain r s' where run: "run_state ?m policyWorld = (r, s')" by fastforce
  have "Option.is_none (mem_view (snd (run_state ?m policyWorld)) (networkPolicyGVR, ''ku-alice'', ''deny-from-other-namespaces''))"
    "\<not> Option.is_none (mem_view (snd (run_state ?m policyWorld)) (nsKey ''ku-alice''))" by code_simp+
  with DeleteKiteUserResources_policies[OF mem_kube_api user(1) mem_rendersUserBase run] run show ?thesis
    by (intro exI[of _ s']) (auto simp: user Option.is_none_def split: option.splits)
qed

end
