(* ===== verification/System.thy ===== *)
theory System
  imports Api_Levels Api_Server Platform_Ingress Machine_Properties User_Properties
begin

text \<open>
  The components together: API requests, controller passes and the rest of the cluster take turns on
  the same objects.  Each step is one whole handler; what other actors do between two calls of one
  handler is a step before or after it.
\<close>

section \<open>Controller passes and the database\<close>

lemma unique_respec:
  assumes "uniqueIn g key v" "\<And>a b. objField a ''spec'' = objField b ''spec'' \<Longrightarrow> key a = key b"
    and "\<And>ns n y. v' (g, ns, n) = Some y \<Longrightarrow> \<exists>x. v (g, ns, n) = Some x \<and> objField y ''spec'' = objField x ''spec''"
  shows "uniqueIn g key v'"
  unfolding uniqueIn_def
proof (intro allI impI)
  fix ns n ns' n' a b
  assume a: "v' (g, ns, n) = Some a" and b: "v' (g, ns', n') = Some b" and k: "key a \<noteq> []" "key a = key b"
  obtain x y where "v (g, ns, n) = Some x" "key a = key x" "v (g, ns', n') = Some y" "key b = key y"
    using assms(3)[OF a] assms(3)[OF b] assms(2) by blast
  with k assms(1) show "ns = ns' \<and> n = n'" unfolding uniqueIn_def by metis
qed

text \<open>Users and VMs may disappear or change anything but their spec; other kinds may change at will.\<close>

definition clusterStep :: "kview \<Rightarrow> kview \<Rightarrow> bool" where
  "clusterStep v v' \<longleftrightarrow> (\<forall>g ns n y. g \<in> {kiteUserGVR, kiteVirtualMachineGVR} \<longrightarrow> v' (g, ns, n) = Some y \<longrightarrow>
     (\<exists>x. v (g, ns, n) = Some x \<and> objField y ''spec'' = objField x ''spec''))"

lemma clusterStep_database:
  assumes step: "clusterStep v v'"
  shows "keepsDatabase E v v'"
proof -
  have spec: "\<exists>x. v (g, ns, n) = Some x \<and> objField y ''spec'' = objField x ''spec''"
    if "v' (g, ns, n) = Some y" "g \<in> {kiteUserGVR, kiteVirtualMachineGVR}" for g ns n y
    using that step unfolding clusterStep_def by blast
  have userSpec: "\<exists>x. v (kiteUserGVR, ns, n) = Some x \<and> objField y ''spec'' = objField x ''spec''"
    if "v' (kiteUserGVR, ns, n) = Some y" for ns n y using spec[OF that] by simp
  have vmSpec: "\<exists>x. v (kiteVirtualMachineGVR, ns, n) = Some x \<and> objField y ''spec'' = objField x ''spec''"
    if "v' (kiteVirtualMachineGVR, ns, n) = Some y" for ns n y using spec[OF that] by simp
  have users: "usersOK E v'" if ok: "usersOK E v"
    unfolding usersOK_def
  proof (intro conjI allI impI)
    show "uniqueIn kiteUserGVR usernameOf v'"
      by (rule unique_respec[of _ _ v]) (use ok in \<open>simp add: usersOK_def\<close>, erule usernameKey.key_cong, erule userSpec)
    show "uniqueIn kiteUserGVR (emailKeyOf E) v'"
      by (rule unique_respec[of _ _ v]) (use ok in \<open>simp add: usersOK_def\<close>, erule emailKey.key_cong, erule userSpec)
    fix ns n y assume "v' (kiteUserGVR, ns, n) = Some y"
    then obtain x where "v (kiteUserGVR, ns, n) = Some x" "objField y ''spec'' = objField x ''spec''" using userSpec by blast
    then show "levelOf y \<in> {0..3}" using ok specOf_cong[of y x] unfolding usersOK_def by metis
  qed
  have vms: "vmKeysUnique v'" if ok: "vmKeysUnique v"
    unfolding vmKeysUnique_def
  proof
    show "uniqueIn kiteVirtualMachineGVR (vmKeyOf ''sshId'') v'"
      by (rule unique_respec[of _ _ v]) (use ok in \<open>simp add: vmKeysUnique_def\<close>, erule sshKey.key_cong, erule vmSpec)
    show "uniqueIn kiteVirtualMachineGVR (vmKeyOf ''domainPrefix'') v'"
      by (rule unique_respec[of _ _ v]) (use ok in \<open>simp add: vmKeysUnique_def\<close>, erule domainKey.key_cong, erule vmSpec)
  qed
  show ?thesis using users vms by (simp add: keepsDatabase_def databaseOK_def)
qed

lemma clusterStep_guarantee: "guarantee clusterStep"
proof
  show "clusterStep v v" for v by (simp add: clusterStep_def)
  show "clusterStep u w" if "clusterStep u v" "clusterStep v w" for u v w
    using that unfolding clusterStep_def by metis
qed

sublocale kube_api \<subseteq> passes: guarantee clusterStep
  by (rule clusterStep_guarantee)

context kube_api
begin

lemma pass_retry: "guarantees view clusterStep m \<Longrightarrow> guarantees view clusterStep (env_retry E m)"
proof -
  assume m: "guarantees view clusterStep m"
  have "guarantees view clusterStep (retry_n k m)" for k
    by (induction k) (auto intro!: m passes.g_bind passes.g_if passes.g_case_sum passes.g_return)
  then show ?thesis using retry_law[of m] by metis
qed

lemma pass_kinds: "frames view (kindsIn G) m \<Longrightarrow> kiteUserGVR \<notin> G \<Longrightarrow> kiteVirtualMachineGVR \<notin> G \<Longrightarrow> guarantees view clusterStep m"
  unfolding guarantees_def frames_def clusterStep_def by auto

lemma pass_other:
  assumes "g \<noteq> kiteUserGVR" "g \<noteq> kiteVirtualMachineGVR"
  shows "guarantees view clusterStep (env_create E g ns obj)" "guarantees view clusterStep (env_update E g ns obj)"
    "guarantees view clusterStep (env_apply E g ns obj)"
  using assms by (auto intro!: pass_kinds[of "{g}"] frames_create frames_update frames_apply)

lemma pass_delete: "guarantees view clusterStep (env_delete E g ns n)"
  unfolding guarantees_wp by (intro allI wp_delete) (auto simp: deleted_def clusterStep_def marked_def split: if_splits)

lemma pass_updateStatus: "guarantees view clusterStep (env_updateStatus E g ns obj)"
  unfolding guarantees_wp by (intro allI wp_updateStatus) (auto simp: statusReplaced_def clusterStep_def split: if_splits)

lemma pass_ok: "guarantees view clusterStep (ok x)"
  by (rule passes.g_keeps[OF keeps_ok])

lemma pass_fail: "guarantees view clusterStep (fail e)"
  by (rule passes.g_keeps[OF keeps_fail])

lemmas pass_steps =
  passes.g_tryE passes.g_forE passes.g_intros pass_ok pass_fail keeps_calls[THEN passes.g_keeps] pass_delete pass_updateStatus pass_retry

lemma pass_finalizers: "guarantees view clusterStep (updateKiteVirtualMachineFinalizers E resource fs)"
proof -
  have writing: "wp (env_update E kiteVirtualMachineGVR (k_namespace cur) (cur\<lparr>k_finalizers := fs\<rparr>))
      (\<lambda>r s'. clusterStep (view s) (view s')) s1"
    if "view s1 = view s" "view s (kiteVirtualMachineGVR, ns, n) = Some cur" for s s1 cur ns n
  proof -
    have key: "k_name cur = n" "k_namespace cur = ns" using view_key[OF that(2)] by auto
    have "clusterStep (view s) v'" if "replaced kiteVirtualMachineGVR ns (cur\<lparr>k_finalizers := fs\<rparr>) (view s) v' stored" for v' stored
      using that key \<open>view s (kiteVirtualMachineGVR, ns, n) = Some cur\<close>
      by (auto simp: replaced_def clusterStep_def sameBody_def exactGVR_def objField_def split: if_splits)
    then show ?thesis
      unfolding key by (intro wp_update) (auto simp: that(1) passes.R_refl)
  qed
  have once: "guarantees view clusterStep (updateFinalizersOnce E resource fs)"
    unfolding guarantees_wp updateFinalizersOnce_def wp_bind
  proof (intro allI wp_get, unfold sum.case)
    fix s s1 cur assume "view s1 = view s" "view s (kiteVirtualMachineGVR, k_namespace resource, k_name resource) = Some cur"
    note w = writing[OF this]
    show "wp (tryE (env_update E kiteVirtualMachineGVR (k_namespace cur) (cur\<lparr>k_finalizers := fs\<rparr>)) (\<lambda>_. ok None))
       (\<lambda>r s'. clusterStep (view s) (view s')) s1"
      unfolding wp_tryE by (rule wp_mono[OF w]) (auto simp: wp_ok split: sum.split)
  qed (auto simp: wp_simps passes.R_refl)
  show ?thesis
    unfolding updateKiteVirtualMachineFinalizers_def by (intro pass_steps once)
qed

lemma pass_status:
  "guarantees view clusterStep (updateKiteVirtualMachineStatus E C vm w)"
  "guarantees view clusterStep (updateKiteVirtualMachineDataVolumeStatus E C vm dw)"
proof -
  have "guarantees view clusterStep (writeStatus E C vm what plan)" for what plan
    unfolding writeStatus_def writeStatusOnce_def by (intro pass_steps)
  then show "guarantees view clusterStep (updateKiteVirtualMachineStatus E C vm w)"
    "guarantees view clusterStep (updateKiteVirtualMachineDataVolumeStatus E C vm dw)"
    unfolding updateKiteVirtualMachineStatus_def updateKiteVirtualMachineDataVolumeStatus_def by (auto intro: pass_steps)
qed

lemma pass_owned:
  "guarantees view clusterStep (deleteKubeVirtVirtualMachine E ns n)"
  "guarantees view clusterStep (deleteKiteVirtualMachineOwnedResources E ns n)"
  unfolding deleteKubeVirtVirtualMachine_def deleteKiteVirtualMachineOwnedResources_def deleteOwnedStep_def
    deleteOwnedNamespacedResource_def
  by (intro pass_steps)+

lemma pass_cleanup:
  "guarantees view clusterStep m \<Longrightarrow> guarantees view clusterStep (cleanupThen E ns n m)"
  unfolding cleanupThen_def by (intro pass_steps pass_owned passes.g_keeps[OF exists_keeps])

lemma pass_deletion: "guarantees view clusterStep (reconcileKiteVirtualMachineDeletion E resource vm)"
  unfolding reconcileKiteVirtualMachineDeletion_def by (intro pass_steps pass_cleanup pass_finalizers)

lemma pass_failWithStatus: "guarantees view clusterStep (failWithStatus E C vm d e)"
  unfolding failWithStatus_def by (intro pass_steps pass_status)

lemma pass_orFailed: "guarantees view clusterStep m \<Longrightarrow> guarantees view clusterStep (orFailed E C vm d m)"
  unfolding orFailed_def by (intro pass_steps pass_failWithStatus)

lemma pass_apply: "guarantees view clusterStep (applyKiteVirtualMachineObject E obj)"
proof -
  have "kiteVirtualMachineObjectGVR obj = Inr g \<Longrightarrow> g \<noteq> kiteUserGVR \<and> g \<noteq> kiteVirtualMachineGVR" for g
    by (auto simp: kiteVirtualMachineObjectGVR_def split: if_splits)
  then show ?thesis
    unfolding applyKiteVirtualMachineObject_def
    by (cases "kiteVirtualMachineObjectGVR obj") (auto intro!: pass_steps pass_other)
qed

lemma pass_secrets:
  "guarantees view clusterStep (ensureKiteVirtualMachineSSHKeySecret E vm)"
  "guarantees view clusterStep (ensureKiteVirtualMachineIngressTLSSecret E ns)"
  unfolding ensureKiteVirtualMachineSSHKeySecret_def createSSHKeySecret_def ensureKiteVirtualMachineIngressTLSSecret_def
    writeIngressTLSSecret_def Let_def
  by (intro pass_steps pass_other passes.g_keeps[OF GenerateRSA_keeps]; simp)+

lemma pass_desiredState: "guarantees view clusterStep (reconcileKiteVirtualMachineDesiredState E C vm)"
  unfolding reconcileKiteVirtualMachineDesiredState_def kiteVirtualMachineDomain_def kiteVirtualMachineStorageClassName_def
    guestLoginPasswordHash_def Let_def
  by (intro pass_steps pass_failWithStatus pass_orFailed pass_secrets pass_apply pass_status)

lemma pass_machine: "guarantees view clusterStep (ReconcileKiteVirtualMachine E C ev)"
proof -
  have latest: "guarantees view clusterStep (reconcileLatest E C resource vm)" for resource vm
    unfolding reconcileLatest_def deleteKiteVirtualMachineCRD_def
    by (intro pass_steps passes.g_keeps[OF namespaceTerminating_keeps] pass_deletion pass_finalizers pass_desiredState
        pass_status pass_cleanup)
  then show ?thesis
    unfolding ReconcileKiteVirtualMachine_def by (intro pass_steps passes.g_keeps[OF latest_keeps])
qed

lemma pass_logged: "guarantees view clusterStep m \<Longrightarrow> guarantees view clusterStep (logged m)"
  unfolding logged_def by (intro pass_steps)

lemma pass_machineHandlers:
  "guarantees view clusterStep (machineAddFunc E C ev)"
  "guarantees view clusterStep (machineUpdateFunc E C old new)"
  "guarantees view clusterStep (machineDeleteFunc E C ev)"
  unfolding machineAddFunc_def machineDeleteFunc_def
  by (auto simp: machineUpdateFunc_def split: eventObj.split intro!: pass_steps pass_logged pass_machine pass_owned)

lemma pass_mirrors:
  "guarantees view clusterStep (ReconcileKubeVirtVirtualMachineStatus E C ev b)"
  "guarantees view clusterStep (ReconcileKiteVirtualMachineDataVolume E C ev b)"
  "guarantees view clusterStep (ReconcileKiteVirtualMachineService E C ev b)"
  unfolding ReconcileKubeVirtVirtualMachineStatus_def ReconcileKiteVirtualMachineDataVolume_def
    ReconcileKiteVirtualMachineService_def withOwner_def mirrorKubeVirt_def mirrorDataVolume_def mirrorService_def
    kiteVirtualMachineDomain_def Let_def
  by (intro pass_steps pass_machine pass_status)+

lemma pass_userResource:
  "guarantees view clusterStep (applyUserResource E obj)"
  "guarantees view clusterStep (deleteUserResource E obj)"
proof -
  have "userResourceGVR obj = Inr (g, b) \<Longrightarrow> g \<noteq> kiteUserGVR \<and> g \<noteq> kiteVirtualMachineGVR" for g b
    by (auto simp: userResourceGVR_def split: if_splits)
  then show "guarantees view clusterStep (applyUserResource E obj)"
    unfolding applyUserResource_def Let_def
    by (cases "userResourceGVR obj") (auto intro!: pass_steps pass_other)
  show "guarantees view clusterStep (deleteUserResource E obj)"
    unfolding deleteUserResource_def by (intro pass_steps)
qed

lemma pass_userStatus: "guarantees view clusterStep (updateKiteUserStatus E C user w)"
  unfolding updateKiteUserStatus_def Let_def by (intro pass_steps)

lemma pass_kiteUser: "guarantees view clusterStep (ReconcileKiteUser E C ev)"
  unfolding ReconcileKiteUser_def reconcileUser_def reconcileKiteUserNamespaceChange_def
    deleteKiteUserNamespaceIfUnreferenced_def namespaceReferencedByKiteUser_def kiteUsersForNamespace_def
    deleteNamespace_def validateUserNamespace_def deleteDeprecatedQuota_def Let_def
  by (intro pass_steps pass_userResource pass_userStatus)

lemma pass_users:
  "guarantees view clusterStep (userChangeFunc E C ev)"
  "guarantees view clusterStep (DeleteKiteUserResources E C ev)"
  "guarantees view clusterStep (ReconcileKiteNamespace E ev)"
  "guarantees view clusterStep (RestoreKiteNamespace E C ev)"
  "guarantees view clusterStep (ReconcileKiteUserBaseResource E C g ev)"
  unfolding userChangeFunc_def recordKiteUserReconcileFailure_def DeleteKiteUserResources_def ReconcileKiteNamespace_def
    RestoreKiteNamespace_def ReconcileKiteUserBaseResource_def reconcileUsers_def namespaceReferencedByKiteUser_def
    kiteUsersForNamespace_def deleteNamespace_def
  by (intro pass_steps pass_logged pass_userResource pass_userStatus pass_kiteUser)+

lemma pass_offers: "guarantees view clusterStep (RunKiteVirtualMachineOfferCleanup E ticks)"
proof (induction ticks)
  have sweep: "guarantees view clusterStep (DeleteExpiredKiteVirtualMachineOffers E now)" for now
    unfolding DeleteExpiredKiteVirtualMachineOffers_def deleteExpiredStep_def by (intro pass_steps)
  { case 0 then show ?case by (simp, intro pass_steps sweep)
  next
    case (Suc n) then show ?case by (simp, intro pass_steps sweep) }
qed

lemma pass_Bootstrap: "guarantees view clusterStep (Bootstrap E)"
proof -
  have create: "guarantees view clusterStep (env_create E g ns obj)" and update: "guarantees view clusterStep (env_update E g ns obj)"
    if "g \<in> {namespaceGVR, configMapGVR, secretGVR}" for g ns obj
    using that by (auto intro: pass_other)
  show ?thesis
    unfolding Bootstrap_def ensureKiteNamespace_def ensureRuntimeConfigMap_def ensureRuntimeSecret_def newRuntimeSecret_def
      normalizedRuntimeSecretData_def defaultRuntimeSecretData_def GenerateSecret_def clearLegacyRuntimeConfigSecrets_def Let_def
    by (intro pass_steps create update; simp)
qed

lemma pass_ignored: "guarantees view clusterStep m \<Longrightarrow> guarantees view clusterStep (ignoreResult m)"
  unfolding ignoreResult_def by (intro pass_steps)

lemma pass_HasTLS: "guarantees view clusterStep (HasTLSCertificate E)"
  unfolding HasTLSCertificate_def migrateLegacyTLSCertificate_def by (intro pass_steps pass_other; simp)

lemma pass_platformIngress: "guarantees view clusterStep (ReconcileKitePlatformIngressFromConfigMap E C)"
  unfolding ReconcileKitePlatformIngressFromConfigMap_def reconcileHostless_def reconcileHost_def applyRedirecting_def rendering_def
    applyKitePlatformIngress_def applyKitePlatformHTTPSRedirect_def deleteKitePlatformHTTPSRedirect_def Let_def
  by (intro pass_steps pass_HasTLS pass_other; simp)

lemma pass_router: "guarantees view (keepsDatabase E) (newRouter E N deps hr route)"
proof -
  have "guarantees view (keepsDatabase E) (healthHandler E)" by (rule db.g_keeps[OF keeps_health])
  then show ?thesis
    unfolding newRouter_def corsMiddleware_def csrfOriginMiddleware_def Let_def
    by (cases route) (auto intro!: db.g_intros dbapi.Register_step)
qed

lemma pass_apiMain: "guarantees view clusterStep (apiMain E)"
  unfolding apiMain_def by (intro pass_steps pass_Bootstrap)

end

context patch_api
begin

lemma pass_patch: "guarantees view clusterStep (jsonPatch serviceGVR ns n ops)"
  unfolding guarantees_wp by (intro allI wpI) (auto dest!: patch_law simp: writeOutcome_def patched_def clusterStep_def split: if_splits)

lemma pass_exposure: "guarantees view clusterStep (ReconcileKiteGatewayExposureFromConfigMap E jsonPatch)"
proof -
  have status: "guarantees view clusterStep (writeStatusNow E st)" for st
    unfolding writeStatusNow_def withTransitionTime_def WriteSSHGatewayStatus_def by (intro pass_steps pass_other; simp)
  have failed: "guarantees view clusterStep (orGatewayFailed E m k)" if "guarantees view clusterStep m" "\<And>x. guarantees view clusterStep (k x)" for m k
    unfolding orGatewayFailed_def writeGatewayFailedStatus_def by (intro pass_steps status that)
  have normalize: "guarantees view clusterStep (normalizeInternalGatewayService E jsonPatch)"
    unfolding normalizeInternalGatewayService_def Let_def by (intro pass_steps pass_patch)
  show ?thesis
    unfolding ReconcileKiteGatewayExposureFromConfigMap_def exposeGateway_def deleteExternalGatewayService_def
      applyExternalGatewayService_def externalGatewayServiceStatus_def
    by (intro passes.g_tryE failed pass_steps status normalize pass_other; simp)
qed

end
section \<open>The running system\<close>

text \<open>
  The informer events \<open>cmd/kite-controller/main.go\<close> subscribes to, each with the handler its
  \<open>Register...\<close> function attaches, and the ticks of the offer clean-up loop.
\<close>

datatype informerEvent = Added eventObj | Updated eventObj eventObj | Gone eventObj

datatype controllerEvent =
    KiteUserEvent informerEvent
  | KiteUserBaseResourceEvent gvr informerEvent
  | KiteNamespaceEvent informerEvent
  | KiteVirtualMachineEvent informerEvent
  | KubeVirtVirtualMachineEvent informerEvent
  | ServiceEvent informerEvent
  | DataVolumeEvent informerEvent
  | OfferCleanup nat
  | PlatformIngressStart
  | PlatformConfigEvent informerEvent
  | PlatformTLSEvent informerEvent
  | GatewayExposureStart
  | GatewayConfigEvent informerEvent
  | GatewayServiceEvent informerEvent

text \<open>Handlers without one for deletions.\<close>

definition changesOnly :: "(eventObj \<Rightarrow> ('s, unit) state) \<times> (eventObj \<Rightarrow> eventObj \<Rightarrow> ('s, unit) state) \<Rightarrow>
    (eventObj \<Rightarrow> ('s, unit) state) \<times> (eventObj \<Rightarrow> eventObj \<Rightarrow> ('s, unit) state) \<times> (eventObj \<Rightarrow> ('s, unit) state)" where
  "changesOnly handlers = (fst handlers, snd handlers, \<lambda>_. State_Monad.return ())"

definition dispatch :: "(eventObj \<Rightarrow> ('s, unit) state) \<times> (eventObj \<Rightarrow> eventObj \<Rightarrow> ('s, unit) state) \<times> (eventObj \<Rightarrow> ('s, unit) state)
    \<Rightarrow> informerEvent \<Rightarrow> ('s, unit) state" where
  "dispatch handlers ev =
     (case handlers of (add, upd, del) \<Rightarrow>
        (case ev of Added obj \<Rightarrow> add obj | Updated oldObj newObj \<Rightarrow> upd oldObj newObj | Gone obj \<Rightarrow> del obj))"

definition controllerMain ::
  "'s env \<Rightarrow> converters \<Rightarrow> (gvr \<Rightarrow> string \<Rightarrow> string \<Rightarrow> patchOp list \<Rightarrow> ('s, kobj result) state) \<Rightarrow> controllerEvent \<Rightarrow> ('s, unit) state" where
  "controllerMain E C jsonPatch event =
     (case event of
        KiteUserEvent ev \<Rightarrow> dispatch (RegisterKiteUserReconciler E C) ev
      | KiteUserBaseResourceEvent resource ev \<Rightarrow> dispatch (RegisterKiteUserBaseResourceReconciler E C resource) ev
      | KiteNamespaceEvent ev \<Rightarrow> dispatch (RegisterKiteNamespaceReconciler E C) ev
      | KiteVirtualMachineEvent ev \<Rightarrow> dispatch (machineAddFunc E C, machineUpdateFunc E C, machineDeleteFunc E C) ev
      | KubeVirtVirtualMachineEvent ev \<Rightarrow> dispatch (RegisterKubeVirtVirtualMachineStatusReconciler E C) ev
      | ServiceEvent ev \<Rightarrow> dispatch (RegisterKiteVirtualMachineServiceReconciler E C) ev
      | DataVolumeEvent ev \<Rightarrow> dispatch (RegisterKiteVirtualMachineDataVolumeReconciler E C) ev
      | OfferCleanup ticks \<Rightarrow> RunKiteVirtualMachineOfferCleanup E ticks
      | PlatformIngressStart \<Rightarrow> ignoreResult (ReconcileKitePlatformIngressFromConfigMap E C)
      | PlatformConfigEvent ev \<Rightarrow> dispatch (changesOnly (RegisterKitePlatformIngressReconciler E C)) ev
      | PlatformTLSEvent ev \<Rightarrow> dispatch (changesOnly (RegisterKitePlatformTLSSecretReconciler E C)) ev
      | GatewayExposureStart \<Rightarrow> ignoreResult (ReconcileKiteGatewayExposureFromConfigMap E jsonPatch)
      | GatewayConfigEvent ev \<Rightarrow> dispatch (changesOnly (RegisterKiteGatewayExposureReconciler E jsonPatch)) ev
      | GatewayServiceEvent ev \<Rightarrow> dispatch (RegisterKiteGatewayExposureServiceReconciler E jsonPatch) ev)"

text \<open>
  One step: the API serves a request, the controller handles an event (with whatever converters),
  a process starts, or something else in the cluster acts.
\<close>

inductive system_step ::
  "'s env \<Rightarrow> (gvr \<Rightarrow> string \<Rightarrow> string \<Rightarrow> patchOp list \<Rightarrow> ('s, kobj result) state) \<Rightarrow> ('s \<Rightarrow> kview) \<Rightarrow> 's \<Rightarrow> 's \<Rightarrow> bool"
  for E jsonPatch view where
  request: "system_step E jsonPatch view s (snd (run_state (newRouter E N deps hr route) s))"
| controller: "system_step E jsonPatch view s (snd (run_state (controllerMain E C jsonPatch event) s))"
| startup: "system_step E jsonPatch view s (snd (run_state (apiMain E) s))"
| cluster: "clusterStep (view s) (view s') \<Longrightarrow> system_step E jsonPatch view s s'"

inductive_cases system_stepE: "system_step E jsonPatch view s s'"

context patch_api
begin

lemma pass_platformHandlers:
  "guarantees view clusterStep (reconcilePlatformIngressConfigEvent E C ev)"
  "guarantees view clusterStep (reconcilePlatformTLSSecretEvent E C ev)"
  "guarantees view clusterStep (reconcileGatewayExposureConfigEvent E jsonPatch ev)"
  "guarantees view clusterStep (reconcileGatewayExposureServiceEvent E jsonPatch ev)"
  unfolding reconcilePlatformIngressConfigEvent_def reconcilePlatformTLSSecretEvent_def reconcileGatewayExposureConfigEvent_def
    reconcileGatewayExposureServiceEvent_def
  by (cases ev; cases "informerEventObject ev"; auto intro!: passes.g_if passes.g_return pass_ignored pass_platformIngress pass_exposure)+

lemma pass_controllerMain: "guarantees view clusterStep (controllerMain E C jsonPatch event)"
  unfolding controllerMain_def dispatch_def changesOnly_def RegisterKiteUserReconciler_def RegisterKiteUserBaseResourceReconciler_def
    RegisterKiteNamespaceReconciler_def RegisterKubeVirtVirtualMachineStatusReconciler_def
    RegisterKiteVirtualMachineServiceReconciler_def RegisterKiteVirtualMachineDataVolumeReconciler_def mirrorHandlers_def
    RegisterKitePlatformIngressReconciler_def RegisterKitePlatformTLSSecretReconciler_def
    RegisterKiteGatewayExposureReconciler_def RegisterKiteGatewayExposureServiceReconciler_def
  by (cases event; simp only: controllerEvent.case prod.case fst_conv snd_conv)
     (auto split: informerEvent.split intro!: pass_logged pass_users pass_machineHandlers pass_mirrors pass_offers
        pass_platformHandlers passes.g_return pass_ignored pass_platformIngress pass_exposure)

lemma system_step_database: "system_step E jsonPatch view s s' \<Longrightarrow> keepsDatabase E (view s) (view s')"
  by (induction rule: system_step.induct)
     (auto intro: guarantees_run[OF pass_router] clusterStep_database guarantees_run[OF pass_controllerMain]
        guarantees_run[OF pass_apiMain])

lemma system_run_database: "(system_step E jsonPatch view)\<^sup>*\<^sup>* s s' \<Longrightarrow> keepsDatabase E (view s) (view s')"
  by (induction rule: rtranclp_induct) (auto intro: db.R_refl db.R_trans system_step_database)

end

text \<open>Two requests with one SSH id that are both past their checks are both stored.\<close>

lemma written_twice:
  assumes a: "vmCreated recA hashA v v1" and b: "vmCreated recB hashB v1 v2"
    and same: "vs_sshID (vr_spec recA) = vs_sshID (vr_spec recB)" and key: "TrimSpace (vs_sshID (vr_spec recB)) \<noteq> []"
  shows "\<not> vmKeysUnique v2"
proof
  assume unique: "vmKeysUnique v2"
  obtain objA where A: "v1 (kiteVirtualMachineGVR, vr_namespace recA, vr_name recA) = Some objA" "recordFromObject objA = Inr recA"
    using a unfolding vmCreated_def by auto
  obtain objB where B: "v1 (kiteVirtualMachineGVR, vr_namespace recB, vr_name recB) = None"
    "v2 (kiteVirtualMachineGVR, vr_namespace recB, vr_name recB) = Some objB" "recordFromObject objB = Inr recB"
    using b unfolding vmCreated_def by auto
  have kept: "v2 (kiteVirtualMachineGVR, vr_namespace recA, vr_name recA) = Some objA"
    using b A(1) unfolding vmCreated_def by (auto split: if_splits)
  have "vmKeyOf ''sshId'' objA = TrimSpace (vs_sshID (vr_spec recA))" "vmKeyOf ''sshId'' objB = TrimSpace (vs_sshID (vr_spec recB))"
    using A(2) B(3) by (auto simp: recordFromObject_def vmKeyOf_def specOf_def mapValue_def objField_def split: option.splits)
  with unique A B kept same key show False unfolding vmKeysUnique_def uniqueIn_def by (metis option.distinct(1))
qed

section \<open>Properties\<close>

text \<open>C1: whatever sequence of API requests, controller events, restarts and actions of other cluster
  components happens, and whatever faults the API server shows, user names and e-mail addresses stay
  unique, access levels stay between 0 and 3, and SSH ids and domain prefixes of VMs stay unique, as
  long as each handler runs without another one in between.\<close>

theorem system_invariant:
  assumes "patch_api E view jsonPatch" "(system_step E jsonPatch view)\<^sup>*\<^sup>* s s'" "databaseOK E (view s)"
  shows "databaseOK E (view s')"
  using patch_api.system_run_database[OF assms(1,2)] assms(3) by (simp add: keepsDatabase_def)

lemma empty_database: "databaseOK E (mem_view (mem_init [] faults))"
  using vmKeysUnique_empty[of faults]
  by (simp add: databaseOK_def usersOK_def uniqueIn_def mem_view_def mem_init_def)

definition afterBootstrap :: mem where
  "afterBootstrap = snd (run_state (apiMain mem_env) (mem_init [] [Served, ReplyLost]))"

definition aliceSignsUp :: apiRoute where
  "aliceSignsUp = V1 (V1Signup (Some \<lparr>ks_Username = ''alice'', ks_Email = ''alice@example.com'', ks_Password = ''secret''\<rparr>))"

definition signUpRequest :: httpRequest where
  "signUpRequest = \<lparr>hr_method = ''POST'', hr_origin = [], hr_host = ''kite.example'', hr_request = anonymous\<rparr>"

definition afterSignUp :: mem where
  "afterSignUp = snd (run_state (newRouter mem_env demoNet demoDeps signUpRequest (ApiRoute aliceSignsUp)) afterBootstrap)"

theorem system_invariant_witness:
  "(system_step mem_env mem_jsonPatch mem_view)\<^sup>*\<^sup>* (mem_init [] [Served, ReplyLost]) afterSignUp \<and>
   databaseOK mem_env (mem_view afterSignUp)"
proof -
  have "system_step mem_env mem_jsonPatch mem_view (mem_init [] [Served, ReplyLost]) afterBootstrap"
    unfolding afterBootstrap_def by (rule startup)
  moreover have "system_step mem_env mem_jsonPatch mem_view afterBootstrap afterSignUp"
    unfolding afterSignUp_def by (rule request)
  ultimately have run: "(system_step mem_env mem_jsonPatch mem_view)\<^sup>*\<^sup>* (mem_init [] [Served, ReplyLost]) afterSignUp" by simp
  from system_invariant[OF mem_patch_api run empty_database] run show ?thesis by simp
qed

text \<open>C36: without that proviso the invariant fails: \<open>Create\<close> checks and then writes, so when two requests
  for one SSH id have both passed their checks before either writes, both VMs are stored.\<close>

theorem create_race:
  assumes api: "kube_api E view"
    and ready: "createReady E pwSalt reqA (view s) recA hashA" "createReady E pwSalt reqB (view s) recB hashB"
    and same: "vs_sshID (vr_spec recA) = vs_sshID (vr_spec recB)"
    and a: "run_state (writeVM E recA hashA) s = (Inr vmA, s1)" and b: "run_state (writeVM E recB hashB) s1 = (Inr vmB, s2)"
  shows "\<not> vmKeysUnique (view s2)"
proof -
  have stored: "vmCreated rec hash (view t) (view t')" if "run_state (writeVM E rec hash) t = (Inr vm, t')" for rec hash t vm t'
    using wpD[OF kube_api.wp_writeVM[OF api, where Q = "\<lambda>r t'. isl r \<or> vmCreated rec hash (view t) (view t')"] that] by auto
  have "TrimSpace (vs_sshID (vr_spec recB)) \<noteq> []"
    using ready(2) fresh_trim(1)[of E recB] sshIDPattern_nonempty[of "vs_sshID (vr_spec recB)"]
    by (auto simp: createReady_def freshVMRecord_def wfVMSpec_def)
  from written_twice[OF stored[OF a] stored[OF b] same this] show ?thesis .
qed

definition rivalRequest :: CreateRequest where
  "rivalRequest = demoRequest\<lparr>cr_name := ''shop'', cr_domainPrefix := ''shop''\<rparr>"

definition checkedRecord :: "CreateRequest \<Rightarrow> KiteVirtualMachineRecord" where
  "checkedRecord req =
     (case fst (run_state (createRecord mem_env req) (mem_init [] [])) of
        Inr rec \<Rightarrow> rec\<lparr>vr_spec := (vr_spec rec)\<lparr>vs_sshPasswordHash := ''$2a$12$secret''\<rparr>\<rparr>)"

lemma checkedRecord_ready:
  assumes "\<not> isl (fst (run_state (createRecord mem_env req) (mem_init [] [])))" "cr_sshPassword req = ''secret''"
  shows "createReady mem_env ''salt'' req (mem_view (mem_init [] [])) (checkedRecord req) ''$6$rounds=500000$ab$secret''"
proof -
  obtain rec s' where run: "run_state (createRecord mem_env req) (mem_init [] []) = (Inr rec, s')"
    using run_Inr[OF assms(1)] by blast
  have "hashedBy mem_env ''secret'' ''salt'' ''$2a$12$secret''"
    by (rule hashedByI[where t = "mem_init [] []" and t' = "mem_init [] []"]) code_simp
  moreover have "env_crypt mem_env ''secret'' (''$6$rounds=500000$'' @ ''ab'') = Inr ''$6$rounds=500000$ab$secret''" by code_simp
  moreover have "checkedRecord req = rec\<lparr>vr_spec := (vr_spec rec)\<lparr>vs_sshPasswordHash := ''$2a$12$secret''\<rparr>\<rparr>"
    by (simp add: checkedRecord_def run)
  ultimately show ?thesis
    using createRecord_fresh[OF run] createRecord_requestedAs[OF run] assms(2)
    by (auto simp: createReady_def keyFree_def mem_view_def mem_init_def intro: fresh_setHash)
qed

theorem create_race_witness:
  "\<exists>vmA s1 vmB s2.
     run_state (writeVM mem_env (checkedRecord demoRequest) ''$6$rounds=500000$ab$secret'') (mem_init [] []) = (Inr vmA, s1) \<and>
     run_state (writeVM mem_env (checkedRecord rivalRequest) ''$6$rounds=500000$ab$secret'') s1 = (Inr vmB, s2) \<and>
     \<not> vmKeysUnique (mem_view s2)"
proof -
  let ?A = "writeVM mem_env (checkedRecord demoRequest) ''$6$rounds=500000$ab$secret''"
  let ?B = "writeVM mem_env (checkedRecord rivalRequest) ''$6$rounds=500000$ab$secret''"
  have "\<not> isl (fst (run_state ?A (mem_init [] [])))" by code_simp
  from run_Inr[OF this] obtain vmA s1 where a: "run_state ?A (mem_init [] []) = (Inr vmA, s1)" by blast
  have "\<not> isl (fst (run_state ?B (snd (run_state ?A (mem_init [] [])))))" by code_simp
  from run_Inr[OF this] a obtain vmB s2 where b: "run_state ?B s1 = (Inr vmB, s2)" by auto
  have ready: "createReady mem_env ''salt'' req (mem_view (mem_init [] [])) (checkedRecord req) ''$6$rounds=500000$ab$secret''"
    if "req \<in> {demoRequest, rivalRequest}" for req
  proof (rule checkedRecord_ready)
    have "\<not> isl (fst (run_state (createRecord mem_env demoRequest) (mem_init [] [])))"
      "\<not> isl (fst (run_state (createRecord mem_env rivalRequest) (mem_init [] [])))" by code_simp+
    with that show "\<not> isl (fst (run_state (createRecord mem_env req) (mem_init [] [])))" by blast
    from that show "cr_sshPassword req = ''secret''" by (auto simp: rivalRequest_def demoRequest_def)
  qed
  have "vs_sshID (vr_spec (checkedRecord demoRequest)) = vs_sshID (vr_spec (checkedRecord rivalRequest))" by code_simp
  from create_race[OF mem_kube_api ready ready this a b] a b show ?thesis by blast
qed

end
