(* ===== verification/Gateway_Routes.thy ===== *)
theory Gateway_Routes
  imports Offer_Service Machine_Resources
begin

text \<open>
  The routing of the SSH gateway: \<open>internal/gateway/routes.go\<close>.  The table of SSH logins is rebuilt
  from the cache of the KiteVirtualMachine informer on every event; a login name that two VMs claim
  is unusable.  The lock of the table makes each operation atomic, so the model has no trace of it.
\<close>

section \<open>Routes\<close>

definition defaultSSHServicePrefix :: string where "defaultSSHServicePrefix = ''vps-access-''"
definition defaultSSHKeySuffix :: string where "defaultSSHKeySuffix = ''-ssh-key''"
definition gateway_vmSSHPrivateKeyName :: string where "gateway_vmSSHPrivateKeyName = ''id_rsa''"

text \<open>The regular expression \<open>^[a-z_][a-z0-9_-]{0,31}$\<close>, the same as that of the VM service.\<close>

definition linuxUsernamePattern :: "string \<Rightarrow> bool" where
  "linuxUsernamePattern value = sshIDPattern value"

text \<open>The regular expression \<open>^[a-z0-9]([-a-z0-9]*[a-z0-9])?$\<close>.\<close>

definition dnsLabelPattern :: "string \<Rightarrow> bool" where
  "dnsLabelPattern value \<longleftrightarrow>
     value \<noteq> [] \<and> labelByte (hd value) \<and> labelByte (last value) \<and>
     list_all (\<lambda>c. labelByte c \<or> c = CHR ''-'') value"

definition isSafeLinuxUsername :: "string \<Rightarrow> bool" where
  "isSafeLinuxUsername value = linuxUsernamePattern value"

definition isSafeDNSLabel :: "string \<Rightarrow> bool" where
  "isSafeDNSLabel value \<longleftrightarrow> length value \<le> 63 \<and> dnsLabelPattern value"

definition ErrRouteNotFound :: goerr where "ErrRouteNotFound = Plain ''route not found''"
definition ErrRouteDuplicate :: goerr where "ErrRouteDuplicate = Plain ''duplicate sshId route''"

record Route =
  rt_Username :: string
  rt_PasswordHash :: string
  rt_VMNamespace :: string
  rt_VMName :: string
  rt_ServiceName :: string
  rt_SecretName :: string

definition TargetAddress :: "Route \<Rightarrow> string" where
  "TargetAddress r = rt_ServiceName r @ ''.'' @ rt_VMNamespace r @ ''.svc.cluster.local:22''"

definition RouteFromKiteVirtualMachine :: "kobj \<Rightarrow> Route option" where
  "RouteFromKiteVirtualMachine obj =
     (if k_namespace obj = [] \<or> k_name obj = [] \<or> k_deletionTimestamp obj \<noteq> None then None
      else if nestedOr False (NestedBool (k_body obj) [''spec'', ''delete'']) then None
      else
        let username = TrimSpace (nestedOr [] (NestedString (k_body obj) [''spec'', ''sshId'']));
            passwordHash = TrimSpace (nestedOr [] (NestedString (k_body obj) [''spec'', ''sshPasswordHash'']));
            service0 = TrimSpace (nestedOr [] (NestedString (k_body obj) [''status'', ''serviceName'']));
            serviceName = (if service0 = [] then defaultSSHServicePrefix @ k_name obj else service0);
            secret0 = TrimSpace (nestedOr [] (NestedString (k_body obj) [''status'', ''sshKeySecretName'']));
            secretName = (if secret0 = [] then k_name obj @ defaultSSHKeySuffix else secret0) in
        if \<not> isSafeLinuxUsername username \<or> passwordHash = [] then None
        else if \<not> isSafeDNSLabel serviceName then None
        else if \<not> isSafeDNSLabel secretName then None
        else Some \<lparr>rt_Username = username, rt_PasswordHash = passwordHash, rt_VMNamespace = k_namespace obj,
               rt_VMName = k_name obj, rt_ServiceName = serviceName, rt_SecretName = secretName\<rparr>)"

text \<open>The cache of an informer; an entry that is not an unstructured object is \<open>None\<close>.\<close>

fun routesFromInformerStore :: "kobj option list \<Rightarrow> Route list" where
  "routesFromInformerStore [] = []"
| "routesFromInformerStore (None # items) = routesFromInformerStore items"
| "routesFromInformerStore (Some obj # items) =
     (case RouteFromKiteVirtualMachine obj of
        None \<Rightarrow> routesFromInformerStore items
      | Some route \<Rightarrow> route # routesFromInformerStore items)"

section \<open>The route table\<close>

record RouteTable =
  tb_routes :: "string \<rightharpoonup> Route"
  tb_duplicates :: "string \<rightharpoonup> bool"
  tb_passwordSalt :: string

definition NewRouteTable :: "string \<Rightarrow> RouteTable" where
  "NewRouteTable passwordSalt = \<lparr>tb_routes = Map.empty, tb_duplicates = Map.empty, tb_passwordSalt = passwordSalt\<rparr>"

definition RouteTable_Get :: "RouteTable \<Rightarrow> string \<Rightarrow> Route result" where
  "RouteTable_Get t username0 =
     (let username = TrimSpace username0 in
      if tb_duplicates t username = Some True then Inl ErrRouteDuplicate
      else case tb_routes t username of None \<Rightarrow> Inl ErrRouteNotFound | Some route \<Rightarrow> Inr route)"

fun replaceLoop :: "Route list \<Rightarrow> (string \<rightharpoonup> Route) \<Rightarrow> (string \<rightharpoonup> bool) \<Rightarrow> (string \<rightharpoonup> Route) \<times> (string \<rightharpoonup> bool)" where
  "replaceLoop [] nextRoutes nextDuplicates = (nextRoutes, nextDuplicates)"
| "replaceLoop (route # routes) nextRoutes nextDuplicates =
     (if nextRoutes (rt_Username route) \<noteq> None
      then replaceLoop routes (nextRoutes(rt_Username route := None)) (nextDuplicates(rt_Username route \<mapsto> True))
      else if nextDuplicates (rt_Username route) = Some True then replaceLoop routes nextRoutes nextDuplicates
      else replaceLoop routes (nextRoutes(rt_Username route \<mapsto> route)) nextDuplicates)"

definition ReplaceAll :: "RouteTable \<Rightarrow> Route list \<Rightarrow> RouteTable" where
  "ReplaceAll t routes =
     (case replaceLoop routes Map.empty Map.empty of (nextRoutes, nextDuplicates) \<Rightarrow>
        t\<lparr>tb_routes := nextRoutes, tb_duplicates := nextDuplicates\<rparr>)"

definition AuthenticatePassword :: "'s env \<Rightarrow> RouteTable \<Rightarrow> string \<Rightarrow> string \<Rightarrow> Route result" where
  "AuthenticatePassword E t username password =
     (case RouteTable_Get t username of
        Inl e \<Rightarrow> Inl e
      | Inr route \<Rightarrow>
          if \<not> VerifyPassword E password (tb_passwordSalt t) (rt_PasswordHash route)
          then Inl (Plain ''invalid SSH password'') else Inr route)"

text \<open>All three handlers that \<open>RegisterRouteInformer\<close> attaches rebuild the table from the cache.\<close>

definition RegisterRouteInformer :: "kobj option list \<Rightarrow> RouteTable \<Rightarrow> RouteTable" where
  "RegisterRouteInformer store table = ReplaceAll table (routesFromInformerStore store)"

section \<open>What a connection needs of the VM\<close>

definition ReadPrivateKey :: "'s env \<Rightarrow> Route \<Rightarrow> ('s, string result) state" where
  "ReadPrivateKey E route =
     (let at = rt_VMNamespace route @ ''/'' @ rt_SecretName route in do {
       r \<leftarrow> env_get E secretGVR (rt_VMNamespace route) (rt_SecretName route);
       case r of
         Inl e \<Rightarrow> fail (Wrapped (''failed to read SSH key Secret '' @ at @ '': '') e [])
       | Inr secret \<Rightarrow>
           let privateKeyData = TrimSpace (dataAt (secretData secret) gateway_vmSSHPrivateKeyName) in
           if privateKeyData = [] then fail (Plain (''SSH key Secret '' @ at @ '' is missing '' @ gateway_vmSSHPrivateKeyName))
           else case StdEncoding_DecodeString privateKeyData of
             Inl e \<Rightarrow> fail (Wrapped (''failed to decode '' @ gateway_vmSSHPrivateKeyName @ '' from SSH key Secret '' @ at @ '': '') e [])
           | Inr privateKeyBytes \<Rightarrow>
               let privateKey = TrimSpace privateKeyBytes in
               if privateKey = [] then fail (Plain (''SSH key Secret '' @ at @ '' is missing '' @ gateway_vmSSHPrivateKeyName))
               else ok privateKey
     })"

definition EnsureServiceExists :: "'s env \<Rightarrow> Route \<Rightarrow> ('s, unit result) state" where
  "EnsureServiceExists E route = do {
     r \<leftarrow> env_get E serviceGVR (rt_VMNamespace route) (rt_ServiceName route);
     case r of
       Inl e \<Rightarrow> fail (Wrapped (''failed to read VM SSH Service '' @ rt_VMNamespace route @ ''/'' @ rt_ServiceName route @ '': '') e [])
     | Inr _ \<Rightarrow> ok ()
   }"

section \<open>The table as a function of the routes\<close>

text \<open>
  The specification the table refines: a login name is known when exactly one route carries it.
\<close>

definition routesOf :: "Route list \<Rightarrow> string \<Rightarrow> Route list" where
  "routesOf routes u = filter (\<lambda>r. rt_Username r = u) routes"

definition lookupSpec :: "Route list \<Rightarrow> string \<Rightarrow> Route result" where
  "lookupSpec routes u =
     (case routesOf routes u of
        [] \<Rightarrow> Inl ErrRouteNotFound
      | [route] \<Rightarrow> Inr route
      | _ \<Rightarrow> Inl ErrRouteDuplicate)"

text \<open>The loop invariant: the maps tell how often a name occurred in the routes read so far.\<close>

definition counted :: "Route list \<Rightarrow> (string \<rightharpoonup> Route) \<Rightarrow> (string \<rightharpoonup> bool) \<Rightarrow> bool" where
  "counted past m d \<longleftrightarrow>
     (\<forall>u. (case routesOf past u of
             [] \<Rightarrow> m u = None \<and> d u = None
           | [route] \<Rightarrow> m u = Some route \<and> d u = None
           | _ \<Rightarrow> m u = None \<and> d u = Some True))"

lemma counted_at:
  "counted past m d \<longleftrightarrow>
     (\<forall>u. (routesOf past u = [] \<longrightarrow> m u = None \<and> d u = None) \<and>
        (\<forall>r. routesOf past u = [r] \<longrightarrow> m u = Some r \<and> d u = None) \<and>
        (1 < length (routesOf past u) \<longrightarrow> m u = None \<and> d u = Some True))"
  unfolding counted_def by (intro all_cong1) (auto split: list.split)

lemma counted_step:
  assumes "counted past m d"
  shows "counted (past @ [r]) (fst (replaceLoop [r] m d)) (snd (replaceLoop [r] m d))"
  unfolding counted_at
proof
  fix u
  have at: "routesOf (past @ [r]) u = routesOf past u @ (if rt_Username r = u then [r] else [])"
    by (simp add: routesOf_def)
  have u: "(routesOf past u = [] \<longrightarrow> m u = None \<and> d u = None) \<and>
      (\<forall>r. routesOf past u = [r] \<longrightarrow> m u = Some r \<and> d u = None) \<and>
      (1 < length (routesOf past u) \<longrightarrow> m u = None \<and> d u = Some True)"
    using assms unfolding counted_at by blast
  consider "routesOf past u = []" | x where "routesOf past u = [x]" | "1 < length (routesOf past u)"
    by (cases "routesOf past u" rule: list.exhaust; cases "tl (routesOf past u)") auto
  then show "(routesOf (past @ [r]) u = [] \<longrightarrow> fst (replaceLoop [r] m d) u = None \<and> snd (replaceLoop [r] m d) u = None) \<and>
      (\<forall>x. routesOf (past @ [r]) u = [x] \<longrightarrow> fst (replaceLoop [r] m d) u = Some x \<and> snd (replaceLoop [r] m d) u = None) \<and>
      (1 < length (routesOf (past @ [r]) u) \<longrightarrow> fst (replaceLoop [r] m d) u = None \<and> snd (replaceLoop [r] m d) u = Some True)"
    unfolding at using u by cases auto
qed

lemma replaceLoop_Cons:
  "replaceLoop (r # rs) m d = replaceLoop rs (fst (replaceLoop [r] m d)) (snd (replaceLoop [r] m d))"
  by simp

lemma replaceLoop_counted:
  "counted past m d \<Longrightarrow> replaceLoop rs m d = (m', d') \<Longrightarrow> counted (past @ rs) m' d'"
proof (induction rs arbitrary: past m d)
  case Nil then show ?case by simp
next
  case (Cons r rs)
  from Cons.IH[OF counted_step[OF Cons.prems(1)]] Cons.prems(2) show ?case
    unfolding replaceLoop_Cons[of r rs] by simp
qed

lemma Get_ReplaceAll: "RouteTable_Get (ReplaceAll t routes) u = lookupSpec routes (TrimSpace u)"
proof -
  obtain m d where run: "replaceLoop routes Map.empty Map.empty = (m, d)" by fastforce
  have "counted [] Map.empty Map.empty" by (simp add: counted_def routesOf_def)
  from replaceLoop_counted[OF this run] have "counted routes m d" by simp
  then have "case routesOf routes (TrimSpace u) of [] \<Rightarrow> m (TrimSpace u) = None \<and> d (TrimSpace u) = None
      | [route] \<Rightarrow> m (TrimSpace u) = Some route \<and> d (TrimSpace u) = None
      | _ \<Rightarrow> m (TrimSpace u) = None \<and> d (TrimSpace u) = Some True"
    unfolding counted_def by blast
  then show ?thesis
    by (auto simp: ReplaceAll_def run RouteTable_Get_def lookupSpec_def split: list.splits)
qed

section \<open>From the cache to a login\<close>

lemma routesFrom_append [simp]: "routesFromInformerStore (xs @ ys) = routesFromInformerStore xs @ routesFromInformerStore ys"
  by (induction xs rule: routesFromInformerStore.induct) (auto split: option.split)

lemma routesFrom_set: "r \<in> set (routesFromInformerStore store) \<longleftrightarrow> (\<exists>obj. Some obj \<in> set store \<and> RouteFromKiteVirtualMachine obj = Some r)"
  by (induction store rule: routesFromInformerStore.induct) (auto split: option.splits)

lemma nestedBool_spec: "nestedOr False (NestedBool (k_body obj) [''spec'', f]) = boolValue (specOf obj) f"
proof (cases "map_of (k_body obj) ''spec''")
  case (Some v)
  then show ?thesis
    by (cases v) (auto simp: NestedBool_def nestedOr_def boolValue_def specOf_def mapValue_def split: option.splits gov.splits)
qed (simp add: NestedBool_def nestedOr_def boolValue_def specOf_def mapValue_def)

lemma route_fields:
  assumes "RouteFromKiteVirtualMachine obj = Some r"
  shows "k_deletionTimestamp obj = None" "\<not> nestedOr False (NestedBool (k_body obj) [''spec'', ''delete''])"
    "rt_Username r = vmKeyOf ''sshId'' obj" "rt_PasswordHash r = TrimSpace (stringValue (specOf obj) ''sshPasswordHash'')"
    "rt_VMNamespace r = k_namespace obj" "rt_VMName r = k_name obj"
    "isSafeLinuxUsername (rt_Username r)" "isSafeDNSLabel (rt_ServiceName r)" "isSafeDNSLabel (rt_SecretName r)"
  using assms by (auto simp: RouteFromKiteVirtualMachine_def Let_def vmKeyOf_def nestedString_spec split: if_splits)

lemma route_unique:
  assumes "distinct store" "Some obj \<in> set store" "RouteFromKiteVirtualMachine obj = Some r"
    and only: "\<And>o' r'. Some o' \<in> set store \<Longrightarrow> RouteFromKiteVirtualMachine o' = Some r' \<Longrightarrow> rt_Username r' = rt_Username r \<Longrightarrow> o' = obj"
  shows "lookupSpec (routesFromInformerStore store) (rt_Username r) = Inr r"
proof -
  obtain xs ys where store: "store = xs @ Some obj # ys" "Some obj \<notin> set xs" "Some obj \<notin> set ys"
    using assms(1,2) by (metis split_list distinct_append not_distinct_conv_prefix distinct.simps(2) Un_iff set_append split_list_first)
  have none: "routesOf (routesFromInformerStore zs) (rt_Username r) = []" if "set zs \<subseteq> set store" "Some obj \<notin> set zs" for zs
    using that only by (auto simp: routesOf_def filter_empty_conv routesFrom_set) (metis subsetD)
  have "routesOf (routesFromInformerStore store) (rt_Username r) = [r]"
  proof -
    have "routesOf (routesFromInformerStore xs) (rt_Username r) = []" "routesOf (routesFromInformerStore ys) (rt_Username r) = []"
      by (rule none; use store in auto)+
    then show ?thesis using assms(3) by (simp add: store(1) routesOf_def)
  qed
  then show ?thesis by (simp add: lookupSpec_def)
qed

lemma lookup_route: "lookupSpec routes u = Inr r \<longleftrightarrow> routesOf routes u = [r]"
  by (auto simp: lookupSpec_def ErrRouteNotFound_def split: list.splits)

text \<open>The cache of a synchronised informer holds the VMs of the cluster, each once.\<close>

definition informerSynced :: "kobj option list \<Rightarrow> kview \<Rightarrow> bool" where
  "informerSynced store v \<longleftrightarrow> distinct store \<and> (\<forall>obj. Some obj \<in> set store \<longleftrightarrow> (\<exists>ns n. v (kiteVirtualMachineGVR, ns, n) = Some obj))"

text \<open>A VM of the cluster whose SSH id no other VM has is the one its login name leads to.\<close>

lemma synced_route:
  assumes synced: "informerSynced store v" and unique: "uniqueIn kiteVirtualMachineGVR (vmKeyOf ''sshId'') v"
    and vm: "v (kiteVirtualMachineGVR, ns, n) = Some obj" and route: "RouteFromKiteVirtualMachine obj = Some r"
  shows "RouteTable_Get (RegisterRouteInformer store t) (rt_Username r) = Inr r"
proof -
  have user: "isSafeLinuxUsername (rt_Username r)" using route_fields(7)[OF route] .
  then have trim: "TrimSpace (rt_Username r) = rt_Username r" and ne: "rt_Username r \<noteq> []"
    by (auto simp: isSafeLinuxUsername_def linuxUsernamePattern_def sshIDPattern_trim)
  have "o' = obj" if cached: "Some o' \<in> set store" and "RouteFromKiteVirtualMachine o' = Some r'" "rt_Username r' = rt_Username r" for o' r'
  proof -
    obtain ns' n' where o': "v (kiteVirtualMachineGVR, ns', n') = Some o'"
      using synced[unfolded informerSynced_def, THEN conjunct2, THEN spec, THEN iffD1, OF cached] by blast
    have "vmKeyOf ''sshId'' o' = vmKeyOf ''sshId'' obj" "vmKeyOf ''sshId'' o' \<noteq> []"
      using route_fields(3)[OF that(2)] route_fields(3)[OF route] that(3) ne by auto
    with unique o' vm have "ns' = ns \<and> n' = n" unfolding uniqueIn_def by metis
    with o' vm show ?thesis by simp
  qed
  note only = this
  have "distinct store" "Some obj \<in> set store" using synced vm by (auto simp: informerSynced_def)
  from route_unique[OF this route only] have "lookupSpec (routesFromInformerStore store) (rt_Username r) = Inr r" by simp
  then show ?thesis by (simp add: RegisterRouteInformer_def Get_ReplaceAll trim)
qed

section \<open>Properties\<close>

text \<open>C4: the route table refines its specification: after any event, a login name leads to the VM that
  carries it when the cache has exactly one such route, is refused as a duplicate when it has several,
  and is unknown otherwise.\<close>

theorem route_table_refines:
  "RouteTable_Get (RegisterRouteInformer store table) username =
     lookupSpec (routesFromInformerStore store) (TrimSpace username)"
  unfolding RegisterRouteInformer_def by (rule Get_ReplaceAll)

text \<open>C11: a password login leads only to a VM of the cache that is not being deleted, carries the login
  name as SSH id and a password hash the password verifies against, and shares the name with no other
  route; the names of its Service and Secret are single DNS labels.\<close>

theorem gateway_login_sound:
  assumes "AuthenticatePassword E (RegisterRouteInformer store table) username password = Inr route"
  shows "\<exists>obj. Some obj \<in> set store \<and> k_deletionTimestamp obj = None \<and>
     \<not> nestedOr False (NestedBool (k_body obj) [''spec'', ''delete'']) \<and>
     vmKeyOf ''sshId'' obj = TrimSpace username \<and>
     VerifyPassword E password (tb_passwordSalt table) (TrimSpace (stringValue (specOf obj) ''sshPasswordHash'')) \<and>
     rt_VMNamespace route = k_namespace obj \<and> rt_VMName route = k_name obj \<and>
     isSafeDNSLabel (rt_ServiceName route) \<and> isSafeDNSLabel (rt_SecretName route) \<and>
     routesOf (routesFromInformerStore store) (TrimSpace username) = [route]"
proof -
  have salt: "tb_passwordSalt (RegisterRouteInformer store table) = tb_passwordSalt table"
    by (simp add: RegisterRouteInformer_def ReplaceAll_def split: prod.split)
  have only: "routesOf (routesFromInformerStore store) (TrimSpace username) = [route]"
    and pw: "VerifyPassword E password (tb_passwordSalt table) (rt_PasswordHash route)"
    using assms unfolding RegisterRouteInformer_def AuthenticatePassword_def Get_ReplaceAll
    by (auto simp: lookup_route salt[unfolded RegisterRouteInformer_def] split: sum.splits if_splits)
  have "route \<in> set (routesOf (routesFromInformerStore store) (TrimSpace username))" using only by simp
  then have user: "rt_Username route = TrimSpace username" and "route \<in> set (routesFromInformerStore store)"
    by (auto simp: routesOf_def)
  then obtain obj where obj: "Some obj \<in> set store" "RouteFromKiteVirtualMachine obj = Some route"
    using routesFrom_set by blast
  from route_fields[OF obj(2)] obj(1) only pw user show ?thesis by (intro exI[of _ obj]) simp
qed

definition aliceVM :: kobj where
  "aliceVM = newKiteVirtualMachineObject \<lparr>vr_name = ''web'', vr_namespace = ''ku-ns'', vr_spec = \<lparr>vs_cpu = 2, vs_memory = ''4Gi'',
     vs_image = ''ubuntu'', vs_disk = ''25Gi'', vs_powerState = ''On'', vs_domainPrefix = ''blog'', vs_sshID = ''alice'',
     vs_sshPasswordHash = ''$2a$12$secret'', vs_delete = False\<rparr>\<rparr>"

theorem gateway_login_sound_witness:
  "\<exists>route. AuthenticatePassword mem_env (RegisterRouteInformer [None, Some aliceVM] (NewRouteTable ''salt'')) '' alice'' ''secret'' = Inr route \<and>
     rt_VMName route = ''web'' \<and> routesOf (routesFromInformerStore [None, Some aliceVM]) ''alice'' = [route]"
proof -
  let ?login = "AuthenticatePassword mem_env (RegisterRouteInformer [None, Some aliceVM] (NewRouteTable ''salt'')) '' alice'' ''secret''"
  have "\<not> isl ?login" by code_simp
  then obtain route where login: "?login = Inr route" by (cases ?login) auto
  have "TrimSpace '' alice'' = ''alice''" "k_name aliceVM = ''web''" by code_simp+
  with gateway_login_sound[OF login] login show ?thesis by auto
qed

text \<open>
  The gateway and the VM service agree on SSH ids, so a VM whose derived names fit a DNS label can be
  reached.
\<close>

lemma created_route:
  assumes rec: "recordFromObject obj = Inr rec" and fresh: "freshVMRecord E rec"
    and new: "objField obj ''status'' = None" "k_deletionTimestamp obj = None"
    and hash: "TrimSpace (vs_sshPasswordHash (vr_spec rec)) \<noteq> []"
    and safe: "isSafeDNSLabel (defaultSSHServicePrefix @ vr_name rec)" "isSafeDNSLabel (vr_name rec @ defaultSSHKeySuffix)"
  shows "RouteFromKiteVirtualMachine obj = Some
    \<lparr>rt_Username = vs_sshID (vr_spec rec), rt_PasswordHash = TrimSpace (vs_sshPasswordHash (vr_spec rec)),
     rt_VMNamespace = vr_namespace rec, rt_VMName = vr_name rec,
     rt_ServiceName = defaultSSHServicePrefix @ vr_name rec, rt_SecretName = vr_name rec @ defaultSSHKeySuffix\<rparr>"
proof -
  have names: "k_name obj = vr_name rec" "k_namespace obj = vr_namespace rec"
    and vals: "stringValue (specOf obj) ''sshId'' = vs_sshID (vr_spec rec)"
      "stringValue (specOf obj) ''sshPasswordHash'' = vs_sshPasswordHash (vr_spec rec)"
    using rec by (auto simp: recordFromObject_def specOf_def mapValue_def objField_def split: option.splits)
  have alive: "\<not> nestedOr False (NestedBool (k_body obj) [''spec'', ''delete''])"
    using fresh rec by (auto simp: freshVMRecord_def recordFromObject_def nestedBool_spec specOf_def mapValue_def objField_def split: option.splits)
  have status: "nestedOr [] (NestedString (k_body obj) [''status'', f]) = []" for f
    using new(1) by (simp add: NestedString_def nestedOr_def objField_def)
  have "sshIDPattern (vs_sshID (vr_spec rec))" "vr_name rec \<noteq> []" "vr_namespace rec \<noteq> []"
    using fresh by (auto simp: freshVMRecord_def wfVMSpec_def)
  then show ?thesis
    using fresh_trim(1)[OF fresh] new(2) alive hash safe
    by (simp add: RouteFromKiteVirtualMachine_def Let_def names vals status nestedString_spec TrimSpace_Nil
        isSafeLinuxUsername_def linuxUsernamePattern_def)
qed

lemma requested_sshID: "requestedAs req rec \<Longrightarrow> vs_sshID (vr_spec rec) = TrimSpace (cr_sshID req)"
  by (auto simp: requestedAs_def recordFromRequest_def defaultCreateRequest_def trimCreateRequest_def Let_def
      dest!: arg_cong[where f = "\<lambda>r. vs_sshID (vr_spec r)"])

text \<open>C6: from the dashboard to the shell.  Once the informer has seen a VM that \<open>Create\<close> stored, the gateway
  accepts the SSH id and the password of the request and leads to that VM, provided that the names of
  its Service and its key Secret fit a DNS label.  \<open>bcrypt\<close> hashes carry no white space.\<close>

theorem created_vm_login:
  assumes api: "kube_api E view" and unique: "vmKeysUnique (view s)"
    and bcrypt: "bcrypt_spec E" "\<And>h. hashedBy E (cr_sshPassword req) pwSalt h \<Longrightarrow> TrimSpace h = h"
    and run: "run_state (VM_Create E pwSalt req) s = (Inr vm, s')"
    and synced: "informerSynced store (view s')"
    and safe: "isSafeDNSLabel (defaultSSHServicePrefix @ vm_name vm)" "isSafeDNSLabel (vm_name vm @ defaultSSHKeySuffix)"
  shows "\<exists>route. AuthenticatePassword E (RegisterRouteInformer store table) (cr_sshID req) (cr_sshPassword req) = Inr route \<and>
     rt_VMNamespace route = vm_namespace vm \<and> rt_VMName route = vm_name vm"
proof -
  obtain rec hash where ready: "createReady E pwSalt req (view s) rec hash" and made: "vmCreated rec hash (view s) (view s')"
    and names: "vm_name vm = vr_name rec" "vm_namespace vm = vr_namespace rec"
    using wpD[OF kube_api.VM_Create_outcome[OF api] run] by auto
  have unique': "uniqueIn kiteVirtualMachineGVR (vmKeyOf ''sshId'') (view s')"
    using kube_api.VM_Create_unique[OF api unique, of pwSalt req] run unfolding wp_snd vmKeysUnique_def by simp
  obtain obj where obj: "view s' (kiteVirtualMachineGVR, vr_namespace rec, vr_name rec) = Some obj" "recordFromObject obj = Inr rec"
    "objField obj ''status'' = None" "k_deletionTimestamp obj = None"
    using made unfolding vmCreated_def by auto
  let ?h = "vs_sshPasswordHash (vr_spec rec)"
  have fresh: "freshVMRecord E rec" and hashed: "hashedBy E (cr_sshPassword req) pwSalt ?h" and asked: "requestedAs req rec"
    using ready by (auto simp: createReady_def)
  have verify: "VerifyPassword E (cr_sshPassword req) salt ?h" for salt using hashedBy_verifies[OF bcrypt(1) hashed] by simp
  have "?h \<noteq> []" using hashedBy_verifies[OF bcrypt(1) hashed] by (auto simp: PasswordNeedsRehash_def isBcryptHash_def HasPrefix_def)
  then have "TrimSpace ?h \<noteq> []" using bcrypt(2)[OF hashed] by simp
  from created_route[OF obj(2) fresh obj(3,4) this] safe names
  obtain r where r: "RouteFromKiteVirtualMachine obj = Some r" "rt_Username r = TrimSpace (cr_sshID req)" "rt_PasswordHash r = TrimSpace ?h"
      "rt_VMNamespace r = vm_namespace vm" "rt_VMName r = vm_name vm"
    by (auto simp: requested_sshID[OF asked])
  have "RouteTable_Get (RegisterRouteInformer store table) (TrimSpace (cr_sshID req)) = Inr r"
    using synced_route[OF synced unique' obj(1) r(1)] r(2) by simp
  then have "AuthenticatePassword E (RegisterRouteInformer store table) (cr_sshID req) (cr_sshPassword req) = Inr r"
    using verify r(3) bcrypt(2)[OF hashed] by (simp add: AuthenticatePassword_def RouteTable_Get_def)
  with r show ?thesis by blast
qed

theorem created_vm_login_witness:
  "\<exists>vm s' obj route. run_state (VM_Create mem_env ''salt'' demoRequest) (mem_init [] []) = (Inr vm, s') \<and>
     mem_view s' (kiteVirtualMachineGVR, ''ku-ns'', ''web'') = Some obj \<and>
     AuthenticatePassword mem_env (RegisterRouteInformer [Some obj] (NewRouteTable ''salt'')) ''alice'' ''secret'' = Inr route \<and>
     rt_VMName route = ''web''"
proof -
  obtain vm s' where run: "run_state (VM_Create mem_env ''salt'' demoRequest) (mem_init [] []) = (Inr vm, s')"
    using run_Inr[OF demo_create_succeeds] by blast
  have "map_sum (\<lambda>_. ()) (\<lambda>vm. (vm_namespace vm, vm_name vm)) (fst (run_state (VM_Create mem_env ''salt'' demoRequest) (mem_init [] []))) =
      Inr (''ku-ns'', ''web'')" by code_simp
  then have vm: "vm_namespace vm = ''ku-ns''" "vm_name vm = ''web''" by (simp_all add: run)
  have empty: "mem_view (mem_init [] []) k = None" for k by (simp add: mem_view_def mem_init_def split: prod.split)
  obtain rec hash where "vmCreated rec hash (mem_view (mem_init [] [])) (mem_view s')" "vm_name vm = vr_name rec" "vm_namespace vm = vr_namespace rec"
    using wpD[OF kube_api.VM_Create_outcome[OF mem_kube_api] run] by auto
  with vm obtain obj where obj: "mem_view s' (kiteVirtualMachineGVR, ns, n) = (if (ns, n) = (''ku-ns'', ''web'') then Some obj else None)" for ns n
    unfolding vmCreated_def by (auto simp: empty cong: if_cong)
  have synced: "informerSynced [Some obj] (mem_view s')" unfolding informerSynced_def by (auto simp: obj split: if_splits)
  have pw: "TrimSpace h = h" if h: "hashedBy mem_env (cr_sshPassword demoRequest) ''salt'' h" for h
  proof -
    have "h = ''$2a$12$secret''" using h by (auto simp: hashedBy_def HashPassword_run demoRequest_def ok_def fail_def split: if_splits)
    moreover have "TrimSpace ''$2a$12$secret'' = ''$2a$12$secret''" by code_simp
    ultimately show ?thesis by simp
  qed
  have safe: "isSafeDNSLabel (defaultSSHServicePrefix @ vm_name vm)" "isSafeDNSLabel (vm_name vm @ defaultSSHKeySuffix)"
    unfolding vm by code_simp+
  have req: "cr_sshID demoRequest = ''alice''" "cr_sshPassword demoRequest = ''secret''" by (simp_all add: demoRequest_def)
  from created_vm_login[OF mem_kube_api vmKeysUnique_empty mem_bcrypt_spec pw run synced safe, where table = "NewRouteTable ''salt''"]
    run vm obj show ?thesis unfolding req by (auto intro!: exI[of _ obj])
qed

end
