(* ===== verification/Gateway_Server.thy ===== *)
theory Gateway_Server
  imports Gateway_Routes Runtime_Config
begin

text \<open>
  The SSH gateway: \<open>internal/gateway/server.go\<close> and \<open>cmd/kite-gateway/main.go\<close>.  Modelled are the
  configuration, the host key, the password callback, the connection handler up to the point where
  bytes are copied, the retry loop that waits for the VM's sshd, and the forwarding of channel requests.

  The SSH library, files and timers are the parameters of the record \<open>sshlib\<close>; a client connection and
  a signer are represented by strings.  The two calls that wait for the peer, \<open>ssh.NewServerConn\<close> and
  \<open>ssh.Dial\<close>, may fail to return: their result \<open>None\<close> stands for a call that blocks forever.
\<close>

section \<open>Configuration\<close>

record ServerConfig =
  sc_ListenAddress :: string
  sc_HostKeyPath :: string
  sc_BackendTimeout :: int
  sc_BackendRetryInterval :: int
  sc_HandshakeTimeout :: int
  sc_LoginBanner :: string

definition defaultListenAddress :: string where "defaultListenAddress = '':2222''"
definition defaultBackendTimeout :: int where "defaultBackendTimeout = 90 * 1000000000"
definition defaultBackendInterval :: int where "defaultBackendInterval = 2 * 1000000000"
definition defaultHandshakeWait :: int where "defaultHandshakeWait = 15 * 1000000000"
definition backendTypeVM :: string where "backendTypeVM = ''vm''"
definition startingMessage :: string where "startingMessage = ''VirtualMachine is starting sshd server.'' @ [CHR 0x0A]"

text \<open>\<open>envString\<close>, \<open>envInt\<close> and the configuration \<open>main\<close> passes; \<open>getenv\<close> is the environment.\<close>

definition defaultBackendTimeoutSecond :: int where "defaultBackendTimeoutSecond = 90"
definition defaultBackendRetrySecond :: int where "defaultBackendRetrySecond = 2"

definition envString :: "(string \<Rightarrow> string) \<Rightarrow> string \<Rightarrow> string \<Rightarrow> string" where
  "envString getenv name fallback = (if getenv name = [] then fallback else getenv name)"

definition envInt :: "(string \<Rightarrow> string) \<Rightarrow> string \<Rightarrow> int \<Rightarrow> int" where
  "envInt getenv name fallback =
     (if getenv name = [] then fallback
      else case Atoi (getenv name) of
        Inl _ \<Rightarrow> fallback
      | Inr parsed \<Rightarrow> if parsed \<le> 0 then fallback else parsed)"

definition secondsDuration :: "int \<Rightarrow> int" where
  "secondsDuration n = wrapInt64 (n * 1000000000)"

definition gatewayConfig :: "(string \<Rightarrow> string) \<Rightarrow> ServerConfig" where
  "gatewayConfig getenv =
     \<lparr>sc_ListenAddress = envString getenv ''KITE_GATEWAY_LISTEN_ADDRESS'' defaultListenAddress,
      sc_HostKeyPath = envString getenv ''KITE_GATEWAY_HOST_KEY_PATH'' [],
      sc_BackendTimeout = secondsDuration (envInt getenv ''KITE_GATEWAY_BACKEND_TIMEOUT_SECONDS'' defaultBackendTimeoutSecond),
      sc_BackendRetryInterval = secondsDuration (envInt getenv ''KITE_GATEWAY_BACKEND_RETRY_SECONDS'' defaultBackendRetrySecond),
      sc_HandshakeTimeout = 0,
      sc_LoginBanner = envString getenv ''KITE_GATEWAY_LOGIN_BANNER'' []\<rparr>"

section \<open>The SSH library\<close>

type_synonym permissions = "(string \<times> string) list"

record 's sshlib =
  sl_readFile :: "string \<Rightarrow> ('s, string result) state"
  sl_isNotExist :: "goerr \<Rightarrow> bool"
  sl_parsePrivateKey :: "string \<Rightarrow> string result"
  sl_newServerConn :: "int option \<Rightarrow> (string \<Rightarrow> string \<Rightarrow> ('s, permissions result) state) \<Rightarrow> 's \<Rightarrow> (string result \<times> 's) option"
  sl_dial :: "int \<Rightarrow> string \<Rightarrow> string \<Rightarrow> string \<Rightarrow> 's \<Rightarrow> (string result \<times> 's) option"
  sl_wait :: "int \<Rightarrow> ('s, bool) state"
  sl_ctxErr :: goerr

definition generateEphemeralHostSigner :: "'s env \<Rightarrow> 's sshlib \<Rightarrow> ('s, string result) state" where
  "generateEphemeralHostSigner E G = do {
     r \<leftarrow> env_rsaGenerate E 2048;
     case r of
       Inl e \<Rightarrow> fail (Wrapped ''failed to generate ephemeral SSH host key: '' e [])
     | Inr privateKey \<Rightarrow>
         State_Monad.return (sl_parsePrivateKey G (case env_pemPrivateKey E privateKey of None \<Rightarrow> [] | Some keyData \<Rightarrow> keyData))
   }"

definition loadOrGenerateHostSigner :: "'s env \<Rightarrow> 's sshlib \<Rightarrow> string \<Rightarrow> ('s, string result) state" where
  "loadOrGenerateHostSigner E G path =
     (if path \<noteq> [] then do {
        r \<leftarrow> sl_readFile G path;
        case r of
          Inl e \<Rightarrow>
            if sl_isNotExist G e then generateEphemeralHostSigner E G
            else fail (Wrapped (''failed to read SSH host key '' @ path @ '': '') e [])
        | Inr keyData \<Rightarrow>
            (case sl_parsePrivateKey G keyData of
               Inl e \<Rightarrow> fail (Wrapped (''failed to parse SSH host key '' @ path @ '': '') e [])
             | Inr signer \<Rightarrow> ok signer)
      } else generateEphemeralHostSigner E G)"

definition withDefaults :: "ServerConfig \<Rightarrow> ServerConfig" where
  "withDefaults c =
     \<lparr>sc_ListenAddress = (if sc_ListenAddress c = [] then defaultListenAddress else sc_ListenAddress c),
      sc_HostKeyPath = sc_HostKeyPath c,
      sc_BackendTimeout = (if sc_BackendTimeout c \<le> 0 then defaultBackendTimeout else sc_BackendTimeout c),
      sc_BackendRetryInterval = (if sc_BackendRetryInterval c \<le> 0 then defaultBackendInterval else sc_BackendRetryInterval c),
      sc_HandshakeTimeout = (if sc_HandshakeTimeout c \<le> 0 then defaultHandshakeWait else sc_HandshakeTimeout c),
      sc_LoginBanner = sc_LoginBanner c\<rparr>"

text \<open>The server \<open>NewServer\<close> returns: the completed configuration and the host key.\<close>

definition NewServer :: "'s env \<Rightarrow> 's sshlib \<Rightarrow> ServerConfig \<Rightarrow> ('s, (ServerConfig \<times> string) result) state" where
  "NewServer E G config =
     tryE (loadOrGenerateHostSigner E G (sc_HostKeyPath (withDefaults config))) (\<lambda>signer. ok (withDefaults config, signer))"

text \<open>\<open>table\<close> reads the route table, which the informer may replace at any time.\<close>

definition passwordCallback :: "'s env \<Rightarrow> ('s \<Rightarrow> RouteTable) \<Rightarrow> string \<Rightarrow> string \<Rightarrow> ('s, permissions result) state" where
  "passwordCallback E table user password =
     State (\<lambda>s.
       (case AuthenticatePassword E (table s) user password of
          Inl e \<Rightarrow> Inl e
        | Inr route \<Rightarrow> Inr
            [(''backend'', backendTypeVM), (''username'', rt_Username route),
             (''vmNamespace'', rt_VMNamespace route), (''vmName'', rt_VMName route)], s))"

section \<open>Waiting for the VM\<close>

definition dialTimeout :: int where "dialTimeout = 5 * 1000000000"

definition dialSSH :: "'s sshlib \<Rightarrow> Route \<Rightarrow> string \<Rightarrow> 's \<Rightarrow> (string result \<times> 's) option" where
  "dialSSH G route privateKey s =
     (case sl_parsePrivateKey G privateKey of
        Inl e \<Rightarrow> Some (Inl (Wrapped ''failed to parse VM SSH private key: '' e []), s)
      | Inr signer \<Rightarrow>
          (case sl_dial G dialTimeout (TargetAddress route) (rt_Username route) signer s of
             None \<Rightarrow> None
           | Some (Inl e, s1) \<Rightarrow> Some (Inl (Wrapped (''failed to connect VM SSH target '' @ TargetAddress route @ '': '') e []), s1)
           | Some (Inr client, s1) \<Rightarrow> Some (Inr client, s1)))"

definition dialAttempt :: "'s env \<Rightarrow> 's sshlib \<Rightarrow> Route \<Rightarrow> 's \<Rightarrow> (string result \<times> 's) option" where
  "dialAttempt E G route s =
     (case run_state (EnsureServiceExists E route) s of
        (Inl e, s1) \<Rightarrow> Some (Inl e, s1)
      | (Inr _, s1) \<Rightarrow>
          (case run_state (ReadPrivateKey E route) s1 of
             (Inl e, s2) \<Rightarrow> Some (Inl e, s2)
           | (Inr privateKey, s2) \<Rightarrow> dialSSH G route privateKey s2))"

text \<open>
  The loop of \<open>dialBackend\<close>.  Whether it returns is not obvious, so it is a partial function: \<open>None\<close>
  stands for a loop that runs forever, or for an attempt that does.
\<close>

partial_function (option) dialLoop ::
  "'s env \<Rightarrow> 's sshlib \<Rightarrow> ServerConfig \<Rightarrow> Route \<Rightarrow> int \<Rightarrow> 's \<Rightarrow> (string result \<times> 's) option" where
  "dialLoop E G config route deadline s =
     (case dialAttempt E G route s of
        None \<Rightarrow> None
      | Some (attempt, s1) \<Rightarrow>
          (case attempt of
             Inr client \<Rightarrow> Some (Inr client, s1)
           | Inl lastErr \<Rightarrow>
               (case run_state (env_now E) s1 of (now, s2) \<Rightarrow>
                  if deadline < now then Some (Inl lastErr, s2)
                  else (case run_state (sl_wait G (sc_BackendRetryInterval config)) s2 of (cancelled, s3) \<Rightarrow>
                    if cancelled then Some (Inl (sl_ctxErr G), s3)
                    else dialLoop E G config route deadline s3))))"

declare dialLoop.simps [code]

definition dialBackend :: "'s env \<Rightarrow> 's sshlib \<Rightarrow> ServerConfig \<Rightarrow> Route \<Rightarrow> 's \<Rightarrow> (string result \<times> 's) option" where
  "dialBackend E G config route s =
     (case run_state (env_now E) s of (now, s1) \<Rightarrow>
        dialLoop E G config route (now + sc_BackendTimeout config) s1)"

section \<open>Connections\<close>

text \<open>What the handler decides: how a connection ends before it carries channels, or that it begins to carry them.\<close>

datatype connection =
    HandshakeFailed goerr
  | RejectAllChannels string
  | ProxyBackendChannels string Route

text \<open>The deadline set on the connection holds for the handshake only; it is cleared right after.\<close>

definition handleConnection :: "'s env \<Rightarrow> 's sshlib \<Rightarrow> ('s \<Rightarrow> RouteTable) \<Rightarrow> ServerConfig \<Rightarrow> 's \<Rightarrow> (connection \<times> 's) option" where
  "handleConnection E G table config s =
     (case run_state (env_now E) s of (now, s0) \<Rightarrow>
        (case sl_newServerConn G (Some (now + sc_HandshakeTimeout config)) (passwordCallback E table) s0 of
           None \<Rightarrow> None
         | Some (Inl e, s1) \<Rightarrow> Some (HandshakeFailed e, s1)
         | Some (Inr user, s1) \<Rightarrow>
             (case RouteTable_Get (table s1) user of
                Inl e \<Rightarrow> Some (RejectAllChannels (''KiteVirtualMachine route is not available.'' @ [CHR 0x0A]), s1)
              | Inr route \<Rightarrow>
                  (case dialBackend E G config route s1 of
                     None \<Rightarrow> None
                   | Some (Inl e, s2) \<Rightarrow> Some (RejectAllChannels startingMessage, s2)
                   | Some (Inr backend, s2) \<Rightarrow> Some (ProxyBackendChannels backend route, s2)))))"

text \<open>
  \<open>forwardRequests\<close> on the requests of a channel: each is sent on, and the sender gets the answer of the
  other side if it asked for one.  \<open>send\<close> and \<open>reply\<close> are \<open>SendRequest\<close> and \<open>Reply\<close>.
\<close>

record sshRequest =
  sr_Type :: string
  sr_WantReply :: bool
  sr_Payload :: string

fun forwardRequests :: "(sshRequest \<Rightarrow> ('s, bool result) state) \<Rightarrow> (sshRequest \<Rightarrow> bool \<Rightarrow> ('s, unit) state) \<Rightarrow> sshRequest list \<Rightarrow> ('s, unit) state" where
  "forwardRequests send reply [] = State_Monad.return ()"
| "forwardRequests send reply (req # requests) = do {
     r \<leftarrow> send req;
     _ \<leftarrow> (if sr_WantReply req then reply req (case r of Inl _ \<Rightarrow> False | Inr accepted \<Rightarrow> accepted) else State_Monad.return ());
     forwardRequests send reply requests
   }"

section \<open>The loop ends\<close>

text \<open>The states at which the loop starts an attempt, as far as the earlier attempts failed and were repeated.\<close>

inductive retries :: "'s env \<Rightarrow> 's sshlib \<Rightarrow> ServerConfig \<Rightarrow> Route \<Rightarrow> int \<Rightarrow> 's \<Rightarrow> 's \<Rightarrow> bool"
  for E G config route deadline where
  retries_first: "retries E G config route deadline s s"
| retries_again: "dialAttempt E G route s = Some (Inl e, s1) \<Longrightarrow> run_state (env_now E) s1 = (now, s2) \<Longrightarrow> now \<le> deadline \<Longrightarrow>
    run_state (sl_wait G (sc_BackendRetryInterval config)) s2 = (False, s3) \<Longrightarrow>
    retries E G config route deadline s3 s' \<Longrightarrow> retries E G config route deadline s s'"

text \<open>An attempt that finds the Service and the key, and whose \<open>ssh.Dial\<close> to the VM does not return.\<close>

definition dialBlocks :: "'s env \<Rightarrow> 's sshlib \<Rightarrow> Route \<Rightarrow> 's \<Rightarrow> bool" where
  "dialBlocks E G route s \<longleftrightarrow>
     (\<exists>s1 privateKey s2 signer. run_state (EnsureServiceExists E route) s = (Inr (), s1) \<and>
        run_state (ReadPrivateKey E route) s1 = (Inr privateKey, s2) \<and> sl_parsePrivateKey G privateKey = Inr signer \<and>
        sl_dial G dialTimeout (TargetAddress route) (rt_Username route) signer s2 = None)"

lemma dialAttempt_blocks: "dialAttempt E G route s = None \<longleftrightarrow> dialBlocks E G route s"
  by (auto simp: dialAttempt_def dialSSH_def dialBlocks_def split: prod.splits sum.splits option.splits)

text \<open>
  What the loop relies on of time: a clock that never goes back, shown by \<open>time.Now\<close>, and a timer that
  fires no earlier than asked.
\<close>

locale gateway_clock =
  fixes E :: "'s env" and G :: "'s sshlib" and clk :: "'s \<Rightarrow> int"
  assumes now_shows: "run_state (env_now E) s = (t, s') \<Longrightarrow> clk s \<le> t \<and> t \<le> clk s'"
    and wait_takes: "run_state (sl_wait G d) s = (False, s') \<Longrightarrow> clk s + d \<le> clk s'"
    and get_forward: "run_state (env_get E g ns n) s = (r, s') \<Longrightarrow> clk s \<le> clk s'"
    and dial_forward: "sl_dial G timeout address user key s = Some (c, s') \<Longrightarrow> clk s \<le> clk s'"
begin

lemma attempt_forward:
  assumes "dialAttempt E G route s = Some (r, s')"
  shows "clk s \<le> clk s'"
proof -
  have service: "clk s \<le> clk s'" if "run_state (EnsureServiceExists E route) s = (r, s')" for r s s'
  proof -
    have "wp (EnsureServiceExists E route) (\<lambda>_ s'. clk s \<le> clk s') s"
      unfolding EnsureServiceExists_def wp_bind by (rule wpI) (auto simp: wp_simps dest: get_forward split: sum.split)
    from wpD[OF this that] show ?thesis .
  qed
  have read: "clk s \<le> clk s'" if "run_state (ReadPrivateKey E route) s = (r, s')" for r s s'
  proof -
    have "wp (ReadPrivateKey E route) (\<lambda>_ s'. clk s \<le> clk s') s"
      unfolding ReadPrivateKey_def Let_def wp_bind
      by (rule wpI) (auto simp: wp_simps dest: get_forward split: sum.split)
    from wpD[OF this that] show ?thesis .
  qed
  have dial: "clk s \<le> clk s'" if "dialSSH G route key s = Some (r, s')" for key r s s'
    using that by (auto simp: dialSSH_def dest: dial_forward split: sum.splits option.splits prod.splits)
  show ?thesis
    using assms by (auto simp: dialAttempt_def dest!: service read dial split: prod.splits sum.splits)
qed

text \<open>One pass of the loop: it returns, or goes round again at least one retry interval later, or the attempt blocks.\<close>

lemma dialLoop_pass:
  obtains r s' where "dialLoop E G config route deadline s = Some (r, s')"
  | s' where "dialLoop E G config route deadline s = dialLoop E G config route deadline s'"
      "clk s + sc_BackendRetryInterval config \<le> clk s'" "clk s \<le> deadline"
      "\<And>s''. retries E G config route deadline s' s'' \<Longrightarrow> retries E G config route deadline s s''"
  | "dialAttempt E G route s = None"
proof (cases "dialAttempt E G route s")
  case (Some as)
  obtain a s1 where a: "dialAttempt E G route s = Some (a, s1)" using Some by (cases as) simp
  obtain t s2 where t: "run_state (env_now E) s1 = (t, s2)" by fastforce
  obtain c s3 where c: "run_state (sl_wait G (sc_BackendRetryInterval config)) s2 = (c, s3)" by fastforce
  note s1 = attempt_forward[OF a] and shown = now_shows[OF t]
  note defs = dialLoop.simps[of E G config route deadline s] a t c
  show thesis
  proof (cases "(\<exists>x. a = Inr x) \<or> deadline < t \<or> c")
    case True
    then have "\<exists>r s'. dialLoop E G config route deadline s = Some (r, s')" by (auto simp: defs split: sum.split)
    then show thesis using that(1) by blast
  next
    case False
    then have "dialLoop E G config route deadline s = dialLoop E G config route deadline s3" "\<not> c"
      by (auto simp: defs split: sum.split)
    moreover have "clk s2 + sc_BackendRetryInterval config \<le> clk s3" using wait_takes c False by auto
    moreover have "t \<le> deadline" using False by simp
    moreover have "retries E G config route deadline s s''" if "retries E G config route deadline s3 s''" for s''
      using False that by (cases a) (auto intro: retries_again[OF _ t _ _ that] simp: a c)
    moreover from calculation have "clk s + sc_BackendRetryInterval config \<le> clk s3" "clk s \<le> deadline" using s1 shown by linarith+
    ultimately show thesis by (intro that(2)[of s3])
  qed
qed (rule that(3))

text \<open>The loop returns unless one of its attempts blocks.\<close>

lemma dialLoop_returns:
  assumes "0 < sc_BackendRetryInterval config"
  shows "(\<exists>r s'. dialLoop E G config route deadline s = Some (r, s')) \<or> 
    (\<exists>s'. retries E G config route deadline s s' \<and> dialBlocks E G route s')"
proof (induction "nat (deadline - clk s + 1)" arbitrary: s rule: less_induct)
  case less
  show ?case
  proof (cases rule: dialLoop_pass[of config route deadline s])
    case (2 s')
    then have "nat (deadline - clk s' + 1) < nat (deadline - clk s + 1)" using assms by simp
    from less[OF this] show ?thesis unfolding 2(1) using 2(4) by blast
  qed (auto simp: dialAttempt_blocks intro: retries_first)
qed

text \<open>
  If from some moment on every attempt would succeed, and a failing attempt takes at most \<open>d\<close>, the loop
  connects as long as the deadline is \<open>d\<close> after that moment or later.
\<close>

lemma dialLoop_connects:
  assumes "0 < sc_BackendRetryInterval config" "ready + d \<le> deadline" "met s"
    and up: "\<And>s. met s \<Longrightarrow> \<exists>r s'. dialAttempt E G route s = Some (r, s') \<and> (ready \<le> clk s \<longrightarrow> (\<exists>c. r = Inr c))"
    and again: "\<And>s e s1 t s2 w c s3. met s \<Longrightarrow> dialAttempt E G route s = Some (Inl e, s1) \<Longrightarrow>
       run_state (env_now E) s1 = (t, s2) \<Longrightarrow> run_state (sl_wait G w) s2 = (c, s3) \<Longrightarrow> t \<le> clk s + d \<and> \<not> c \<and> met s3"
  shows "\<exists>client s'. dialLoop E G config route deadline s = Some (Inr client, s')"
  using assms(3)
proof (induction "nat (ready - clk s)" arbitrary: s rule: less_induct)
  case less
  obtain a s1 where a: "dialAttempt E G route s = Some (a, s1)" and good: "ready \<le> clk s \<longrightarrow> (\<exists>c. a = Inr c)"
    using up[OF less.prems] by blast
  obtain t s2 where t: "run_state (env_now E) s1 = (t, s2)" by fastforce
  obtain c s3 where c: "run_state (sl_wait G (sc_BackendRetryInterval config)) s2 = (c, s3)" by fastforce
  note defs = dialLoop.simps[of E G config route deadline s] a t c
  show ?case
  proof (cases a)
    case (Inr x) then show ?thesis by (simp add: defs)
  next
    case (Inl e)
    have "clk s < ready" using good Inl by force
    moreover have next_round: "t \<le> clk s + d" "\<not> c" "met s3" using again[OF less.prems a[unfolded Inl] t c] by auto
    ultimately have "t \<le> deadline" using assms(2) by simp
    then have loop: "dialLoop E G config route deadline s = dialLoop E G config route deadline s3"
      using next_round by (simp add: defs Inl)
    have "clk s2 + sc_BackendRetryInterval config \<le> clk s3" using wait_takes c next_round by auto
    then have "clk s < clk s3" using attempt_forward[OF a] now_shows[OF t] assms(1) by linarith
    then have "nat (ready - clk s3) < nat (ready - clk s)" using \<open>clk s < ready\<close> by simp
    from less.hyps[OF this next_round(3)] show ?thesis unfolding loop .
  qed
qed

end

text \<open>A connection the loop returns is the one its last attempt opened: to the Service of the route, with the key of its Secret.\<close>

definition dialledFor :: "'s env \<Rightarrow> 's sshlib \<Rightarrow> Route \<Rightarrow> string \<Rightarrow> 's \<Rightarrow> bool" where
  "dialledFor E G route client s' \<longleftrightarrow>
     (\<exists>s privateKey s1 signer. run_state (ReadPrivateKey E route) s = (Inr privateKey, s1) \<and> sl_parsePrivateKey G privateKey = Inr signer \<and>
        sl_dial G dialTimeout (TargetAddress route) (rt_Username route) signer s1 = Some (Inr client, s'))"

lemma dialAttempt_dials: "dialAttempt E G route s = Some (Inr client, s') \<Longrightarrow> dialledFor E G route client s'"
  by (fastforce simp: dialAttempt_def dialSSH_def dialledFor_def split: prod.splits sum.splits option.splits)

lemma dialLoop_dials:
  assumes "dialLoop E G config route deadline s = Some y"
  shows "y = (Inr client, s') \<longrightarrow> dialledFor E G route client s'"
  using assms
  by (rule dialLoop.raw_induct[rotated, where P = "\<lambda>E G config route deadline s y. y = (Inr client, s') \<longrightarrow> dialledFor E G route client s'"])
     (auto dest: dialAttempt_dials split: option.splits prod.splits sum.splits if_splits)

lemma NewServer_interval:
  assumes "run_state (NewServer E G config) s = (Inr (config', signer), s')"
  shows "config' = withDefaults config" "0 < sc_BackendRetryInterval config'" "0 < sc_BackendTimeout config'"
  using assms
  by (auto simp: NewServer_def tryE_def ok_def fail_def withDefaults_def defaultBackendInterval_def defaultBackendTimeout_def
      split: prod.splits sum.splits)

section \<open>The reference SSH library\<close>

text \<open>A library that offers one login and reaches a VM once the clock shows a given time.\<close>

definition memSSH :: "string \<Rightarrow> string \<Rightarrow> int \<Rightarrow> mem sshlib" where
  "memSSH user password up =
     \<lparr>sl_readFile = (\<lambda>path. fail (Plain ''no such file'')), sl_isNotExist = (\<lambda>e. True), sl_parsePrivateKey = Inr,
      sl_newServerConn = (\<lambda>deadline callback s. Some (run_state (tryE (callback user password) (\<lambda>_. ok user)) s)),
      sl_dial = (\<lambda>timeout address user key s. Some (if up \<le> m_clock s then Inr address else Inl (Plain ''connection refused''), s)),
      sl_wait = (\<lambda>d. State (\<lambda>s. (False, s\<lparr>m_clock := m_clock s + d\<rparr>))), sl_ctxErr = Plain ''context canceled''\<rparr>"

interpretation memClock: gateway_clock mem_env "memSSH user password up" m_clock for user password up
proof
  fix s s' :: mem and g ns n r
  assume "run_state (env_get mem_env g ns n) s = (r, s')"
  then show "m_clock s \<le> m_clock s'"
    by (auto simp: mem_env_def mem_get_def mem_call_def split: list.splits fault.splits prod.splits sum.splits option.splits)
qed (auto simp: memSSH_def mem_env_def split: if_splits)

section \<open>Properties\<close>

text \<open>
  What is relied on of \<open>net.Conn\<close> and \<open>ssh.NewServerConn\<close>: reads and writes on a connection with a deadline fail once the
  deadline has passed, so the handshake on such a connection returns.  Nothing is said of a connection without a deadline.
\<close>

definition handshakeEnds :: "'s sshlib \<Rightarrow> bool" where
  "handshakeEnds G \<longleftrightarrow> (\<forall>deadline callback s. sl_newServerConn G (Some deadline) callback s \<noteq> None)"



text \<open>
  What is relied on of \<open>ssh.NewServerConn\<close> with a password callback: it succeeds for a user only if, during the handshake, the
  callback accepted a password for that user.  \<open>later\<close> is the order of events on the states.
\<close>

definition passwordChecked :: "'s sshlib \<Rightarrow> ('s \<Rightarrow> 's \<Rightarrow> bool) \<Rightarrow> bool" where
  "passwordChecked G later \<longleftrightarrow> (\<forall>deadline callback s user s'. sl_newServerConn G deadline callback s = Some (Inr user, s') \<longrightarrow>
     (\<exists>password t perms t'. later s t \<and> run_state (callback user password) t = (Inr perms, t') \<and> later t' s'))"

text \<open>C39: who gets through, and where to.  When the handler starts to proxy the channels of a connection, its handshake, under
  the deadline set before it, succeeded for a user whose password \<open>AuthenticatePassword\<close> accepted between the start and the end of
  that handshake; the route is the one the table names for that user at the end of the handshake; and the backend is the
  client \<open>dialBackend\<close> returned for that route, opened by \<open>ssh.Dial\<close> to the route's address with the route's user name and the key
  \<open>ReadPrivateKey\<close> found for that route.  If the table is the same when the password is checked and at the end of the handshake, the route
  is the one the password was checked for.\<close>

theorem connection_authenticated:
  assumes lib: "passwordChecked G later"
    and run: "handleConnection E G table config s = Some (ProxyBackendChannels backend route, s')"
  shows "\<exists>started s0 user password t s1 route0. run_state (env_now E) s = (started, s0) \<and>
     sl_newServerConn G (Some (started + sc_HandshakeTimeout config)) (passwordCallback E table) s0 = Some (Inr user, s1) \<and>
     later s0 t \<and> AuthenticatePassword E (table t) user password = Inr route0 \<and> later t s1 \<and>
     RouteTable_Get (table s1) user = Inr route \<and>
     dialBackend E G config route s1 = Some (Inr backend, s') \<and> dialledFor E G route backend s' \<and>
     (table t = table s1 \<longrightarrow> route0 = route \<and> VerifyPassword E password (tb_passwordSalt (table s1)) (rt_PasswordHash route))"
proof -
  obtain started s0 where now: "run_state (env_now E) s = (started, s0)" by fastforce
  obtain user s1 where hs: "sl_newServerConn G (Some (started + sc_HandshakeTimeout config)) (passwordCallback E table) s0 = Some (Inr user, s1)"
    and get: "RouteTable_Get (table s1) user = Inr route" and dial: "dialBackend E G config route s1 = Some (Inr backend, s')"
    using run by (simp add: handleConnection_def now split: prod.splits sum.splits option.splits)
  obtain password t perms t' where later: "later s0 t" "later t' s1"
    and call: "run_state (passwordCallback E table user password) t = (Inr perms, t')"
    using lib hs unfolding passwordChecked_def by blast
  have t: "t' = t" using call by (simp add: passwordCallback_def)
  obtain route0 where auth: "AuthenticatePassword E (table t) user password = Inr route0"
    using call by (cases "AuthenticatePassword E (table t) user password") (simp_all add: passwordCallback_def)
  have same: "route0 = route \<and> VerifyPassword E password (tb_passwordSalt (table s1)) (rt_PasswordHash route)" if "table t = table s1"
    using auth get unfolding that by (auto simp: AuthenticatePassword_def split: if_splits)
  have dialled: "dialledFor E G route backend s'" using dial dialLoop_dials by (fastforce simp: dialBackend_def split: prod.splits)
  show ?thesis
    by (intro exI conjI, rule now, rule hs, rule later(1), rule auth, rule later(2)[unfolded t], rule get, rule dial, rule dialled)
      (use same in blast)
qed

text \<open>A gateway in front of one VM whose Service and key exist and whose sshd comes up after 5 seconds.\<close>

definition gatewayTable :: "mem \<Rightarrow> RouteTable" where
  "gatewayTable s = RegisterRouteInformer
     (map (\<lambda>(k, obj). Some obj) (filter (\<lambda>(k, obj). fst k = kiteVirtualMachineGVR) (m_objs s))) (NewRouteTable ''salt'')"

definition vmWorld :: "kobj \<Rightarrow> (kkey \<times> kobj) list" where
  "vmWorld vm =
     [((kiteVirtualMachineGVR, k_namespace vm, k_name vm), vm),
      ((serviceGVR, k_namespace vm, ''vps-access-'' @ k_name vm), newObject ''Service'' (k_namespace vm) (''vps-access-'' @ k_name vm) [] []),
      ((secretGVR, k_namespace vm, k_name vm @ ''-ssh-key''), newObject ''Secret'' (k_namespace vm) (k_name vm @ ''-ssh-key'') []
         [(''data'', GMap [(''id_rsa'', GStr (StdEncoding_EncodeToString ''key''))])])]"

definition demoGateway :: "mem sshlib" where
  "demoGateway = memSSH ''alice'' ''secret'' 5000000000"

lemma demo_server:
  "run_state (NewServer mem_env demoGateway (gatewayConfig (\<lambda>_. []))) (mem_init [] []) =
     (Inr (withDefaults (gatewayConfig (\<lambda>_. [])), ''pem:rsa-key''), mem_init [] [])"
  by code_simp


definition demoRoute :: Route where
  "demoRoute = \<lparr>rt_Username = ''alice'', rt_PasswordHash = ''$2a$12$secret'', rt_VMNamespace = ''ku-ns'', rt_VMName = ''web'',
     rt_ServiceName = ''vps-access-web'', rt_SecretName = ''web-ssh-key''\<rparr>"

text \<open>With the VM's objects in place and no faults, an attempt depends on the clock alone.\<close>

lemma mem_get_calm:
  "m_faults s = [] \<Longrightarrow> run_state (mem_get g ns n) s = (case mem_view s (g, ns, n) of None \<Rightarrow> notFound | Some x \<Rightarrow> Inr x, s)"
  by (simp add: mem_get_def mem_call_def split: option.split)

lemma demo_time:
  "run_state (env_now mem_env) s = (m_clock s, s)"
  "run_state (sl_wait demoGateway w) s = (False, s\<lparr>m_clock := m_clock s + w\<rparr>)"
  by (simp_all add: mem_env_def demoGateway_def memSSH_def)

lemma demo_attempt:
  assumes "m_objs s = vmWorld aliceVM" "m_faults s = []"
  shows "dialAttempt mem_env demoGateway demoRoute s = Some
    (if 5000000000 \<le> m_clock s then Inr (TargetAddress demoRoute)
     else Inl (Wrapped (''failed to connect VM SSH target '' @ TargetAddress demoRoute @ '': '') (Plain ''connection refused'') []), s)"
proof -
  let ?w = "mem_init (vmWorld aliceVM) []"
  have same: "mem_view s = mem_view ?w" by (simp add: mem_view_def mem_init_def assms(1) fun_eq_iff)
  have "mem_view ?w (serviceGVR, ''ku-ns'', ''vps-access-web'') \<noteq> None" by code_simp
  then obtain svc where svc: "mem_view s (serviceGVR, ''ku-ns'', ''vps-access-web'') = Some svc" by (auto simp: same)
  have "map_option (\<lambda>x. dataAt (secretData x) ''id_rsa'') (mem_view ?w (secretGVR, ''ku-ns'', ''web-ssh-key'')) = Some ''a2V5''" by code_simp
  then obtain sec where sec: "mem_view s (secretGVR, ''ku-ns'', ''web-ssh-key'') = Some sec" "dataAt (secretData sec) ''id_rsa'' = ''a2V5''"
    by (auto simp: same)
  have key: "TrimSpace ''a2V5'' = ''a2V5''" "StdEncoding_DecodeString ''a2V5'' = Inr ''key''" "TrimSpace ''key'' = ''key''" by code_simp+
  show ?thesis
    by (simp add: dialAttempt_def EnsureServiceExists_def ReadPrivateKey_def dialSSH_def demoRoute_def demoGateway_def memSSH_def
        mem_env_def mem_get_calm[OF assms(2)] svc sec gateway_vmSSHPrivateKeyName_def key tryE_def ok_def fail_def Let_def)
qed


lemma gatewayTable_objs: "m_objs s = m_objs s' \<Longrightarrow> gatewayTable s = gatewayTable s'"
  by (simp add: gatewayTable_def)

lemma demo_route: "RouteTable_Get (gatewayTable (mem_init (vmWorld aliceVM) [])) ''alice'' = Inr demoRoute"
  by code_simp

lemma demo_login: "AuthenticatePassword mem_env (gatewayTable (mem_init (vmWorld aliceVM) [])) ''alice'' ''secret'' = Inr demoRoute"
  by code_simp

lemma demo_proxied:
  assumes "m_objs s = vmWorld aliceVM" "m_faults s = []" "5000000000 \<le> m_clock s"
  shows "dialBackend mem_env demoGateway config demoRoute s = Some (Inr (TargetAddress demoRoute), s)"
  using assms by (simp add: dialBackend_def dialLoop.simps demo_attempt demo_time)

theorem connection_authenticated_witness:
  "\<exists>s user s1 t. sl_newServerConn demoGateway (Some (5000000000 + 15000000000)) (passwordCallback mem_env gatewayTable) s = Some (Inr user, s1) \<and>
     m_clock s \<le> m_clock t \<and> m_clock t \<le> m_clock s1 \<and>
     (\<exists>password. AuthenticatePassword mem_env (gatewayTable t) user password = Inr demoRoute) \<and>
     dialledFor mem_env demoGateway demoRoute (TargetAddress demoRoute) s"
proof -
  let ?s = "(mem_init (vmWorld aliceVM) [])\<lparr>m_clock := 5000000000\<rparr>" and ?c = "withDefaults (gatewayConfig (\<lambda>_. []))"
  have table: "gatewayTable ?s = gatewayTable (mem_init (vmWorld aliceVM) [])" by (rule gatewayTable_objs) simp
  have s: "m_objs ?s = vmWorld aliceVM" "m_faults ?s = []" by (simp_all add: mem_init_def)
  have wait: "sc_HandshakeTimeout ?c = 15000000000" by code_simp
  have hs: "sl_newServerConn demoGateway d (passwordCallback mem_env gatewayTable) ?s = Some (Inr ''alice'', ?s)" for d
    by (simp add: demoGateway_def memSSH_def passwordCallback_def table demo_login tryE_def ok_def)
  have run: "handleConnection mem_env demoGateway gatewayTable ?c ?s = Some (ProxyBackendChannels (TargetAddress demoRoute) demoRoute, ?s)"
    unfolding handleConnection_def demo_time prod.case hs using demo_proxied[OF s] by (simp add: table demo_route)
  have lib: "passwordChecked demoGateway (\<lambda>s t. m_clock s \<le> m_clock t \<and> gatewayTable s = gatewayTable t)"
    by (auto simp: passwordChecked_def demoGateway_def memSSH_def tryE_def ok_def fail_def split: prod.splits sum.splits)
  from connection_authenticated[OF lib run] obtain user password t s1 route0
    where got: "sl_newServerConn demoGateway (Some (5000000000 + 15000000000)) (passwordCallback mem_env gatewayTable) ?s = Some (Inr user, s1)"
      "m_clock ?s \<le> m_clock t \<and> gatewayTable ?s = gatewayTable t" "m_clock t \<le> m_clock s1 \<and> gatewayTable t = gatewayTable s1"
      "AuthenticatePassword mem_env (gatewayTable t) user password = Inr route0" "gatewayTable t = gatewayTable s1 \<longrightarrow> route0 = demoRoute"
      "dialledFor mem_env demoGateway demoRoute (TargetAddress demoRoute) ?s"
    unfolding wait demo_time by auto
  then have "AuthenticatePassword mem_env (gatewayTable t) user password = Inr demoRoute" by simp
  with got show ?thesis by blast
qed

text \<open>
  The proviso about the table matters.  The callback stores the VM it authenticated in the permissions
  of the connection, but the handler does not read them.
\<close>

definition strangersVM :: kobj where
  "strangersVM = newKiteVirtualMachineObject \<lparr>vr_name = ''db'', vr_namespace = ''ku-other'', vr_spec = \<lparr>vs_cpu = 2, vs_memory = ''4Gi'',
     vs_image = ''ubuntu'', vs_disk = ''25Gi'', vs_powerState = ''On'', vs_domainPrefix = ''db'', vs_sshID = ''alice'',
     vs_sshPasswordHash = ''$2a$12$other'', vs_delete = False\<rparr>\<rparr>"

definition swapDuringHandshake :: "mem sshlib" where
  "swapDuringHandshake = demoGateway\<lparr>sl_newServerConn := (\<lambda>deadline callback s. Some (run_state (tryE (callback ''alice'' ''secret'') (\<lambda>_.
     State (\<lambda>s. (Inr ''alice'', s\<lparr>m_objs := vmWorld strangersVM\<rparr>)))) s))\<rparr>"

text \<open>When the SSH id changes hands between the handshake and the lookup, the connection goes to the new
  owner's VM, whose password the client does not know.\<close>

theorem login_reaches_other_vm:
  "\<exists>s backend route s'. handleConnection mem_env swapDuringHandshake gatewayTable (withDefaults (gatewayConfig (\<lambda>_. []))) s =
       Some (ProxyBackendChannels backend route, s') \<and> rt_VMNamespace route = ''ku-other'' \<and>
     AuthenticatePassword mem_env (gatewayTable s) ''alice'' ''secret'' = Inr demoRoute \<and>
     \<not> VerifyPassword mem_env ''secret'' (tb_passwordSalt (gatewayTable s')) (rt_PasswordHash route)"
proof -
  let ?s = "(mem_init (vmWorld aliceVM) [])\<lparr>m_clock := 5000000000\<rparr>"
  let ?run = "handleConnection mem_env swapDuringHandshake gatewayTable (withDefaults (gatewayConfig (\<lambda>_. []))) ?s"
  have "case ?run of Some (ProxyBackendChannels backend route, s') \<Rightarrow> rt_VMNamespace route = ''ku-other'' \<and>
      \<not> VerifyPassword mem_env ''secret'' (tb_passwordSalt (gatewayTable s')) (rt_PasswordHash route) | _ \<Rightarrow> False"
    by code_simp
  then obtain backend route s' where "?run = Some (ProxyBackendChannels backend route, s')" "rt_VMNamespace route = ''ku-other''"
    "\<not> VerifyPassword mem_env ''secret'' (tb_passwordSalt (gatewayTable s')) (rt_PasswordHash route)"
    by (auto split: option.splits prod.splits connection.splits)
  moreover have "AuthenticatePassword mem_env (gatewayTable ?s) ''alice'' ''secret'' = Inr demoRoute"
    using demo_login gatewayTable_objs[of ?s "mem_init (vmWorld aliceVM) []"] by simp
  ultimately show ?thesis by blast
qed

end
