(* ===== verification/Console.thy ===== *)
theory Console
  imports Api_Access
begin

text \<open>
  The serial console of a VM in the browser: the WebSocket handler of \<open>cmd/kite-api/apis/vm_console.go\<close> and the relay of
  \<open>cmd/kite-api/apis/console_proxy.go\<close>.  The route has no access token; it takes the namespace from the ticket.
\<close>

section \<open>Opening a console\<close>

text \<open>
  The connector dials KubeVirt, the upgrader turns the request into a WebSocket; both belong to libraries.
  The relay starts when both are there.
\<close>

record ('s, 'k) consoleLib =
  cl_connect :: "(string \<Rightarrow> string \<Rightarrow> ('s, 'k result) state) option"
  cl_upgrade :: "('s, bool) state"
  cl_close :: "'k \<Rightarrow> ('s, unit) state"

datatype 'k consoleOutcome = Answered reply | NotUpgraded | Bridged string string 'k

definition consumeConsoleTicket :: "'s env \<Rightarrow> Dependencies \<Rightarrow> request \<Rightarrow> string \<Rightarrow> ('s, reply + string) state" where
  "consumeConsoleTicket E deps rq token =
     (if token = [] then State_Monad.return (Inl (message 401 ''console ticket is required''))
      else do {
        now \<leftarrow> env_now E;
        State_Monad.return
          (case ticket_Consume (consoleTickets deps) token [] (rq_name rq) now of
             Inl _ \<Rightarrow> Inl (message 401 ''console ticket is invalid or expired'')
           | Inr ticket \<Rightarrow> Inr (ct_Namespace ticket))
      })"

definition openConsole :: "('s, 'k) consoleLib \<Rightarrow> (string \<Rightarrow> string \<Rightarrow> ('s, 'k result) state) \<Rightarrow> string \<Rightarrow> string \<Rightarrow> ('s, 'k consoleOutcome) state" where
  "openConsole L connect namespace name = do {
     c \<leftarrow> connect namespace name;
     case c of
       Inl _ \<Rightarrow> State_Monad.return (Answered (message 502 ''failed to connect virtual machine console''))
     | Inr upstream \<Rightarrow> do {
         upgraded \<leftarrow> cl_upgrade L;
         if \<not> upgraded then do { _ \<leftarrow> cl_close L upstream; State_Monad.return NotUpgraded }
         else State_Monad.return (Bridged namespace name upstream)
       }
   }"

definition vmConsoleHandler ::
  "'s env \<Rightarrow> Dependencies \<Rightarrow> ('s, 'k) consoleLib \<Rightarrow> request \<Rightarrow> string \<Rightarrow> ('s, 'k consoleOutcome) state" where
  "vmConsoleHandler E deps L rq token =
     (case cl_connect L of
        None \<Rightarrow> State_Monad.return (Answered (message 503 ''console connector is not configured''))
      | Some connect \<Rightarrow> do {
          t \<leftarrow> consumeConsoleTicket E deps rq token;
          case t of
            Inl rep \<Rightarrow> State_Monad.return (Answered rep)
          | Inr namespace \<Rightarrow> do {
              v \<leftarrow> VM_Get E namespace (rq_name rq);
              case v of
                Inl e \<Rightarrow> State_Monad.return (Answered (writeVMError e ''failed to read virtual machine''))
              | Inr vm \<Rightarrow>
                  if \<not> vmConsoleAllowed (vm_phase vm) (vm_delete vm)
                  then State_Monad.return (Answered (message 409 ''console is available only while the virtual machine is running''))
                  else openConsole L connect namespace (rq_name rq)
            }
        })"

section \<open>The relay\<close>

text \<open>One direction: frames read from the source are written to the target, until a peer fails or the request is cancelled.\<close>

definition TextMessage :: nat where "TextMessage = 1"
definition BinaryMessage :: nat where "BinaryMessage = 2"

record 's consoleCopyDirection =
  cd_read :: "('s, (nat \<times> string) result) state"
  cd_write :: "nat \<Rightarrow> string \<Rightarrow> ('s, unit result) state"
  cd_targetMessageType :: "nat \<Rightarrow> nat"

definition preserveConsoleMessageType :: "nat \<Rightarrow> nat" where "preserveConsoleMessageType messageType = messageType"
definition kubeVirtInputMessageType :: "nat \<Rightarrow> nat" where "kubeVirtInputMessageType _ = BinaryMessage"

partial_function (option) copyConsoleMessages ::
  "('s, goerr option) state \<Rightarrow> 's consoleCopyDirection \<Rightarrow> 's \<Rightarrow> (goerr \<times> 's) option" where
  "copyConsoleMessages ctx d s =
     (case run_state ctx s of
        (Some e, s1) \<Rightarrow> Some (e, s1)
      | (None, s1) \<Rightarrow>
          (case run_state (cd_read d) s1 of
             (Inl err, s2) \<Rightarrow>
               (case run_state ctx s2 of (Some e, s3) \<Rightarrow> Some (e, s3) | (None, s3) \<Rightarrow> Some (err, s3))
           | (Inr (messageType, data), s2) \<Rightarrow>
               if messageType \<noteq> TextMessage \<and> messageType \<noteq> BinaryMessage then copyConsoleMessages ctx d s2
               else
                 (case run_state (cd_write d (cd_targetMessageType d messageType) data) s2 of
                    (Inl err, s3) \<Rightarrow> Some (err, s3)
                  | (Inr _, s3) \<Rightarrow> copyConsoleMessages ctx d s3)))"

text \<open>
  Two peers that are up: the source delivers the frames it has and then reports its end, the target takes every frame, and
  the request is not cancelled.
\<close>

locale console_peers =
  fixes ctx :: "('s, goerr option) state" and d :: "'s consoleCopyDirection"
    and pending :: "'s \<Rightarrow> (nat \<times> string) list" and sent :: "'s \<Rightarrow> (nat \<times> string) list"
  assumes live: "run_state ctx s = (r, s') \<Longrightarrow> r = None \<and> pending s' = pending s \<and> sent s' = sent s"
    and read_next: "pending s = f # fs \<Longrightarrow> run_state (cd_read d) s = (got, s') \<Longrightarrow> got = Inr f \<and> pending s' = fs \<and> sent s' = sent s"
    and read_end: "pending s = [] \<Longrightarrow> run_state (cd_read d) s = (got, s') \<Longrightarrow> isl got \<and> pending s' = [] \<and> sent s' = sent s"
    and write_all: "run_state (cd_write d ty data) s = (put, s') \<Longrightarrow> put = Inr () \<and> pending s' = pending s \<and> sent s' = sent s @ [(ty, data)]"

definition relayed :: "(nat \<Rightarrow> nat) \<Rightarrow> (nat \<times> string) list \<Rightarrow> (nat \<times> string) list" where
  "relayed ty messages = map (\<lambda>(t, data). (ty t, data)) (filter (\<lambda>(t, data). t = TextMessage \<or> t = BinaryMessage) messages)"

context console_peers
begin

lemma copies: "\<exists>e s'. copyConsoleMessages ctx d s = Some (e, s') \<and> pending s' = [] \<and> sent s' = sent s @ relayed (cd_targetMessageType d) (pending s)"
proof (induction "pending s" arbitrary: s)
  case Nil
  obtain r s1 where c: "run_state ctx s = (r, s1)" by fastforce
  obtain rd s2 where rd: "run_state (cd_read d) s1 = (rd, s2)" by fastforce
  obtain r' s3 where c': "run_state ctx s2 = (r', s3)" by fastforce
  note l = live[OF c] live[OF c'] and e = read_end[OF _ rd]
  from l e Nil obtain err where "r = None" "rd = Inl err" "r' = None" by (auto simp: isl_def)
  with l e Nil show ?case by (subst copyConsoleMessages.simps) (simp add: c rd c' relayed_def)
next
  case (Cons f fs)
  obtain r s1 where c: "run_state ctx s = (r, s1)" by fastforce
  obtain rd s2 where rd: "run_state (cd_read d) s1 = (rd, s2)" by fastforce
  obtain ty data where f: "f = (ty, data)" by fastforce
  obtain w s3 where w: "run_state (cd_write d (cd_targetMessageType d ty) data) s2 = (w, s3)" by fastforce
  note l = live[OF c]
  have n: "rd = Inr (ty, data)" "pending s2 = fs" "sent s2 = sent s" using read_next[OF _ rd, of f fs] l Cons.hyps(2) f by auto
  show ?case
  proof (cases "ty = TextMessage \<or> ty = BinaryMessage")
    case True
    note wr = write_all[OF w]
    have "relayed (cd_targetMessageType d) (pending s) = (cd_targetMessageType d ty, data) # relayed (cd_targetMessageType d) fs"
      using True by (auto simp: relayed_def f Cons.hyps(2)[symmetric])
    moreover have "copyConsoleMessages ctx d s = copyConsoleMessages ctx d s3"
      using l n wr True by (subst copyConsoleMessages.simps) (auto simp: c rd w)
    ultimately show ?thesis using Cons.hyps(1)[of s3] n wr by auto
  next
    case False
    have "relayed (cd_targetMessageType d) (pending s) = relayed (cd_targetMessageType d) fs"
      using False by (auto simp: relayed_def f Cons.hyps(2)[symmetric])
    moreover have "copyConsoleMessages ctx d s = copyConsoleMessages ctx d s2"
      using l n False by (subst copyConsoleMessages.simps) (auto simp: c rd)
    ultimately show ?thesis using Cons.hyps(1)[of s2] n by auto
  qed
qed

end

text \<open>Peers made of two lists: the frames to deliver and the frames taken.\<close>

record tape =
  tp_in :: "(nat \<times> string) list"
  tp_out :: "(nat \<times> string) list"

definition tapeCtx :: "(tape, goerr option) state" where "tapeCtx = State_Monad.return None"

definition tapeDirection :: "(nat \<Rightarrow> nat) \<Rightarrow> tape consoleCopyDirection" where
  "tapeDirection ty =
     \<lparr>cd_read = State (\<lambda>s. case tp_in s of [] \<Rightarrow> (Inl (Plain ''EOF''), s) | f # fs \<Rightarrow> (Inr f, s\<lparr>tp_in := fs\<rparr>)),
      cd_write = (\<lambda>t data. State (\<lambda>s. (Inr (), s\<lparr>tp_out := tp_out s @ [(t, data)]\<rparr>))),
      cd_targetMessageType = ty\<rparr>"

interpretation tapePeers: console_peers tapeCtx "tapeDirection ty" tp_in tp_out for ty
  by unfold_locales (auto simp: tapeCtx_def tapeDirection_def split: list.splits)

section \<open>Who gets a console\<close>

lemma wp_openConsole:
  assumes "\<And>rep s'. Q (Answered rep) s'" "\<And>s'. Q NotUpgraded s'" "\<And>up s'. Q (Bridged ns name up) s'"
  shows "wp (openConsole L connect ns name) Q s"
proof -
  have upgrade: "wp (cl_upgrade L \<bind> (\<lambda>upgraded. if \<not> upgraded then cl_close L up \<bind> (\<lambda>_. State_Monad.return NotUpgraded)
      else State_Monad.return (Bridged ns name up))) Q s1" for up s1
    unfolding wp_bind by (rule wpI) (auto simp: wp_return wp_bind assms intro!: wpI)
  show ?thesis
    unfolding openConsole_def wp_bind[of "connect ns name"] by (rule wpI) (auto simp: wp_return upgrade assms split: sum.split)
qed

lemma consoleTickets_sel: "cs_secret (consoleTickets deps) = cfg_JWTSecret (dp_Config deps)" "cs_ttl (consoleTickets deps) = 30 * nsPerSec"
  by (simp_all add: consoleTickets_def NewConsoleTicketService_def)

definition consoleReady :: "kobj \<Rightarrow> bool" where
  "consoleReady x \<longleftrightarrow> vmConsoleAllowed (vm_phase (vmFromObject x)) (vm_delete (vmFromObject x))"

context kube_api
begin

lemma wp_VM_Get:
  assumes "\<And>s' e. view s' = view s \<Longrightarrow> Q (Inl e) s'"
    and "\<And>s' x. view s' = view s \<Longrightarrow> view s (kiteVirtualMachineGVR, ns, n) = Some x \<Longrightarrow> Q (Inr (vmFromObject x)) s'"
  shows "wp (VM_Get E ns n) Q s"
  unfolding VM_Get_def VirtualMachineStore_Get_def wp_tryE
  by (rule wp_get) (auto simp: wp_simps assms)

text \<open>Where a ticket reply comes from.\<close>

lemma wp_vmConsoleTicketHandler:
  assumes claims: "view s1 = view s" "signedIn E deps rq s (view s) claims x0"
  shows "wp (vmConsoleTicketHandler E deps rq (Some (claims\<lparr>cl_AccessLevel := l\<rparr>))) (\<lambda>rep s'. \<forall>token expires. rp_body rep = ConsoleTicketBody token expires \<longrightarrow>
     (\<exists>x vm now ticket. signedIn E deps rq s (view s) claims x \<and> view s (kiteVirtualMachineGVR, namespaceOf x, rq_name rq) = Some vm \<and> consoleReady vm \<and>
        ticket_Issue (consoleTickets deps) (usernameOf x) (namespaceOf x) (k_name vm) now = Inr (token, ticket))) s1"
    (is "wp _ ?Q s1")
proof -
  have err: "?Q (writeVMError e t) s'" "?Q (writeAccountError e t) s'" "?Q (message c t) s'" for e t c s'
    by (auto simp: writeVMError_def writeAccountError_def message_def json_def split: option.splits)
  show ?thesis
    unfolding vmConsoleTicketHandler_def wp_andThen currentUser_def option.case
  proof (rule wp_subjectUser; unfold sum.case)
    fix s' rep assume "rep = message 404 ''current user was not found'' \<or> rep = message 500 ''failed to read kite users'' \<or>
      (\<exists>e. rep = writeAccountError e ''failed to read current user'')"
    then show "?Q rep s'" using err by blast
  next
    fix s2 n x u assume s2: "view s2 = view s1" and x: "view s1 (kiteUserGVR, [], n) = Some x"
      and name: "usernameOf x = TrimSpace (cl_Subject (claims\<lparr>cl_AccessLevel := l\<rparr>))" and u: "publicUserFromObject x = Inr u"
    have signed: "signedIn E deps rq s (view s) claims x" using claims x name unfolding signedIn_def by auto
    note user = publicUserFromObject_sel(2,4)[OF u]
    show "wp (calling (VM_Get E (pu_namespace u) (rq_name rq)) (\<lambda>e. writeVMError e ''failed to read virtual machine''))
      (\<lambda>r s'. case r of Inl rep \<Rightarrow> ?Q rep s' | Inr vm \<Rightarrow> wp (if \<not> vmConsoleAllowed (vm_phase vm) (vm_delete vm)
         then State_Monad.return (message 409 ''console is available only while the virtual machine is running'')
         else issueConsoleTicket E deps u vm) ?Q s') s2"
      unfolding wp_calling
    proof (rule wp_VM_Get; unfold sum.case)
      fix s3 vm assume s3: "view s3 = view s2" and vm: "view s2 (kiteVirtualMachineGVR, pu_namespace u, rq_name rq) = Some vm"
      have vm': "view s (kiteVirtualMachineGVR, namespaceOf x, rq_name rq) = Some vm" using vm s2 claims(1) user by simp
      have "wp (issueConsoleTicket E deps u (vmFromObject vm)) ?Q s3" if ready: "consoleReady vm"
        unfolding issueConsoleTicket_def wp_bind wp_return
      proof (rule wp_keeps[OF now_keeps])
        fix now s4
        have vn: "vm_name (vmFromObject vm) = k_name vm" by (simp add: vmFromObject_def Let_def)
        show "?Q (case ticket_Issue (consoleTickets deps) (pu_username u) (pu_namespace u) (vm_name (vmFromObject vm)) now of
            Inl _ \<Rightarrow> message 500 ''failed to issue console ticket''
          | Inr (token, ticket) \<Rightarrow> json 200 (ConsoleTicketBody token (formatRFC3339 (ct_ExpiresAt ticket)))) s4"
          using signed vm' ready unfolding user vn
          by (auto simp: message_def json_def split: sum.splits prod.splits)
      qed
      then show "wp (if \<not> vmConsoleAllowed (vm_phase (vmFromObject vm)) (vm_delete (vmFromObject vm))
         then State_Monad.return (message 409 ''console is available only while the virtual machine is running'')
         else issueConsoleTicket E deps u (vmFromObject vm)) ?Q s3"
        using err(3) by (auto simp: wp_return consoleReady_def)
    qed (rule err)
  qed
qed

lemma wp_vmConsoleHandler:
  assumes answered: "\<And>rep s'. Q (Answered rep) s'" "\<And>s'. Q NotUpgraded s'"
    and bridged: "\<And>ticket vm up s'. ticket_Consume (consoleTickets deps) token [] (rq_name rq) (fst (run_state (env_now E) s)) = Inr ticket \<Longrightarrow>
      view s (kiteVirtualMachineGVR, ct_Namespace ticket, rq_name rq) = Some vm \<Longrightarrow> consoleReady vm \<Longrightarrow> Q (Bridged (ct_Namespace ticket) (rq_name rq) up) s'"
  shows "wp (vmConsoleHandler E deps L rq token) Q s"
proof (cases "cl_connect L")
  case (Some connect)
  obtain now s1 where now: "run_state (env_now E) s = (now, s1)" by fastforce
  have same: "view s1 = view s" using keepsD[OF now_keeps now] .
  have get: "wp (VM_Get E (ct_Namespace ticket) (rq_name rq)) (\<lambda>v. wp (case v of
        Inl e \<Rightarrow> State_Monad.return (Answered (writeVMError e ''failed to read virtual machine''))
      | Inr vm \<Rightarrow>
          if \<not> vmConsoleAllowed (vm_phase vm) (vm_delete vm)
          then State_Monad.return (Answered (message 409 ''console is available only while the virtual machine is running''))
          else openConsole L connect (ct_Namespace ticket) (rq_name rq)) Q) s1"
    if ticket: "ticket_Consume (consoleTickets deps) token [] (rq_name rq) now = Inr ticket" for ticket
  proof (rule wp_VM_Get; unfold sum.case wp_return)
    fix s2 vm assume vm: "view s1 (kiteVirtualMachineGVR, ct_Namespace ticket, rq_name rq) = Some vm"
    have "wp (openConsole L connect (ct_Namespace ticket) (rq_name rq)) Q s2" if "consoleReady vm"
      by (intro wp_openConsole answered) (rule bridged; use ticket vm that now same in simp)
    then show "wp (if \<not> vmConsoleAllowed (vm_phase (vmFromObject vm)) (vm_delete (vmFromObject vm))
        then State_Monad.return (Answered (message 409 ''console is available only while the virtual machine is running''))
        else openConsole L connect (ct_Namespace ticket) (rq_name rq)) Q s2"
      by (simp add: wp_return consoleReady_def answered)
  qed (rule answered)
  have consume: "run_state (consumeConsoleTicket E deps rq token) s =
      (if token = [] then (Inl (message 401 ''console ticket is required''), s)
       else (case ticket_Consume (consoleTickets deps) token [] (rq_name rq) now of
         Inl _ \<Rightarrow> Inl (message 401 ''console ticket is invalid or expired'') | Inr ticket \<Rightarrow> Inr (ct_Namespace ticket), s1))"
    by (simp add: consumeConsoleTicket_def now)
  show ?thesis
    unfolding vmConsoleHandler_def Some option.case wp_bind[of "consumeConsoleTicket E deps rq token"]
  proof (rule wpI)
    fix t s2 assume "run_state (consumeConsoleTicket E deps rq token) s = (t, s2)"
    then consider rep where "t = Inl rep" | ticket where "t = Inr (ct_Namespace ticket)" "s2 = s1"
        "ticket_Consume (consoleTickets deps) token [] (rq_name rq) now = Inr ticket"
      unfolding consume by (auto split: if_splits sum.splits)
    then show "wp (case t of
        Inl rep \<Rightarrow> State_Monad.return (Answered rep)
      | Inr namespace \<Rightarrow> do {
          v \<leftarrow> VM_Get E namespace (rq_name rq);
          case v of
            Inl e \<Rightarrow> State_Monad.return (Answered (writeVMError e ''failed to read virtual machine''))
          | Inr vm \<Rightarrow>
              if \<not> vmConsoleAllowed (vm_phase vm) (vm_delete vm)
              then State_Monad.return (Answered (message 409 ''console is available only while the virtual machine is running''))
              else openConsole L connect namespace (rq_name rq) }) Q s2"
      by cases (simp_all only: sum.case wp_return wp_bind answered get)
  qed
qed (simp add: vmConsoleHandler_def wp_return answered)

end

section \<open>Properties\<close>

text \<open>Kubernetes stores texts in UTF-8.\<close>

definition textsValid :: "kview \<Rightarrow> bool" where
  "textsValid v \<longleftrightarrow> (\<forall>key x. v key = Some x \<longrightarrow> validUTF8 (usernameOf x) \<and> validUTF8 (namespaceOf x) \<and> validUTF8 (k_name x))"

text \<open>
  C8: a console opens only the VM of the user who asked for the ticket.  When the console handler, given a ticket the API has issued,
  bridges the browser to a VM, the ticket was issued to a signed-in user, the VM is the one in that user's namespace the
  ticket was asked for, it is still running and not being deleted, and less than 30 seconds have passed since.
\<close>

theorem console_own_vm:
  assumes api: "kube_api E view" and texts: "textsValid (view s)"
    and issued: "run_state (RegisterVirtualMachines E deps rq PostConsoleTicket) s = (rep, s')" "rp_body rep = ConsoleTicketBody token expires"
    and opened: "run_state (vmConsoleHandler E deps L rq' token) t = (Bridged ns name up, t')"
  shows "\<exists>claims x vm now ticket. signedIn E deps rq s (view s) claims x \<and> ns = namespaceOf x \<and> name = rq_name rq \<and>
    view t (kiteVirtualMachineGVR, ns, name) = Some vm \<and> consoleReady vm \<and>
    ticket_Issue (consoleTickets deps) (usernameOf x) ns name now = Inr (token, ticket) \<and> fst (run_state (env_now E) t) < now + 30 * nsPerSec"
proof -
  have "wp (RegisterVirtualMachines E deps rq PostConsoleTicket) (\<lambda>rep s'. \<forall>token expires. rp_body rep = ConsoleTicketBody token expires \<longrightarrow>
     (\<exists>claims x vm now ticket. signedIn E deps rq s (view s) claims x \<and> view s (kiteVirtualMachineGVR, namespaceOf x, rq_name rq) = Some vm \<and>
        ticket_Issue (consoleTickets deps) (usernameOf x) (namespaceOf x) (k_name vm) now = Inr (token, ticket))) s"
    unfolding RegisterVirtualMachines_def vmRoute.case
  proof (rule kube_api.wp_RequireAccessLevel[OF api])
    fix s1 claims x0 assume "view s1 = view s" "signedIn E deps rq s (view s) claims x0"
    from kube_api.wp_vmConsoleTicketHandler[OF api this]
    show "wp (vmConsoleTicketHandler E deps rq (Some (claims\<lparr>cl_AccessLevel := levelOf x0\<rparr>))) (\<lambda>rep s'. \<forall>token expires.
        rp_body rep = ConsoleTicketBody token expires \<longrightarrow> (\<exists>claims x vm now ticket. signedIn E deps rq s (view s) claims x \<and>
          view s (kiteVirtualMachineGVR, namespaceOf x, rq_name rq) = Some vm \<and>
          ticket_Issue (consoleTickets deps) (usernameOf x) (namespaceOf x) (k_name vm) now = Inr (token, ticket))) s1"
      by (rule wp_mono) blast
  qed auto
  from wpD[OF this issued(1)] issued(2) obtain claims x vm0 now ticket where
      signed: "signedIn E deps rq s (view s) claims x" and vm0: "view s (kiteVirtualMachineGVR, namespaceOf x, rq_name rq) = Some vm0"
    and issue: "ticket_Issue (consoleTickets deps) (usernameOf x) (namespaceOf x) (k_name vm0) now = Inr (token, ticket)" by blast
  have name0: "k_name vm0 = rq_name rq" using kube_api.view_key[OF api, OF vm0] by simp
  have valid: "validUTF8 (usernameOf x)" "validUTF8 (namespaceOf x)" "validUTF8 (k_name vm0)"
    using signed vm0 texts unfolding signedIn_def textsValid_def by blast+
  obtain ticket' vm where used: "ticket_Consume (consoleTickets deps) token [] (rq_name rq') (fst (run_state (env_now E) t)) = Inr ticket'"
    and out: "ns = ct_Namespace ticket'" "name = rq_name rq'" and vm: "view t (kiteVirtualMachineGVR, ns, name) = Some vm" "consoleReady vm"
  proof -
    note that_console = that
    have "wp (vmConsoleHandler E deps L rq' token) (\<lambda>out t'. \<forall>ns name up. out = Bridged ns name up \<longrightarrow>
        (\<exists>ticket' vm. ticket_Consume (consoleTickets deps) token [] (rq_name rq') (fst (run_state (env_now E) t)) = Inr ticket' \<and>
          ns = ct_Namespace ticket' \<and> name = rq_name rq' \<and> view t (kiteVirtualMachineGVR, ns, name) = Some vm \<and> consoleReady vm)) t"
      by (rule kube_api.wp_vmConsoleHandler[OF api]) blast+
    from wpD[OF this opened] show ?thesis using that_console by blast
  qed
  have accepted: "ticket' = ticket" "fst (run_state (env_now E) t) < now + 30 * nsPerSec" "rq_name rq' = k_name vm0"
    using used unfolding console_ticket_accepted[OF valid issue] consoleTickets_sel by auto
  have "ct_Namespace ticket = namespaceOf x" using ticket_Issue_fields[OF issue] by simp
  then have "ns = namespaceOf x" "name = rq_name rq" using out accepted name0 by simp_all
  with issue name0 have "ticket_Issue (consoleTickets deps) (usernameOf x) ns name now = Inr (token, ticket)" by simp
  with signed vm accepted(2) \<open>ns = namespaceOf x\<close> \<open>name = rq_name rq\<close> show ?thesis by blast
qed

text \<open>A tenant with a running VM, and a connector that always answers.\<close>

definition runningTenant :: mem where
  "runningTenant = mem_init [((kiteUserGVR, [], ''ku-1''), demoUser),
     ((kiteVirtualMachineGVR, ''kite-user-ku-1'', ''web''), (newKiteVirtualMachineObject demoVMRecord)\<lparr>k_namespace := ''kite-user-ku-1'',
        k_body := k_body (newKiteVirtualMachineObject demoVMRecord) @ [(''status'', GMap [(''phase'', GStr ''Running'')])]\<rparr>)] []"

definition openLib :: "(mem, unit) consoleLib" where
  "openLib = \<lparr>cl_connect = Some (\<lambda>_ _. ok ()), cl_upgrade = State_Monad.return True, cl_close = (\<lambda>_. State_Monad.return ())\<rparr>"

lemma run_right: "\<not> isl (fst (run_state m s)) \<Longrightarrow> run_state m s = (Inr (projr (fst (run_state m s))), snd (run_state m s))"
  by (cases "run_state m s") (auto simp: isl_def split: sum.splits)

lemma running_ticket:
  "\<exists>rep s' token expires ticket. run_state (RegisterVirtualMachines mem_env demoDeployment (withToken plainRequest) PostConsoleTicket) runningTenant = (rep, s') \<and>
     rp_body rep = ConsoleTicketBody token expires \<and>
     ticket_Issue (consoleTickets demoDeployment) ''alice'' ''kite-user-ku-1'' ''web'' 0 = Inr (token, ticket)"
proof -
  let ?refresh = "run_state (refreshClaimsFromCurrentUser mem_env demoClaims) runningTenant"
  define c s1 where "c = projr (fst ?refresh)" and "s1 = snd ?refresh"
  have "\<not> isl (fst ?refresh)" by code_simp
  from run_right[OF this] have r1: "?refresh = (Inr c, s1)" by (simp only: c_def s1_def)
  have level: "\<not> cl_AccessLevel c < 0" unfolding c_def by code_simp
  let ?user = "run_state (currentUser mem_env (Some c)) s1"
  define u s2 where "u = projr (fst ?user)" and "s2 = snd ?user"
  have "\<not> isl (fst ?user)" unfolding c_def s1_def by code_simp
  from run_right[OF this] have r2: "?user = (Inr u, s2)" by (simp only: u_def s2_def)
  have u: "pu_username u = ''alice''" "pu_namespace u = ''kite-user-ku-1''" unfolding u_def c_def s1_def by code_simp+
  let ?get = "run_state (VM_Get mem_env ''kite-user-ku-1'' ''web'') s2"
  define vm s3 where "vm = projr (fst ?get)" and "s3 = snd ?get"
  have "\<not> isl (fst ?get)" unfolding s2_def c_def s1_def by code_simp
  from run_right[OF this] have r3: "?get = (Inr vm, s3)" by (simp only: vm_def s3_def)
  have vm: "vm_name vm = ''web''" "vmConsoleAllowed (vm_phase vm) (vm_delete vm)" unfolding vm_def s2_def c_def s1_def by code_simp+
  have clock: "m_clock s3 = 0" unfolding s3_def s2_def c_def s1_def by code_simp
  have "yearOf 30000000000 = 1970" by code_simp
  then obtain token ticket where issue: "ticket_Issue (consoleTickets demoDeployment) ''alice'' ''kite-user-ku-1'' ''web'' 0 = Inr (token, ticket)"
    by (auto simp: ticket_Issue_def marshalTicket_def marshalTime_def consoleTickets_sel demoDeployment_def Let_def nsPerSec_def)
  have name: "rq_name (withToken plainRequest) = ''web''" by (simp add: plainRequest_def)
  have "run_state (calling (VM_Get mem_env (pu_namespace u) ''web'') f) s2 = (Inr vm, s3)" for f
    by (simp add: calling_def u r3)
  then have "run_state (vmConsoleTicketHandler mem_env demoDeployment (withToken plainRequest) (Some c)) s1 =
      (json 200 (ConsoleTicketBody token (formatRFC3339 (ct_ExpiresAt ticket))), s3)"
    unfolding vmConsoleTicketHandler_def name
    by (simp add: andThen_run[OF r2] andThen_run vm issueConsoleTicket_def u clock issue)
  moreover have "run_state (RegisterVirtualMachines mem_env demoDeployment (withToken plainRequest) PostConsoleTicket) runningTenant =
     run_state (andThen (refreshClaimsFromCurrentUser mem_env demoClaims) (\<lambda>claims.
       if cl_AccessLevel claims < 0 then State_Monad.return (message 403 ''manager access level is required'')
       else vmConsoleTicketHandler mem_env demoDeployment (withToken plainRequest) (Some claims))) runningTenant"
    unfolding RegisterVirtualMachines_def runningTenant_def demo_middleware vmRoute.case by (simp add: AccessLevelReadOnly_def)
  ultimately show ?thesis using issue level by (simp add: andThen_run[OF r1] json_def)
qed

lemma running_console:
  assumes issue: "ticket_Issue (consoleTickets demoDeployment) ''alice'' ''kite-user-ku-1'' ''web'' 0 = Inr (token, ticket)"
  shows "\<exists>t'. run_state (vmConsoleHandler mem_env demoDeployment openLib plainRequest token) runningTenant = (Bridged ''kite-user-ku-1'' ''web'' (), t')"
proof -
  have valid: "validUTF8 ''alice''" "validUTF8 ''kite-user-ku-1''" "validUTF8 ''web''" by (simp_all add: byteOf_def)
  have "ticket_Consume (consoleTickets demoDeployment) token [] ''web'' 0 = Inr ticket"
    by (simp add: console_ticket_accepted[OF valid issue] consoleTickets_sel nsPerSec_def)
  moreover have "token \<noteq> []" using issue by (auto simp: ticket_Issue_def Let_def split: if_splits sum.splits)
  moreover have "m_clock runningTenant = 0" by (simp add: runningTenant_def mem_init_def)
  moreover have "ct_Namespace ticket = ''kite-user-ku-1''" using ticket_Issue_fields[OF issue] by simp
  ultimately have consume: "run_state (consumeConsoleTicket mem_env demoDeployment plainRequest token) runningTenant = (Inr ''kite-user-ku-1'', runningTenant)"
    by (simp add: consumeConsoleTicket_def plainRequest_def)
  let ?get = "run_state (VM_Get mem_env ''kite-user-ku-1'' ''web'') runningTenant"
  have "\<not> isl (fst ?get)" by code_simp
  note get = run_right[OF this]
  have vm: "vmConsoleAllowed (vm_phase (projr (fst ?get))) (vm_delete (projr (fst ?get)))" by code_simp
  have name: "rq_name plainRequest = ''web''" by (simp add: plainRequest_def)
  have "run_state (VM_Get mem_env ''kite-user-ku-1'' ''web'' \<bind> k) runningTenant = run_state (k (Inr (projr (fst ?get)))) (snd ?get)"
    for k :: "VirtualMachine result \<Rightarrow> (mem, unit consoleOutcome) state"
    by (subst run_state_bind, subst get) simp
  with consume vm show ?thesis
    by (simp add: vmConsoleHandler_def openLib_def openConsole_def name ok_def)
qed

theorem console_own_vm_witness:
  "\<exists>rep token expires t' claims x. rp_body rep = ConsoleTicketBody token expires \<and>
     fst (run_state (RegisterVirtualMachines mem_env demoDeployment (withToken plainRequest) PostConsoleTicket) runningTenant) = rep \<and>
     run_state (vmConsoleHandler mem_env demoDeployment openLib plainRequest token) runningTenant = (Bridged ''kite-user-ku-1'' ''web'' (), t') \<and>
     signedIn mem_env demoDeployment (withToken plainRequest) runningTenant (mem_view runningTenant) claims x \<and> namespaceOf x = ''kite-user-ku-1''"
proof -
  obtain rep s' token expires ticket where
      run: "run_state (RegisterVirtualMachines mem_env demoDeployment (withToken plainRequest) PostConsoleTicket) runningTenant = (rep, s')"
    and body: "rp_body rep = ConsoleTicketBody token expires"
    and issue: "ticket_Issue (consoleTickets demoDeployment) ''alice'' ''kite-user-ku-1'' ''web'' 0 = Inr (token, ticket)"
    using running_ticket by blast
  obtain t' where opened: "run_state (vmConsoleHandler mem_env demoDeployment openLib plainRequest token) runningTenant = (Bridged ''kite-user-ku-1'' ''web'' (), t')"
    using running_console[OF issue] by blast
  have "\<forall>(k, x) \<in> set (m_objs runningTenant). validUTF8 (usernameOf x) \<and> validUTF8 (namespaceOf x) \<and> validUTF8 (snd (snd k))" by code_simp
  then have "textsValid (mem_view runningTenant)"
    by (auto simp: textsValid_def mem_view_def usernameOf_def specOf_def objField_def split: if_splits dest!: map_of_SomeD)
  from console_own_vm[OF mem_kube_api, OF this run body opened] run body opened show ?thesis by fastforce
qed

text \<open>
  The relay of a console loses nothing, invents nothing and keeps the order: while both peers are up, it ends when the source has no more
  frames, and by then the target has taken exactly the text and binary frames of the source, with the frame type the direction asks for.
\<close>

theorem console_relay:
  assumes "console_peers ctx d pending sent"
  shows "\<exists>e s'. copyConsoleMessages ctx d s = Some (e, s') \<and> pending s' = [] \<and>
    sent s' = sent s @ relayed (cd_targetMessageType d) (pending s)"
  using console_peers.copies[OF assms] .

theorem console_relay_witness:
  "\<exists>e s'. copyConsoleMessages tapeCtx (tapeDirection kubeVirtInputMessageType)
       \<lparr>tp_in = [(1, ''ls''), (9, ''ping''), (2, ''pwd'')], tp_out = []\<rparr> = Some (e, s') \<and>
     tp_in s' = [] \<and> tp_out s' = [(2, ''ls''), (2, ''pwd'')]"
  using console_relay[OF tapePeers.console_peers_axioms, of kubeVirtInputMessageType "\<lparr>tp_in = [(1, ''ls''), (9, ''ping''), (2, ''pwd'')], tp_out = []\<rparr>"]
  by (simp add: relayed_def TextMessage_def BinaryMessage_def tapeDirection_def kubeVirtInputMessageType_def)

end
