(* ===== verification/Spec2Isabelle.thy ===== *)
theory Spec2Isabelle
  imports System Gateway_Server Console
begin

text \<open>
  A verification library for the Kite control plane, the Go programs under \<open>kite/\<close> that offer virtual
  machines to the users of a Kubernetes cluster.

  \<^bold>\<open>The program.\<close>  All state lives in Kubernetes objects.  \<open>kite-api\<close> serves the HTTP API: users sign up and sign
  in, create and power virtual machines, claim offers and open consoles; administrators manage users and the
  platform settings.  It writes the custom resources KiteUser, KiteVirtualMachine and KiteVirtualMachineOffer.
  \<open>kite-controller\<close> watches these and the objects derived from them, and turns each KiteUser into a namespace with
  network policies, and each KiteVirtualMachine into a disk, a KubeVirt machine, Services, Secrets and an Ingress;
  it mirrors their progress into the status of the resource, sweeps expired offers, and publishes the platform
  and the SSH gateway.  \<open>kite-gateway\<close> accepts SSH connections, checks the password stored with the VM and
  connects the client to the VM.

  \<^bold>\<open>How it is modelled.\<close>  A Go function that talks to the cluster is a term of the state monad returning an error or a
  value (\<open>Kite_Prelude\<close>: \<open>result\<close>, \<open>tryE\<close>, \<open>forE\<close>, and the predicate transformer \<open>wp\<close> in which contracts are
  stated).  Errors are values with the wrapping and the texts of the source.  Objects are the records \<open>kobj\<close>, with
  the nested maps of \<open>unstructured.Unstructured\<close>; strings are byte lists; bounded integers are ints with the range
  check or the wrap-around of the source written out.  Everything outside the repository is a parameter: the record
  \<open>env\<close> holds the dynamic Kubernetes client, clock, random source, bcrypt, RSA, quantities and Unicode tables;
  \<open>converters\<close> the object converter and the template engine; \<open>sshlib\<close>, \<open>consoleLib\<close>, \<open>netlib\<close> the SSH, WebSocket and
  URL libraries; \<open>jsonPatch\<close> the JSON Patch call.  What the code relies on of them is stated in locales: \<open>kube_api\<close>
  (every read and write of the client, including failures whose effect is unknown), extended by \<open>secret_api\<close> and
  \<open>patch_api\<close>; \<open>gateway_clock\<close> and \<open>console_peers\<close>.  Each is interpreted on an executable instance, \<open>mem_env\<close>, \<open>memSSH\<close>
  and \<open>tape\<close>, an in-memory server with injectable faults; the witnesses run the code against it.

  \<^bold>\<open>Theories and sources.\<close>  Paths are relative to \<open>kite/\<close>.
  \<^item> \<open>Kite_Prelude\<close>, \<open>Kube\<close>, \<open>Kube_Reference\<close>: the calculus, the client contract, the reference server.
  \<^item> \<open>Go_Encoding\<close>, \<open>Go_Time\<close>, \<open>Go_JSON\<close>: what the sources use of \<open>strconv\<close>, \<open>encoding\<close>, \<open>crypto/sha256\<close>, \<open>crypto/hmac\<close>,
    \<open>time\<close> and \<open>encoding/json\<close>, with the round trips of the encoders.
  \<^item> \<open>Store\<close>: \<open>internal/store\<close>; \<open>Auth\<close>: \<open>internal/auth/password.go\<close>, \<open>internal/guestlogin\<close>; \<open>Token\<close>: \<open>internal/auth/jwt.go\<close>.
  \<^item> \<open>VM_Service\<close>, \<open>Account_Service\<close>, \<open>Offer_Service\<close>: \<open>internal/vm\<close>, \<open>internal/account\<close>, \<open>internal/offer\<close> and
    \<open>cmd/kite-controller/apps/vm-offer-cleanup.go\<close>.
  \<^item> \<open>Controller_Base\<close>, \<open>Machine_Status\<close>, \<open>Machine_Cleanup\<close>, \<open>Machine_Resources\<close>, \<open>Machine_Reconcile\<close>: \<open>machine-reconcile.go\<close>,
    \<open>kubevirt-status-reconcile.go\<close>, \<open>data-volume-reconcile.go\<close>, \<open>vm-service-reconcile.go\<close> of \<open>cmd/kite-controller/apps\<close>,
    \<open>internal/sshkey\<close> and the renderers under \<open>internal/render\<close>; \<open>Machine_Properties\<close> what a pass does.
  \<^item> \<open>User_Reconcile\<close>, \<open>User_Properties\<close>: \<open>user-reconcile.go\<close>, \<open>namespace-reconcile.go\<close>, \<open>user-base-resource-reconcile.go\<close>.
  \<^item> \<open>Runtime_Config\<close>, \<open>Platform\<close>: \<open>internal/config\<close>, \<open>internal/platform\<close>.
  \<^item> \<open>Platform_Ingress\<close>, \<open>Gateway_Exposure\<close>: \<open>platform-ingress-reconcile.go\<close>, \<open>gateway-exposure-reconcile.go\<close>.
  \<^item> \<open>Console_Ticket\<close>, \<open>Api\<close>, \<open>Console\<close>: the handlers and route tables of \<open>cmd/kite-api/apis\<close>; \<open>Api_Properties\<close>, \<open>Api_Access\<close>,
    \<open>Api_Levels\<close> what the routes guarantee.
  \<^item> \<open>Api_Server\<close>: \<open>cmd/kite-api/main.go\<close> and \<open>internal/health\<close>; \<open>System\<close>: the processes together with
    \<open>cmd/kite-controller/main.go\<close>.
  \<^item> \<open>Gateway_Routes\<close>, \<open>Gateway_Server\<close>: \<open>internal/gateway\<close> and \<open>cmd/kite-gateway/main.go\<close>.

  Every operation is one definition with the name of the Go function, with a prefix where two packages share a
  name; loops and closures inside a function have a definition of their own.

  \<^bold>\<open>What is shown.\<close>
  \<^item> \<open>System\<close>: over any sequence of API requests, controller events, restarts and foreign changes, user names, e-mail
    addresses, SSH ids and domain prefixes stay unique and access levels in range.  The step relation runs one
    handler at a time; \<open>create_race\<close> shows that two interleaved creations do break uniqueness.
  \<^item> API: protected routes act only for a signed-in user of sufficient level, VM routes only in that user's
    namespace and within the limits of the level; levels change only as the rules for managers and administrators
    allow; requests of foreign origins change nothing; a console opens only the VM its ticket was issued for.
  \<^item> Services: exact acceptance of requests, effect and roll-back of creation, sign-up and deletion order, sound
    authentication, claims that succeed at most once, tokens and tickets that verify exactly when issued and fresh.
  \<^item> Controllers: the footprint of a pass, children deleted only by their owner and before the owner is released,
    status updates that are idempotent and keep the runtime state, namespaces deleted only when orphaned, an Ingress
    and a gateway Service that follow the settings.
  \<^item> Gateway: the route table refines a lookup in the set of live VMs, logins are sound, a created VM can be logged
    into, and a connection handler comes to an end and connects to a VM that comes up in time.

  \<^bold>\<open>Recursion and bounds.\<close>  Recursion follows the data, except that the JSON parser counts steps, the length of the input
  being enough because each step consumes a byte; that
  \<open>RetryOnConflict\<close> is a parameter with a contract, five attempts in the reference server; and that the dial loop of the gateway and the
  relay of the console, which the source does not bound, are partial functions whose return is a theorem.

  \<^bold>\<open>Not modelled.\<close>  Starting informers and listeners, building client-go clients and discovering optional APIs, which
  only call libraries; logging and the guards against nil clients that the start-up excludes; the text of the YAML
  templates, since the template engine is a parameter (which template gets which values is modelled); copying bytes
  between SSH channels and rejecting them, and the dial to KubeVirt, which are I/O; the gRPC server, which nothing
  starts; the TypeScript frontend and the installation scripts.  Two handlers interleave only at their boundaries,
  except in \<open>create_race\<close>, \<open>Claim_race\<close> and the gateway, whose route table may change under a connection.
\<close>

end
